(* ===== verification/Prelude.thy ===== *)
theory Prelude
  imports Main "HOL-Library.Word" "HOL-Library.Char_ord" "HOL-Library.List_Lexorder"
    "HOL-Library.Product_Lexorder"
begin

text \<open>
  Shared vocabulary of the development: the names of the machine types, the arithmetic of the
  Rust integer types (saturating operations, rounding division, big-endian bytes), errors as
  values, and the list and word lemmas the component theories use.

  Unsigned integers are words of their width. The saturating methods clamp at the largest value
  of the type; the plain operators \<open>+\<close>, \<open>-\<close>, \<open>*\<close> wrap around, which is what a release build
  of the crate does (the manifests set no overflow checks).
\<close>

unbundle bit_operations_syntax

section \<open>Collections and type names\<close>

named_theorems unat_simps \<open>the value, as a natural number, of the integer operations\<close>
named_theorems frame_simps \<open>fields and keys an operation leaves alone\<close>

type_synonym u8 = "8 word"
type_synonym u16 = "16 word"
type_synonym u32 = "32 word"
type_synonym u64 = "64 word"
type_synonym u128 = "128 word"

type_synonym bytes = "u8 list"

text \<open>
  A Rust \<^verbatim>\<open>String\<close> is its UTF-8 byte sequence: \<^typ>\<open>string\<close> is a list of 8-bit characters, so
  \<^verbatim>\<open>len\<close>, equality and the order used by the ordered collections agree.
\<close>

definition as_bytes :: "string \<Rightarrow> bytes" where
  "as_bytes s = map (\<lambda>c. of_nat (of_char c)) s"

section \<open>Errors as values\<close>

text \<open>
  \<open>Msg\<close> is an \<^verbatim>\<open>Err\<close> carrying the source's message, \<open>Io\<close> an \<^verbatim>\<open>io::Error\<close> with its kind, and
  \<open>Panic\<close> a call that unwinds. An operation on \<^verbatim>\<open>&mut self\<close> returns the result paired with the
  state it leaves behind, because an early return can leave a changed state.
\<close>

datatype io_kind = InvalidData | InvalidInput | NotFound | StorageFull | PermissionDenied | OtherIo

datatype rust_error = Msg string | Io io_kind string | Panic string

type_synonym 'a result = "rust_error + 'a"

abbreviation Ok :: "'a \<Rightarrow> 'a result" where
  "Ok \<equiv> Inr"

abbreviation Err :: "string \<Rightarrow> 'a result" where
  "Err m \<equiv> Inl (Msg m)"

definition is_ok :: "'a result \<Rightarrow> bool" where
  "is_ok r = (case r of Inl _ \<Rightarrow> False | Inr _ \<Rightarrow> True)"

lemma is_ok_simps [simp]: "is_ok (Inr v)" "\<not> is_ok (Inl e)"
  by (simp_all add: is_ok_def)

lemma is_ok_iff: "is_ok r \<longleftrightarrow> (\<exists>v. r = Inr v)"
  by (cases r) auto

section \<open>Saturating and rounding arithmetic\<close>

definition sat_add :: "'a::len word \<Rightarrow> 'a word \<Rightarrow> 'a word" where
  "sat_add a b = (if unat a + unat b < 2 ^ LENGTH('a) then a + b else - 1)"

definition sat_sub :: "'a::len word \<Rightarrow> 'a word \<Rightarrow> 'a word" where
  "sat_sub a b = (if a < b then 0 else a - b)"

definition sat_mul :: "'a::len word \<Rightarrow> 'a word \<Rightarrow> 'a word" where
  "sat_mul a b = (if unat a * unat b < 2 ^ LENGTH('a) then a * b else - 1)"

definition div_ceil :: "'a::len word \<Rightarrow> 'a word \<Rightarrow> 'a word" where
  "div_ceil a b = (let d = a div b; r = a mod b in if r > 0 then d + 1 else d)"

lemma unat_max_word: "unat (- 1 :: 'a::len word) = 2 ^ LENGTH('a) - 1"
  by (simp add: unsigned_minus_1_eq_mask mask_eq_exp_minus_1)

lemma unat_sat_add [unat_simps]:
  "unat (sat_add a b) = min (unat a + unat b) (2 ^ LENGTH('a) - 1)" for a b :: "'a::len word"
proof (cases "unat a + unat b < 2 ^ LENGTH('a)")
  case True
  then show ?thesis
    by (simp add: sat_add_def unat_word_ariths)
next
  case False
  then show ?thesis
    by (simp add: sat_add_def unat_max_word)
qed

lemma unat_sat_sub [unat_simps]: "unat (sat_sub a b) = unat a - unat b"
  by (auto simp: sat_sub_def unat_sub word_less_nat_alt not_less word_le_nat_alt)

lemma unat_sat_mul [unat_simps]:
  "unat (sat_mul a b) = min (unat a * unat b) (2 ^ LENGTH('a) - 1)" for a b :: "'a::len word"
proof (cases "unat a * unat b < 2 ^ LENGTH('a)")
  case True
  then show ?thesis
    by (simp add: sat_mul_def unat_word_ariths)
next
  case False
  then show ?thesis
    by (simp add: sat_mul_def unat_max_word)
qed

lemma unat_less_pow: "unat (a :: 'a::len word) < 2 ^ LENGTH('a)"
  by (rule unsigned_less)

lemma sat_add_le_sum: "unat (sat_add a b) \<le> unat a + unat b"
  by (simp add: unat_simps)

lemma sat_add_mono: "unat a \<le> unat (sat_add a b)"
  using unat_less_pow [of a] unfolding unat_sat_add by linarith

lemma sat_add_exact:
  fixes a b :: "'a::len word"
  assumes "unat a + unat b < 2 ^ LENGTH('a)"
  shows "unat (sat_add a b) = unat a + unat b"
  using assms by (simp add: unat_simps)

lemma unat_inc:
  fixes a :: "'a::len word"
  assumes "unat a + 1 < 2 ^ LENGTH('a)"
  shows "unat (a + 1) = unat a + 1"
  using assms by (metis sat_add_def sat_add_exact unat_1)

lemma unat_not_max:
  fixes a :: "'a::len word"
  assumes "a \<noteq> - 1"
  shows "unat a + 1 < 2 ^ LENGTH('a)"
proof -
  have "unat a \<noteq> 2 ^ LENGTH('a) - 1"
    using assms by (metis unat_max_word word_unat_eq_iff)
  then show ?thesis
    using unat_less_pow [of a] by linarith
qed

lemma unat_min: "unat (min a b :: 'a::len word) = min (unat a) (unat b)"
  by (simp add: min_def word_le_nat_alt)

lemma unat_max: "unat (max a b :: 'a::len word) = max (unat a) (unat b)"
  by (simp add: max_def word_le_nat_alt)

lemma unat_minus:
  fixes a b :: "'a::len word"
  assumes "b \<le> a"
  shows "unat (a - b) = unat a - unat b"
  using assms by (rule unat_sub)

lemma unat_of_nat_small:
  assumes "n < 2 ^ LENGTH('a)"
  shows "unat (of_nat n :: 'a::len word) = n"
  using assms by (simp add: unat_of_nat)

lemma unat_ucast_up:
  fixes x :: "'a::len word"
  assumes "LENGTH('a) \<le> LENGTH('b)"
  shows "unat (ucast x :: 'b::len word) = unat x"
proof -
  have "unat x < 2 ^ LENGTH('b)"
    using unat_less_pow [of x] assms by (meson less_le_trans one_le_numeral power_increasing)
  then show ?thesis
    by (simp add: unsigned_ucast_eq take_bit_nat_eq_self)
qed

lemma u64_of_nat_inject:
  assumes "a < 2 ^ 64" "b < 2 ^ 64"
  shows "(of_nat a :: u64) = of_nat b \<longleftrightarrow> a = b"
proof -
  have "unat (of_nat a :: u64) = a" "unat (of_nat b :: u64) = b"
    using assms by (simp_all add: unat_of_nat)
  then show ?thesis by metis
qed

lemma unat_div_ceil:
  fixes a b :: "'a::len word"
  assumes "0 < unat b"
  shows "unat (div_ceil a b) = (unat a + unat b - 1) div unat b"
proof -
  define x y where "x = unat a" and "y = unat b"
  have y: "0 < y" and b: "unat (a div b) = x div y" "unat (a mod b) = x mod y"
    using assms by (simp_all add: x_def y_def unat_div unat_mod)
  have eq: "(x + y - 1) div y = (if x mod y = 0 then x div y else x div y + 1)"
  proof -
    have "x + y - 1 = y * (x div y) + (x mod y + (y - 1))"
      using y by (simp add: mult.commute)
    then have "(x + y - 1) div y = x div y + (x mod y + (y - 1)) div y"
      using y by (metis div_mult_self2 neq0_conv add.commute)
    moreover have "(x mod y + (y - 1)) div y = (if x mod y = 0 then 0 else 1)"
      using y mod_less_divisor [OF y, of x]
      by (auto simp: div_nat_eqI div_eq_0_iff not_less)
    ultimately show ?thesis by simp
  qed
  show ?thesis
  proof (cases "x mod y = 0")
    case True
    then have "a mod b = 0"
      using b(2) by (simp add: unat_eq_zero)
    then show ?thesis
      using True eq b by (simp add: div_ceil_def x_def y_def)
  next
    case False
    then have nz: "a mod b > 0"
      using b(2) by (metis unat_0 word_gt_0)
    have "x div y \<noteq> x"
    proof
      assume "x div y = x"
      then have "y = 1 \<or> x = 0"
        using y by (metis div_less_dividend gr0I less_irrefl less_one nat_neq_iff)
      then show False
        using False by auto
    qed
    then have "x div y + 1 \<le> x"
      by (simp add: Suc_leI le_neq_implies_less)
    then have "unat (a div b) + 1 < 2 ^ LENGTH('a)"
      using b(1) unat_less_pow [of a] unfolding x_def by linarith
    then show ?thesis
      using nz False eq b by (simp add: div_ceil_def unat_inc x_def y_def)
  qed
qed

section \<open>Big-endian bytes\<close>

primrec be_bytes :: "nat \<Rightarrow> nat \<Rightarrow> bytes" where
  "be_bytes 0 v = []"
| "be_bytes (Suc n) v = be_bytes n (v div 256) @ [of_nat v]"

definition from_be :: "bytes \<Rightarrow> nat" where
  "from_be bs = foldl (\<lambda>acc b. acc * 256 + unat b) 0 bs"

definition to_be_bytes_u16 :: "u16 \<Rightarrow> bytes" where
  "to_be_bytes_u16 x = be_bytes 2 (unat x)"

definition to_be_bytes_u64 :: "u64 \<Rightarrow> bytes" where
  "to_be_bytes_u64 x = be_bytes 8 (unat x)"

definition from_be_bytes_u16 :: "bytes \<Rightarrow> u16" where
  "from_be_bytes_u16 bs = of_nat (from_be bs)"

definition from_be_bytes_u64 :: "bytes \<Rightarrow> u64" where
  "from_be_bytes_u64 bs = of_nat (from_be bs)"

lemma length_be_bytes [simp]: "length (be_bytes n v) = n"
  by (induction n arbitrary: v) simp_all

lemma from_be_snoc [simp]: "from_be (bs @ [b]) = from_be bs * 256 + unat b"
  by (simp add: from_be_def)

lemma from_be_Nil [simp]: "from_be [] = 0"
  by (simp add: from_be_def)

lemma from_be_be_bytes: "from_be (be_bytes n v) = v mod 256 ^ n"
proof (induction n arbitrary: v)
  case 0
  then show ?case by simp
next
  case (Suc n)
  have "v mod 256 ^ Suc n = (v div 256 mod 256 ^ n) * 256 + v mod 256"
    by (simp add: mod_mult2_eq)
  then show ?case
    by (simp add: Suc.IH unat_of_nat)
qed

lemma from_be_less: "from_be bs < 256 ^ length bs"
proof (induction bs rule: rev_induct)
  case Nil
  then show ?case by simp
next
  case (snoc b bs)
  have "unat b < 256"
    using unat_less_pow [of b] by simp
  with snoc.IH have "from_be bs * 256 + unat b < 256 ^ length bs * 256"
    by linarith
  then show ?case by simp
qed

lemma be_bytes_from_be: "be_bytes (length bs) (from_be bs) = bs"
proof (induction bs rule: rev_induct)
  case Nil
  then show ?case by simp
next
  case (snoc b bs)
  have b: "unat b < 256"
    using unat_less_pow [of b] by simp
  have "unat (of_nat (from_be bs * 256 + unat b) :: u8) = unat b"
    using b by (simp only: unat_of_nat) (simp add: mod_mult_self3)
  then have "of_nat (from_be bs * 256 + unat b) = b"
    by (rule word_unat_eq_iff [THEN iffD2])
  then show ?case
    using b snoc.IH by simp
qed

lemma length_to_be_u64 [simp]: "length (to_be_bytes_u64 x) = 8"
  by (simp add: to_be_bytes_u64_def)

lemma length_to_be_u16 [simp]: "length (to_be_bytes_u16 x) = 2"
  by (simp add: to_be_bytes_u16_def)

lemma from_be_to_be_u64 [simp]: "from_be_bytes_u64 (to_be_bytes_u64 x) = x"
proof -
  have "unat x < 256 ^ 8"
    using unat_less_pow [of x] by simp
  then show ?thesis
    by (simp add: from_be_bytes_u64_def to_be_bytes_u64_def from_be_be_bytes)
qed

lemma from_be_to_be_u16 [simp]: "from_be_bytes_u16 (to_be_bytes_u16 x) = x"
proof -
  have "unat x < 256 ^ 2"
    using unat_less_pow [of x] by simp
  then show ?thesis
    by (simp add: from_be_bytes_u16_def to_be_bytes_u16_def from_be_be_bytes)
qed

lemma to_be_from_be_u64:
  assumes "length bs = 8"
  shows "to_be_bytes_u64 (from_be_bytes_u64 bs) = bs"
proof -
  have "from_be bs < 2 ^ 64"
    using from_be_less [of bs] assms by simp
  then show ?thesis
    using be_bytes_from_be [of bs] assms
    by (simp add: to_be_bytes_u64_def from_be_bytes_u64_def unat_of_nat)
qed

lemma to_be_from_be_u16:
  assumes "length bs = 2"
  shows "to_be_bytes_u16 (from_be_bytes_u16 bs) = bs"
proof -
  have "from_be bs < 2 ^ 16"
    using from_be_less [of bs] assms by simp
  then show ?thesis
    using be_bytes_from_be [of bs] assms
    by (simp add: to_be_bytes_u16_def from_be_bytes_u16_def unat_of_nat)
qed

lemma to_be_u64_inject [simp]: "to_be_bytes_u64 x = to_be_bytes_u64 y \<longleftrightarrow> x = y"
  by (metis from_be_to_be_u64)

section \<open>Strings as bytes\<close>

definition from_bytes :: "bytes \<Rightarrow> string" where
  "from_bytes bs = map (\<lambda>b. char_of (unat b)) bs"

lemma unat_of_char: "unat (of_nat (of_char c) :: u8) = of_char c"
proof -
  have "of_char c < (256 :: nat)"
    by (rule nat_of_char_less_256)
  then show ?thesis
    by (simp add: unat_of_nat)
qed

lemma from_bytes_as_bytes [simp]: "from_bytes (as_bytes s) = s"
  by (induction s) (simp_all add: from_bytes_def as_bytes_def unat_of_char)

lemma as_bytes_inject [simp]: "as_bytes s = as_bytes t \<longleftrightarrow> s = t"
  by (metis from_bytes_as_bytes)

lemma length_as_bytes [simp]: "length (as_bytes s) = length s"
  by (simp add: as_bytes_def)

lemma as_bytes_from_bytes [simp]: "as_bytes (from_bytes bs) = bs"
proof -
  have "of_nat (of_char (char_of (unat b) :: char)) = b" for b :: u8
    using unat_less_pow [of b] by simp
  then show ?thesis
    by (simp add: from_bytes_def as_bytes_def map_idI)
qed

section \<open>Lists\<close>

lemma sum_list_map_update:
  fixes f :: "'a \<Rightarrow> nat"
  assumes "i < length xs"
  shows "sum_list (map f (xs[i := v])) + f (xs ! i) = sum_list (map f xs) + f v"
  using assms
proof (induction xs arbitrary: i)
  case Nil
  then show ?case by simp
next
  case (Cons x xs)
  then show ?case
    by (cases i) auto
qed

lemma find_sorted_min:
  assumes "sorted (map f xs)" "List.find Q xs = Some x" "y \<in> set xs" "Q y"
  shows "f x \<le> f y"
  using assms by (induction xs) (auto split: if_splits)

lemma remdups_adj_distinct_sorted: "sorted xs \<Longrightarrow> distinct (remdups_adj xs)"
  by (induction xs rule: remdups_adj.induct) (auto simp: order_antisym)

end
