(* ===== verification/Ordered_Map.thy ===== *)
theory Ordered_Map
  imports Prelude
begin

text \<open>
  The standard library's ordered collections. A \<^verbatim>\<open>BTreeMap\<close> is the list of its entries in strictly
  increasing key order: iteration, \<^verbatim>\<open>len\<close>, \<^verbatim>\<open>keys\<close> and \<^verbatim>\<open>values\<close> are then the list operations, and
  \<^verbatim>\<open>min_by_key\<close> returns the first of several equal minima in that order, as the iterator does.
  The locale \<open>ordered_map\<close> is the contract the components rely on; \<open>bt\<close> interprets it.
  A \<^verbatim>\<open>HashMap\<close> whose iteration order is never observed uses the same representation.
\<close>

type_synonym ('k, 'v) btree_map = "('k \<times> 'v) list"

fun bt_insert :: "'k::linorder \<Rightarrow> 'v \<Rightarrow> ('k, 'v) btree_map \<Rightarrow> ('k, 'v) btree_map" where
  "bt_insert k v [] = [(k, v)]"
| "bt_insert k v (e # m) =
     (if k = fst e then (k, v) # m
      else if k < fst e then (k, v) # e # m
      else e # bt_insert k v m)"

fun bt_remove :: "'k::linorder \<Rightarrow> ('k, 'v) btree_map \<Rightarrow> ('k, 'v) btree_map" where
  "bt_remove k [] = []"
| "bt_remove k (e # m) = (if fst e = k then m else e # bt_remove k m)"

definition bt_get :: "('k, 'v) btree_map \<Rightarrow> 'k \<Rightarrow> 'v option" where
  "bt_get m k = map_of m k"

definition bt_contains :: "('k, 'v) btree_map \<Rightarrow> 'k \<Rightarrow> bool" where
  "bt_contains m k = (bt_get m k \<noteq> None)"

text \<open>\<^verbatim>\<open>entry(k).or_insert(v)\<close>: keep the value that is there.\<close>

definition bt_or_insert :: "'k::linorder \<Rightarrow> 'v \<Rightarrow> ('k, 'v) btree_map \<Rightarrow> ('k, 'v) btree_map" where
  "bt_or_insert k v m = (if bt_contains m k then m else bt_insert k v m)"

text \<open>\<^verbatim>\<open>get(k).copied().unwrap_or(d)\<close>.\<close>

definition bt_get_or :: "('k, 'v) btree_map \<Rightarrow> 'k \<Rightarrow> 'v \<Rightarrow> 'v" where
  "bt_get_or m k d = (case bt_get m k of None \<Rightarrow> d | Some v \<Rightarrow> v)"

definition bt_inv :: "('k::linorder, 'v) btree_map \<Rightarrow> bool" where
  "bt_inv m = sorted_wrt (<) (map fst m)"

definition bt_of_list :: "('k::linorder \<times> 'v) list \<Rightarrow> ('k, 'v) btree_map" where
  "bt_of_list es = fold (\<lambda>(k, v) m. bt_insert k v m) es []"

section \<open>The contract\<close>

locale ordered_map =
  fixes get :: "'m \<Rightarrow> 'k \<Rightarrow> 'v option"
    and insert :: "'k \<Rightarrow> 'v \<Rightarrow> 'm \<Rightarrow> 'm"
    and remove :: "'k \<Rightarrow> 'm \<Rightarrow> 'm"
    and len :: "'m \<Rightarrow> nat"
    and inv :: "'m \<Rightarrow> bool"
  assumes get_insert: "get (insert k v m) j = (if j = k then Some v else get m j)"
    and get_remove: "inv m \<Longrightarrow> get (remove k m) j = (if j = k then None else get m j)"
    and inv_insert: "inv m \<Longrightarrow> inv (insert k v m)"
    and inv_remove: "inv m \<Longrightarrow> inv (remove k m)"
    and len_dom: "inv m \<Longrightarrow> len m = card (dom (get m))"
    and finite_dom: "finite (dom (get m))"
begin

lemma len_insert:
  assumes "inv m"
  shows "len (insert k v m) = (if get m k = None then len m + 1 else len m)"
proof -
  have dom: "dom (get (insert k v m)) = Set.insert k (dom (get m))"
    by (auto simp: get_insert split: if_splits)
  show ?thesis
  proof (cases "get m k = None")
    case True
    then have "k \<notin> dom (get m)" by auto
    then show ?thesis
      using assms True finite_dom [of m] by (simp add: len_dom inv_insert dom)
  next
    case False
    then have "Set.insert k (dom (get m)) = dom (get m)"
      by auto
    then show ?thesis
      using assms False by (simp add: len_dom inv_insert dom)
  qed
qed

lemma len_remove:
  assumes "inv m" and "get m k \<noteq> None"
  shows "len (remove k m) = len m - 1"
proof -
  have "dom (get (remove k m)) = dom (get m) - {k}"
    using assms by (auto simp: get_remove split: if_splits)
  moreover have "k \<in> dom (get m)" using assms by auto
  ultimately show ?thesis
    using assms finite_dom [of m] by (simp add: len_dom inv_remove)
qed

lemma len_pos: "inv m \<Longrightarrow> get m k \<noteq> None \<Longrightarrow> 0 < len m"
  using finite_dom [of m] by (auto simp: len_dom card_gt_0_iff)

lemma len_le_insert: "inv m \<Longrightarrow> len m \<le> len (insert k v m)"
  by (simp add: len_insert)

text \<open>Making room by removing a present key before inserting a new one keeps the bound.\<close>

lemma len_evict_insert:
  assumes "inv m" "get m old \<noteq> None" "len m \<le> bound"
  shows "len (insert k v (remove old m)) \<le> bound"
  using assms len_pos [of m old]
  by (auto simp: len_insert len_remove inv_remove)

end

section \<open>The sorted list satisfies the contract\<close>

lemma bt_inv_Nil [simp]: "bt_inv []"
  by (simp add: bt_inv_def)

lemma bt_inv_Cons: "bt_inv (e # m) \<longleftrightarrow> (\<forall>k \<in> set (map fst m). fst e < k) \<and> bt_inv m"
  by (simp add: bt_inv_def)

lemma bt_keys_insert: "set (map fst (bt_insert k v m)) = insert k (set (map fst m))"
  by (induction k v m rule: bt_insert.induct) auto

lemma bt_get_insert [simp]: "bt_get (bt_insert k v m) j = (if j = k then Some v else bt_get m j)"
  by (induction k v m rule: bt_insert.induct) (auto simp: bt_get_def)

lemma bt_inv_insert [simp, intro]: "bt_inv m \<Longrightarrow> bt_inv (bt_insert k v m)"
proof (induction k v m rule: bt_insert.induct)
  case (2 k v e m)
  then have "\<forall>j \<in> set (map fst (bt_insert k v m)). fst e < j" if "fst e < k"
    using that unfolding bt_keys_insert by (auto simp: bt_inv_Cons)
  with 2 show ?case
    by (auto simp: bt_inv_Cons not_less_iff_gr_or_eq)
qed (simp add: bt_inv_def)

lemma bt_get_notin: "k \<notin> set (map fst m) \<Longrightarrow> bt_get m k = None"
  by (simp add: bt_get_def map_of_eq_None_iff)

lemma bt_get_remove [simp]:
  "bt_inv m \<Longrightarrow> bt_get (bt_remove k m) j = (if j = k then None else bt_get m j)"
proof (induction k m rule: bt_remove.induct)
  case (2 k e m)
  then have IH: "bt_get (bt_remove k m) j = (if j = k then None else bt_get m j)" if "fst e \<noteq> k"
    using that by (simp add: bt_inv_Cons)
  have "bt_get m k = None" if "fst e = k"
    using 2(2) that by (intro bt_get_notin) (auto simp: bt_inv_Cons)
  with IH show ?case
    by (cases e) (auto simp: bt_get_def)
qed (simp add: bt_get_def)

lemma bt_keys_remove: "set (map fst (bt_remove k m)) \<subseteq> set (map fst m)"
  by (induction k m rule: bt_remove.induct) auto

lemma length_remove_le: "length (bt_remove k m) \<le> length m"
  by (induction k m rule: bt_remove.induct) auto

lemma bt_inv_remove [simp, intro]: "bt_inv m \<Longrightarrow> bt_inv (bt_remove k m)"
proof (induction k m rule: bt_remove.induct)
  case (2 k e m)
  then show ?case
    using bt_keys_remove [of k m] by (auto simp: bt_inv_Cons dest!: subsetD)
qed simp

lemma bt_distinct: "bt_inv m \<Longrightarrow> distinct (map fst m)"
  by (simp add: bt_inv_def strict_sorted_iff)

lemma bt_dom: "dom (bt_get m) = set (map fst m)"
  unfolding bt_get_def by (simp add: dom_map_of_conv_image_fst)

lemma bt_finite_dom [simp]: "finite (dom (bt_get m))"
  by (simp add: bt_dom)

lemma bt_card_dom_le: "card (dom (bt_get m)) \<le> length m"
  unfolding bt_dom by (metis card_length length_map)

lemma bt_len_card: "bt_inv m \<Longrightarrow> length m = card (dom (bt_get m))"
  unfolding bt_dom using bt_distinct [of m] by (metis distinct_card length_map)

interpretation bt: ordered_map bt_get bt_insert bt_remove length bt_inv
  by unfold_locales (simp_all add: bt_len_card bt_dom)

section \<open>Entries, defaults and values\<close>

lemma bt_contains_insert [simp]: "bt_contains (bt_insert k v m) j \<longleftrightarrow> j = k \<or> bt_contains m j"
  by (simp add: bt_contains_def)

lemma bt_get_or_insert_default [simp]:
  "bt_get (bt_or_insert k v m) j =
     (if j = k then Some (bt_get_or m k v) else bt_get m j)"
  by (auto simp: bt_or_insert_def bt_contains_def bt_get_or_def split: option.splits)

lemma bt_inv_or_insert [simp, intro]: "bt_inv m \<Longrightarrow> bt_inv (bt_or_insert k v m)"
  by (simp add: bt_or_insert_def)

lemma bt_contains_or_insert [simp]: "bt_contains (bt_or_insert k v m) j \<longleftrightarrow> j = k \<or> bt_contains m j"
  by (auto simp: bt_contains_def)

lemma bt_get_or_insert [simp]:
  "bt_get_or (bt_insert k v m) j d = (if j = k then v else bt_get_or m j d)"
  by (simp add: bt_get_or_def)

lemma bt_get_or_simps [simp]:
  "bt_get m j = Some w \<Longrightarrow> bt_get_or m j d = w"
  "bt_get m j = None \<Longrightarrow> bt_get_or m j d = d"
  by (simp_all add: bt_get_or_def)

lemma bt_inv_fold_insert: "bt_inv m \<Longrightarrow> bt_inv (fold (\<lambda>(k, v) m. bt_insert k v m) es m)"
  by (induction es arbitrary: m) auto

lemma bt_inv_of_list [simp]: "bt_inv (bt_of_list es)"
  by (simp add: bt_of_list_def bt_inv_fold_insert)

lemma bt_get_in: "bt_inv m \<Longrightarrow> bt_get m k = Some v \<longleftrightarrow> (k, v) \<in> set m"
  using bt_distinct [of m] by (simp add: bt_get_def)

text \<open>The sum of a measure of the values, and how an insertion changes it.\<close>

definition bt_sum :: "('v \<Rightarrow> nat) \<Rightarrow> ('k, 'v) btree_map \<Rightarrow> nat" where
  "bt_sum f m = sum_list (map (\<lambda>e. f (snd e)) m)"

lemma bt_sum_Nil [simp]: "bt_sum f [] = 0"
  by (simp add: bt_sum_def)

lemma bt_sum_insert:
  assumes "bt_inv m"
  shows "bt_sum f (bt_insert k v m) + (case bt_get m k of None \<Rightarrow> 0 | Some w \<Rightarrow> f w)
           = bt_sum f m + f v"
  using assms
proof (induction k v m rule: bt_insert.induct)
  case (1 k v)
  then show ?case by (simp add: bt_sum_def bt_get_def)
next
  case (2 k v e m)
  have IH: "bt_sum f (bt_insert k v m) + (case bt_get m k of None \<Rightarrow> 0 | Some w \<Rightarrow> f w)
             = bt_sum f m + f v" if "k \<noteq> fst e" "\<not> k < fst e"
    using 2 that by (simp add: bt_inv_Cons)
  have none: "bt_get m k = None" if "k < fst e"
    using 2(2) that by (intro bt_get_notin) (auto simp: bt_inv_Cons dest: less_asym)
  show ?case
    using IH none by (cases e) (auto simp: bt_sum_def bt_get_def)
qed

lemma bt_sum_insert_or:
  assumes "bt_inv m" "f d = 0"
  shows "bt_sum f (bt_insert k v m) + f (bt_get_or m k d) = bt_sum f m + f v"
  using bt_sum_insert [OF assms(1), of f k v] assms(2)
  by (cases "bt_get m k") simp_all

lemma bt_sum_or_insert:
  assumes "bt_inv m" "f d = 0"
  shows "bt_sum f (bt_or_insert k d m) = bt_sum f m"
  using bt_sum_insert [OF assms(1), of f k d] assms(2)
  by (cases "bt_get m k") (simp_all add: bt_or_insert_def bt_contains_def)

lemma bt_sum_ge: "bt_get m k = Some v \<Longrightarrow> f v \<le> bt_sum f m"
  by (induction m) (auto simp: bt_get_def bt_sum_def split: if_splits)

lemma bt_sum_ge_or: "f d = 0 \<Longrightarrow> f (bt_get_or m k d) \<le> bt_sum f m"
  using bt_sum_ge [of m k _ f] by (cases "bt_get m k") simp_all

section \<open>Minimum by key and bounded tables\<close>

fun min_by_key :: "('a \<Rightarrow> 'b::linorder) \<Rightarrow> 'a list \<Rightarrow> 'a option" where
  "min_by_key f [] = None"
| "min_by_key f (x # xs) =
     (case min_by_key f xs of None \<Rightarrow> Some x | Some y \<Rightarrow> Some (if f x \<le> f y then x else y))"

lemma min_by_key_None [simp]: "min_by_key f xs = None \<longleftrightarrow> xs = []"
  by (cases xs) (auto split: option.splits)

lemma min_by_key_mem: "min_by_key f xs = Some x \<Longrightarrow> x \<in> set xs"
  by (induction xs arbitrary: x) (auto split: option.splits if_splits)

lemma min_by_key_le: "min_by_key f xs = Some x \<Longrightarrow> y \<in> set xs \<Longrightarrow> f x \<le> f y"
proof (induction xs arbitrary: x y)
  case (Cons a xs)
  then show ?case
    by (cases "min_by_key f xs") (force split: if_splits)+
qed simp

text \<open>
  The idiom of every bounded table in the program: when a new key arrives and the table is full,
  drop the entry with the smallest rank.
\<close>

definition evict_min :: "('v \<Rightarrow> 'r::linorder) \<Rightarrow> nat \<Rightarrow> ('k::linorder, 'v) btree_map \<Rightarrow> ('k, 'v) btree_map" where
  "evict_min rank bound m =
     (if bound \<le> length m then
        (case min_by_key (\<lambda>e. rank (snd e)) m of None \<Rightarrow> m | Some e \<Rightarrow> bt_remove (fst e) m)
      else m)"

lemma bt_inv_evict [simp, intro]: "bt_inv m \<Longrightarrow> bt_inv (evict_min rank bound m)"
  by (simp add: evict_min_def split: option.splits)

lemma evict_min_get:
  assumes "bt_inv m" and "bt_get (evict_min rank bound m) k = Some v"
  shows "bt_get m k = Some v"
  using assms by (auto simp: evict_min_def split: option.splits if_splits)

lemma evict_insert_bound:
  assumes "bt_inv m" "length m \<le> bound" "0 < bound" "bt_get m k = None"
  shows "length (bt_insert k v (evict_min rank bound m)) \<le> bound"
proof (cases "bound \<le> length m")
  case True
  with assms obtain e where e: "min_by_key (\<lambda>e. rank (snd e)) m = Some e"
    by (cases "min_by_key (\<lambda>e. rank (snd e)) m") auto
  then have "bt_get m (fst e) \<noteq> None"
    using bt_get_in [OF assms(1)] min_by_key_mem [OF e] by (cases e) auto
  then show ?thesis
    using True e assms bt.len_evict_insert [of m "fst e" bound k v] by (simp add: evict_min_def)
next
  case False
  then show ?thesis
    using assms by (simp add: evict_min_def bt.len_insert)
qed

lemma evict_min_keeps:
  assumes "bt_inv m" "bt_get m k = Some v" "bt_get m j = Some w" "rank w < rank v"
  shows "bt_get (evict_min rank bound m) k = Some v"
proof (cases "min_by_key (\<lambda>e. rank (snd e)) m")
  case None
  then show ?thesis
    using assms by (simp add: evict_min_def)
next
  case (Some e)
  have "rank (snd e) \<le> rank w"
    using min_by_key_le [OF Some, of "(j, w)"] assms bt_get_in by fastforce
  moreover have "bt_get m (fst e) = Some (snd e)"
    using min_by_key_mem [OF Some] bt_get_in [OF assms(1)] by (cases e) auto
  ultimately have "fst e \<noteq> k"
    using assms by auto
  then show ?thesis
    using Some assms by (simp add: evict_min_def)
qed

end
