(* ===== verification/Crypto.thy ===== *)
theory Crypto
  imports Ordered_Map
begin

text \<open>
  \<^verbatim>\<open>core/src/crypto.rs\<close> and the external primitives. The functions of the third-party crates
  (\<^verbatim>\<open>sha2\<close>, \<^verbatim>\<open>blake3\<close>, \<^verbatim>\<open>hex\<close>, \<^verbatim>\<open>ed25519_dalek\<close>) are the fields of a record that every definition
  using them takes as an argument; what a theorem needs to know of them is a named hypothesis.
  The lemmas show that the domain-separated digest binds domain and data, and that
  \<^verbatim>\<open>constant_time_eq\<close> is equality.
\<close>

record prims =
  sha256 :: "bytes \<Rightarrow> bytes"
  blake3 :: "bytes \<Rightarrow> bytes"
  blake3_keyed :: "bytes \<Rightarrow> bytes \<Rightarrow> bytes"
  hex_encode :: "bytes \<Rightarrow> string"
  hex_decode :: "string \<Rightarrow> bytes option"
  ed_public :: "bytes \<Rightarrow> bytes"
  ed_sign :: "bytes \<Rightarrow> bytes \<Rightarrow> bytes"
  ed_key_ok :: "bytes \<Rightarrow> bool"
  ed_verify :: "bytes \<Rightarrow> bytes \<Rightarrow> bytes \<Rightarrow> bool"

text \<open>Documented behaviour of the \<^verbatim>\<open>hex\<close> crate: decoding inverts encoding.\<close>

definition hex_roundtrip :: "'a prims_scheme \<Rightarrow> bool" where
  "hex_roundtrip P \<longleftrightarrow> (\<forall>b. hex_decode P (hex_encode P b) = Some b)"

text \<open>Documented behaviour of Ed25519: a signature made with a key verifies under its public key,
  and public keys derived from a secret decode.\<close>

definition ed_correct :: "'a prims_scheme \<Rightarrow> bool" where
  "ed_correct P \<longleftrightarrow> (\<forall>s m. ed_key_ok P (ed_public P s) \<and> ed_verify P (ed_public P s) m (ed_sign P s m))"

lemma hex_inject: "hex_roundtrip P \<Longrightarrow> hex_encode P a = hex_encode P b \<longleftrightarrow> a = b"
  unfolding hex_roundtrip_def by (metis option.inject)

section \<open>Domain-separated digest\<close>

definition hash_input :: "bytes \<Rightarrow> bytes \<Rightarrow> bytes" where
  "hash_input domain data =
     to_be_bytes_u64 (of_nat (length domain)) @ domain @
     to_be_bytes_u64 (of_nat (length data)) @ data"

definition hash :: "'a prims_scheme \<Rightarrow> bytes \<Rightarrow> bytes \<Rightarrow> bytes" where
  "hash P domain data = sha256 P (hash_input domain data)"

section \<open>Constant-time comparison\<close>

definition constant_time_eq :: "bytes \<Rightarrow> bytes \<Rightarrow> bool" where
  "constant_time_eq a b =
     (if length a \<noteq> length b then False
      else foldl (\<lambda>v (x, y). v OR (x XOR y)) (0 :: u8) (zip a b) = 0)"

section \<open>Lemmas\<close>

lemma length_prefix_inject:
  assumes "length a < 2 ^ 64" "length b < 2 ^ 64"
    and "to_be_bytes_u64 (of_nat (length a)) @ a @ r = to_be_bytes_u64 (of_nat (length b)) @ b @ s"
  shows "a = b \<and> r = s"
proof -
  have "to_be_bytes_u64 (of_nat (length a)) = to_be_bytes_u64 (of_nat (length b))"
    and rest: "a @ r = b @ s"
    using assms(3) by (simp_all add: append_eq_append_conv)
  then have "length a = length b"
    using assms(1,2) by (metis to_be_u64_inject u64_of_nat_inject)
  with rest show ?thesis by simp
qed

lemma hash_input_inject:
  assumes "length d < 2 ^ 64" "length d' < 2 ^ 64" "length x < 2 ^ 64" "length x' < 2 ^ 64"
  shows "hash_input d x = hash_input d' x' \<longleftrightarrow> d = d' \<and> x = x'"
  using assms length_prefix_inject [of x x' "[]" "[]"]
    length_prefix_inject [of d d' "to_be_bytes_u64 (of_nat (length x)) @ x"
      "to_be_bytes_u64 (of_nat (length x')) @ x'"]
  by (auto simp: hash_input_def)

lemma or_xor_zero: "v OR (x XOR y) = 0 \<longleftrightarrow> v = 0 \<and> x = (y :: u8)"
proof -
  have "x XOR y = 0 \<longleftrightarrow> x = y"
    by (metis xor.assoc xor.right_neutral xor.left_neutral xor_self_eq)
  then show ?thesis
    by (simp add: or_eq_0_iff)
qed

lemma foldl_or_xor_zero:
  "length a = length b \<Longrightarrow>
     foldl (\<lambda>v (x, y). v OR (x XOR y)) (v :: u8) (zip a b) = 0 \<longleftrightarrow> v = 0 \<and> a = b"
proof (induction a b arbitrary: v rule: list_induct2)
  case (Cons x xs y ys)
  then show ?case
    by (simp add: or_xor_zero)
qed simp

text \<open>The constant-time comparison used for authentication tags decides equality of the two
  byte strings: equal lengths and no differing byte.\<close>

theorem constant_time_eq_iff: "constant_time_eq a b \<longleftrightarrow> a = b"
  by (auto simp: constant_time_eq_def foldl_or_xor_zero)

section \<open>A concrete instance of the primitives\<close>

text \<open>A small instance that satisfies the documented laws; the examples evaluate the model on it.\<close>

definition pad32 :: "bytes \<Rightarrow> bytes" where
  "pad32 m = take 32 (m @ replicate 32 0)"

definition demo_prims :: prims where
  "demo_prims =
     \<lparr>sha256 = (\<lambda>m. pad32 (rev m)), blake3 = (\<lambda>m. pad32 (rev m)),
      blake3_keyed = (\<lambda>k m. pad32 (rev (k @ m))),
      hex_encode = from_bytes, hex_decode = (\<lambda>s. Some (as_bytes s)),
      ed_public = (\<lambda>s. s), ed_sign = (\<lambda>s m. pad32 m @ pad32 s), ed_key_ok = (\<lambda>k. True),
      ed_verify = (\<lambda>k m sig. sig = pad32 m @ pad32 k)\<rparr>"

lemma length_pad32 [simp]: "length (pad32 m) = 32"
  by (simp add: pad32_def)

lemma demo_prims_simps [simp]:
  "sha256 demo_prims m = pad32 (rev m)" "blake3 demo_prims m = pad32 (rev m)"
  "blake3_keyed demo_prims k m = pad32 (rev (k @ m))"
  "hex_encode demo_prims b = from_bytes b" "hex_decode demo_prims s = Some (as_bytes s)"
  "ed_public demo_prims k = k" "ed_sign demo_prims k m = pad32 m @ pad32 k"
  "ed_key_ok demo_prims k" "ed_verify demo_prims k m sig \<longleftrightarrow> sig = pad32 m @ pad32 k"
  by (simp_all add: demo_prims_def)

lemma demo_hex_roundtrip: "hex_roundtrip demo_prims"
  by (simp add: hex_roundtrip_def)

lemma demo_ed_correct: "ed_correct demo_prims"
  by (simp add: ed_correct_def)

end
