(* ===== verification/Identity.thy ===== *)
theory Identity
  imports Crypto
begin

text \<open>
  \<^verbatim>\<open>core/src/identity.rs\<close>: AWE identifiers, user names, identities, the portable \<^verbatim>\<open>.awesecret\<close> file
  and the password vault. Random values (keys, salts, nonces) are arguments; the password-hashing
  and AEAD crates and the JSON codec are fields of \<open>vault_prims\<close>. The lemmas show that an identity
  exported to a secret file or sealed in a vault comes back unchanged, and that a secret file that
  authenticates is bound to the key pair it names.
\<close>

section \<open>Identifiers and identities\<close>

datatype AweId = AweId (aweid_bytes: bytes)

definition AweId_from_public_key :: "'a prims_scheme \<Rightarrow> bytes \<Rightarrow> AweId" where
  "AweId_from_public_key P public_key = AweId (hash P (as_bytes ''AWE-ID/v1'') public_key)"

definition AweId_to_hex :: "'a prims_scheme \<Rightarrow> AweId \<Rightarrow> string" where
  "AweId_to_hex P i = hex_encode P (aweid_bytes i)"

definition AweId_from_hex :: "'a prims_scheme \<Rightarrow> string \<Rightarrow> AweId result" where
  "AweId_from_hex P value =
     (case hex_decode P value of None \<Rightarrow> Err ''invalid AWE-ID hex'' | Some bs \<Rightarrow>
      if length bs \<noteq> 32 then Err ''AWE-ID must contain exactly 32 bytes'' else Ok (AweId bs))"

datatype Username = Username (username_str: string)

definition is_ascii_alphanumeric :: "char \<Rightarrow> bool" where
  "is_ascii_alphanumeric c =
     (let n = of_char c :: nat in
      (48 \<le> n \<and> n \<le> 57) \<or> (65 \<le> n \<and> n \<le> 90) \<or> (97 \<le> n \<and> n \<le> 122))"

definition Username_new :: "string \<Rightarrow> Username result" where
  "Username_new value =
     (if value = [] \<or> length value > 64
         \<or> \<not> list_all (\<lambda>c. is_ascii_alphanumeric c \<or> c = CHR ''_'' \<or> c = CHR ''-'') value
      then Err ''invalid username'' else Ok (Username value))"

record IdentityPublic =
  ip_username :: Username
  ip_awe_id :: AweId
  ip_public_key :: bytes

record Identity =
  id_signing_key :: bytes
  id_public :: IdentityPublic

definition Identity_from_signing_key :: "'a prims_scheme \<Rightarrow> Username \<Rightarrow> bytes \<Rightarrow> Identity" where
  "Identity_from_signing_key P username signing_key =
     (let public_key = ed_public P signing_key; awe_id = AweId_from_public_key P public_key
      in \<lparr>id_signing_key = signing_key,
          id_public = \<lparr>ip_username = username, ip_awe_id = awe_id, ip_public_key = public_key\<rparr>\<rparr>)"

definition Identity_generate :: "'a prims_scheme \<Rightarrow> bytes \<Rightarrow> Username \<Rightarrow> Identity" where
  "Identity_generate P random username = Identity_from_signing_key P username random"

definition Identity_sign :: "'a prims_scheme \<Rightarrow> Identity \<Rightarrow> bytes \<Rightarrow> bytes" where
  "Identity_sign P self message = ed_sign P (id_signing_key self) message"

definition Identity_verify :: "'a prims_scheme \<Rightarrow> bytes \<Rightarrow> bytes \<Rightarrow> bytes \<Rightarrow> bool" where
  "Identity_verify P public_key message signature =
     (ed_key_ok P public_key \<and> ed_verify P public_key message signature)"

definition Identity_export_secret :: "Identity \<Rightarrow> bytes" where
  "Identity_export_secret self = id_signing_key self"

definition Identity_from_secret :: "'a prims_scheme \<Rightarrow> Username \<Rightarrow> bytes \<Rightarrow> Identity" where
  "Identity_from_secret P username secret = Identity_from_signing_key P username secret"

text \<open>Every constructor of \<^verbatim>\<open>Identity\<close> goes through \<^verbatim>\<open>from_signing_key\<close>; the signing key is private.\<close>

definition identity_wf :: "'a prims_scheme \<Rightarrow> Identity \<Rightarrow> bool" where
  "identity_wf P i =
     (ip_public_key (id_public i) = ed_public P (id_signing_key i)
      \<and> ip_awe_id (id_public i) = AweId_from_public_key P (ip_public_key (id_public i)))"

section \<open>The secret file\<close>

record AweSecret =
  as_username :: string
  as_awe_id :: string
  as_secret_key :: string
  as_public_key :: string
  as_signature :: string

definition secret_message :: "string \<Rightarrow> string \<Rightarrow> string \<Rightarrow> string \<Rightarrow> bytes" where
  "secret_message username awe_id secret_key public_key =
     as_bytes (username @ '':'' @ awe_id @ '':'' @ secret_key @ '':'' @ public_key)"

definition AweSecret_generate :: "'a prims_scheme \<Rightarrow> Identity \<Rightarrow> AweSecret" where
  "AweSecret_generate P identity =
     (let username = username_str (ip_username (id_public identity));
          awe_id = AweId_to_hex P (ip_awe_id (id_public identity));
          secret_key = hex_encode P (Identity_export_secret identity);
          public_key = hex_encode P (ip_public_key (id_public identity));
          sig_bytes = Identity_sign P identity (secret_message username awe_id secret_key public_key)
      in \<lparr>as_username = username, as_awe_id = awe_id, as_secret_key = secret_key,
          as_public_key = public_key, as_signature = hex_encode P sig_bytes\<rparr>)"

definition AweSecret_verify_integrity :: "'a prims_scheme \<Rightarrow> AweSecret \<Rightarrow> unit result" where
  "AweSecret_verify_integrity P self =
     (case hex_decode P (as_public_key self) of
        None \<Rightarrow> Err ''Invalid public_key encoding in .awesecret''
      | Some pk \<Rightarrow>
      if length pk \<noteq> 32 then Err ''Invalid public_key length in .awesecret'' else
      (case hex_decode P (as_signature self) of
         None \<Rightarrow> Err ''Invalid signature encoding in .awesecret''
       | Some sig \<Rightarrow>
       if length sig \<noteq> 64 then Err ''Invalid signature length in .awesecret''
       else if AweId_to_hex P (AweId_from_public_key P pk) \<noteq> as_awe_id self
         then Err ''Tampered .awesecret: AWE-ID does not match public key''
       else if \<not> Identity_verify P pk
           (secret_message (as_username self) (as_awe_id self) (as_secret_key self) (as_public_key self)) sig
         then Err ''Tampered .awesecret: Cryptographic signature verification failed''
       else Ok ()))"

definition AweSecret_from_bytes ::
  "'a prims_scheme \<Rightarrow> (bytes \<Rightarrow> AweSecret option) \<Rightarrow> bytes \<Rightarrow> AweSecret result" where
  "AweSecret_from_bytes P from_slice bs =
     (case from_slice bs of
        None \<Rightarrow> Err ''Invalid or corrupted .awesecret file''
      | Some secret \<Rightarrow>
        (case AweSecret_verify_integrity P secret of Inl e \<Rightarrow> Inl e | Inr _ \<Rightarrow> Ok secret))"

definition AweSecret_authenticate :: "'a prims_scheme \<Rightarrow> AweSecret \<Rightarrow> Identity result" where
  "AweSecret_authenticate P self =
     (case AweSecret_verify_integrity P self of Inl e \<Rightarrow> Inl e | Inr _ \<Rightarrow>
      case Username_new (as_username self) of Inl e \<Rightarrow> Inl e | Inr username \<Rightarrow>
      case hex_decode P (as_secret_key self) of None \<Rightarrow> Err ''invalid secret key hex'' | Some key \<Rightarrow>
      if length key \<noteq> 32 then Err ''Invalid secret key length in .awesecret''
      else let identity = Identity_from_secret P username key in
        if AweId_to_hex P (ip_awe_id (id_public identity)) \<noteq> as_awe_id self
        then Err ''Mismatching AWE-ID in .awesecret''
        else (case hex_decode P (as_public_key self) of
                None \<Rightarrow> Inl (Panic ''called Result::unwrap on an Err value'')
              | Some pk \<Rightarrow>
                if ip_public_key (id_public identity) \<noteq> pk
                then Err ''Mismatching public key in .awesecret''
                else Ok identity))"

section \<open>The password vault\<close>

definition VAULT_VERSION :: u16 where
  "VAULT_VERSION = 1"

datatype VaultError = InvalidFormat | InvalidPassword | Encryption | PasswordHashFailed

record VaultRecord =
  vr_version :: u16
  vr_password_hash :: string
  vr_nonce :: bytes
  vr_ciphertext :: bytes

record vault_prims = prims +
  argon_hash :: "bytes \<Rightarrow> bytes \<Rightarrow> string option"
  phc_parse :: "string \<Rightarrow> bytes option option"
  argon_verify :: "bytes \<Rightarrow> string \<Rightarrow> bool"
  aead_encrypt :: "bytes \<Rightarrow> bytes \<Rightarrow> bytes \<Rightarrow> bytes option"
  aead_decrypt :: "bytes \<Rightarrow> bytes \<Rightarrow> bytes \<Rightarrow> bytes option"
  vault_to_vec :: "VaultRecord \<Rightarrow> bytes option"
  vault_from_slice :: "bytes \<Rightarrow> VaultRecord option"

definition LocalVault_seal ::
  "'a vault_prims_scheme \<Rightarrow> bytes \<Rightarrow> bytes \<Rightarrow> Identity \<Rightarrow> string \<Rightarrow> VaultError + bytes" where
  "LocalVault_seal P salt nonce identity password =
     (case argon_hash P (as_bytes password) salt of None \<Rightarrow> Inl PasswordHashFailed | Some password_hash \<Rightarrow>
      case phc_parse P password_hash of None \<Rightarrow> Inl PasswordHashFailed | Some parsed \<Rightarrow>
      case parsed of None \<Rightarrow> Inl PasswordHashFailed | Some key_material \<Rightarrow>
      let key = sha256 P key_material; secret = Identity_export_secret identity in
      case aead_encrypt P key nonce secret of None \<Rightarrow> Inl Encryption | Some ciphertext \<Rightarrow>
      case vault_to_vec P \<lparr>vr_version = VAULT_VERSION, vr_password_hash = password_hash,
                           vr_nonce = nonce, vr_ciphertext = ciphertext\<rparr> of
        None \<Rightarrow> Inl InvalidFormat
      | Some bs \<Rightarrow> Inr bs)"

definition LocalVault_open ::
  "'a vault_prims_scheme \<Rightarrow> bytes \<Rightarrow> Username \<Rightarrow> string \<Rightarrow> VaultError + Identity" where
  "LocalVault_open P data username password =
     (case vault_from_slice P data of None \<Rightarrow> Inl InvalidFormat | Some record \<Rightarrow>
      if vr_version record \<noteq> VAULT_VERSION then Inl InvalidFormat else
      case phc_parse P (vr_password_hash record) of None \<Rightarrow> Inl InvalidFormat | Some parsed \<Rightarrow>
      if \<not> argon_verify P (as_bytes password) (vr_password_hash record) then Inl InvalidPassword else
      case parsed of None \<Rightarrow> Inl InvalidFormat | Some key_material \<Rightarrow>
      let key = sha256 P key_material in
      case aead_decrypt P key (vr_nonce record) (vr_ciphertext record) of
        None \<Rightarrow> Inl InvalidPassword
      | Some secret \<Rightarrow>
        if length secret \<noteq> 32 then Inl InvalidFormat
        else Inr (Identity_from_secret P username secret))"

text \<open>Documented behaviour of the crates the vault calls: a password verifies against the hash made
  from it, decryption inverts encryption, and JSON reading inverts JSON writing.\<close>

definition vault_prims_ok :: "'a vault_prims_scheme \<Rightarrow> bool" where
  "vault_prims_ok P \<longleftrightarrow>
     (\<forall>pw salt h. argon_hash P pw salt = Some h \<longrightarrow> argon_verify P pw h)
     \<and> (\<forall>k n m c. aead_encrypt P k n m = Some c \<longrightarrow> aead_decrypt P k n c = Some m)
     \<and> (\<forall>r bs. vault_to_vec P r = Some bs \<longrightarrow> vault_from_slice P bs = Some r)"

section \<open>Lemmas\<close>

lemma AweId_hex_roundtrip:
  "hex_roundtrip P \<Longrightarrow> length (aweid_bytes i) = 32 \<Longrightarrow> AweId_from_hex P (AweId_to_hex P i) = Ok i"
  by (simp add: AweId_from_hex_def AweId_to_hex_def hex_roundtrip_def)

lemma AweId_to_hex_inject: "hex_roundtrip P \<Longrightarrow> AweId_to_hex P i = AweId_to_hex P j \<longleftrightarrow> i = j"
  by (auto simp: AweId_to_hex_def hex_inject intro: AweId.expand)

lemma Identity_verify_sign:
  "ed_correct P \<Longrightarrow> identity_wf P i \<Longrightarrow>
     Identity_verify P (ip_public_key (id_public i)) m (Identity_sign P i m)"
  by (simp add: identity_wf_def Identity_verify_def Identity_sign_def ed_correct_def)

lemma identity_wf_rebuild:
  "identity_wf P i \<Longrightarrow> Identity_from_secret P (ip_username (id_public i)) (id_signing_key i) = i"
  by (cases i; cases "id_public i")
    (simp add: identity_wf_def Identity_from_secret_def Identity_from_signing_key_def Let_def)

lemma identity_wf_from_secret [simp]: "identity_wf P (Identity_from_secret P u k)"
  by (simp add: identity_wf_def Identity_from_secret_def Identity_from_signing_key_def Let_def)

lemma Username_new_Ok: "Username_new s = Ok u \<Longrightarrow> u = Username s"
  by (auto simp: Username_new_def split: if_splits)

lemma verify_integrity_Ok:
  assumes "AweSecret_verify_integrity P s = Ok ()"
  obtains pk sig where "hex_decode P (as_public_key s) = Some pk" "length pk = 32"
    "hex_decode P (as_signature s) = Some sig" "length sig = 64"
    "as_awe_id s = AweId_to_hex P (AweId_from_public_key P pk)"
    "Identity_verify P pk
       (secret_message (as_username s) (as_awe_id s) (as_secret_key s) (as_public_key s)) sig"
  using assms unfolding AweSecret_verify_integrity_def by (auto split: option.splits if_splits)

text \<open>An identity written to a secret file authenticates from that file as the same identity, key
  material, user name and AWE-ID included.\<close>

theorem awesecret_roundtrip:
  assumes "hex_roundtrip P" "ed_correct P" "identity_wf P i"
    and "Username_new (username_str (ip_username (id_public i))) = Ok (ip_username (id_public i))"
    and "length (id_signing_key i) = 32" "length (ip_public_key (id_public i)) = 32"
    and "\<forall>m. length (ed_sign P (id_signing_key i) m) = 64"
  shows "AweSecret_authenticate P (AweSecret_generate P i) = Ok i"
proof -
  have hex: "\<And>b. hex_decode P (hex_encode P b) = Some b"
    using assms(1) by (simp add: hex_roundtrip_def)
  have pub: "ip_awe_id (id_public i) = AweId_from_public_key P (ip_public_key (id_public i))"
    using assms(3) by (simp add: identity_wf_def)
  have "AweSecret_verify_integrity P (AweSecret_generate P i) = Ok ()"
    using assms(6,7) Identity_verify_sign [OF assms(2,3)] pub
    by (simp add: AweSecret_verify_integrity_def AweSecret_generate_def Let_def hex Identity_sign_def)
  with identity_wf_rebuild [OF assms(3)] show ?thesis
    using assms(4,5)
    by (simp add: AweSecret_authenticate_def AweSecret_generate_def Let_def hex Identity_export_secret_def)
qed

theorem awesecret_roundtrip_witness:
  "AweSecret_authenticate demo_prims
     (AweSecret_generate demo_prims (Identity_generate demo_prims (replicate 32 7) (Username ''ararat'')))
   = Ok (Identity_generate demo_prims (replicate 32 7) (Username ''ararat''))"
  by (rule awesecret_roundtrip)
    (simp_all add: demo_hex_roundtrip demo_ed_correct identity_wf_def Identity_generate_def
      Identity_from_signing_key_def Let_def Username_new_def is_ascii_alphanumeric_def)

text \<open>A secret file that authenticates is bound to the identity it yields: the identity is built
  from the secret key in the file, its public key and AWE-ID are the ones in the file, and the file
  carries that key's signature over all four fields.\<close>

theorem awesecret_authenticate_sound:
  assumes "AweSecret_authenticate P s = Ok i"
  shows "identity_wf P i
    \<and> username_str (ip_username (id_public i)) = as_username s
    \<and> hex_decode P (as_secret_key s) = Some (id_signing_key i)
    \<and> hex_decode P (as_public_key s) = Some (ip_public_key (id_public i))
    \<and> as_awe_id s = AweId_to_hex P (ip_awe_id (id_public i))
    \<and> (\<exists>sig. hex_decode P (as_signature s) = Some sig \<and>
         Identity_verify P (ip_public_key (id_public i))
           (secret_message (as_username s) (as_awe_id s) (as_secret_key s) (as_public_key s)) sig)"
proof -
  obtain u key where ok: "AweSecret_verify_integrity P s = Ok ()"
      and u: "Username_new (as_username s) = Ok u" and key: "hex_decode P (as_secret_key s) = Some key"
      and i: "i = Identity_from_secret P u key"
      and aid: "AweId_to_hex P (ip_awe_id (id_public i)) = as_awe_id s"
      and pk: "hex_decode P (as_public_key s) = Some (ip_public_key (id_public i))"
    using assms unfolding AweSecret_authenticate_def Let_def
    by (auto split: sum.splits option.splits if_splits)
  from verify_integrity_Ok [OF ok] pk obtain sig where
    "hex_decode P (as_signature s) = Some sig" "Identity_verify P (ip_public_key (id_public i))
       (secret_message (as_username s) (as_awe_id s) (as_secret_key s) (as_public_key s)) sig"
    by (metis option.inject)
  then show ?thesis
    using Username_new_Ok [OF u] key i aid pk
    by (auto simp: identity_wf_def Identity_from_secret_def Identity_from_signing_key_def Let_def)
qed

theorem awesecret_authenticate_sound_witness:
  "\<exists>i. AweSecret_authenticate demo_prims
        (AweSecret_generate demo_prims (Identity_generate demo_prims (replicate 32 1) (Username ''bob''))) = Ok i
     \<and> identity_wf demo_prims i"
proof -
  let ?s = "AweSecret_generate demo_prims (Identity_generate demo_prims (replicate 32 1) (Username ''bob''))"
  have "\<exists>i. AweSecret_authenticate demo_prims ?s = Ok i"
    by (simp add: AweSecret_authenticate_def AweSecret_generate_def AweSecret_verify_integrity_def
        Identity_generate_def Identity_from_secret_def Identity_from_signing_key_def Identity_verify_def
        Identity_sign_def Identity_export_secret_def Let_def Username_new_def is_ascii_alphanumeric_def
        AweId_to_hex_def)
  then show ?thesis
    using awesecret_authenticate_sound by blast
qed

text \<open>A vault opens with the password it was sealed with, and yields the sealed identity.\<close>

theorem vault_roundtrip:
  assumes "vault_prims_ok P" "identity_wf P i" "length (id_signing_key i) = 32"
    and "LocalVault_seal P salt nonce i password = Inr bs"
  shows "LocalVault_open P bs (ip_username (id_public i)) password = Inr i"
proof -
  obtain ph km c where s: "argon_hash P (as_bytes password) salt = Some ph"
      "phc_parse P ph = Some (Some km)"
      "aead_encrypt P (sha256 P km) nonce (id_signing_key i) = Some c"
      "vault_to_vec P \<lparr>vr_version = VAULT_VERSION, vr_password_hash = ph,
                       vr_nonce = nonce, vr_ciphertext = c\<rparr> = Some bs"
    using assms(4) unfolding LocalVault_seal_def Let_def
    by (auto simp: Identity_export_secret_def split: option.splits)
  have "argon_verify P (as_bytes password) ph"
      "aead_decrypt P (sha256 P km) nonce c = Some (id_signing_key i)"
      "vault_from_slice P bs = Some \<lparr>vr_version = VAULT_VERSION, vr_password_hash = ph,
                       vr_nonce = nonce, vr_ciphertext = c\<rparr>"
    using s assms(1) by (auto simp: vault_prims_ok_def)
  then show ?thesis
    using s assms(3) identity_wf_rebuild [OF assms(2)] by (simp add: LocalVault_open_def Let_def)
qed

definition demo_vault :: vault_prims where
  "demo_vault =
     \<lparr>sha256 = sha256 demo_prims, blake3 = blake3 demo_prims, blake3_keyed = blake3_keyed demo_prims,
      hex_encode = hex_encode demo_prims, hex_decode = hex_decode demo_prims,
      ed_public = ed_public demo_prims, ed_sign = ed_sign demo_prims,
      ed_key_ok = ed_key_ok demo_prims, ed_verify = ed_verify demo_prims,
      argon_hash = (\<lambda>pw salt. Some (from_bytes pw)), phc_parse = (\<lambda>s. Some (Some (as_bytes s))),
      argon_verify = (\<lambda>pw h. as_bytes h = pw),
      aead_encrypt = (\<lambda>k n m. Some (rev m)), aead_decrypt = (\<lambda>k n c. Some (rev c)),
      vault_to_vec = (\<lambda>r.
        if length (vr_password_hash r) < 2 ^ 64 \<and> length (vr_nonce r) < 2 ^ 64
        then Some (to_be_bytes_u16 (vr_version r)
          @ to_be_bytes_u64 (of_nat (length (vr_password_hash r))) @ as_bytes (vr_password_hash r)
          @ to_be_bytes_u64 (of_nat (length (vr_nonce r))) @ vr_nonce r @ vr_ciphertext r)
        else None),
      vault_from_slice = (\<lambda>bs.
        let v = from_be_bytes_u16 (take 2 bs); r = drop 2 bs;
            n = unat (from_be_bytes_u64 (take 8 r)); r = drop 8 r;
            h = take n r; r = drop n r;
            k = unat (from_be_bytes_u64 (take 8 r)); r = drop 8 r
        in Some \<lparr>vr_version = v, vr_password_hash = from_bytes h, vr_nonce = take k r,
                 vr_ciphertext = drop k r\<rparr>)\<rparr>"

lemma demo_vault_ok: "vault_prims_ok demo_vault"
  by (auto simp: vault_prims_ok_def demo_vault_def Let_def unat_of_nat split: if_splits)

theorem vault_roundtrip_witness:
  "\<exists>bs. LocalVault_seal demo_vault [1, 2] [3] (Identity_generate demo_vault (replicate 32 9) (Username ''u'')) ''pw''
          = Inr bs
      \<and> LocalVault_open demo_vault bs (Username ''u'') ''pw''
          = Inr (Identity_generate demo_vault (replicate 32 9) (Username ''u''))"
proof -
  let ?i = "Identity_generate demo_vault (replicate 32 9) (Username ''u'')"
  have i: "identity_wf demo_vault ?i" "length (id_signing_key ?i) = 32"
      "ip_username (id_public ?i) = Username ''u''"
    by (simp_all add: identity_wf_def Identity_generate_def Identity_from_signing_key_def Let_def)
  obtain bs where bs: "LocalVault_seal demo_vault [1, 2] [3] ?i ''pw'' = Inr bs"
    by (simp add: LocalVault_seal_def demo_vault_def Let_def)
  show ?thesis
    using bs vault_roundtrip [OF demo_vault_ok i(1,2) bs] i(3) by auto
qed

end
