(* ===== verification/Rust_Text.thy ===== *)
theory Rust_Text
  imports Prelude
begin

text \<open>
  The part of Rust's \<^verbatim>\<open>str\<close> the program uses on non-ASCII text: the characters of a UTF-8 byte
  sequence as code points, \<^verbatim>\<open>trim\<close>, \<^verbatim>\<open>char::is_whitespace\<close> and \<^verbatim>\<open>char::is_control\<close>.
\<close>

fun chars :: "string \<Rightarrow> nat list" where
  "chars [] = []"
| "chars (a # r) =
    (let n = of_char a :: nat; tail = (\<lambda>c. of_char c mod 64 :: nat) in
     if n < 0x80 then n # chars r
     else if n < 0xE0 then
       (case r of b # s \<Rightarrow> ((n mod 32) * 64 + tail b) # chars s | _ \<Rightarrow> [])
     else if n < 0xF0 then
       (case r of b # c # s \<Rightarrow> ((n mod 16) * 4096 + tail b * 64 + tail c) # chars s | _ \<Rightarrow> [])
     else
       (case r of b # c # d # s \<Rightarrow>
            ((n mod 8) * 262144 + tail b * 4096 + tail c * 64 + tail d) # chars s | _ \<Rightarrow> []))"

definition char_len_utf8 :: "nat \<Rightarrow> nat" where
  "char_len_utf8 c = (if c < 0x80 then 1 else if c < 0x800 then 2 else if c < 0x10000 then 3 else 4)"

definition is_whitespace :: "nat \<Rightarrow> bool" where
  "is_whitespace c =
     ((9 \<le> c \<and> c \<le> 13) \<or> c = 32 \<or> c = 133 \<or> c = 160 \<or> c = 5760 \<or> (8192 \<le> c \<and> c \<le> 8202)
      \<or> c = 8232 \<or> c = 8233 \<or> c = 8239 \<or> c = 8287 \<or> c = 12288)"

definition is_control :: "nat \<Rightarrow> bool" where
  "is_control c = (c < 32 \<or> (127 \<le> c \<and> c < 160))"

text \<open>\<^verbatim>\<open>trim\<close>, as the characters that are left.\<close>

definition trim_chars :: "string \<Rightarrow> nat list" where
  "trim_chars s = rev (dropWhile is_whitespace (rev (dropWhile is_whitespace (chars s))))"

definition chars_len :: "nat list \<Rightarrow> nat" where
  "chars_len cs = sum_list (map char_len_utf8 cs)"


text \<open>\<^verbatim>\<open>trim\<close> as a slice of the same bytes.\<close>

definition trim_str :: "string \<Rightarrow> string" where
  "trim_str s =
     (let lead = chars_len (takeWhile is_whitespace (chars s))
      in take (chars_len (trim_chars s)) (drop lead s))"

text \<open>
  \<^verbatim>\<open>to_lowercase\<close> on the ASCII letters. The program only tests lower-cased text for ASCII prefixes and
  suffixes; the two non-ASCII characters whose lower case has an ASCII letter are the Kelvin sign,
  whose \<open>k\<close> occurs in none of them, and the dotted capital I, whose lower case continues with a
  combining mark, so the other characters do not matter to these tests.
\<close>

definition to_ascii_lowercase :: "string \<Rightarrow> string" where
  "to_ascii_lowercase s =
     map (\<lambda>c. if (65 :: nat) \<le> of_char c \<and> of_char c \<le> (90 :: nat) then char_of (of_char c + 32 :: nat) else c) s"

definition starts_with :: "string \<Rightarrow> string \<Rightarrow> bool" where
  "starts_with s p = (take (length p) s = p)"

definition ends_with :: "string \<Rightarrow> string \<Rightarrow> bool" where
  "ends_with s p = (length p \<le> length s \<and> drop (length s - length p) s = p)"

lemma ends_with_iff: "ends_with s p \<longleftrightarrow> (\<exists>r. s = r @ p)"
proof
  assume "ends_with s p"
  then show "\<exists>r. s = r @ p"
    unfolding ends_with_def by (metis append_take_drop_id)
qed (auto simp: ends_with_def)

text \<open>\<^verbatim>\<open>split(c)\<close>: the pieces between the separators, empty ones included.\<close>

fun split_on :: "char \<Rightarrow> string \<Rightarrow> string list" where
  "split_on c [] = [[]]"
| "split_on c (x # xs) =
     (if x = c then [] # split_on c xs
      else (case split_on c xs of [] \<Rightarrow> [[x]] | h # t \<Rightarrow> (x # h) # t))"

lemma split_on_not_Nil [simp]: "split_on c s \<noteq> []"
  by (induction s) (auto split: list.split)

lemma split_on_append: "split_on c (a @ [c] @ b) = split_on c a @ split_on c b"
  by (induction a) (auto split: list.split)

end
