(* ===== verification/Onecoin.thy ===== *)
theory Onecoin
  imports Awenet
begin

text \<open>
  \<^verbatim>\<open>core/src/onecoin.rs\<close>: the ONECOIN ledger. Definitions only, in the order of the source: amounts,
  signed transactions, contribution rewards, the join distribution, the price policy and every
  operation of the ledger. An operation on \<^verbatim>\<open>&mut self\<close> returns its result and the ledger it leaves.
  The JSON writer is a field of \<open>coin_prims\<close>. The theorems are in \<open>Onecoin_Props\<close>.
\<close>

section \<open>Amounts and transactions\<close>

definition ATOMS_PER_COIN :: u128 where
  "ATOMS_PER_COIN = 1000000000000000000"
definition INITIAL_GENESIS_ALLOCATION :: u128 where
  "INITIAL_GENESIS_ALLOCATION = 10 * ATOMS_PER_COIN"
definition JOIN_DISTRIBUTION :: u128 where
  "JOIN_DISTRIBUTION = ATOMS_PER_COIN"
definition MIN_JOIN_SHARE :: u128 where
  "MIN_JOIN_SHARE = 1"
definition INITIAL_PRICE_USD_CENTS :: u64 where
  "INITIAL_PRICE_USD_CENTS = 100"
definition PRICE_BAND_USD_CENTS :: u64 where
  "PRICE_BAND_USD_CENTS = 10000"
definition PRICE_FLOOR_STEP_USD_CENTS :: u64 where
  "PRICE_FLOOR_STEP_USD_CENTS = 2000"
definition MAX_TRANSACTION_MEMO :: nat where
  "MAX_TRANSACTION_MEMO = 256"

datatype OnecoinAmount = OnecoinAmount (as_atoms: u128)

definition OnecoinAmount_zero :: OnecoinAmount where
  "OnecoinAmount_zero = OnecoinAmount 0"

definition OnecoinAmount_coins :: "u128 \<Rightarrow> OnecoinAmount" where
  "OnecoinAmount_coins coins = OnecoinAmount (sat_mul coins ATOMS_PER_COIN)"

definition OnecoinAmount_whole_coins :: "OnecoinAmount \<Rightarrow> u128" where
  "OnecoinAmount_whole_coins self = as_atoms self div ATOMS_PER_COIN"

record OnecoinTransaction =
  tx_version :: u16
  tx_nonce :: u64
  tx_sender :: bytes
  tx_recipient :: bytes
  tx_amount_atoms :: u128
  tx_memo :: "string option"
  tx_signature :: bytes

record SignedContributionReceipt =
  sr_receipt :: ContributionReceipt
  sr_verifier_public_key :: bytes
  sr_signature :: bytes

record coin_prims = prims +
  tx_json :: "OnecoinTransaction \<Rightarrow> bytes"
  receipt_json :: "SignedContributionReceipt \<Rightarrow> bytes"

abbreviation zero_sig :: bytes where
  "zero_sig \<equiv> replicate 64 0"

definition tx_signing_bytes :: "'a coin_prims_scheme \<Rightarrow> OnecoinTransaction \<Rightarrow> bytes" where
  "tx_signing_bytes P self = tx_json P (self\<lparr>tx_signature := zero_sig\<rparr>)"

definition tx_id :: "'a coin_prims_scheme \<Rightarrow> OnecoinTransaction \<Rightarrow> bytes" where
  "tx_id P self = blake3 P (tx_json P self)"

definition OnecoinTransaction_new ::
  "'a coin_prims_scheme \<Rightarrow> Identity \<Rightarrow> u64 \<Rightarrow> AweId \<Rightarrow> u128 \<Rightarrow> string option \<Rightarrow> OnecoinTransaction" where
  "OnecoinTransaction_new P identity nonce recipient amount_atoms memo =
     (let tx = \<lparr>tx_version = 1, tx_nonce = nonce, tx_sender = ip_public_key (id_public identity),
                tx_recipient = aweid_bytes recipient, tx_amount_atoms = amount_atoms,
                tx_memo = memo, tx_signature = zero_sig\<rparr>
      in tx\<lparr>tx_signature := Identity_sign P identity (tx_signing_bytes P tx)\<rparr>)"

definition tx_verify :: "'a coin_prims_scheme \<Rightarrow> OnecoinTransaction \<Rightarrow> bytes \<Rightarrow> bool" where
  "tx_verify P self sender_public_key =
     (if tx_version self \<noteq> 1 \<or> tx_amount_atoms self = 0
         \<or> (case tx_memo self of None \<Rightarrow> False | Some m \<Rightarrow> length m > MAX_TRANSACTION_MEMO)
      then False
      else if \<not> ed_key_ok P sender_public_key then False
      else ed_verify P sender_public_key (tx_signing_bytes P self) (tx_signature self))"

section \<open>Contribution rewards\<close>

record ContributionReward =
  rw_node :: AweId
  rw_receipt_hash :: bytes
  rw_reward_atoms :: u128

record ContributionRewardPolicy =
  rp_atoms_per_score :: u128
  rp_max_reward_atoms :: u128

definition ContributionRewardPolicy_default :: ContributionRewardPolicy where
  "ContributionRewardPolicy_default =
     \<lparr>rp_atoms_per_score = 1, rp_max_reward_atoms = 100 * ATOMS_PER_COIN\<rparr>"

definition reward_for :: "ContributionRewardPolicy \<Rightarrow> ContributionReceipt \<Rightarrow> u128 result" where
  "reward_for self receipt =
     (if cr_period_end_unix receipt \<le> cr_period_start_unix receipt then Err ''invalid contribution period''
      else let score = ContributionReceipt_score receipt in
        if score = 0 then Err ''empty contribution cannot earn ONECOIN''
        else Ok (min (sat_mul score (rp_atoms_per_score self)) (rp_max_reward_atoms self)))"

definition receipt_signing_bytes :: "'a coin_prims_scheme \<Rightarrow> SignedContributionReceipt \<Rightarrow> bytes" where
  "receipt_signing_bytes P self = receipt_json P (self\<lparr>sr_signature := zero_sig\<rparr>)"

definition SignedContributionReceipt_new ::
  "'a coin_prims_scheme \<Rightarrow> Identity \<Rightarrow> ContributionReceipt \<Rightarrow> SignedContributionReceipt" where
  "SignedContributionReceipt_new P verifier receipt =
     (let signed = \<lparr>sr_receipt = receipt, sr_verifier_public_key = ip_public_key (id_public verifier),
                    sr_signature = zero_sig\<rparr>
      in signed\<lparr>sr_signature := Identity_sign P verifier (receipt_signing_bytes P signed)\<rparr>)"

definition receipt_verify :: "'a coin_prims_scheme \<Rightarrow> SignedContributionReceipt \<Rightarrow> bool" where
  "receipt_verify P self =
     Identity_verify P (sr_verifier_public_key self) (receipt_signing_bytes P self) (sr_signature self)"

definition receipt_hash :: "'a coin_prims_scheme \<Rightarrow> SignedContributionReceipt \<Rightarrow> bytes" where
  "receipt_hash P self = blake3 P (receipt_json P self)"

section \<open>Join distribution and price policy\<close>

record JoinDistribution =
  jd_new_member :: AweId
  jd_eligible_members :: u64
  jd_per_member_atoms :: u128
  jd_distributed_atoms :: u128
  jd_remainder_atoms :: u128
  jd_active :: bool

definition JoinDistribution_calculate :: "AweId \<Rightarrow> u64 \<Rightarrow> JoinDistribution" where
  "JoinDistribution_calculate new_member member_count_after_join =
     (let n = ucast (max member_count_after_join 1);
          per_member_atoms = JOIN_DISTRIBUTION div n;
          distributed_atoms = sat_mul per_member_atoms n;
          remainder_atoms = sat_sub JOIN_DISTRIBUTION distributed_atoms
      in \<lparr>jd_new_member = new_member, jd_eligible_members = member_count_after_join,
          jd_per_member_atoms = per_member_atoms, jd_distributed_atoms = distributed_atoms,
          jd_remainder_atoms = remainder_atoms, jd_active = (per_member_atoms \<ge> MIN_JOIN_SHARE)\<rparr>)"

record OnecoinPricePolicy =
  pp_floor_usd_cents :: u64
  pp_highest_band_reached :: u64

definition OnecoinPricePolicy_default :: OnecoinPricePolicy where
  "OnecoinPricePolicy_default = \<lparr>pp_floor_usd_cents = INITIAL_PRICE_USD_CENTS, pp_highest_band_reached = 0\<rparr>"

definition observe_reference_price_usd_cents :: "OnecoinPricePolicy \<Rightarrow> u64 \<Rightarrow> OnecoinPricePolicy" where
  "observe_reference_price_usd_cents self price_usd_cents =
     (if price_usd_cents < INITIAL_PRICE_USD_CENTS then self
      else let band = price_usd_cents div PRICE_BAND_USD_CENTS in
        if band \<le> pp_highest_band_reached self then self
        else let bands_crossed = band - pp_highest_band_reached self in
          \<lparr>pp_floor_usd_cents = sat_add (pp_floor_usd_cents self) (sat_mul bands_crossed PRICE_FLOOR_STEP_USD_CENTS),
           pp_highest_band_reached = band\<rparr>)"

section \<open>The ledger\<close>

record OnecoinLedger =
  l_balances :: "(string, u128) btree_map"
  l_nonces :: "(string, u64) btree_map"
  l_members :: "(string, bytes) btree_map"
  l_total_issued_atoms :: u128
  l_collected_fee_atoms :: u128
  l_received_transactions :: "(bytes, u128) btree_map"
  l_join_remainder_atoms :: u128
  l_join_distribution_active :: bool
  l_price :: OnecoinPricePolicy
  l_reward_policy :: ContributionRewardPolicy
  l_reward_verifiers :: "(string, bytes) btree_map"
  l_rewarded_receipts :: "(bytes, u128) btree_map"

definition OnecoinLedger_default :: OnecoinLedger where
  "OnecoinLedger_default =
     \<lparr>l_balances = [], l_nonces = [], l_members = [], l_total_issued_atoms = 0,
      l_collected_fee_atoms = 0, l_received_transactions = [], l_join_remainder_atoms = 0,
      l_join_distribution_active = True, l_price = OnecoinPricePolicy_default,
      l_reward_policy = ContributionRewardPolicy_default, l_reward_verifiers = [],
      l_rewarded_receipts = []\<rparr>"

definition ledger_key :: "'a prims_scheme \<Rightarrow> AweId \<Rightarrow> string" where
  "ledger_key P i = AweId_to_hex P i"

definition balance_atoms :: "'a prims_scheme \<Rightarrow> OnecoinLedger \<Rightarrow> AweId \<Rightarrow> u128" where
  "balance_atoms P self i = bt_get_or (l_balances self) (ledger_key P i) 0"

definition member_count :: "OnecoinLedger \<Rightarrow> u64" where
  "member_count self = of_nat (length (l_members self))"

definition genesis_insert :: "string \<times> bytes \<Rightarrow> OnecoinLedger \<Rightarrow> OnecoinLedger" where
  "genesis_insert e self =
     self\<lparr>l_members := bt_insert (fst e) (snd e) (l_members self),
          l_balances := bt_insert (fst e) INITIAL_GENESIS_ALLOCATION (l_balances self),
          l_nonces := bt_insert (fst e) 0 (l_nonces self)\<rparr>"

definition initialize_genesis ::
  "'a prims_scheme \<Rightarrow> OnecoinLedger \<Rightarrow> AweId list \<Rightarrow> unit result \<times> OnecoinLedger" where
  "initialize_genesis P self members =
     (if members = [] then (Err ''genesis member set cannot be empty'', self)
      else if l_members self \<noteq> [] then (Err ''genesis is already initialized'', self)
      else let unique = bt_of_list (map (\<lambda>i. (ledger_key P i, aweid_bytes i)) members);
               self = fold genesis_insert unique self
           in (Ok (), self\<lparr>l_total_issued_atoms :=
                 sat_mul INITIAL_GENESIS_ALLOCATION (of_nat (length (l_members self)))\<rparr>))"

fun add_genesis_verifiers ::
  "'a prims_scheme \<Rightarrow> OnecoinLedger \<Rightarrow> bytes list \<Rightarrow> unit result \<times> OnecoinLedger" where
  "add_genesis_verifiers P self [] = (Ok (), self)"
| "add_genesis_verifiers P self (public_key # rest) =
     (let key = ledger_key P (AweId_from_public_key P public_key) in
      if \<not> bt_contains (l_members self) key then (Err ''reward verifier must be a genesis member'', self)
      else add_genesis_verifiers P
             (self\<lparr>l_reward_verifiers := bt_insert key public_key (l_reward_verifiers self)\<rparr>) rest)"

definition initialize_genesis_with_verifiers ::
  "'a prims_scheme \<Rightarrow> OnecoinLedger \<Rightarrow> AweId list \<Rightarrow> bytes list \<Rightarrow> unit result \<times> OnecoinLedger" where
  "initialize_genesis_with_verifiers P self members verifiers =
     (case initialize_genesis P self members of
        (Inl e, self) \<Rightarrow> (Inl e, self)
      | (Inr _, self) \<Rightarrow> add_genesis_verifiers P self verifiers)"

definition authorize_reward_verifier ::
  "'a prims_scheme \<Rightarrow> OnecoinLedger \<Rightarrow> bytes \<Rightarrow> bytes \<Rightarrow> unit result \<times> OnecoinLedger" where
  "authorize_reward_verifier P self authorizer_public_key new_verifier_public_key =
     (if \<not> bt_contains (l_reward_verifiers self)
            (ledger_key P (AweId_from_public_key P authorizer_public_key))
      then (Err ''caller is not an authorized reward verifier'', self)
      else let key = ledger_key P (AweId_from_public_key P new_verifier_public_key) in
        if \<not> bt_contains (l_members self) key
        then (Err ''reward verifier must be a network member'', self)
        else (Ok (), self\<lparr>l_reward_verifiers := bt_insert key new_verifier_public_key (l_reward_verifiers self)\<rparr>))"

definition ensure_member :: "'a prims_scheme \<Rightarrow> OnecoinLedger \<Rightarrow> AweId \<Rightarrow> OnecoinLedger" where
  "ensure_member P self i =
     (let key = ledger_key P i in
      self\<lparr>l_members := bt_or_insert key (aweid_bytes i) (l_members self),
           l_balances := bt_or_insert key 0 (l_balances self),
           l_nonces := bt_or_insert key 0 (l_nonces self)\<rparr>)"

definition pay_share :: "u128 \<Rightarrow> string \<Rightarrow> (string, u128) btree_map \<Rightarrow> (string, u128) btree_map" where
  "pay_share share member_key balances =
     bt_insert member_key (sat_add (bt_get_or balances member_key 0) share) balances"

definition register_member ::
  "'a prims_scheme \<Rightarrow> OnecoinLedger \<Rightarrow> AweId \<Rightarrow> JoinDistribution result \<times> OnecoinLedger" where
  "register_member P self i =
     (let key = ledger_key P i in
      if bt_contains (l_members self) key then (Err ''member already exists'', self)
      else
        let self = self\<lparr>l_members := bt_insert key (aweid_bytes i) (l_members self),
                        l_balances := bt_or_insert key 0 (l_balances self),
                        l_nonces := bt_or_insert key 0 (l_nonces self)\<rparr>;
            distribution = JoinDistribution_calculate i (member_count self)
        in (Ok distribution,
            if l_join_distribution_active self \<and> jd_active distribution then
              self\<lparr>l_balances := fold (pay_share (jd_per_member_atoms distribution))
                                   (map fst (l_members self)) (l_balances self),
                   l_total_issued_atoms := sat_add (l_total_issued_atoms self) (jd_distributed_atoms distribution),
                   l_join_remainder_atoms := sat_add (l_join_remainder_atoms self) (jd_remainder_atoms distribution)\<rparr>
            else self\<lparr>l_join_distribution_active := False\<rparr>))"

definition mint_verified_contribution_reward ::
  "'a coin_prims_scheme \<Rightarrow> OnecoinLedger \<Rightarrow> SignedContributionReceipt
     \<Rightarrow> ContributionReward result \<times> OnecoinLedger" where
  "mint_verified_contribution_reward P self signed_receipt =
     (let receipt_key = receipt_hash P signed_receipt in
      if \<not> receipt_verify P signed_receipt then (Err ''invalid contribution receipt signature'', self)
      else
        let verifier_key = ledger_key P (AweId_from_public_key P (sr_verifier_public_key signed_receipt)) in
        if bt_get (l_reward_verifiers self) verifier_key \<noteq> Some (sr_verifier_public_key signed_receipt)
        then (Err ''receipt signer is not an authorized reward verifier'', self)
        else if bt_contains (l_rewarded_receipts self) receipt_key
        then (Err ''contribution receipt was already rewarded'', self)
        else
          let node_key = ledger_key P (cr_node (sr_receipt signed_receipt)) in
          if \<not> bt_contains (l_members self) node_key then (Err ''reward recipient is not a member'', self)
          else case reward_for (l_reward_policy self) (sr_receipt signed_receipt) of
                 Inl e \<Rightarrow> (Inl e, self)
               | Inr reward_atoms \<Rightarrow>
                   (Ok \<lparr>rw_node = cr_node (sr_receipt signed_receipt), rw_receipt_hash = receipt_key,
                        rw_reward_atoms = reward_atoms\<rparr>,
                    self\<lparr>l_balances := bt_insert node_key
                              (sat_add (bt_get_or (l_balances self) node_key 0) reward_atoms) (l_balances self),
                         l_total_issued_atoms := sat_add (l_total_issued_atoms self) reward_atoms,
                         l_rewarded_receipts := bt_insert receipt_key reward_atoms (l_rewarded_receipts self)\<rparr>))"

definition apply_transfer_with_fee ::
  "'a coin_prims_scheme \<Rightarrow> OnecoinLedger \<Rightarrow> OnecoinTransaction \<Rightarrow> bytes \<Rightarrow> u16
     \<Rightarrow> (bytes \<times> u128) result \<times> OnecoinLedger" where
  "apply_transfer_with_fee P self tx sender_public_key fee_bps =
     (if fee_bps > 500 then (Err ''ONEBANK fee cannot exceed 5%'', self)
      else
        let fee = sat_mul (tx_amount_atoms tx) (ucast fee_bps) div 10000;
            sender_key = AweId_to_hex P (AweId_from_public_key P sender_public_key);
            recipient_key = hex_encode P (tx_recipient tx)
        in if \<not> bt_contains (l_members self) sender_key \<or> \<not> bt_contains (l_members self) recipient_key
           then (Err ''sender and recipient must be network members'', self)
        else let expected_nonce = bt_get_or (l_nonces self) sender_key 0 in
           if tx_nonce tx \<noteq> expected_nonce then (Err ''invalid transaction nonce'', self)
           else if tx_sender tx \<noteq> sender_public_key \<or> \<not> tx_verify P tx sender_public_key
           then (Err ''invalid ONECOIN signature'', self)
        else let sender_balance = bt_get_or (l_balances self) sender_key 0;
                 total = sat_add (tx_amount_atoms tx) fee in
           if sender_balance < total
           then (Err ''insufficient ONECOIN balance including ONEBANK fee'', self)
           else
             let balances = bt_insert sender_key (sender_balance - total) (l_balances self);
                 recipient_balance = bt_get_or balances recipient_key 0
             in (Ok (tx_id P tx, fee),
                 self\<lparr>l_balances := bt_insert recipient_key
                           (sat_add recipient_balance (tx_amount_atoms tx)) balances,
                      l_collected_fee_atoms := sat_add (l_collected_fee_atoms self) fee,
                      l_nonces := bt_insert sender_key (expected_nonce + 1) (l_nonces self)\<rparr>))"

definition receive_transfer ::
  "'a coin_prims_scheme \<Rightarrow> OnecoinLedger \<Rightarrow> OnecoinTransaction \<Rightarrow> bytes \<Rightarrow> AweId
     \<Rightarrow> bool result \<times> OnecoinLedger" where
  "receive_transfer P self tx sender_public_key recipient =
     (if tx_recipient tx \<noteq> aweid_bytes recipient
      then (Err ''ONECOIN transfer recipient does not match this wallet'', self)
      else if tx_sender tx \<noteq> sender_public_key \<or> \<not> tx_verify P tx sender_public_key
      then (Err ''invalid replicated ONECOIN signature'', self)
      else
        let self = ensure_member P self (AweId_from_public_key P sender_public_key);
            self = ensure_member P self recipient;
            txid = tx_id P tx
        in if bt_contains (l_received_transactions self) txid then (Ok False, self)
           else
             let recipient_key = ledger_key P recipient;
                 balance = bt_get_or (l_balances self) recipient_key 0
             in (Ok True,
                 self\<lparr>l_balances := bt_insert recipient_key (sat_add balance (tx_amount_atoms tx)) (l_balances self),
                      l_received_transactions :=
                        bt_insert txid (tx_amount_atoms tx) (l_received_transactions self)\<rparr>))"

definition apply_transfer ::
  "'a coin_prims_scheme \<Rightarrow> OnecoinLedger \<Rightarrow> OnecoinTransaction \<Rightarrow> bytes
     \<Rightarrow> bytes result \<times> OnecoinLedger" where
  "apply_transfer P self tx sender_public_key =
     (let sender_key = AweId_to_hex P (AweId_from_public_key P sender_public_key);
          recipient_key = hex_encode P (tx_recipient tx)
      in if \<not> bt_contains (l_members self) sender_key \<or> \<not> bt_contains (l_members self) recipient_key
         then (Err ''sender and recipient must be network members'', self)
      else let expected_nonce = bt_get_or (l_nonces self) sender_key 0 in
         if tx_nonce tx \<noteq> expected_nonce then (Err ''invalid transaction nonce'', self)
         else if tx_sender tx \<noteq> sender_public_key
         then (Err ''sender public key does not match transaction sender'', self)
         else if \<not> tx_verify P tx sender_public_key then (Err ''invalid ONECOIN signature'', self)
      else let sender_balance = bt_get_or (l_balances self) sender_key 0 in
         if sender_balance < tx_amount_atoms tx then (Err ''insufficient ONECOIN balance'', self)
         else
           let sender_after = sender_balance - tx_amount_atoms tx;
               balances = bt_insert sender_key sender_after (l_balances self);
               recipient_balance = bt_get_or balances recipient_key 0
           in (Ok (tx_id P tx),
               self\<lparr>l_balances := bt_insert recipient_key
                         (sat_add recipient_balance (tx_amount_atoms tx)) balances,
                    l_nonces := bt_insert sender_key (expected_nonce + 1) (l_nonces self)\<rparr>))"

end
