(* ===== verification/Onecoin_Props.thy ===== *)
theory Onecoin_Props
  imports Onecoin
begin

text \<open>
  The theorems about the ONECOIN ledger of \<open>Onecoin\<close>: its invariant and the supply bound, what a
  transfer moves, with and without a fee, and what an error leaves.
\<close>

section \<open>Moving value between two accounts\<close>

definition move :: "string \<Rightarrow> string \<Rightarrow> u128 \<Rightarrow> u128 \<Rightarrow> (string, u128) btree_map \<Rightarrow> (string, u128) btree_map" where
  "move s r debit amount b =
     (let b1 = bt_insert s (bt_get_or b s 0 - debit) b
      in bt_insert r (sat_add (bt_get_or b1 r 0) amount) b1)"

lemma move_inv [simp]: "bt_inv b \<Longrightarrow> bt_inv (move s r t a b)"
  by (simp add: move_def Let_def)

lemma move_dom: "dom (bt_get (move s r t a b)) = insert r (insert s (dom (bt_get b)))"
  by (auto simp: move_def Let_def dom_def)

lemma move_get:
  "bt_get_or (move s r t a b) k 0 =
     (if k = r then sat_add (if r = s then bt_get_or b s 0 - t else bt_get_or b r 0) a
      else if k = s then bt_get_or b s 0 - t else bt_get_or b k 0)"
  by (simp add: move_def Let_def)

lemma move_sum:
  assumes "bt_inv b" "t \<le> bt_get_or b s 0" "unat a \<le> unat t"
  shows "bt_sum unat (move s r t a b) + (unat t - unat a) \<le> bt_sum unat b"
    and "bt_sum unat b < 2 ^ 128 \<Longrightarrow>
           bt_sum unat (move s r t a b) + (unat t - unat a) = bt_sum unat b"
proof -
  define b1 where "b1 = bt_insert s (bt_get_or b s 0 - t) b"
  have b1: "bt_inv b1" using assms(1) by (simp add: b1_def)
  have u: "unat (bt_get_or b s 0 - t) = unat (bt_get_or b s 0) - unat t"
    using assms(2) by (rule unat_minus)
  have le: "unat t \<le> unat (bt_get_or b s 0)"
    using assms(2) by (simp add: word_le_nat_alt)
  have s1: "bt_sum unat b1 + unat t = bt_sum unat b"
    using bt_sum_insert_or [OF assms(1), of unat 0 s "bt_get_or b s 0 - t"] u le
    by (simp add: b1_def)
  have s2: "bt_sum unat (move s r t a b) + unat (bt_get_or b1 r 0)
              = bt_sum unat b1 + unat (sat_add (bt_get_or b1 r 0) a)"
    using bt_sum_insert_or [OF b1, of unat 0 r "sat_add (bt_get_or b1 r 0) a"]
    by (simp add: move_def b1_def Let_def)
  show "bt_sum unat (move s r t a b) + (unat t - unat a) \<le> bt_sum unat b"
    using s1 s2 sat_add_le_sum [of "bt_get_or b1 r 0" a] assms(3) by linarith
  assume small: "bt_sum unat b < 2 ^ 128"
  have "unat (bt_get_or b1 r 0) \<le> bt_sum unat b1"
    by (rule bt_sum_ge_or) simp
  then have "unat (bt_get_or b1 r 0) + unat a < 2 ^ LENGTH(128)"
    using s1 small assms(3) by simp
  then have "unat (sat_add (bt_get_or b1 r 0) a) = unat (bt_get_or b1 r 0) + unat a"
    by (rule sat_add_exact)
  then show "bt_sum unat (move s r t a b) + (unat t - unat a) = bt_sum unat b"
    using s1 s2 assms(3) by linarith
qed

section \<open>When a transfer is accepted\<close>

definition sender_key_of :: "'a prims_scheme \<Rightarrow> bytes \<Rightarrow> string" where
  "sender_key_of P pk = AweId_to_hex P (AweId_from_public_key P pk)"

definition recipient_key_of :: "'a prims_scheme \<Rightarrow> OnecoinTransaction \<Rightarrow> string" where
  "recipient_key_of P tx = hex_encode P (tx_recipient tx)"

definition fee_of :: "OnecoinTransaction \<Rightarrow> u16 \<Rightarrow> u128" where
  "fee_of tx fee_bps = sat_mul (tx_amount_atoms tx) (ucast fee_bps) div 10000"

text \<open>The guards of both transfer operations, that takes \<open>debit\<close> from the sender.\<close>

definition transfer_ready ::
  "'a coin_prims_scheme \<Rightarrow> OnecoinLedger \<Rightarrow> OnecoinTransaction \<Rightarrow> bytes \<Rightarrow> u128 \<Rightarrow> bool" where
  "transfer_ready P l tx pk debit \<longleftrightarrow>
     bt_contains (l_members l) (sender_key_of P pk) \<and> bt_contains (l_members l) (recipient_key_of P tx)
     \<and> tx_nonce tx = bt_get_or (l_nonces l) (sender_key_of P pk) 0
     \<and> tx_sender tx = pk \<and> tx_verify P tx pk
     \<and> debit \<le> bt_get_or (l_balances l) (sender_key_of P pk) 0"

definition transferred ::
  "'a coin_prims_scheme \<Rightarrow> OnecoinLedger \<Rightarrow> OnecoinTransaction \<Rightarrow> bytes \<Rightarrow> u128 \<Rightarrow> OnecoinLedger" where
  "transferred P l tx pk debit =
     l\<lparr>l_balances := move (sender_key_of P pk) (recipient_key_of P tx) debit (tx_amount_atoms tx) (l_balances l),
       l_nonces := bt_insert (sender_key_of P pk) (tx_nonce tx + 1) (l_nonces l)\<rparr>"

lemmas transfer_defs = transfer_ready_def transferred_def sender_key_of_def recipient_key_of_def
  fee_of_def move_def Let_def

lemma apply_transfer_cases:
  "transfer_ready P l tx pk (tx_amount_atoms tx) \<Longrightarrow>
     apply_transfer P l tx pk = (Ok (tx_id P tx), transferred P l tx pk (tx_amount_atoms tx))"
  "\<not> transfer_ready P l tx pk (tx_amount_atoms tx) \<Longrightarrow>
     snd (apply_transfer P l tx pk) = l \<and> \<not> is_ok (fst (apply_transfer P l tx pk))"
  by (auto simp: apply_transfer_def transfer_defs not_less)

lemma apply_transfer_with_fee_cases:
  "fee_bps \<le> 500 \<Longrightarrow> transfer_ready P l tx pk (sat_add (tx_amount_atoms tx) (fee_of tx fee_bps)) \<Longrightarrow>
     apply_transfer_with_fee P l tx pk fee_bps =
       (Ok (tx_id P tx, fee_of tx fee_bps),
        (transferred P l tx pk (sat_add (tx_amount_atoms tx) (fee_of tx fee_bps)))
          \<lparr>l_collected_fee_atoms := sat_add (l_collected_fee_atoms l) (fee_of tx fee_bps)\<rparr>)"
  "\<not> (fee_bps \<le> 500 \<and> transfer_ready P l tx pk (sat_add (tx_amount_atoms tx) (fee_of tx fee_bps))) \<Longrightarrow>
     snd (apply_transfer_with_fee P l tx pk fee_bps) = l
     \<and> \<not> is_ok (fst (apply_transfer_with_fee P l tx pk fee_bps))"
  by (auto simp: apply_transfer_with_fee_def transfer_defs not_less not_le)

lemma apply_transfer_OkE:
  assumes "apply_transfer P l tx pk = (Ok i, l')"
  obtains "transfer_ready P l tx pk (tx_amount_atoms tx)" "i = tx_id P tx"
    "l' = transferred P l tx pk (tx_amount_atoms tx)"
  using assms apply_transfer_cases [where P = P and l = l and tx = tx and pk = pk]
  by (cases "transfer_ready P l tx pk (tx_amount_atoms tx)") auto

lemma apply_transfer_with_fee_OkE:
  assumes "apply_transfer_with_fee P l tx pk fee_bps = (Ok i, l')"
  obtains "fee_bps \<le> 500" "transfer_ready P l tx pk (sat_add (tx_amount_atoms tx) (fee_of tx fee_bps))"
    "i = (tx_id P tx, fee_of tx fee_bps)"
    "l' = (transferred P l tx pk (sat_add (tx_amount_atoms tx) (fee_of tx fee_bps)))
          \<lparr>l_collected_fee_atoms := sat_add (l_collected_fee_atoms l) (fee_of tx fee_bps)\<rparr>"
  using assms apply_transfer_with_fee_cases
    [where P = P and l = l and tx = tx and pk = pk and fee_bps = fee_bps]
  by (cases "fee_bps \<le> 500 \<and> transfer_ready P l tx pk (sat_add (tx_amount_atoms tx) (fee_of tx fee_bps))") auto

section \<open>The invariant and the supply bound\<close>

definition ledger_inv :: "'a prims_scheme \<Rightarrow> OnecoinLedger \<Rightarrow> bool" where
  "ledger_inv P l \<longleftrightarrow>
     bt_inv (l_balances l) \<and> bt_inv (l_nonces l) \<and> bt_inv (l_members l)
     \<and> dom (bt_get (l_balances l)) = dom (bt_get (l_members l))
     \<and> dom (bt_get (l_nonces l)) = dom (bt_get (l_members l))
     \<and> (\<forall>k raw. bt_get (l_members l) k = Some raw \<longrightarrow> k = hex_encode P raw)
     \<and> (l_members l = [] \<longrightarrow> l_collected_fee_atoms l = 0)"

definition circulating :: "OnecoinLedger \<Rightarrow> nat" where
  "circulating l = bt_sum unat (l_balances l)"

definition coin_supply :: "OnecoinLedger \<Rightarrow> nat" where
  "coin_supply l = circulating l + unat (l_collected_fee_atoms l)"

text \<open>Balances and collected fees do not exceed what was issued, up to the largest amount a \<^verbatim>\<open>u128\<close> can
  show (all counters of the ledger saturate there).\<close>

definition supply_ok :: "OnecoinLedger \<Rightarrow> bool" where
  "supply_ok l \<longleftrightarrow> min (coin_supply l) (2 ^ 128 - 1) \<le> unat (l_total_issued_atoms l)"

text \<open>The same with \<open>r\<close> atoms to spare.\<close>

definition supply_within :: "nat \<Rightarrow> OnecoinLedger \<Rightarrow> bool" where
  "supply_within r l \<longleftrightarrow> min (coin_supply l) (2 ^ 128 - 1) \<le> unat (l_total_issued_atoms l) + r"

lemma supply_ok_within: "supply_ok l \<longleftrightarrow> supply_within 0 l"
  by (simp add: supply_ok_def supply_within_def)

lemma bt_contains_dom: "bt_contains m k \<longleftrightarrow> k \<in> dom (bt_get m)"
  by (auto simp: bt_contains_def)

lemma transferred_inv:
  assumes "ledger_inv P l" "transfer_ready P l tx pk debit"
  shows "ledger_inv P (transferred P l tx pk debit)"
proof -
  have dom: "sender_key_of P pk \<in> dom (bt_get (l_members l))"
      "recipient_key_of P tx \<in> dom (bt_get (l_members l))"
    using assms(2) by (simp_all add: transfer_ready_def bt_contains_dom)
  have "dom (bt_get (bt_insert k v m)) = insert k (dom (bt_get m))" for k v and m :: "(string, u64) btree_map"
    by (auto simp: dom_def)
  then show ?thesis
    using assms(1) dom by (simp add: ledger_inv_def transferred_def move_dom insert_absorb)
qed

lemma transferred_circulating:
  assumes "ledger_inv P l" "transfer_ready P l tx pk debit" "unat (tx_amount_atoms tx) \<le> unat debit"
  shows "circulating (transferred P l tx pk debit) + (unat debit - unat (tx_amount_atoms tx)) \<le> circulating l"
    and "circulating l < 2 ^ 128 \<Longrightarrow>
      circulating (transferred P l tx pk debit) + (unat debit - unat (tx_amount_atoms tx)) = circulating l"
proof -
  have move: "l_balances (transferred P l tx pk debit)
      = move (sender_key_of P pk) (recipient_key_of P tx) debit (tx_amount_atoms tx) (l_balances l)"
    by (simp add: transferred_def)
  have inv: "bt_inv (l_balances l)" and le: "debit \<le> bt_get_or (l_balances l) (sender_key_of P pk) 0"
    using assms by (simp_all add: ledger_inv_def transfer_ready_def)
  show "circulating (transferred P l tx pk debit) + (unat debit - unat (tx_amount_atoms tx)) \<le> circulating l"
    unfolding circulating_def move by (rule move_sum(1) [OF inv le assms(3)])
  show "circulating (transferred P l tx pk debit) + (unat debit - unat (tx_amount_atoms tx)) = circulating l"
    if "circulating l < 2 ^ 128"
    using that unfolding circulating_def move by (rule move_sum(2) [OF inv le assms(3)])
qed

lemma debit_with_fee:
  assumes "transfer_ready P l tx pk (sat_add a f)" "ledger_inv P l" "circulating l < 2 ^ 128 - 1"
  shows "unat (sat_add a f) = unat a + unat f"
proof -
  have "unat (sat_add a f) \<le> unat (bt_get_or (l_balances l) (sender_key_of P pk) 0)"
    using assms(1) by (simp add: transfer_ready_def word_le_nat_alt)
  also have "\<dots> \<le> circulating l"
    unfolding circulating_def by (rule bt_sum_ge_or) simp
  finally show ?thesis
    using assms(3) by (simp add: unat_sat_add)
qed

text \<open>C4. A transfer conserves value: when it succeeds, the sum of all balances is unchanged, the
  sender has lost exactly the amount and the recipient has gained it (nothing moves when they are the
  same account), and no other account changes.\<close>

theorem apply_transfer_conserves:
  assumes "ledger_inv P l" "circulating l < 2 ^ 128" "apply_transfer P l tx pk = (Ok i, l')"
  shows "circulating l' = circulating l
    \<and> (sender_key_of P pk \<noteq> recipient_key_of P tx \<longrightarrow>
         unat (bt_get_or (l_balances l') (sender_key_of P pk) 0) + unat (tx_amount_atoms tx)
           = unat (bt_get_or (l_balances l) (sender_key_of P pk) 0)
       \<and> unat (bt_get_or (l_balances l') (recipient_key_of P tx) 0)
           = unat (bt_get_or (l_balances l) (recipient_key_of P tx) 0) + unat (tx_amount_atoms tx))
    \<and> (\<forall>k. k \<noteq> sender_key_of P pk \<longrightarrow> k \<noteq> recipient_key_of P tx \<longrightarrow>
         bt_get_or (l_balances l') k 0 = bt_get_or (l_balances l) k 0)"
proof -
  let ?s = "sender_key_of P pk" and ?r = "recipient_key_of P tx" and ?a = "tx_amount_atoms tx"
  obtain ready: "transfer_ready P l tx pk ?a" and l': "l' = transferred P l tx pk ?a"
    using assms(3) by (rule apply_transfer_OkE)
  have bal: "l_balances l' = move ?s ?r ?a ?a (l_balances l)"
    by (simp add: l' transferred_def)
  have le: "?a \<le> bt_get_or (l_balances l) ?s 0"
    using ready by (simp add: transfer_ready_def)
  have two: "unat (bt_get_or (l_balances l) ?r 0) + unat ?a < 2 ^ 128" if "?s \<noteq> ?r"
  proof -
    have "bt_sum unat (bt_insert ?s 0 (l_balances l)) + unat (bt_get_or (l_balances l) ?s 0) = circulating l"
      using bt_sum_insert_or [of "l_balances l" unat 0 ?s 0] assms(1)
      by (simp add: circulating_def ledger_inv_def)
    moreover have "unat (bt_get_or (bt_insert ?s 0 (l_balances l)) ?r 0) \<le> bt_sum unat (bt_insert ?s 0 (l_balances l))"
      by (rule bt_sum_ge_or) simp
    ultimately show ?thesis
      using that le assms(2) by (simp add: word_le_nat_alt)
  qed
  have "circulating l' = circulating l"
    using transferred_circulating(2) [OF assms(1) ready] assms(2) l' by simp
  then show ?thesis
    using two le by (auto simp: bal move_get unat_minus word_le_nat_alt unat_sat_add)
qed


section \<open>A concrete ledger\<close>

text \<open>A two-member ledger over \<open>demo_prims\<close>; the examples below evaluate the operations on it.\<close>

definition demo_coin :: coin_prims where
  "demo_coin = prims.extend demo_prims
     \<lparr>tx_json = (\<lambda>tx. tx_signature tx @ tx_recipient tx @ be_bytes 16 (unat (tx_amount_atoms tx))
                      @ to_be_bytes_u64 (tx_nonce tx)),
      receipt_json = (\<lambda>r. sr_signature r @ aweid_bytes (cr_node (sr_receipt r))
                      @ to_be_bytes_u64 (cr_period_end_unix (sr_receipt r)))\<rparr>"

lemma demo_coin_simps [simp]:
  "sha256 demo_coin m = pad32 (rev m)" "blake3 demo_coin m = pad32 (rev m)"
  "blake3_keyed demo_coin k m = pad32 (rev (k @ m))"
  "hex_encode demo_coin b = from_bytes b" "hex_decode demo_coin s = Some (as_bytes s)"
  "ed_public demo_coin k = k" "ed_sign demo_coin k m = pad32 m @ pad32 k"
  "ed_key_ok demo_coin k" "ed_verify demo_coin k m sig \<longleftrightarrow> sig = pad32 m @ pad32 k"
  "tx_json demo_coin tx = tx_signature tx @ tx_recipient tx @ be_bytes 16 (unat (tx_amount_atoms tx))
                      @ to_be_bytes_u64 (tx_nonce tx)"
  "receipt_json demo_coin r = sr_signature r @ aweid_bytes (cr_node (sr_receipt r))
                      @ to_be_bytes_u64 (cr_period_end_unix (sr_receipt r))"
  by (simp_all add: demo_coin_def demo_prims_def prims.defs)

lemma pad32_long: "length m = 32 \<Longrightarrow> pad32 (m @ r) = m"
  by (simp add: pad32_def)

lemma demo_aweid: "length pk = 32 \<Longrightarrow> AweId_from_public_key demo_coin pk = AweId (rev pk)"
  by (simp add: AweId_from_public_key_def hash_def hash_input_def pad32_long)

definition demo_ledger :: OnecoinLedger where
  "demo_ledger = OnecoinLedger_default
     \<lparr>l_members := [(from_bytes (replicate 32 1), replicate 32 1), (from_bytes (replicate 32 2), replicate 32 2)],
      l_balances := [(from_bytes (replicate 32 1), 10 * ATOMS_PER_COIN),
                     (from_bytes (replicate 32 2), 10 * ATOMS_PER_COIN)],
      l_nonces := [(from_bytes (replicate 32 1), 0), (from_bytes (replicate 32 2), 0)],
      l_total_issued_atoms := 20 * ATOMS_PER_COIN,
      l_reward_verifiers := [(from_bytes (replicate 32 1), replicate 32 1)]\<rparr>"

definition demo_tx :: OnecoinTransaction where
  "demo_tx = \<lparr>tx_version = 1, tx_nonce = 0, tx_sender = replicate 32 1, tx_recipient = replicate 32 2,
     tx_amount_atoms = 1000, tx_memo = None, tx_signature = replicate 32 0 @ replicate 32 1\<rparr>"

lemma demo_keys:
  "from_bytes (replicate 32 1) = replicate 32 (CHR 0x01)"
  "from_bytes (replicate 32 2) = replicate 32 (CHR 0x02)"
  by (code_simp, code_simp)

lemma demo_keys_less: "replicate 32 (CHR 0x01) < replicate 32 (CHR 0x02)"
  by code_simp

lemma demo_sender_key [simp]: "sender_key_of demo_coin (replicate 32 1) = from_bytes (replicate 32 1)"
  by (simp add: sender_key_of_def AweId_to_hex_def demo_aweid)

lemma demo_ready: "debit \<le> 10 * ATOMS_PER_COIN \<Longrightarrow> transfer_ready demo_coin demo_ledger demo_tx (replicate 32 1) debit"
  by (simp add: transfer_ready_def demo_ledger_def OnecoinLedger_default_def demo_tx_def recipient_key_of_def
      bt_contains_def bt_get_def bt_get_or_def tx_verify_def tx_signing_bytes_def pad32_def)

lemma demo_ledger_inv: "ledger_inv demo_coin demo_ledger"
  by (auto simp: ledger_inv_def demo_ledger_def OnecoinLedger_default_def bt_get_def bt_inv_def demo_keys
      demo_keys_less split: if_splits) 

lemma demo_circulating: "circulating demo_ledger = 20 * 10 ^ 18"
  by (simp add: circulating_def demo_ledger_def OnecoinLedger_default_def bt_sum_def ATOMS_PER_COIN_def)

theorem apply_transfer_conserves_witness:
  "\<exists>i l'. apply_transfer demo_coin demo_ledger demo_tx (replicate 32 1) = (Ok i, l')
     \<and> circulating l' = 20 * 10 ^ 18"
proof -
  have "apply_transfer demo_coin demo_ledger demo_tx (replicate 32 1)
          = (Ok (tx_id demo_coin demo_tx), transferred demo_coin demo_ledger demo_tx (replicate 32 1) (tx_amount_atoms demo_tx))"
    by (intro apply_transfer_cases(1) demo_ready) (simp add: demo_tx_def ATOMS_PER_COIN_def)
  moreover from this have "circulating (transferred demo_coin demo_ledger demo_tx (replicate 32 1) (tx_amount_atoms demo_tx))
      = circulating demo_ledger"
    using apply_transfer_conserves [OF demo_ledger_inv] by (simp add: demo_circulating)
  ultimately show ?thesis
    by (simp add: demo_circulating)
qed


section \<open>Fees and failed transfers\<close>

lemma fee_product_le: "fee_bps \<le> 500 \<Longrightarrow> n * unat (fee_bps :: u16) \<le> n * 500"
  by (rule mult_le_mono2) (simp add: word_le_nat_alt)

lemma fee_of_exact:
  assumes "fee_bps \<le> 500" "unat (tx_amount_atoms tx) * 500 < 2 ^ 128"
  shows "unat (fee_of tx fee_bps) = unat (tx_amount_atoms tx) * unat fee_bps div 10000"
proof -
  have "unat (tx_amount_atoms tx) * unat fee_bps \<le> 2 ^ 128 - 1"
    using fee_product_le [OF assms(1), of "unat (tx_amount_atoms tx)"] assms(2) by linarith
  then have "min (unat (tx_amount_atoms tx) * unat fee_bps) (2 ^ 128 - 1) = unat (tx_amount_atoms tx) * unat fee_bps"
    by (rule min_absorb1)
  then show ?thesis
    by (simp add: fee_of_def unat_div unat_sat_mul unat_ucast_up)
qed

text \<open>C20. A transfer with a bank fee takes amount and fee from the sender, credits the amount to the
  recipient and the fee to the collected fees, so balances and collected fees together are unchanged;
  the fee is the floor of \<^verbatim>\<open>amount * bps / 10000\<close> and at most a twentieth of the amount.\<close>

theorem fee_transfer_conserves:
  assumes "ledger_inv P l" "coin_supply l < 2 ^ 128 - 1" "unat (tx_amount_atoms tx) * 500 < 2 ^ 128"
    and "apply_transfer_with_fee P l tx pk fee_bps = (Ok (i, fee), l')"
  shows "coin_supply l' = coin_supply l
    \<and> unat fee = unat (tx_amount_atoms tx) * unat fee_bps div 10000
    \<and> 20 * unat fee \<le> unat (tx_amount_atoms tx)
    \<and> unat (l_collected_fee_atoms l') = unat (l_collected_fee_atoms l) + unat fee"
proof -
  let ?a = "tx_amount_atoms tx" and ?f = "fee_of tx fee_bps"
  from assms(4) obtain bps: "fee_bps \<le> 500" and ready: "transfer_ready P l tx pk (sat_add ?a ?f)"
    and fee: "fee = ?f" and l': "l' = (transferred P l tx pk (sat_add ?a ?f))
          \<lparr>l_collected_fee_atoms := sat_add (l_collected_fee_atoms l) ?f\<rparr>"
    by (auto elim: apply_transfer_with_fee_OkE)
  have circ: "circulating l < 2 ^ 128 - 1"
    using assms(2) by (simp add: coin_supply_def)
  have debit: "unat (sat_add ?a ?f) = unat ?a + unat ?f"
    using ready assms(1) circ by (rule debit_with_fee)
  have sum: "circulating (transferred P l tx pk (sat_add ?a ?f)) + unat ?f = circulating l"
    using transferred_circulating(2) [OF assms(1) ready] debit circ by simp
  moreover have "circulating l' = circulating (transferred P l tx pk (sat_add ?a ?f))"
    by (simp add: l' circulating_def)
  moreover have coll: "unat (l_collected_fee_atoms l') = unat (l_collected_fee_atoms l) + unat ?f"
  proof -
    have "unat (l_collected_fee_atoms l) + unat ?f < 2 ^ LENGTH(128)"
      using sum assms(2) by (simp add: coin_supply_def)
    then show ?thesis
      by (simp add: l' sat_add_exact)
  qed
  moreover have ex: "unat ?f = unat ?a * unat fee_bps div 10000"
    using bps assms(3) by (rule fee_of_exact)
  moreover have "20 * unat ?f \<le> unat ?a"
    using fee_product_le [OF bps, of "unat ?a"] unfolding ex by linarith
  ultimately show ?thesis
    by (simp add: coin_supply_def fee)
qed

theorem fee_transfer_conserves_witness:
  "\<exists>i fee l'. apply_transfer_with_fee demo_coin demo_ledger demo_tx (replicate 32 1) 100 = (Ok (i, fee), l')
     \<and> coin_supply l' = 20 * 10 ^ 18 \<and> unat fee = 10"
proof -
  let ?f = "fee_of demo_tx 100"
  have f: "?f = 10" and amount: "tx_amount_atoms demo_tx = 1000"
    by (simp_all add: fee_of_def demo_tx_def sat_mul_def)
  have run: "apply_transfer_with_fee demo_coin demo_ledger demo_tx (replicate 32 1) 100
     = (Ok (tx_id demo_coin demo_tx, ?f),
        (transferred demo_coin demo_ledger demo_tx (replicate 32 1) (sat_add (tx_amount_atoms demo_tx) ?f))
          \<lparr>l_collected_fee_atoms := sat_add (l_collected_fee_atoms demo_ledger) ?f\<rparr>)"
    by (intro apply_transfer_with_fee_cases(1) demo_ready)
       (simp_all add: f amount ATOMS_PER_COIN_def sat_add_def)
  have s: "coin_supply demo_ledger = 20 * 10 ^ 18"
    using demo_circulating by (simp add: coin_supply_def demo_ledger_def OnecoinLedger_default_def)
  have a: "unat (tx_amount_atoms demo_tx) * 500 < 2 ^ 128"
    by (simp add: demo_tx_def)
  have "coin_supply (snd (apply_transfer_with_fee demo_coin demo_ledger demo_tx (replicate 32 1) 100)) = coin_supply demo_ledger"
    using fee_transfer_conserves [OF demo_ledger_inv _ a run] by (simp add: s run)
  then show ?thesis
    by (simp add: run s f)
qed

text \<open>C21. A transfer that is refused leaves the ledger exactly as it was, and it is refused whenever
  a party is not a member, the nonce is not the sender's next one, the declared sender is not the
  signing key, the signature does not verify, or the balance is too small.\<close>

theorem refused_transfer_changes_nothing:
  "(\<not> is_ok (fst (apply_transfer P l tx pk)) \<longrightarrow> snd (apply_transfer P l tx pk) = l)
   \<and> (\<not> is_ok (fst (apply_transfer_with_fee P l tx pk bps)) \<longrightarrow> snd (apply_transfer_with_fee P l tx pk bps) = l)
   \<and> (is_ok (fst (apply_transfer P l tx pk)) \<longleftrightarrow>
        bt_contains (l_members l) (sender_key_of P pk) \<and> bt_contains (l_members l) (recipient_key_of P tx)
        \<and> tx_nonce tx = bt_get_or (l_nonces l) (sender_key_of P pk) 0
        \<and> tx_sender tx = pk \<and> tx_verify P tx pk
        \<and> tx_amount_atoms tx \<le> bt_get_or (l_balances l) (sender_key_of P pk) 0)"
proof -
  have "is_ok (fst (apply_transfer P l tx pk)) \<longleftrightarrow> transfer_ready P l tx pk (tx_amount_atoms tx)"
    using apply_transfer_cases [where P = P and l = l and tx = tx and pk = pk]
    by (cases "transfer_ready P l tx pk (tx_amount_atoms tx)") simp_all
  moreover have "\<not> is_ok (fst (apply_transfer P l tx pk)) \<longrightarrow> snd (apply_transfer P l tx pk) = l"
    using calculation apply_transfer_cases(2) by blast
  moreover have "\<not> is_ok (fst (apply_transfer_with_fee P l tx pk bps)) \<longrightarrow> snd (apply_transfer_with_fee P l tx pk bps) = l"
    using apply_transfer_with_fee_cases [where P = P and l = l and tx = tx and pk = pk and fee_bps = bps]
    by (metis fst_conv is_ok_simps(1))
  ultimately show ?thesis
    unfolding transfer_ready_def by blast
qed

theorem refused_transfer_changes_nothing_witness:
  "\<not> is_ok (fst (apply_transfer demo_coin OnecoinLedger_default demo_tx (replicate 32 1)))
   \<and> snd (apply_transfer demo_coin OnecoinLedger_default demo_tx (replicate 32 1)) = OnecoinLedger_default"
  using refused_transfer_changes_nothing [of demo_coin OnecoinLedger_default demo_tx "replicate 32 1" 0]
  by (simp add: OnecoinLedger_default_def bt_contains_def bt_get_def)

end
