(* ===== verification/Onecoin_Supply.thy ===== *)
theory Onecoin_Supply
  imports Onecoin_Props
begin

text \<open>
  The operations of the ONECOIN ledger as a step relation: every state the ledger reaches keeps its
  invariant and the supply bound (rule induction), a transaction or a contribution receipt counts at
  most once, and the join distribution and the price floor are what the constants of
  \<^verbatim>\<open>core/src/onecoin.rs\<close> say. \<^verbatim>\<open>receive_transfer\<close> credits a wallet without issuing; what it credits is
  recorded in the ledger and is part of the bound.
\<close>

section \<open>Folds over the members\<close>

lemma dom_insert [simp]: "dom (bt_get (bt_insert k v m)) = insert k (dom (bt_get m))"
  by (auto simp: dom_def)

lemma dom_or_insert [simp]: "dom (bt_get (bt_or_insert k v m)) = insert k (dom (bt_get m))"
  by (auto simp: dom_def)

lemma dom_Nil [simp]: "dom (bt_get []) = {}"
  by (simp add: bt_dom)

lemma bt_insert_not_Nil [simp]: "bt_insert k v m \<noteq> []"
  by (cases m) auto

lemma dom_empty_iff: "dom (bt_get m) = {} \<longleftrightarrow> m = []"
  by (simp add: bt_dom)

lemma genesis_members:
  "l_members (fold genesis_insert es l) = fold (\<lambda>(k, v) m. bt_insert k v m) es (l_members l)"
  by (induction es arbitrary: l) (simp_all add: genesis_insert_def case_prod_unfold)

lemma genesis_balances:
  "l_balances (fold genesis_insert es l)
     = fold (\<lambda>k m. bt_insert k INITIAL_GENESIS_ALLOCATION m) (map fst es) (l_balances l)"
  by (induction es arbitrary: l) (simp_all add: genesis_insert_def)

lemma genesis_nonces:
  "l_nonces (fold genesis_insert es l) = fold (\<lambda>k m. bt_insert k 0 m) (map fst es) (l_nonces l)"
  by (induction es arbitrary: l) (simp_all add: genesis_insert_def)

lemma genesis_frame [frame_simps]:
  "l_collected_fee_atoms (fold genesis_insert es l) = l_collected_fee_atoms l"
  "l_total_issued_atoms (fold genesis_insert es l) = l_total_issued_atoms l"
  "l_rewarded_receipts (fold genesis_insert es l) = l_rewarded_receipts l"
  "l_reward_verifiers (fold genesis_insert es l) = l_reward_verifiers l"
  "l_received_transactions (fold genesis_insert es l) = l_received_transactions l"
  by (induction es arbitrary: l) (simp_all add: genesis_insert_def)

lemma fold_insert_dom: "dom (bt_get (fold (\<lambda>k m. bt_insert k c m) ks m)) = set ks \<union> dom (bt_get m)"
  by (induction ks arbitrary: m) auto

lemma fold_insert_inv: "bt_inv m \<Longrightarrow> bt_inv (fold (\<lambda>k m. bt_insert k c m) ks m)"
  by (induction ks arbitrary: m) auto

lemma fold_insert_get:
  "bt_get (fold (\<lambda>k m. bt_insert k c m) ks m) j = (if j \<in> set ks then Some c else bt_get m j)"
  by (induction ks arbitrary: m) auto

lemma fold_insert_sum:
  assumes "distinct ks" "set ks \<inter> dom (bt_get m) = {}" "bt_inv m"
  shows "bt_sum f (fold (\<lambda>k m. bt_insert k c m) ks m) = bt_sum f m + length ks * f c"
  using assms
proof (induction ks arbitrary: m)
  case (Cons k ks)
  then have "bt_get m k = None"
    by auto
  then have "bt_sum f (bt_insert k c m) = bt_sum f m + f c"
    using bt_sum_insert [OF Cons.prems(3), of f k c] by simp
  then show ?case
    using Cons by auto
qed simp

lemma fold_entries_dom:
  "dom (bt_get (fold (\<lambda>(k, v) m. bt_insert k v m) es m)) = set (map fst es) \<union> dom (bt_get m)"
  by (induction es arbitrary: m) auto

lemma fold_entries_mem:
  "bt_get (fold (\<lambda>(k, v) m. bt_insert k v m) es m) k = Some v \<Longrightarrow> (k, v) \<in> set es \<or> bt_get m k = Some v"
  by (induction es arbitrary: m) (force split: if_splits)+

lemma pay_share_dom: "k \<in> dom (bt_get b) \<Longrightarrow> dom (bt_get (pay_share s k b)) = dom (bt_get b)"
  by (auto simp: pay_share_def)

lemma pay_shares_dom: "set ks \<subseteq> dom (bt_get b) \<Longrightarrow> dom (bt_get (fold (pay_share s) ks b)) = dom (bt_get b)"
  by (induction ks arbitrary: b) (simp_all add: pay_share_dom)

lemma pay_shares_inv: "bt_inv b \<Longrightarrow> bt_inv (fold (pay_share s) ks b)"
  by (induction ks arbitrary: b) (simp_all add: pay_share_def)

lemma pay_shares_get:
  "distinct ks \<Longrightarrow> bt_get_or (fold (pay_share s) ks b) k 0
     = (if k \<in> set ks then sat_add (bt_get_or b k 0) s else bt_get_or b k 0)"
  by (induction ks arbitrary: b) (auto simp: pay_share_def)

lemma pay_shares_sum: "bt_inv b \<Longrightarrow> bt_sum unat (fold (pay_share s) ks b) \<le> bt_sum unat b + length ks * unat s"
proof (induction ks arbitrary: b)
  case (Cons k ks)
  have "bt_sum unat (pay_share s k b) \<le> bt_sum unat b + unat s"
    using bt_sum_insert_or [OF Cons.prems, of unat 0 k "sat_add (bt_get_or b k 0) s"]
      sat_add_le_sum [of "bt_get_or b k 0" s] by (simp add: pay_share_def)
  moreover have "bt_inv (pay_share s k b)"
    using Cons.prems by (simp add: pay_share_def)
  ultimately show ?case
    using Cons.IH [of "pay_share s k b"] by simp
qed simp

section \<open>The join distribution\<close>

lemma join_calculate:
  assumes "0 < n"
  shows "unat (jd_per_member_atoms (JoinDistribution_calculate i n)) = 10 ^ 18 div unat n"
    and "unat (jd_distributed_atoms (JoinDistribution_calculate i n)) = unat n * (10 ^ 18 div unat n)"
    and "unat (jd_remainder_atoms (JoinDistribution_calculate i n)) = 10 ^ 18 mod unat n"
    and "jd_active (JoinDistribution_calculate i n) \<longleftrightarrow> unat n \<le> 10 ^ 18"
proof -
  have pos: "0 < unat n"
    using assms by (simp add: unat_gt_0)
  then have n: "max n 1 = n"
    by (simp add: max_def word_le_nat_alt word_unat_eq_iff)
  let ?share = "JOIN_DISTRIBUTION div (ucast n :: u128)"
  have coin: "unat JOIN_DISTRIBUTION = 10 ^ 18"
    by (simp add: JOIN_DISTRIBUTION_def ATOMS_PER_COIN_def)
  have share: "unat ?share = 10 ^ 18 div unat n"
    by (simp add: unat_div coin unat_ucast_up)
  have "unat n * (10 ^ 18 div unat n) \<le> 10 ^ 18"
    by simp
  then have dist: "unat (sat_mul ?share (ucast n)) = unat n * (10 ^ 18 div unat n)"
    by (simp add: unat_sat_mul share unat_ucast_up mult.commute del: times_div_less_eq_dividend)
  have "unat (sat_sub JOIN_DISTRIBUTION (sat_mul ?share (ucast n))) = 10 ^ 18 - unat n * (10 ^ 18 div unat n)"
    by (simp add: unat_sat_sub coin dist)
  then have rem: "unat (sat_sub JOIN_DISTRIBUTION (sat_mul ?share (ucast n))) = 10 ^ 18 mod unat n"
    by (simp only: minus_mult_div_eq_mod)
  have "1 \<le> ?share \<longleftrightarrow> 1 \<le> 10 ^ 18 div unat n"
    unfolding word_le_nat_alt share by simp
  then have act: "1 \<le> ?share \<longleftrightarrow> unat n \<le> 10 ^ 18"
    using pos by (simp add: Suc_le_eq div_greater_zero_iff)
  show "unat (jd_per_member_atoms (JoinDistribution_calculate i n)) = 10 ^ 18 div unat n"
    "unat (jd_distributed_atoms (JoinDistribution_calculate i n)) = unat n * (10 ^ 18 div unat n)"
    "unat (jd_remainder_atoms (JoinDistribution_calculate i n)) = 10 ^ 18 mod unat n"
    "jd_active (JoinDistribution_calculate i n) \<longleftrightarrow> unat n \<le> 10 ^ 18"
    by (simp_all add: JoinDistribution_calculate_def Let_def n share dist rem act MIN_JOIN_SHARE_def)
qed

text \<open>A new member's registration splits exactly one coin: with \<open>n\<close> members after the join, each
  of them gets the floor of \<open>10^18 / n\<close> atoms; what is distributed and the recorded remainder add up to
  the coin, and the remainder is smaller than \<open>n\<close>; no one else's balance changes.\<close>

theorem register_member_splits_one_coin:
  assumes "ledger_inv P l" "l_join_distribution_active l" "length (l_members l) < 10 ^ 18"
    and "register_member P l i = (Ok d, l')"
  shows "length (l_members l') = length (l_members l) + 1
    \<and> unat (jd_per_member_atoms d) = 10 ^ 18 div length (l_members l')
    \<and> unat (jd_distributed_atoms d) = length (l_members l') * unat (jd_per_member_atoms d)
    \<and> unat (jd_distributed_atoms d) + unat (jd_remainder_atoms d) = 10 ^ 18
    \<and> unat (jd_remainder_atoms d) < length (l_members l')
    \<and> (\<forall>k. bt_get_or (l_balances l') k 0 =
          (if bt_contains (l_members l') k then sat_add (bt_get_or (l_balances l) k 0) (jd_per_member_atoms d)
           else bt_get_or (l_balances l) k 0))"
proof -
  let ?k = "ledger_key P i"
  have new: "\<not> bt_contains (l_members l) ?k"
    using assms(4) by (auto simp: register_member_def Let_def split: if_splits)
  define members where "members = bt_insert ?k (aweid_bytes i) (l_members l)"
  define n where "n = (of_nat (length members) :: u64)"
  have mem: "bt_inv (l_members l)" "bt_inv members"
    using assms(1) by (simp_all add: ledger_inv_def members_def)
  have len: "length members = length (l_members l) + 1"
    using new mem(1) by (simp add: members_def bt.len_insert bt_contains_def)
  have un: "unat n = length members"
    using assms(3) len unfolding n_def by (intro unat_of_nat_small) simp
  have pos: "0 < n"
    using un len by (metis add_gr_0 less_numeral_extra(1) unat_gt_0 word_gt_0)
  have d: "d = JoinDistribution_calculate i n"
    using assms(4) new by (simp add: register_member_def Let_def member_count_def n_def members_def)
  have act: "jd_active d"
    using join_calculate(4) [OF pos] assms(3) len un d by simp
  have l': "l_members l' = members"
    "l_balances l' = fold (pay_share (jd_per_member_atoms d)) (map fst members) (bt_or_insert ?k 0 (l_balances l))"
    using assms(2,4) new act d by (auto simp: register_member_def Let_def member_count_def n_def members_def)
  have none: "bt_get_or (bt_or_insert ?k 0 (l_balances l)) k 0 = bt_get_or (l_balances l) k 0" for k
    by (simp add: bt_get_or_def split: option.split)
  have bal: "\<forall>k. bt_get_or (l_balances l') k 0 =
          (if bt_contains members k then sat_add (bt_get_or (l_balances l) k 0) (jd_per_member_atoms d)
           else bt_get_or (l_balances l) k 0)"
    using pay_shares_get [OF bt_distinct [OF mem(2)], of "jd_per_member_atoms d" "bt_or_insert ?k 0 (l_balances l)"]
    unfolding l' none bt_contains_dom bt_dom by simp
  note calc = join_calculate(1-3) [OF pos, of i, folded d, unfolded un]
  have "unat (jd_distributed_atoms d) + unat (jd_remainder_atoms d) = 10 ^ 18"
    unfolding calc by (rule mult_div_mod_eq)
  moreover have "unat (jd_remainder_atoms d) < length members"
    unfolding calc using len by (intro mod_less_divisor) simp
  ultimately show ?thesis
    using bal calc(1) calc(2) [folded calc(1)] len unfolding l'(1) by blast
qed

theorem register_member_splits_one_coin_witness:
  "\<exists>d l'. register_member demo_coin demo_ledger (AweId (replicate 32 3)) = (Ok d, l')
     \<and> length (l_members l') = 3 \<and> unat (jd_distributed_atoms d) + unat (jd_remainder_atoms d) = 10 ^ 18"
proof -
  let ?r = "register_member demo_coin demo_ledger (AweId (replicate 32 3))"
  have len: "length (l_members demo_ledger) = 2" and act: "l_join_distribution_active demo_ledger"
    by (simp_all add: demo_ledger_def OnecoinLedger_default_def)
  have "\<not> bt_contains (l_members demo_ledger) (ledger_key demo_coin (AweId (replicate 32 3)))"
    by (simp add: demo_ledger_def ledger_key_def AweId_to_hex_def bt_contains_def bt_get_def from_bytes_def)
  then obtain d l' where run: "?r = (Ok d, l')"
    by (simp add: register_member_def Let_def)
  have "length (l_members demo_ledger) < 10 ^ 18"
    by (simp add: len)
  note split = register_member_splits_one_coin [OF demo_ledger_inv act this run]
  have "length (l_members l') = 3"
    using split len by linarith
  then show ?thesis
    using split run by blast
qed


section \<open>The ledger as a transition system\<close>

text \<open>
  One rule per operation that changes the ledger, failures included. The rules that add members keep the
  member table below \<open>2^64\<close> entries, which the width of \<^verbatim>\<open>usize\<close> guarantees.
\<close>

inductive ledger_step :: "'a coin_prims_scheme \<Rightarrow> OnecoinLedger \<Rightarrow> OnecoinLedger \<Rightarrow> bool" for P where
  genesis: "initialize_genesis P l members = (r, l') \<Longrightarrow> length (l_members l') < 2 ^ 64 \<Longrightarrow> ledger_step P l l'"
| genesis_verifiers: "initialize_genesis_with_verifiers P l members verifiers = (r, l') \<Longrightarrow>
    length (l_members l') < 2 ^ 64 \<Longrightarrow> ledger_step P l l'"
| authorize: "authorize_reward_verifier P l a v = (r, l') \<Longrightarrow> ledger_step P l l'"
| ensure: "length (l_members (ensure_member P l i)) < 2 ^ 64 \<Longrightarrow> ledger_step P l (ensure_member P l i)"
| register: "register_member P l i = (d, l') \<Longrightarrow> length (l_members l') < 2 ^ 64 \<Longrightarrow> ledger_step P l l'"
| mint: "mint_verified_contribution_reward P l receipt = (w, l') \<Longrightarrow> ledger_step P l l'"
| transfer: "apply_transfer P l tx pk = (i, l') \<Longrightarrow> ledger_step P l l'"
| transfer_fee: "apply_transfer_with_fee P l tx pk bps = (x, l') \<Longrightarrow> ledger_step P l l'"
| receive: "receive_transfer P l tx pk i = (x, l') \<Longrightarrow> length (l_members l') < 2 ^ 64 \<Longrightarrow> ledger_step P l l'"
| price: "ledger_step P l (l\<lparr>l_price := observe_reference_price_usd_cents (l_price l) cents\<rparr>)"

abbreviation ledger_good :: "'a coin_prims_scheme \<Rightarrow> OnecoinLedger \<Rightarrow> bool" where
  "ledger_good P l \<equiv> ledger_inv P l \<and> supply_ok l"

abbreviation ledger_within :: "nat \<Rightarrow> 'a coin_prims_scheme \<Rightarrow> OnecoinLedger \<Rightarrow> bool" where
  "ledger_within n P l \<equiv> ledger_inv P l \<and> supply_within n l"

lemma supply_within_issue:
  assumes "supply_within n l" "coin_supply l' \<le> coin_supply l + unat x"
    "l_total_issued_atoms l' = sat_add (l_total_issued_atoms l) x"
  shows "supply_within n l'"
  using assms by (auto simp: supply_within_def unat_sat_add min_def split: if_splits)

lemma supply_within_same:
  assumes "supply_within n l" "coin_supply l' \<le> coin_supply l" "l_total_issued_atoms l' = l_total_issued_atoms l"
  shows "supply_within n l'"
  using assms by (auto simp: supply_within_def min_def split: if_splits)

lemma initialize_genesis_within:
  assumes good: "ledger_within n P l" and run: "initialize_genesis P l members = (r, l')"
    and small: "length (l_members l') < 2 ^ 64"
  shows "ledger_within n P l'"
proof (cases "r")
  case (Inl e)
  then have "l' = l"
    using run by (auto simp: initialize_genesis_def Let_def split: if_splits)
  then show ?thesis using good by simp
next
  case (Inr u)
  define es where "es = bt_of_list (map (\<lambda>i. (ledger_key P i, aweid_bytes i)) members)"
  have empty: "l_members l = []" and ne: "members \<noteq> []"
    and l': "l' = (fold genesis_insert es l)\<lparr>l_total_issued_atoms :=
       sat_mul INITIAL_GENESIS_ALLOCATION (of_nat (length (l_members (fold genesis_insert es l))))\<rparr>"
    using run Inr by (auto simp: initialize_genesis_def es_def Let_def split: if_splits)
  have none: "l_balances l = []" "l_nonces l = []" "l_collected_fee_atoms l = 0"
    using good empty by (auto simp: ledger_inv_def dom_empty_iff simp del: dom_eq_empty_conv)
  have es: "bt_inv es" "distinct (map fst es)"
    using bt_distinct [of es] by (simp_all add: es_def)
  have mem: "l_members l' = fold (\<lambda>(k, v) m. bt_insert k v m) es []"
    by (simp add: l' genesis_members empty)
  have dom_mem: "dom (bt_get (l_members l')) = set (map fst es)" and inv_mem: "bt_inv (l_members l')"
    unfolding mem by (simp_all only: fold_entries_dom dom_Nil Un_empty_right bt_inv_fold_insert bt_inv_Nil)
  have len: "length (l_members l') = length es"
    using bt_len_card [OF inv_mem] distinct_card [OF es(2)] by (simp add: dom_mem)
  have keys: "k = hex_encode P raw" if "bt_get (l_members l') k = Some raw" for k raw
  proof -
    have "(k, raw) \<in> set es"
      using fold_entries_mem [OF that [unfolded mem]] by (auto simp: bt_get_def)
    then have "bt_get es k = Some raw"
      using bt_get_in [OF es(1)] by blast
    then show ?thesis
      using fold_entries_mem [of "map (\<lambda>i. (ledger_key P i, aweid_bytes i)) members" "[]" k raw]
      by (auto simp: es_def bt_of_list_def bt_get_def ledger_key_def AweId_to_hex_def)
  qed
  have bal: "l_balances l' = fold (\<lambda>k m. bt_insert k INITIAL_GENESIS_ALLOCATION m) (map fst es) []"
    and non: "l_nonces l' = fold (\<lambda>k m. bt_insert k 0 m) (map fst es) []"
    by (simp_all add: l' genesis_balances genesis_nonces none)
  have "l_collected_fee_atoms l' = 0"
    by (simp add: l' frame_simps none)
  then have inv: "ledger_inv P l'"
    unfolding ledger_inv_def dom_mem bal non using inv_mem keys
    by (simp add: fold_insert_inv fold_insert_dom)
  have "circulating l' = length es * unat INITIAL_GENESIS_ALLOCATION"
    using fold_insert_sum [OF es(2), of "[]" unat INITIAL_GENESIS_ALLOCATION]
    by (simp add: circulating_def bal)
  then have sup: "coin_supply l' = length es * unat INITIAL_GENESIS_ALLOCATION"
    by (simp add: coin_supply_def l' frame_simps none)
  have "unat (of_nat (length es) :: u128) = length es"
    using small len by (intro unat_of_nat_small) simp
  moreover have "l_total_issued_atoms l' = sat_mul INITIAL_GENESIS_ALLOCATION (of_nat (length es))"
    using len by (simp add: l')
  ultimately have "supply_within n l'"
    unfolding supply_within_def sup by (simp add: unat_sat_mul mult.commute)
  with inv show ?thesis ..
qed

lemma ledger_within_frame:
  assumes "l_balances l' = l_balances l" "l_nonces l' = l_nonces l" "l_members l' = l_members l"
    "l_total_issued_atoms l' = l_total_issued_atoms l" "l_collected_fee_atoms l' = l_collected_fee_atoms l"
  shows "ledger_within n P l' \<longleftrightarrow> ledger_within n P l"
  using assms by (simp add: ledger_inv_def supply_within_def coin_supply_def circulating_def)

lemma add_genesis_verifiers_frame:
  "add_genesis_verifiers P l vs = (r, l') \<Longrightarrow>
     l_balances l' = l_balances l \<and> l_nonces l' = l_nonces l \<and> l_members l' = l_members l
     \<and> l_total_issued_atoms l' = l_total_issued_atoms l \<and> l_collected_fee_atoms l' = l_collected_fee_atoms l
     \<and> l_rewarded_receipts l' = l_rewarded_receipts l \<and> l_received_transactions l' = l_received_transactions l"
  by (induction P l vs rule: add_genesis_verifiers.induct) (auto simp: Let_def split: if_splits)

lemma genesis_with_verifiers_within:
  assumes good: "ledger_within n P l" and run: "initialize_genesis_with_verifiers P l members vs = (r, l')"
    and small: "length (l_members l') < 2 ^ 64"
  shows "ledger_within n P l'"
proof -
  obtain q l1 where gen: "initialize_genesis P l members = (q, l1)"
    by fastforce
  show ?thesis
  proof (cases q)
    case (Inl e)
    then show ?thesis
      using run gen small initialize_genesis_within [OF good gen]
      by (simp add: initialize_genesis_with_verifiers_def)
  next
    case (Inr u)
    then have add: "add_genesis_verifiers P l1 vs = (r, l')"
      using run gen by (simp add: initialize_genesis_with_verifiers_def)
    note frame = add_genesis_verifiers_frame [OF add]
    then have "length (l_members l1) < 2 ^ 64"
      using small by simp
    then have "ledger_within n P l1"
      by (rule initialize_genesis_within [OF good gen])
    then show ?thesis
      using frame by (simp add: ledger_within_frame [of l' l1])
  qed
qed


lemma member_key [simp]: "ledger_key P i = hex_encode P (aweid_bytes i)"
  by (simp add: ledger_key_def AweId_to_hex_def)

lemma ensure_member_within:
  assumes "ledger_within n P l"
  shows "ledger_within n P (ensure_member P l i)"
proof -
  have inv: "ledger_inv P (ensure_member P l i)"
    using assms by (auto simp: ledger_inv_def ensure_member_def Let_def bt_get_or_def bt_or_insert_def
        bt_contains_def split: option.splits if_splits)
  moreover have "coin_supply (ensure_member P l i) = coin_supply l"
    using assms bt_sum_or_insert [of "l_balances l" unat 0 "ledger_key P i"]
    by (simp add: coin_supply_def circulating_def ensure_member_def Let_def ledger_inv_def)
  ultimately show ?thesis
    using assms supply_within_same [of n l "ensure_member P l i"] by (simp add: ensure_member_def Let_def)
qed

lemma register_member_within:
  assumes good: "ledger_within n P l" and run: "register_member P l i = (r, l')"
    and small: "length (l_members l') < 2 ^ 64"
  shows "ledger_within n P l'"
proof (cases "bt_contains (l_members l) (ledger_key P i)")
  case True
  then show ?thesis
    using run good by (simp add: register_member_def Let_def)
next
  case False
  let ?k = "ledger_key P i"
  define l1 where "l1 = ensure_member P l i"
  have l1: "l1 = l\<lparr>l_members := bt_insert ?k (aweid_bytes i) (l_members l),
      l_balances := bt_or_insert ?k 0 (l_balances l), l_nonces := bt_or_insert ?k 0 (l_nonces l)\<rparr>"
    using False by (simp add: l1_def ensure_member_def Let_def bt_or_insert_def del: member_key)
  have good1: "ledger_within n P l1"
    unfolding l1_def by (rule ensure_member_within [OF good])
  define d where "d = JoinDistribution_calculate i (member_count l1)"
  show ?thesis
  proof (cases "l_join_distribution_active l \<and> jd_active d")
    case False2: False
    then have "l' = l1\<lparr>l_join_distribution_active := False\<rparr>"
      using run False by (auto simp: register_member_def Let_def l1 d_def)
    then have "ledger_within n P l' \<longleftrightarrow> ledger_within n P l1"
      by (intro ledger_within_frame) simp_all
    then show ?thesis
      using good1 by blast
  next
    case True
    then have l': "l' = l1\<lparr>l_balances := fold (pay_share (jd_per_member_atoms d)) (map fst (l_members l1)) (l_balances l1),
          l_total_issued_atoms := sat_add (l_total_issued_atoms l1) (jd_distributed_atoms d),
          l_join_remainder_atoms := sat_add (l_join_remainder_atoms l1) (jd_remainder_atoms d)\<rparr>"
      using run False by (auto simp: register_member_def Let_def l1 d_def)
    have keys: "set (map fst (l_members l1)) \<subseteq> dom (bt_get (l_balances l1))" and bal: "bt_inv (l_balances l1)"
      using good1 by (simp_all add: ledger_inv_def bt_dom)
    have "ledger_inv P l'"
      using good1 keys bal pay_shares_dom [OF keys] pay_shares_inv [OF bal]
      by (simp add: ledger_inv_def l')
    moreover have "coin_supply l' \<le> coin_supply l1 + unat (jd_distributed_atoms d)"
    proof -
      have n: "unat (member_count l1) = length (l_members l1)"
        unfolding member_count_def using small l' by (intro unat_of_nat_small) simp
      have "l_members l1 \<noteq> []"
        unfolding l1 by (cases "l_members l") auto
      then have "0 < member_count l1"
        using n by (metis length_greater_0_conv unat_gt_0 word_gt_0)
      then have "unat (jd_distributed_atoms d) = length (l_members l1) * unat (jd_per_member_atoms d)"
        using join_calculate(1,2) [of "member_count l1" i] n by (simp add: d_def)
      then show ?thesis
        using pay_shares_sum [OF bal, of "jd_per_member_atoms d" "map fst (l_members l1)"]
        by (simp add: coin_supply_def circulating_def l')
    qed
    ultimately show ?thesis
      using good1 supply_within_issue [of n l1 l' "jd_distributed_atoms d"] by (simp add: l')
  qed
qed

lemma mint_within:
  assumes good: "ledger_within n P l" and run: "mint_verified_contribution_reward P l receipt = (r, l')"
  shows "ledger_within n P l'"
proof (cases r)
  case (Inl e)
  then have "l' = l"
    using run by (auto simp: mint_verified_contribution_reward_def Let_def split: if_splits sum.splits)
  then show ?thesis using good by simp
next
  case (Inr w)
  let ?k = "ledger_key P (cr_node (sr_receipt receipt))"
  obtain x where node: "bt_contains (l_members l) ?k"
    and l': "l' = l\<lparr>l_balances := pay_share x ?k (l_balances l),
         l_total_issued_atoms := sat_add (l_total_issued_atoms l) x,
         l_rewarded_receipts := bt_insert (receipt_hash P receipt) x (l_rewarded_receipts l)\<rparr>"
    using run Inr by (auto simp: mint_verified_contribution_reward_def pay_share_def Let_def split: if_splits sum.splits)
  have k: "set [?k] \<subseteq> dom (bt_get (l_balances l))" and bal: "bt_inv (l_balances l)"
    using node good by (simp_all add: ledger_inv_def bt_contains_dom)
  have "ledger_inv P l'"
    using good pay_shares_dom [OF k] pay_shares_inv [OF bal, of x "[?k]"] by (simp add: ledger_inv_def l')
  moreover have "coin_supply l' \<le> coin_supply l + unat x"
    using pay_shares_sum [OF bal, of x "[?k]"] by (simp add: coin_supply_def circulating_def l')
  ultimately show ?thesis
    using good supply_within_issue [of n l l' x] by (simp add: l')
qed

lemma transfer_within:
  assumes good: "ledger_within n P l" and run: "apply_transfer P l tx pk = (r, l')"
  shows "ledger_within n P l'"
proof (cases "transfer_ready P l tx pk (tx_amount_atoms tx)")
  case True
  then have l': "l' = transferred P l tx pk (tx_amount_atoms tx)"
    using apply_transfer_cases(1) [OF True] run by simp
  have "circulating l' \<le> circulating l"
    using transferred_circulating(1) [of P l tx pk "tx_amount_atoms tx"] good True by (simp add: l')
  then have "coin_supply l' \<le> coin_supply l"
    by (simp add: coin_supply_def l' transferred_def)
  then show ?thesis
    using good transferred_inv [OF _ True] supply_within_same [of n l l'] by (simp add: l' transferred_def)
next
  case False
  then show ?thesis
    using apply_transfer_cases(2) [OF False] run good by simp
qed

lemma transfer_with_fee_within:
  assumes good: "ledger_within n P l" and run: "apply_transfer_with_fee P l tx pk bps = (r, l')"
  shows "ledger_within n P l'"
proof (cases "bps \<le> 500 \<and> transfer_ready P l tx pk (sat_add (tx_amount_atoms tx) (fee_of tx bps))")
  case True
  let ?a = "tx_amount_atoms tx" and ?f = "fee_of tx bps"
  let ?t = "transferred P l tx pk (sat_add ?a ?f)"
  have ready: "transfer_ready P l tx pk (sat_add ?a ?f)" and l': "l' = ?t\<lparr>l_collected_fee_atoms := sat_add (l_collected_fee_atoms l) ?f\<rparr>"
    using apply_transfer_with_fee_cases(1) [of bps P l tx pk] True run by simp_all
  have mem: "l_members l' \<noteq> []" "ledger_inv P ?t"
    using ready transferred_inv [OF _ ready] good
    by (auto simp: l' transferred_def transfer_ready_def bt_contains_def bt_get_def)
  then have inv: "ledger_inv P l'"
    by (simp add: ledger_inv_def l')
  have same: "l_total_issued_atoms l' = l_total_issued_atoms l"
    by (simp add: l' transferred_def)
  show ?thesis
  proof (cases "circulating l < 2 ^ 128 - 1")
    case small: True
    have "circulating ?t + unat ?f \<le> circulating l"
      using transferred_circulating(1) [of P l tx pk "sat_add ?a ?f"] debit_with_fee [OF ready _ small] good ready by simp
    moreover have "circulating l' = circulating ?t"
      by (simp add: circulating_def l')
    ultimately have "coin_supply l' \<le> coin_supply l"
      using sat_add_le_sum [of "l_collected_fee_atoms l" ?f] by (simp add: coin_supply_def l')
    then show ?thesis
      using inv good same supply_within_same [of n l l'] by blast
  next
    case False
    then have "2 ^ 128 - 1 \<le> unat (l_total_issued_atoms l) + n"
      using good by (simp add: supply_within_def coin_supply_def)
    then have "supply_within n l'"
      by (simp add: supply_within_def same)
    with inv show ?thesis ..
  qed
next
  case False
  then show ?thesis
    using apply_transfer_with_fee_cases(2) [OF False] run good by simp
qed

lemma authorize_frame:
  assumes "authorize_reward_verifier P l a v = (r, l')"
  shows "l_balances l' = l_balances l" "l_nonces l' = l_nonces l" "l_members l' = l_members l"
    "l_total_issued_atoms l' = l_total_issued_atoms l" "l_collected_fee_atoms l' = l_collected_fee_atoms l"
    "l_rewarded_receipts l' = l_rewarded_receipts l" "l_received_transactions l' = l_received_transactions l"
  using assms by (auto simp: authorize_reward_verifier_def Let_def split: if_splits)

lemma transfer_good:
  assumes "ledger_good P l" "apply_transfer P l tx pk = (r, l')"
  shows "ledger_good P l'"
  using transfer_within [where n = 0] assms by (simp add: supply_ok_within)

section \<open>Coins received from other ledgers\<close>

text \<open>The atoms credited by \<^verbatim>\<open>receive_transfer\<close>, which the ledger records by transaction.\<close>

definition received_atoms :: "OnecoinLedger \<Rightarrow> nat" where
  "received_atoms l = bt_sum unat (l_received_transactions l)"

definition ledger_backed :: "'a coin_prims_scheme \<Rightarrow> OnecoinLedger \<Rightarrow> bool" where
  "ledger_backed P l \<longleftrightarrow> ledger_inv P l \<and> bt_inv (l_received_transactions l) \<and> supply_within (received_atoms l) l"

lemma receive_transfer_fresh:
  assumes "tx_recipient tx = aweid_bytes r" "tx_sender tx = pk" "tx_verify P tx pk"
    and "\<not> bt_contains (l_received_transactions l) (tx_id P tx)"
  defines "l0 \<equiv> ensure_member P (ensure_member P l (AweId_from_public_key P pk)) r"
  shows "receive_transfer P l tx pk r =
    (Ok True, l0\<lparr>l_balances := pay_share (tx_amount_atoms tx) (ledger_key P r) (l_balances l0),
       l_received_transactions := bt_insert (tx_id P tx) (tx_amount_atoms tx) (l_received_transactions l)\<rparr>)"
  using assms by (simp add: receive_transfer_def Let_def ensure_member_def pay_share_def)

lemma receive_transfer_again:
  assumes "tx_recipient tx = aweid_bytes r" "tx_sender tx = pk" "tx_verify P tx pk"
    and "bt_contains (l_received_transactions l) (tx_id P tx)"
  shows "receive_transfer P l tx pk r = (Ok False, ensure_member P (ensure_member P l (AweId_from_public_key P pk)) r)"
  using assms by (simp add: receive_transfer_def Let_def ensure_member_def)

lemma receive_transfer_refused:
  assumes "\<not> (tx_recipient tx = aweid_bytes r \<and> tx_sender tx = pk \<and> tx_verify P tx pk)"
  shows "\<exists>e. receive_transfer P l tx pk r = (Inl e, l)"
  using assms by (auto simp: receive_transfer_def)

lemma ensure_member_received [simp]: "l_received_transactions (ensure_member P l i) = l_received_transactions l"
  by (simp add: ensure_member_def Let_def)

lemma ensure_member_backed: "ledger_backed P l \<Longrightarrow> ledger_backed P (ensure_member P l i)"
  using ensure_member_within [of P l "received_atoms l" i] by (simp add: ledger_backed_def received_atoms_def)

lemma ensure_member_account: "ledger_key P i \<in> dom (bt_get (l_balances (ensure_member P l i)))"
  by (simp add: ensure_member_def Let_def)

lemma receive_backed:
  assumes backed: "ledger_backed P l" and run: "receive_transfer P l tx pk r = (x, l')"
  shows "ledger_backed P l'"
proof (cases "tx_recipient tx = aweid_bytes r \<and> tx_sender tx = pk \<and> tx_verify P tx pk")
  case False
  then show ?thesis
    using receive_transfer_refused [OF False, of l] run backed by auto
next
  case True
  define l0 where "l0 = ensure_member P (ensure_member P l (AweId_from_public_key P pk)) r"
  have l0: "ledger_backed P l0" "ledger_key P r \<in> dom (bt_get (l_balances l0))" "l_received_transactions l0 = l_received_transactions l"
    using ensure_member_account [of P r "ensure_member P l (AweId_from_public_key P pk)"]
    by (simp_all add: l0_def ensure_member_backed backed)
  show ?thesis
  proof (cases "bt_contains (l_received_transactions l) (tx_id P tx)")
    case again: True
    then show ?thesis
      using receive_transfer_again [of tx r pk P l] True run l0(1) by (simp add: l0_def)
  next
    case fresh: False
    have l': "l' = l0\<lparr>l_balances := pay_share (tx_amount_atoms tx) (ledger_key P r) (l_balances l0),
       l_received_transactions := bt_insert (tx_id P tx) (tx_amount_atoms tx) (l_received_transactions l0)\<rparr>"
      using receive_transfer_fresh [of tx r pk P l] True fresh run by (simp add: l0_def)
    have inv: "bt_inv (l_balances l0)" "bt_inv (l_received_transactions l0)" "ledger_inv P l0" "supply_within (received_atoms l0) l0"
      using l0(1) by (simp_all add: ledger_backed_def ledger_inv_def)
    have "ledger_inv P l'"
      using inv(3) pay_share_dom [OF l0(2)] pay_shares_inv [OF inv(1), of "tx_amount_atoms tx" "[ledger_key P r]"]
      by (simp add: ledger_inv_def l')
    moreover have "coin_supply l' \<le> coin_supply l0 + unat (tx_amount_atoms tx)"
      using pay_shares_sum [OF inv(1), of "tx_amount_atoms tx" "[ledger_key P r]"] by (simp add: coin_supply_def circulating_def l')
    moreover have "received_atoms l' = received_atoms l0 + unat (tx_amount_atoms tx)"
      using bt_sum_insert [OF inv(2), of unat "tx_id P tx" "tx_amount_atoms tx"] fresh l0(3)
      by (simp add: received_atoms_def l' bt_contains_def)
    ultimately show ?thesis
      using inv by (auto simp: ledger_backed_def supply_within_def l')
  qed
qed

lemma ledger_step_backed:
  assumes "ledger_step P l l'" "ledger_backed P l"
  shows "ledger_backed P l'"
proof -
  have keep: "ledger_backed P l'" if "ledger_within (received_atoms l) P l'" "l_received_transactions l' = l_received_transactions l" for l'
    using that assms(2) by (simp add: ledger_backed_def received_atoms_def)
  have within: "ledger_within (received_atoms l) P l"
    using assms(2) by (simp add: ledger_backed_def)
  show ?thesis
    using assms(1)
  proof cases
    case (genesis members r)
    then show ?thesis
      by (intro keep initialize_genesis_within [OF within])
         (auto simp: initialize_genesis_def Let_def frame_simps split: if_splits)
  next
    case (genesis_verifiers members verifiers r)
    obtain q l1 where gen: "initialize_genesis P l members = (q, l1)"
      by fastforce
    then have "l_received_transactions l1 = l_received_transactions l"
      by (auto simp: initialize_genesis_def Let_def frame_simps split: if_splits)
    then have "l_received_transactions l' = l_received_transactions l"
      using genesis_verifiers gen add_genesis_verifiers_frame [of P l1 verifiers r l']
      by (auto simp: initialize_genesis_with_verifiers_def split: sum.splits)
    then show ?thesis
      using genesis_verifiers genesis_with_verifiers_within [OF within] keep by blast
  next
    case (authorize a v r)
    then show ?thesis
      using keep [of l'] ledger_within_frame [OF authorize_frame(1-5) [OF authorize]] authorize_frame(7) [OF authorize] within by blast
  next
    case (ensure i)
    then show ?thesis
      using ensure_member_backed assms(2) by simp
  next
    case (register i d)
    then show ?thesis
      by (intro keep register_member_within [OF within]) (auto simp: register_member_def Let_def split: if_splits)
  next
    case (mint receipt w)
    then show ?thesis
      by (intro keep mint_within [OF within])
         (auto simp: mint_verified_contribution_reward_def Let_def split: if_splits sum.splits)
  next
    case (transfer tx pk i)
    then show ?thesis
      by (intro keep transfer_within [OF within]) (auto simp: apply_transfer_def Let_def split: if_splits)
  next
    case (transfer_fee tx pk bps x)
    then show ?thesis
      by (intro keep transfer_with_fee_within [OF within]) (auto simp: apply_transfer_with_fee_def Let_def split: if_splits)
  next
    case (receive tx pk i x)
    then show ?thesis
      using receive_backed [OF assms(2)] by blast
  next
    case (price cents)
    then show ?thesis
      using keep [of l'] within ledger_within_frame [of l' l P "received_atoms l"] by simp
  qed
qed

lemma ledger_steps_backed: "(ledger_step P)\<^sup>*\<^sup>* l l' \<Longrightarrow> ledger_backed P l \<Longrightarrow> ledger_backed P l'"
  by (induction rule: rtranclp_induct) (assumption, rule ledger_step_backed)

lemma ledger_default_backed: "ledger_backed P OnecoinLedger_default"
  by (simp add: ledger_backed_def ledger_inv_def supply_within_def coin_supply_def circulating_def OnecoinLedger_default_def
      bt_get_def)

text \<open>C2. Whatever sequence of genesis, registrations, rewards, transfers, fee transfers, verifier
  authorisations, price observations and replicated transfers a ledger goes through, failed operations
  included, every account of it belongs to a member, and the balances together with the collected fees
  never exceed what the ledger has issued and what it records as received from other ledgers, as
  long as they fit the 128-bit counters.\<close>

theorem ledger_supply_bounded:
  assumes "(ledger_step P)\<^sup>*\<^sup>* OnecoinLedger_default l" "coin_supply l < 2 ^ 128"
  shows "coin_supply l \<le> unat (l_total_issued_atoms l) + received_atoms l
    \<and> dom (bt_get (l_balances l)) = dom (bt_get (l_members l))
    \<and> dom (bt_get (l_nonces l)) = dom (bt_get (l_members l))"
  using ledger_steps_backed [OF assms(1) ledger_default_backed] assms(2)
  by (simp add: ledger_backed_def supply_within_def ledger_inv_def)

theorem ledger_supply_bounded_witness:
  "\<exists>l. (ledger_step demo_coin)\<^sup>*\<^sup>* OnecoinLedger_default l \<and> coin_supply l < 2 ^ 128
     \<and> l_members l \<noteq> [] \<and> coin_supply l \<le> unat (l_total_issued_atoms l) + received_atoms l"
proof -
  let ?g = "initialize_genesis demo_coin OnecoinLedger_default [AweId [1], AweId [2]]"
  let ?l = "snd ?g"
  have keys: "from_bytes [1] = [CHR 0x01]" "from_bytes [2] = [CHR 0x02]"
    by code_simp+
  have mem: "length (l_members ?l) = 2" and sup: "coin_supply ?l < 2 ^ 128"
    by (simp_all add: initialize_genesis_def Let_def bt_of_list_def genesis_insert_def keys less_char_def
        OnecoinLedger_default_def coin_supply_def circulating_def bt_sum_def
        INITIAL_GENESIS_ALLOCATION_def ATOMS_PER_COIN_def)
  have "ledger_step demo_coin OnecoinLedger_default ?l"
    by (rule ledger_step.genesis [OF prod.collapse [symmetric]]) (simp add: mem)
  then have reach: "(ledger_step demo_coin)\<^sup>*\<^sup>* OnecoinLedger_default ?l" ..
  have "l_members ?l \<noteq> []"
    using mem by auto
  then show ?thesis
    using ledger_supply_bounded [OF reach sup] reach sup by blast
qed

end
