(* ===== verification/Onecoin_Once.thy ===== *)
theory Onecoin_Once
  imports Onecoin_Supply
begin

text \<open>
  What happens at most once in the ONECOIN ledger: a signed transaction is applied once (nonces), a
  contribution receipt is rewarded once, a replicated transfer credits its recipient once. Also the
  value a replicated transfer creates, and the closed form of the price floor. The locale
  \<open>transfer_rules\<close> is the contract of a transfer that the block executor relies on.
\<close>

section \<open>Nonces\<close>

definition next_nonce :: "OnecoinLedger \<Rightarrow> string \<Rightarrow> u64" where
  "next_nonce l k = bt_get_or (l_nonces l) k 0"

text \<open>The nonce counter is a \<^verbatim>\<open>u64\<close> that wraps after \<open>2^64\<close> transfers of one account.\<close>

definition nonces_below_max :: "OnecoinLedger \<Rightarrow> bool" where
  "nonces_below_max l \<longleftrightarrow> (\<forall>e \<in> set (l_nonces l). snd e \<noteq> - 1)"

lemma nonces_below_maxD: "nonces_below_max l \<Longrightarrow> next_nonce l k \<noteq> - 1"
  by (cases "bt_get (l_nonces l) k")
     (auto simp: nonces_below_max_def next_nonce_def bt_get_def dest!: map_of_SomeD)

definition nonce_advances :: "OnecoinLedger \<Rightarrow> OnecoinLedger \<Rightarrow> bool" where
  "nonce_advances l l' \<longleftrightarrow> (\<forall>k. next_nonce l' k = next_nonce l k \<or> next_nonce l' k = next_nonce l k + 1)"

lemma nonce_advances_frame: "l_nonces l' = l_nonces l \<Longrightarrow> nonce_advances l l'"
  by (simp add: nonce_advances_def next_nonce_def)

lemma next_nonce_or_insert [simp]: "bt_get_or (bt_or_insert j 0 m) k 0 = bt_get_or m k 0"
  by (simp add: bt_get_or_def split: option.split)

lemma fold_zero_nonces:
  "(\<forall>k. bt_get_or m k (0 :: u64) = 0) \<Longrightarrow> bt_get_or (fold (\<lambda>k m. bt_insert k 0 m) ks m) k 0 = 0"
  by (induction ks arbitrary: m) auto

lemma genesis_nonce:
  assumes "ledger_inv P l" "initialize_genesis P l members = (r, l')"
  shows "nonce_advances l l'"
proof (cases r)
  case (Inl e)
  then have "l' = l"
    using assms(2) by (auto simp: initialize_genesis_def Let_def split: if_splits)
  then show ?thesis
    by (simp add: nonce_advances_def)
next
  case (Inr u)
  then have "l_nonces l = []"
    and l': "l_nonces l' = fold (\<lambda>k m. bt_insert k 0 m) (map fst (bt_of_list (map (\<lambda>i. (ledger_key P i, aweid_bytes i)) members))) (l_nonces l)"
    using assms by (auto simp: initialize_genesis_def Let_def genesis_nonces ledger_inv_def dom_empty_iff
        simp del: dom_eq_empty_conv split: if_splits)
  then have "next_nonce l' k = 0" "next_nonce l k = 0" for k
    using fold_zero_nonces [of "[]"] by (simp_all add: next_nonce_def bt_get_or_def [of "[]"] bt_get_def [of "[]"])
  then show ?thesis
    by (simp add: nonce_advances_def)
qed

lemma transferred_nonce:
  assumes "transfer_ready P l tx pk d"
  shows "nonce_advances l (transferred P l tx pk d)"
    and "next_nonce (transferred P l tx pk d) (sender_key_of P pk) = next_nonce l (sender_key_of P pk) + 1"
    and "next_nonce l (sender_key_of P pk) = tx_nonce tx"
  using assms by (auto simp: nonce_advances_def next_nonce_def transferred_def transfer_ready_def)

lemma ledger_step_nonce:
  assumes "ledger_step P l l'" "ledger_inv P l"
  shows "nonce_advances l l'"
  using assms
proof (induction rule: ledger_step.induct)
  case (genesis l members r l')
  then show ?case by (blast intro: genesis_nonce)
next
  case (genesis_verifiers l members verifiers r l')
  obtain q l1 where gen: "initialize_genesis P l members = (q, l1)"
    by fastforce
  then have "nonce_advances l l1"
    using genesis_verifiers(3) by (blast intro: genesis_nonce)
  moreover have "l_nonces l' = l_nonces l1"
    using genesis_verifiers(1) gen add_genesis_verifiers_frame [of P l1 verifiers r l']
    by (auto simp: initialize_genesis_with_verifiers_def split: sum.splits)
  ultimately show ?case
    by (simp add: nonce_advances_def next_nonce_def)
next
  case (authorize l a v r l')
  then show ?case
    by (intro nonce_advances_frame authorize_frame(2))
next
  case (transfer l tx pk i l')
  then show ?case
    using apply_transfer_cases [where P = P and l = l and tx = tx and pk = pk]
      transferred_nonce(1) [of P l tx pk "tx_amount_atoms tx"]
    by (cases "transfer_ready P l tx pk (tx_amount_atoms tx)") (auto intro: nonce_advances_frame)
next
  case (transfer_fee l tx pk bps x l')
  let ?t = "transferred P l tx pk (sat_add (tx_amount_atoms tx) (fee_of tx bps))"
  have "nonce_advances l ?t \<Longrightarrow> nonce_advances l (?t\<lparr>l_collected_fee_atoms := f\<rparr>)" for f
    by (simp add: nonce_advances_def next_nonce_def)
  then show ?case
    using transfer_fee apply_transfer_with_fee_cases [where P = P and l = l and tx = tx and pk = pk and fee_bps = bps]
      transferred_nonce(1) [of P l tx pk "sat_add (tx_amount_atoms tx) (fee_of tx bps)"]
    by (cases "bps \<le> 500 \<and> transfer_ready P l tx pk (sat_add (tx_amount_atoms tx) (fee_of tx bps))")
       (auto intro: nonce_advances_frame)
next
  case (receive l tx pk i x l')
  then show ?case
    by (auto simp: nonce_advances_def next_nonce_def receive_transfer_def ensure_member_def Let_def split: if_splits)
qed (auto simp: nonce_advances_def next_nonce_def ensure_member_def register_member_def
       mint_verified_contribution_reward_def Let_def split: if_splits sum.splits)

abbreviation ledger_run :: "'a coin_prims_scheme \<Rightarrow> OnecoinLedger \<Rightarrow> OnecoinLedger \<Rightarrow> bool" where
  "ledger_run P \<equiv> (\<lambda>a b. ledger_step P a b \<and> nonces_below_max a)\<^sup>*\<^sup>*"

lemma ledger_run_nonce:
  assumes "ledger_run P l l'" "ledger_backed P l"
  shows "unat (next_nonce l k) \<le> unat (next_nonce l' k) \<and> ledger_backed P l'"
  using assms
proof (induction rule: rtranclp_induct)
  case (step a b)
  then have IH: "unat (next_nonce l k) \<le> unat (next_nonce a k)" and good: "ledger_backed P a" and st: "ledger_step P a b"
    by blast+
  have "next_nonce a k \<noteq> - 1"
    using step(2) nonces_below_maxD by blast
  then have "unat (next_nonce a k) + 1 < 2 ^ 64"
    using unat_not_max by fastforce
  then have "unat (next_nonce a k) \<le> unat (next_nonce b k)"
    using ledger_step_nonce [OF st] good by (auto simp: ledger_backed_def nonce_advances_def unat_inc dest!: spec [of _ k])
  then show ?case
    using IH ledger_step_backed [OF st good] by simp
qed simp


text \<open>A transfer that was accepted, with or without a fee, moved the sender's nonce past its own.\<close>

lemma accepted_nonce:
  assumes "nonces_below_max l" "apply_transfer P l tx pk = (Ok i, l1) \<or> apply_transfer_with_fee P l tx pk bps = (Ok (i, f), l1)"
  shows "unat (tx_nonce tx) < unat (next_nonce l1 (sender_key_of P pk))"
proof -
  let ?k = "sender_key_of P pk"
  obtain d where ready: "transfer_ready P l tx pk d" and l1: "l_nonces l1 = l_nonces (transferred P l tx pk d)"
    using assms(2)
  proof
    assume "apply_transfer P l tx pk = (Ok i, l1)"
    then show ?thesis
      using that by (auto elim: apply_transfer_OkE)
  next
    let ?d = "sat_add (tx_amount_atoms tx) (fee_of tx bps)"
    assume run: "apply_transfer_with_fee P l tx pk bps = (Ok (i, f), l1)"
    then show ?thesis
      using that [of ?d] apply_transfer_with_fee_cases [where P = P and l = l and tx = tx and pk = pk and fee_bps = bps]
      by (cases "bps \<le> 500 \<and> transfer_ready P l tx pk ?d") auto
  qed
  have "tx_nonce tx \<noteq> - 1"
    using transferred_nonce(3) [OF ready] nonces_below_maxD [OF assms(1), of ?k] by simp
  then show ?thesis
    using transferred_nonce(2,3) [OF ready] unat_not_max [of "tx_nonce tx"] by (simp add: next_nonce_def l1 unat_inc)
qed

text \<open>C9. A transaction is applied at most once: after the ledger has accepted it, with or without a fee, it refuses
  it, with and without a fee, in every state it reaches later, whatever operations come in between, as long as no
  account has used up its 64-bit nonce counter.\<close>

theorem transaction_applies_once:
  assumes "ledger_backed P l" "nonces_below_max l"
    and "apply_transfer P l tx pk = (Ok i, l1) \<or> apply_transfer_with_fee P l tx pk bps = (Ok (i, f), l1)"
    and "ledger_run P l1 l2"
  shows "\<not> is_ok (fst (apply_transfer P l2 tx pk)) \<and> \<not> is_ok (fst (apply_transfer_with_fee P l2 tx pk bps'))"
proof -
  have "ledger_backed P l1"
    using assms(3) by (blast intro: ledger_step_backed [OF _ assms(1)] ledger_step.transfer ledger_step.transfer_fee)
  then have "unat (next_nonce l1 (sender_key_of P pk)) \<le> unat (next_nonce l2 (sender_key_of P pk))"
    using ledger_run_nonce [OF assms(4)] by blast
  with accepted_nonce [OF assms(2,3)] have "\<not> transfer_ready P l2 tx pk d" for d
    by (auto simp: transfer_ready_def next_nonce_def)
  then show ?thesis
    using apply_transfer_cases(2) [of P l2 tx pk] apply_transfer_with_fee_cases(2) [of bps' P l2 tx pk] by blast
qed

lemma demo_ledger_good: "ledger_good demo_coin demo_ledger"
  using demo_ledger_inv demo_circulating
  by (simp add: supply_ok_def coin_supply_def demo_ledger_def OnecoinLedger_default_def ATOMS_PER_COIN_def)

lemma demo_transfer:
  "apply_transfer demo_coin demo_ledger demo_tx (replicate 32 1)
     = (Ok (tx_id demo_coin demo_tx), transferred demo_coin demo_ledger demo_tx (replicate 32 1) (tx_amount_atoms demo_tx))"
  by (intro apply_transfer_cases(1) demo_ready) (simp add: demo_tx_def ATOMS_PER_COIN_def)

lemma demo_ledger_backed: "ledger_backed demo_coin demo_ledger"
  using demo_ledger_good
  by (simp add: ledger_backed_def supply_ok_within received_atoms_def demo_ledger_def OnecoinLedger_default_def)

text \<open>The example pays with a fee and then tries both ways again.\<close>

theorem transaction_applies_once_witness:
  "\<exists>i f l1. apply_transfer_with_fee demo_coin demo_ledger demo_tx (replicate 32 1) 100 = (Ok (i, f), l1)
     \<and> \<not> is_ok (fst (apply_transfer_with_fee demo_coin l1 demo_tx (replicate 32 1) 100))
     \<and> \<not> is_ok (fst (apply_transfer demo_coin l1 demo_tx (replicate 32 1)))"
proof -
  have below: "nonces_below_max demo_ledger"
    by (simp add: nonces_below_max_def demo_ledger_def OnecoinLedger_default_def)
  have ready: "transfer_ready demo_coin demo_ledger demo_tx (replicate 32 1) (sat_add (tx_amount_atoms demo_tx) (fee_of demo_tx 100))"
    by (rule demo_ready) (simp add: demo_tx_def fee_of_def ATOMS_PER_COIN_def sat_add_def sat_mul_def)
  obtain i f l1 where run: "apply_transfer_with_fee demo_coin demo_ledger demo_tx (replicate 32 1) 100 = (Ok (i, f), l1)"
    using apply_transfer_with_fee_cases(1) [of 100 demo_coin demo_ledger demo_tx "replicate 32 1"] ready by simp
  from transaction_applies_once [OF demo_ledger_backed below disjI2 [OF run] rtranclp.rtrancl_refl] run show ?thesis
    by blast
qed

section \<open>Contribution rewards\<close>

lemma mint_OkE:
  assumes "mint_verified_contribution_reward P l s = (Ok w, l')"
  obtains "receipt_verify P s"
    "bt_get (l_reward_verifiers l) (ledger_key P (AweId_from_public_key P (sr_verifier_public_key s)))
       = Some (sr_verifier_public_key s)"
    "\<not> bt_contains (l_rewarded_receipts l) (receipt_hash P s)"
    "bt_contains (l_members l) (ledger_key P (cr_node (sr_receipt s)))"
    "reward_for (l_reward_policy l) (sr_receipt s) = Ok (rw_reward_atoms w)"
    "l' = l\<lparr>l_balances := pay_share (rw_reward_atoms w) (ledger_key P (cr_node (sr_receipt s))) (l_balances l),
            l_total_issued_atoms := sat_add (l_total_issued_atoms l) (rw_reward_atoms w),
            l_rewarded_receipts := bt_insert (receipt_hash P s) (rw_reward_atoms w) (l_rewarded_receipts l)\<rparr>"
  using assms by (auto simp: mint_verified_contribution_reward_def pay_share_def Let_def simp del: member_key
      split: if_splits sum.splits)

lemma ledger_step_receipts:
  assumes "ledger_step P l l'" "bt_contains (l_rewarded_receipts l) h"
  shows "bt_contains (l_rewarded_receipts l') h"
  using assms
proof (induction rule: ledger_step.induct)
  case (genesis_verifiers l members verifiers r l')
  obtain q l1 where gen: "initialize_genesis P l members = (q, l1)"
    by fastforce
  then have "l_rewarded_receipts l1 = l_rewarded_receipts l"
    by (auto simp: initialize_genesis_def Let_def frame_simps split: if_splits)
  then show ?case
    using genesis_verifiers gen add_genesis_verifiers_frame [of P l1 verifiers r l']
    by (auto simp: initialize_genesis_with_verifiers_def split: sum.splits)
next
  case (transfer l tx pk i l')
  then show ?case
    by (auto simp: apply_transfer_def Let_def split: if_splits)
next
  case (transfer_fee l tx pk bps x l')
  then show ?case
    by (auto simp: apply_transfer_with_fee_def Let_def split: if_splits)
next
  case (mint l receipt w l')
  then show ?case
    by (auto simp: mint_verified_contribution_reward_def Let_def split: if_splits sum.splits)
next
  case (receive l tx pk i x l')
  then show ?case
    by (auto simp: receive_transfer_def ensure_member_def Let_def split: if_splits)
qed (auto simp: initialize_genesis_def register_member_def ensure_member_def
       authorize_reward_verifier_def Let_def frame_simps split: if_splits)

text \<open>C10. A contribution reward is minted only for a receipt that an authorised verifier signed, for a
  member, and at most once: the node's balance and the issued total rise by the reward the policy
  computes (capped by the policy's maximum), and the same receipt earns nothing in any later state.\<close>

theorem reward_minted_once:
  assumes "mint_verified_contribution_reward P l s = (Ok w, l1)" "(ledger_step P)\<^sup>*\<^sup>* l1 l2"
  shows "receipt_verify P s
    \<and> bt_get (l_reward_verifiers l) (ledger_key P (AweId_from_public_key P (sr_verifier_public_key s)))
        = Some (sr_verifier_public_key s)
    \<and> bt_contains (l_members l) (ledger_key P (cr_node (sr_receipt s)))
    \<and> balance_atoms P l1 (cr_node (sr_receipt s)) = sat_add (balance_atoms P l (cr_node (sr_receipt s))) (rw_reward_atoms w)
    \<and> l_total_issued_atoms l1 = sat_add (l_total_issued_atoms l) (rw_reward_atoms w)
    \<and> rw_reward_atoms w = min (sat_mul (ContributionReceipt_score (sr_receipt s)) (rp_atoms_per_score (l_reward_policy l)))
                             (rp_max_reward_atoms (l_reward_policy l))
    \<and> \<not> is_ok (fst (mint_verified_contribution_reward P l2 s))"
proof -
  have "bt_contains (l_rewarded_receipts l1) (receipt_hash P s)"
    using assms(1) by (auto elim: mint_OkE)
  with assms(2) have "bt_contains (l_rewarded_receipts l2) (receipt_hash P s)"
    by (induction rule: rtranclp_induct) (blast intro: ledger_step_receipts)+
  then have again: "\<not> is_ok (fst (mint_verified_contribution_reward P l2 s))"
    by (simp add: mint_verified_contribution_reward_def Let_def)
  show ?thesis
    using assms(1)
  proof (rule mint_OkE)
    assume "reward_for (l_reward_policy l) (sr_receipt s) = Ok (rw_reward_atoms w)"
      and "receipt_verify P s"
      and "bt_get (l_reward_verifiers l) (ledger_key P (AweId_from_public_key P (sr_verifier_public_key s)))
        = Some (sr_verifier_public_key s)"
      and "bt_contains (l_members l) (ledger_key P (cr_node (sr_receipt s)))"
      and "l1 = l\<lparr>l_balances := pay_share (rw_reward_atoms w) (ledger_key P (cr_node (sr_receipt s))) (l_balances l),
            l_total_issued_atoms := sat_add (l_total_issued_atoms l) (rw_reward_atoms w),
            l_rewarded_receipts := bt_insert (receipt_hash P s) (rw_reward_atoms w) (l_rewarded_receipts l)\<rparr>"
    then show ?thesis
      using again by (auto simp: reward_for_def balance_atoms_def pay_share_def Let_def split: if_splits)
  qed
qed


definition demo_receipt :: SignedContributionReceipt where
  "demo_receipt =
     \<lparr>sr_receipt = \<lparr>cr_node = AweId (replicate 32 2), cr_storage_byte_hours = 0, cr_relay_bytes = 0,
        cr_bandwidth_bytes = 0, cr_compute_units = 0, cr_uptime_minutes = 1, cr_period_start_unix = 0,
        cr_period_end_unix = 1\<rparr>,
      sr_verifier_public_key = replicate 32 1, sr_signature = replicate 32 0 @ replicate 32 1\<rparr>"

lemma demo_mint: "is_ok (fst (mint_verified_contribution_reward demo_coin demo_ledger demo_receipt))"
proof -
  have sig: "receipt_verify demo_coin demo_receipt"
    by (simp add: receipt_verify_def receipt_signing_bytes_def Identity_verify_def demo_receipt_def pad32_def)
  have ver: "bt_get (l_reward_verifiers demo_ledger)
      (ledger_key demo_coin (AweId_from_public_key demo_coin (sr_verifier_public_key demo_receipt)))
        = Some (sr_verifier_public_key demo_receipt)"
    by (simp add: demo_receipt_def demo_ledger_def demo_aweid bt_get_def)
  have mem: "bt_contains (l_members demo_ledger) (ledger_key demo_coin (cr_node (sr_receipt demo_receipt)))"
    by (simp add: demo_receipt_def demo_ledger_def bt_contains_def bt_get_def)
  have rcpt: "\<not> bt_contains (l_rewarded_receipts demo_ledger) h" for h
    by (simp add: demo_ledger_def OnecoinLedger_default_def bt_contains_def bt_get_def)
  have "unat (ContributionReceipt_score (sr_receipt demo_receipt)) = 1024"
    by (simp add: score_exact demo_receipt_def)
  then have "ContributionReceipt_score (sr_receipt demo_receipt) \<noteq> 0"
    by auto
  then have "\<exists>x. reward_for (l_reward_policy demo_ledger) (sr_receipt demo_receipt) = Ok x"
    by (simp add: reward_for_def Let_def demo_receipt_def)
  then show ?thesis
    using sig ver mem rcpt by (auto simp: mint_verified_contribution_reward_def Let_def simp del: member_key)
qed

theorem reward_minted_once_witness:
  "\<exists>w l1. mint_verified_contribution_reward demo_coin demo_ledger demo_receipt = (Ok w, l1)
     \<and> \<not> is_ok (fst (mint_verified_contribution_reward demo_coin l1 demo_receipt))"
proof -
  obtain w l1 where run: "mint_verified_contribution_reward demo_coin demo_ledger demo_receipt = (Ok w, l1)"
    using demo_mint by (cases "mint_verified_contribution_reward demo_coin demo_ledger demo_receipt") (auto simp: is_ok_iff)
  from reward_minted_once [OF run rtranclp.rtrancl_refl] run show ?thesis
    by blast
qed

section \<open>Replicated transfers\<close>

lemma ensure_member_balance: "bt_get_or (l_balances (ensure_member P l i)) k 0 = bt_get_or (l_balances l) k 0"
  by (simp add: ensure_member_def Let_def bt_get_or_def split: option.split)

text \<open>A replicated transfer credits its recipient exactly once: the first delivery adds the
  amount to the recipient's balance and reports \<^verbatim>\<open>true\<close>, a second delivery of the same transaction
  reports \<^verbatim>\<open>false\<close> and changes no balance.\<close>

theorem receive_transfer_credits_once:
  assumes "tx_recipient tx = aweid_bytes r" "tx_sender tx = pk" "tx_verify P tx pk"
    and "\<not> bt_contains (l_received_transactions l) (tx_id P tx)"
    and "receive_transfer P l tx pk r = (res, l1)" "receive_transfer P l1 tx pk r = (res2, l2)"
  shows "res = Ok True \<and> res2 = Ok False
    \<and> balance_atoms P l1 r = sat_add (balance_atoms P l r) (tx_amount_atoms tx)
    \<and> (\<forall>k. bt_get_or (l_balances l2) k 0 = bt_get_or (l_balances l1) k 0)"
proof -
  note first = receive_transfer_fresh [OF assms(1-4)]
  have "bt_contains (l_received_transactions l1) (tx_id P tx)"
    using first assms(5) by auto
  from receive_transfer_again [OF assms(1-3) this] first assms(5,6) show ?thesis
    by (auto simp: balance_atoms_def pay_share_def ensure_member_balance)
qed

lemma demo_tx_ok: "tx_verify demo_coin demo_tx (replicate 32 1)" "tx_sender demo_tx = replicate 32 1"
  "tx_recipient demo_tx = aweid_bytes (AweId (replicate 32 2))"
  by (simp_all add: demo_tx_def tx_verify_def tx_signing_bytes_def pad32_def)

lemma demo_not_received: "\<not> bt_contains (l_received_transactions demo_ledger) h"
  by (simp add: demo_ledger_def OnecoinLedger_default_def bt_contains_def bt_get_def)

theorem receive_transfer_credits_once_witness:
  "\<exists>l1 l2. receive_transfer demo_coin demo_ledger demo_tx (replicate 32 1) (AweId (replicate 32 2)) = (Ok True, l1)
     \<and> receive_transfer demo_coin l1 demo_tx (replicate 32 1) (AweId (replicate 32 2)) = (Ok False, l2)"
proof -
  let ?r = "\<lambda>l. receive_transfer demo_coin l demo_tx (replicate 32 1) (AweId (replicate 32 2))"
  obtain a l1 b l2 where run: "?r demo_ledger = (a, l1)" "?r l1 = (b, l2)"
    by (metis prod.collapse)
  from receive_transfer_credits_once [OF demo_tx_ok(3) demo_tx_ok(2) demo_tx_ok(1) demo_not_received run]
  show ?thesis
    using run by blast
qed

text \<open>The credit of a replicated transfer is not matched by a debit or by an issue: the supply
  (balances and collected fees) grows by the amount while the issued total stays, so a ledger whose
  supply equals what it issued leaves the supply bound that the store checks when it opens a file.\<close>

theorem receive_transfer_exceeds_issue:
  assumes "ledger_inv P l" "coin_supply l + unat (tx_amount_atoms tx) < 2 ^ 128"
    and "tx_recipient tx = aweid_bytes r" "tx_sender tx = pk" "tx_verify P tx pk"
    and "\<not> bt_contains (l_received_transactions l) (tx_id P tx)"
    and "coin_supply l = unat (l_total_issued_atoms l)"
    and "receive_transfer P l tx pk r = (res, l')"
  shows "coin_supply l' = coin_supply l + unat (tx_amount_atoms tx)
    \<and> l_total_issued_atoms l' = l_total_issued_atoms l \<and> \<not> supply_ok l'"
proof -
  let ?l0 = "ensure_member P (ensure_member P l (AweId_from_public_key P pk)) r"
  have l': "l' = ?l0\<lparr>l_balances := pay_share (tx_amount_atoms tx) (ledger_key P r) (l_balances ?l0),
       l_received_transactions := bt_insert (tx_id P tx) (tx_amount_atoms tx) (l_received_transactions l)\<rparr>"
    using receive_transfer_fresh [OF assms(3-6)] assms(8) by simp
  have inv0: "bt_inv (l_balances ?l0)" and sum0: "bt_sum unat (l_balances ?l0) = circulating l"
    using assms(1) by (simp_all add: ensure_member_def Let_def ledger_inv_def bt_sum_or_insert circulating_def)
  have fee: "l_collected_fee_atoms l' = l_collected_fee_atoms l" and tot: "l_total_issued_atoms l' = l_total_issued_atoms l"
    by (simp_all add: l' ensure_member_def Let_def)
  let ?b = "bt_get_or (l_balances ?l0) (ledger_key P r) 0"
  have "unat ?b \<le> circulating l"
    using bt_sum_ge_or [of unat 0 "l_balances ?l0" "ledger_key P r"] sum0 by simp
  then have "unat (sat_add ?b (tx_amount_atoms tx)) = unat ?b + unat (tx_amount_atoms tx)"
    using assms(2) by (intro sat_add_exact) (simp add: coin_supply_def)
  then have "circulating l' = circulating l + unat (tx_amount_atoms tx)"
    using bt_sum_insert_or [OF inv0, of unat 0 "ledger_key P r" "sat_add ?b (tx_amount_atoms tx)"] sum0
    by (simp add: circulating_def l' pay_share_def)
  then have sup: "coin_supply l' = coin_supply l + unat (tx_amount_atoms tx)"
    by (simp add: coin_supply_def fee)
  have "0 < unat (tx_amount_atoms tx)"
    using assms(5) by (auto simp: tx_verify_def unat_gt_0 split: if_splits)
  then show ?thesis
    using sup tot assms(2,7) by (auto simp: supply_ok_def)
qed

theorem receive_transfer_exceeds_issue_witness:
  "supply_ok demo_ledger
   \<and> \<not> supply_ok (snd (receive_transfer demo_coin demo_ledger demo_tx (replicate 32 1) (AweId (replicate 32 2))))"
proof -
  have a: "unat (tx_amount_atoms demo_tx) = 1000" and s: "coin_supply demo_ledger = 20 * 10 ^ 18"
    and t: "unat (l_total_issued_atoms demo_ledger) = 20 * 10 ^ 18"
    using demo_circulating
    by (simp_all add: demo_tx_def coin_supply_def demo_ledger_def OnecoinLedger_default_def ATOMS_PER_COIN_def)
  have small: "coin_supply demo_ledger + unat (tx_amount_atoms demo_tx) < 2 ^ 128"
    and eq: "coin_supply demo_ledger = unat (l_total_issued_atoms demo_ledger)"
    by (simp_all add: a s t)
  from receive_transfer_exceeds_issue [OF demo_ledger_inv small demo_tx_ok(3) demo_tx_ok(2) demo_tx_ok(1)
      demo_not_received eq prod.collapse [symmetric]]
  show ?thesis
    using demo_ledger_good by blast
qed


section \<open>The price floor\<close>

definition floor_inv :: "OnecoinPricePolicy \<Rightarrow> bool" where
  "floor_inv p \<longleftrightarrow> unat (pp_floor_usd_cents p) = 100 + 2000 * unat (pp_highest_band_reached p)
     \<and> unat (pp_highest_band_reached p) \<le> (2 ^ 64 - 1) div 10000"

lemma observe_band:
  "unat (pp_highest_band_reached (observe_reference_price_usd_cents p c))
     = max (unat (pp_highest_band_reached p)) (unat c div 10000)"
proof -
  have band: "unat (c div PRICE_BAND_USD_CENTS) = unat c div 10000"
    by (simp add: unat_div PRICE_BAND_USD_CENTS_def)
  show ?thesis
  proof (cases "c < INITIAL_PRICE_USD_CENTS")
    case True
    then have "unat c div 10000 = 0"
      by (simp add: INITIAL_PRICE_USD_CENTS_def word_less_nat_alt)
    then show ?thesis
      using True by (simp add: observe_reference_price_usd_cents_def)
  next
    case False
    then show ?thesis
      using band by (auto simp: observe_reference_price_usd_cents_def Let_def word_le_nat_alt)
  qed
qed

lemma observe_inv:
  assumes "floor_inv p"
  shows "floor_inv (observe_reference_price_usd_cents p c)"
proof -
  let ?band = "c div PRICE_BAND_USD_CENTS" and ?top = "pp_highest_band_reached p"
  have band: "unat ?band = unat c div 10000" and step: "unat PRICE_FLOOR_STEP_USD_CENTS = 2000"
    by (simp_all add: unat_div PRICE_BAND_USD_CENTS_def PRICE_FLOOR_STEP_USD_CENTS_def)
  have c: "unat c div 10000 \<le> (2 ^ 64 - 1) div 10000"
    using unat_less_pow [of c] by (intro div_le_mono) simp
  have floor: "unat (sat_add (pp_floor_usd_cents p) (sat_mul (?band - ?top) PRICE_FLOOR_STEP_USD_CENTS))
      = 100 + 2000 * unat ?band" if "?top \<le> ?band"
  proof -
    have "unat (?band - ?top) = unat ?band - unat ?top" "unat ?top \<le> unat ?band"
      using that by (simp_all add: unat_minus word_le_nat_alt)
    then show ?thesis
      using assms c band by (simp add: floor_inv_def unat_sat_add unat_sat_mul step)
  qed
  show ?thesis
    using assms floor band c
    by (auto simp: observe_reference_price_usd_cents_def floor_inv_def Let_def)
qed

text \<open>The price floor depends only on the highest price ever observed: after any sequence of
  observations, in any order, the floor is 100 cents plus 2000 cents for each full 10000 cents of the
  maximum, so it never falls and no arithmetic saturates.\<close>

theorem price_floor_closed_form:
  "unat (pp_floor_usd_cents (fold (\<lambda>c p. observe_reference_price_usd_cents p c) cs OnecoinPricePolicy_default))
     = 100 + 2000 * foldr (\<lambda>c m. max (unat c div 10000) m) cs 0"
proof -
  let ?run = "\<lambda>cs p. fold (\<lambda>c p. observe_reference_price_usd_cents p c) cs p"
  have "floor_inv (?run cs p) \<and> unat (pp_highest_band_reached (?run cs p))
      = max (unat (pp_highest_band_reached p)) (foldr (\<lambda>c m. max (unat c div 10000) m) cs 0)" if "floor_inv p" for p
    using that by (induction cs arbitrary: p) (auto simp: observe_inv observe_band max.assoc max.left_commute)
  moreover have "floor_inv OnecoinPricePolicy_default"
    by (simp add: floor_inv_def OnecoinPricePolicy_default_def INITIAL_PRICE_USD_CENTS_def)
  ultimately show ?thesis
    by (auto simp: floor_inv_def OnecoinPricePolicy_default_def)
qed


section \<open>The contract of a transfer\<close>

text \<open>Apply the transactions in order, as long as they succeed.\<close>

fun apply_all :: "('l \<Rightarrow> 't \<Rightarrow> 'r result \<times> 'l) \<Rightarrow> 'l \<Rightarrow> 't list \<Rightarrow> 'l option" where
  "apply_all f l [] = Some l"
| "apply_all f l (t # ts) = (case f l t of (Inl e, _) \<Rightarrow> None | (Inr _, l') \<Rightarrow> apply_all f l' ts)"

locale transfer_rules =
  fixes apply_tx :: "'l \<Rightarrow> 't \<Rightarrow> 'r result \<times> 'l"
    and good :: "'l \<Rightarrow> bool"
    and value_of :: "'l \<Rightarrow> nat"
    and issued :: "'l \<Rightarrow> nat"
  assumes refused: "apply_tx l t = (Inl e, l') \<Longrightarrow> l' = l"
    and keeps: "good l \<Longrightarrow> apply_tx l t = (r, l') \<Longrightarrow> good l'"
    and conserves: "good l \<Longrightarrow> value_of l < 2 ^ 128 \<Longrightarrow> apply_tx l t = (Ok x, l') \<Longrightarrow> value_of l' = value_of l"
    and issues_nothing: "apply_tx l t = (r, l') \<Longrightarrow> issued l' = issued l"
begin

lemma all_keep:
  "good l \<Longrightarrow> apply_all apply_tx l ts = Some l' \<Longrightarrow> good l' \<and> issued l' = issued l"
proof (induction ts arbitrary: l)
  case (Cons t ts)
  then obtain x l1 where "apply_tx l t = (Ok x, l1)" "apply_all apply_tx l1 ts = Some l'"
    by (auto split: prod.splits sum.splits)
  then show ?case
    using Cons keeps [of l t] issues_nothing [of l t] by metis
qed simp

lemma all_conserve:
  "good l \<Longrightarrow> value_of l < 2 ^ 128 \<Longrightarrow> apply_all apply_tx l ts = Some l' \<Longrightarrow> value_of l' = value_of l"
proof (induction ts arbitrary: l)
  case (Cons t ts)
  then obtain r l1 where "apply_tx l t = (Ok r, l1)" "apply_all apply_tx l1 ts = Some l'"
    by (auto split: prod.splits sum.splits)
  then show ?case
    using Cons keeps [of l t] conserves [of l t] by metis
qed simp

end

lemma transfer_frame:
  assumes "apply_transfer P l tx pk = (r, l')"
  shows "l_total_issued_atoms l' = l_total_issued_atoms l" "l_collected_fee_atoms l' = l_collected_fee_atoms l"
    "l_members l' = l_members l"
  using assms by (auto simp: apply_transfer_def Let_def split: if_splits)

lemma transfer_conserves_supply:
  assumes "ledger_good P l" "coin_supply l < 2 ^ 128" "apply_transfer P l tx pk = (Ok r, l')"
  shows "coin_supply l' = coin_supply l"
proof -
  obtain ready: "transfer_ready P l tx pk (tx_amount_atoms tx)"
    and l': "l' = transferred P l tx pk (tx_amount_atoms tx)"
    using assms(3) by (rule apply_transfer_OkE)
  have "circulating l' = circulating l"
    using transferred_circulating(2) [of P l tx pk "tx_amount_atoms tx"] assms(1,2) ready
    by (simp add: l' coin_supply_def)
  then show ?thesis
    using transfer_frame(2) [OF assms(3)] by (simp add: coin_supply_def)
qed

interpretation onecoin: transfer_rules "\<lambda>l tx. apply_transfer P l tx (tx_sender tx)" "ledger_good P" coin_supply
  "\<lambda>l. unat (l_total_issued_atoms l)" for P :: "'a coin_prims_scheme"
proof
  fix l tx e l'
  assume run: "apply_transfer P l tx (tx_sender tx) = (Inl e, l')"
  then show "l' = l"
    using apply_transfer_cases [where P = P and l = l and tx = tx and pk = "tx_sender tx"]
    by (cases "transfer_ready P l tx (tx_sender tx) (tx_amount_atoms tx)") simp_all
qed (use transfer_good transfer_conserves_supply transfer_frame(1) in metis)+

end
