(* ===== verification/Consensus.thy ===== *)
theory Consensus
  imports Onecoin_Once "HOL-Library.Multiset"
begin

text \<open>
  \<^verbatim>\<open>core/src/onecoin_consensus.rs\<close>: blocks in canonical transaction order, signed votes, quorum
  certificates and the finalised state. The JSON writers are fields of \<open>consensus_prims\<close>. The lemmas
  show that two certificates share validators (so a fork needs double votes), that finalisation is
  atomic and chains heights and hashes, that it moves value without creating it, and that proposers
  who order the same transactions build the same block body.
\<close>

section \<open>Blocks\<close>

definition CONSENSUS_VERSION :: u16 where
  "CONSENSUS_VERSION = 1"
definition MAX_BLOCK_TRANSACTIONS :: nat where
  "MAX_BLOCK_TRANSACTIONS = 4096"
definition QUORUM_BPS :: u64 where
  "QUORUM_BPS = 6666"

record OnecoinBlockHeader =
  bh_version :: u16
  bh_height :: u64
  bh_previous_hash :: bytes
  bh_transactions_hash :: bytes
  bh_proposer :: AweId
  bh_timestamp_unix :: u64

record OnecoinBlock =
  b_header :: OnecoinBlockHeader
  b_transactions :: "OnecoinTransaction list"
  b_proposer_signature :: bytes

record SignedBlockVote =
  v_block_hash :: bytes
  v_height :: u64
  v_voter :: AweId
  v_approve :: bool
  v_signature :: bytes

record consensus_prims = coin_prims +
  block_json :: "OnecoinBlock \<Rightarrow> bytes"
  vote_json :: "SignedBlockVote \<Rightarrow> bytes"
  txs_json :: "OnecoinTransaction list \<Rightarrow> bytes"

definition hash_transactions :: "'a consensus_prims_scheme \<Rightarrow> OnecoinTransaction list \<Rightarrow> bytes" where
  "hash_transactions P transactions = blake3 P (txs_json P transactions)"

definition tx_order_key :: "'a consensus_prims_scheme \<Rightarrow> OnecoinTransaction \<Rightarrow> bytes \<times> u64 \<times> bytes" where
  "tx_order_key P tx = (tx_sender tx, tx_nonce tx, tx_id P tx)"

definition block_signing_bytes :: "'a consensus_prims_scheme \<Rightarrow> OnecoinBlock \<Rightarrow> bytes" where
  "block_signing_bytes P self = block_json P (self\<lparr>b_proposer_signature := zero_sig\<rparr>)"

definition OnecoinBlock_hash :: "'a consensus_prims_scheme \<Rightarrow> OnecoinBlock \<Rightarrow> bytes" where
  "OnecoinBlock_hash P self = blake3 P (block_json P self)"

definition OnecoinBlock_new ::
  "'a consensus_prims_scheme \<Rightarrow> Identity \<Rightarrow> u64 \<Rightarrow> bytes \<Rightarrow> OnecoinTransaction list \<Rightarrow> u64 \<Rightarrow> OnecoinBlock result" where
  "OnecoinBlock_new P proposer height previous_hash transactions timestamp_unix =
     (if length transactions > MAX_BLOCK_TRANSACTIONS then Err ''too many transactions in block''
      else
        let transactions = sort_key (tx_order_key P) transactions;
            block = \<lparr>b_header = \<lparr>bh_version = CONSENSUS_VERSION, bh_height = height,
                        bh_previous_hash = previous_hash,
                        bh_transactions_hash = hash_transactions P transactions,
                        bh_proposer = ip_awe_id (id_public proposer), bh_timestamp_unix = timestamp_unix\<rparr>,
                     b_transactions = transactions, b_proposer_signature = zero_sig\<rparr>
        in Ok (block\<lparr>b_proposer_signature := Identity_sign P proposer (block_signing_bytes P block)\<rparr>))"

definition verify_proposer :: "'a consensus_prims_scheme \<Rightarrow> OnecoinBlock \<Rightarrow> bytes \<Rightarrow> bool" where
  "verify_proposer P self public_key =
     (bh_version (b_header self) = CONSENSUS_VERSION
      \<and> bh_proposer (b_header self) = AweId_from_public_key P public_key
      \<and> Identity_verify P public_key (block_signing_bytes P self) (b_proposer_signature self))"

fun windows2_any :: "('a \<Rightarrow> 'a \<Rightarrow> bool) \<Rightarrow> 'a list \<Rightarrow> bool" where
  "windows2_any f (x # y # zs) = (f x y \<or> windows2_any f (y # zs))"
| "windows2_any f _ = False"

definition validate_shape :: "'a consensus_prims_scheme \<Rightarrow> OnecoinBlock \<Rightarrow> unit result" where
  "validate_shape P self =
     (if bh_version (b_header self) \<noteq> CONSENSUS_VERSION then Err ''unsupported ONECOIN consensus version''
      else if length (b_transactions self) > MAX_BLOCK_TRANSACTIONS then Err ''block transaction limit exceeded''
      else if hash_transactions P (b_transactions self) \<noteq> bh_transactions_hash (b_header self)
      then Err ''transaction set hash mismatch''
      else if windows2_any (\<lambda>a b. tx_order_key P a > tx_order_key P b) (b_transactions self)
      then Err ''transactions are not in canonical order''
      else Ok ())"

section \<open>Votes and certificates\<close>

definition vote_signing_bytes :: "'a consensus_prims_scheme \<Rightarrow> SignedBlockVote \<Rightarrow> bytes" where
  "vote_signing_bytes P self = vote_json P (self\<lparr>v_signature := zero_sig\<rparr>)"

definition SignedBlockVote_new ::
  "'a consensus_prims_scheme \<Rightarrow> Identity \<Rightarrow> OnecoinBlock \<Rightarrow> bool \<Rightarrow> SignedBlockVote" where
  "SignedBlockVote_new P identity block approve =
     (let vote = \<lparr>v_block_hash = OnecoinBlock_hash P block, v_height = bh_height (b_header block),
                  v_voter = ip_awe_id (id_public identity), v_approve = approve, v_signature = zero_sig\<rparr>
      in vote\<lparr>v_signature := Identity_sign P identity (vote_signing_bytes P vote)\<rparr>)"

definition vote_verify :: "'a consensus_prims_scheme \<Rightarrow> SignedBlockVote \<Rightarrow> bytes \<Rightarrow> bool" where
  "vote_verify P self public_key =
     (v_voter self = AweId_from_public_key P public_key
      \<and> Identity_verify P public_key (vote_signing_bytes P self) (v_signature self))"

record QuorumCertificate =
  qc_block_hash :: bytes
  qc_height :: u64
  qc_votes :: "SignedBlockVote list"

definition count_vote ::
  "'a consensus_prims_scheme \<Rightarrow> QuorumCertificate \<Rightarrow> (string, bytes) btree_map \<Rightarrow> SignedBlockVote
     \<Rightarrow> (string, bool) btree_map \<Rightarrow> (string, bool) btree_map" where
  "count_vote P self validators vote unique =
     (let key = AweId_to_hex P (v_voter vote) in
      case bt_get validators key of
        None \<Rightarrow> unique
      | Some public_key \<Rightarrow>
          if v_block_hash vote \<noteq> qc_block_hash self \<or> v_height vote \<noteq> qc_height self then unique
          else if v_approve vote \<and> vote_verify P vote public_key then bt_insert key True unique
          else unique)"

definition required_approvals :: "u64 \<Rightarrow> u64" where
  "required_approvals n = div_ceil (sat_mul n QUORUM_BPS) 10000"

definition QuorumCertificate_verify ::
  "'a consensus_prims_scheme \<Rightarrow> QuorumCertificate \<Rightarrow> (string, bytes) btree_map \<Rightarrow> bytes \<Rightarrow> u64 \<Rightarrow> unit result" where
  "QuorumCertificate_verify P self validators expected_block_hash expected_height =
     (if qc_block_hash self \<noteq> expected_block_hash \<or> qc_height self \<noteq> expected_height
      then Err ''quorum certificate does not match block''
      else
        let unique = fold (count_vote P self validators) (qc_votes self) [];
            approvals = of_nat (length unique);
            total_validators = of_nat (length validators);
            required = required_approvals total_validators
        in if total_validators = 0 \<or> approvals < required then Err ''validator quorum not reached'' else Ok ())"

section \<open>The finalised state\<close>

record OnecoinFinalizedState =
  f_ledger :: OnecoinLedger
  f_height :: u64
  f_tip_hash :: bytes

definition OnecoinFinalizedState_default :: OnecoinFinalizedState where
  "OnecoinFinalizedState_default = \<lparr>f_ledger = OnecoinLedger_default, f_height = 0, f_tip_hash = replicate 32 0\<rparr>"

definition ledger_sender_key :: "'a prims_scheme \<Rightarrow> OnecoinLedger \<Rightarrow> OnecoinTransaction \<Rightarrow> bytes result" where
  "ledger_sender_key P self tx =
     (let sender_id = AweId_from_public_key P (tx_sender tx) in
      if bt_contains (l_members self) (AweId_to_hex P sender_id) then Ok (tx_sender tx)
      else Err ''transaction sender is not a member'')"

text \<open>The loop of \<^verbatim>\<open>finalize\<close> over the block's transactions, on the cloned ledger.\<close>

fun execute_transactions ::
  "'a consensus_prims_scheme \<Rightarrow> OnecoinLedger \<Rightarrow> (bytes, bool) btree_map \<Rightarrow> OnecoinTransaction list
     \<Rightarrow> OnecoinLedger result" where
  "execute_transactions P next_ledger seen [] = Ok next_ledger"
| "execute_transactions P next_ledger seen (tx # txs) =
     (let txid = tx_id P tx in
      if bt_contains seen txid then Err ''duplicate transaction in block''
      else case ledger_sender_key P next_ledger tx of
             Inl e \<Rightarrow> Inl e
           | Inr sender_key \<Rightarrow>
               (case apply_transfer P next_ledger tx sender_key of
                  (Inl e, _) \<Rightarrow> Inl e
                | (Inr _, next_ledger) \<Rightarrow> execute_transactions P next_ledger (bt_insert txid True seen) txs))"

definition finalize ::
  "'a consensus_prims_scheme \<Rightarrow> OnecoinFinalizedState \<Rightarrow> OnecoinBlock \<Rightarrow> QuorumCertificate
     \<Rightarrow> (string, bytes) btree_map \<Rightarrow> bytes result \<times> OnecoinFinalizedState" where
  "finalize P self block certificate validators =
     (case validate_shape P block of Inl e \<Rightarrow> (Inl e, self) | Inr _ \<Rightarrow>
      case bt_get validators (AweId_to_hex P (bh_proposer (b_header block))) of
        None \<Rightarrow> (Err ''block proposer is not a validator'', self)
      | Some proposer_key \<Rightarrow>
      if \<not> verify_proposer P block proposer_key then (Err ''invalid block proposer signature'', self)
      else if bh_height (b_header block) \<noteq> sat_add (f_height self) 1 then (Err ''invalid block height'', self)
      else if bh_previous_hash (b_header block) \<noteq> f_tip_hash self then (Err ''invalid previous block hash'', self)
      else case QuorumCertificate_verify P certificate validators (OnecoinBlock_hash P block) (bh_height (b_header block)) of
        Inl e \<Rightarrow> (Inl e, self) | Inr _ \<Rightarrow>
      case execute_transactions P (f_ledger self) [] (b_transactions block) of
        Inl e \<Rightarrow> (Inl e, self)
      | Inr next_ledger \<Rightarrow>
          (Ok (OnecoinBlock_hash P block),
           \<lparr>f_ledger = next_ledger, f_height = bh_height (b_header block),
            f_tip_hash = OnecoinBlock_hash P block\<rparr>))"


section \<open>Quorums intersect\<close>

locale quorum_system =
  fixes voters :: "'v set"
    and required :: nat
    and accepted :: "'c \<Rightarrow> bool"
    and approvers :: "'c \<Rightarrow> 'v set"
  assumes finite_voters: "finite voters"
    and approvers_sub: "approvers c \<subseteq> voters"
    and enough: "accepted c \<Longrightarrow> required \<le> card (approvers c)"
begin

lemma overlap:
  assumes "accepted c" "accepted d"
  shows "2 * required \<le> card (approvers c \<inter> approvers d) + card voters"
proof -
  have fin: "finite (approvers c)" "finite (approvers d)"
    using approvers_sub finite_voters finite_subset by metis+
  have "card (approvers c) + card (approvers d) = card (approvers c \<union> approvers d) + card (approvers c \<inter> approvers d)"
    using fin by (rule card_Un_Int)
  moreover have "card (approvers c \<union> approvers d) \<le> card voters"
    using approvers_sub by (intro card_mono finite_voters) auto
  ultimately show ?thesis
    using enough [OF assms(1)] enough [OF assms(2)] by linarith
qed

lemma common_honest:
  assumes "accepted c" "accepted d" "finite bad" "card bad + card voters < 2 * required"
  shows "\<exists>v. v \<in> approvers c \<and> v \<in> approvers d \<and> v \<notin> bad"
proof (rule ccontr)
  assume "\<not> ?thesis"
  then have "approvers c \<inter> approvers d \<subseteq> bad"
    by auto
  then have "card (approvers c \<inter> approvers d) \<le> card bad"
    using assms(3) by (rule card_mono [rotated])
  then show False
    using overlap [OF assms(1,2)] assms(4) by linarith
qed

end

text \<open>The validators a certificate counts: those with an approving, correctly signed vote in it for its
  block and height.\<close>

definition approvers_of ::
  "'a consensus_prims_scheme \<Rightarrow> (string, bytes) btree_map \<Rightarrow> QuorumCertificate \<Rightarrow> string set" where
  "approvers_of P validators c = {k. \<exists>v pk. v \<in> set (qc_votes c) \<and> k = AweId_to_hex P (v_voter v)
     \<and> bt_get validators k = Some pk \<and> v_block_hash v = qc_block_hash c \<and> v_height v = qc_height c
     \<and> v_approve v \<and> vote_verify P v pk}"

definition certificate_accepted ::
  "'a consensus_prims_scheme \<Rightarrow> (string, bytes) btree_map \<Rightarrow> QuorumCertificate \<Rightarrow> bool" where
  "certificate_accepted P validators c \<longleftrightarrow>
     is_ok (QuorumCertificate_verify P c validators (qc_block_hash c) (qc_height c))
     \<and> length validators * 6666 < 2 ^ 64"

lemma unique_votes:
  "dom (bt_get (fold (count_vote P c validators) vs m)) =
     dom (bt_get m) \<union> approvers_of P validators (c\<lparr>qc_votes := vs\<rparr>)"
proof (induction vs arbitrary: m)
  case Nil
  then show ?case by (simp add: approvers_of_def)
next
  case (Cons v vs)
  have "dom (bt_get (count_vote P c validators v m)) = dom (bt_get m) \<union> approvers_of P validators (c\<lparr>qc_votes := [v]\<rparr>)"
    by (auto simp: count_vote_def approvers_of_def Let_def split: option.splits)
  moreover have "approvers_of P validators (c\<lparr>qc_votes := v # vs\<rparr>)
      = approvers_of P validators (c\<lparr>qc_votes := [v]\<rparr>) \<union> approvers_of P validators (c\<lparr>qc_votes := vs\<rparr>)"
    by (auto simp: approvers_of_def)
  ultimately show ?case
    by (simp add: Cons.IH Un_assoc)
qed

lemma unique_inv: "bt_inv m \<Longrightarrow> bt_inv (fold (count_vote P c validators) vs m)"
  by (induction vs arbitrary: m) (auto simp: count_vote_def Let_def split: option.split)

lemma required_exact:
  assumes "n * 6666 < 2 ^ 64"
  shows "unat (required_approvals (of_nat n)) = (n * 6666 + 9999) div 10000"
proof -
  have "unat (of_nat n :: u64) = n"
    using assms by (intro unat_of_nat_small) simp
  then have "unat (sat_mul (of_nat n) QUORUM_BPS) = n * 6666"
    using assms by (simp add: unat_sat_mul QUORUM_BPS_def)
  then show ?thesis
    by (simp add: required_approvals_def unat_div_ceil)
qed

lemma approvers_sub_validators: "approvers_of P validators c \<subseteq> dom (bt_get validators)"
  by (auto simp: approvers_of_def)

lemma accepted_enough:
  assumes "certificate_accepted P validators c"
  shows "(length validators * 6666 + 9999) div 10000 \<le> card (approvers_of P validators c)"
proof -
  let ?u = "fold (count_vote P c validators) (qc_votes c) []"
  have n: "length validators * 6666 < 2 ^ 64"
    using assms by (simp add: certificate_accepted_def)
  have card: "length ?u = card (approvers_of P validators c)"
    using bt_len_card [OF unique_inv [OF bt_inv_Nil], of P c validators "qc_votes c"] by (simp add: unique_votes)
  have "card (approvers_of P validators c) \<le> card (dom (bt_get validators))"
    by (intro card_mono approvers_sub_validators bt_finite_dom)
  also have "\<dots> \<le> length validators"
    by (rule bt_card_dom_le)
  finally have "unat (of_nat (length ?u) :: u64) = length ?u"
    using n card by (intro unat_of_nat_small) simp
  moreover have "required_approvals (of_nat (length validators)) \<le> of_nat (length ?u)"
    using assms by (auto simp: certificate_accepted_def QuorumCertificate_verify_def Let_def not_less split: if_splits)
  ultimately show ?thesis
    using required_exact [OF n] card by (simp add: word_le_nat_alt)
qed

interpretation qc: quorum_system "dom (bt_get validators)" "(length validators * 6666 + 9999) div 10000"
  "certificate_accepted P validators" "approvers_of P validators"
  for P :: "'a consensus_prims_scheme" and validators
proof
  show "finite (dom (bt_get validators))"
    by (rule bt_finite_dom)
qed (rule approvers_sub_validators accepted_enough; assumption?)+


section \<open>Finalisation\<close>

lemma execute_transactions_apply_all:
  "execute_transactions P l seen txs = Ok l' \<Longrightarrow>
     apply_all (\<lambda>l tx. apply_transfer P l tx (tx_sender tx)) l txs = Some l'
     \<and> distinct (map (tx_id P) txs) \<and> (\<forall>tx \<in> set txs. \<not> bt_contains seen (tx_id P tx))"
proof (induction txs arbitrary: l seen)
  case (Cons tx txs)
  obtain r l1 where run: "apply_transfer P l tx (tx_sender tx) = (r, l1)"
    by fastforce
  from Cons.prems obtain i where "r = Ok i" "\<not> bt_contains seen (tx_id P tx)"
      "execute_transactions P l1 (bt_insert (tx_id P tx) True seen) txs = Ok l'"
    by (auto simp: Let_def ledger_sender_key_def run split: if_splits sum.splits)
  then show ?case
    using Cons.IH [of l1 "bt_insert (tx_id P tx) True seen"] run by auto
qed simp

lemma finalize_OkE:
  assumes "finalize P st block cert validators = (Ok h, st')"
  obtains "h = OnecoinBlock_hash P block" "validate_shape P block = Ok ()"
    "bh_height (b_header block) = sat_add (f_height st) 1"
    "bh_previous_hash (b_header block) = f_tip_hash st"
    "QuorumCertificate_verify P cert validators h (bh_height (b_header block)) = Ok ()"
    "execute_transactions P (f_ledger st) [] (b_transactions block) = Ok (f_ledger st')"
    "f_height st' = bh_height (b_header block)" "f_tip_hash st' = h"
  using assms by (auto simp: finalize_def split: sum.splits option.splits if_splits)

lemma finalize_Inl: "finalize P st block cert validators = (Inl e, st') \<Longrightarrow> st' = st"
  by (auto simp: finalize_def split: sum.splits option.splits if_splits)

text \<open>C3. Finalising a block is atomic: an error leaves the finalised state as it was; success applies
  all transactions of the block in order, without a repeated transaction, moves the state one height
  up to the block's hash on top of the previous tip, and neither creates nor destroys value.\<close>

theorem finalize_atomic:
  assumes "ledger_good P (f_ledger st)" "coin_supply (f_ledger st) < 2 ^ 128" "f_height st \<noteq> - 1"
    and "finalize P st block cert validators = (r, st')"
  shows "(\<not> is_ok r \<longrightarrow> st' = st)
    \<and> (is_ok r \<longrightarrow>
         apply_all (\<lambda>l tx. apply_transfer P l tx (tx_sender tx)) (f_ledger st) (b_transactions block) = Some (f_ledger st')
         \<and> distinct (map (tx_id P) (b_transactions block))
         \<and> unat (f_height st') = unat (f_height st) + 1
         \<and> f_tip_hash st' = OnecoinBlock_hash P block \<and> bh_previous_hash (b_header block) = f_tip_hash st
         \<and> ledger_good P (f_ledger st') \<and> coin_supply (f_ledger st') = coin_supply (f_ledger st)
         \<and> l_total_issued_atoms (f_ledger st') = l_total_issued_atoms (f_ledger st))"
proof (cases r)
  case (Inl e)
  then show ?thesis
    using assms(4) finalize_Inl by auto
next
  case (Inr h)
  with assms(4) have run: "finalize P st block cert validators = (Ok h, st')"
    by simp
  show ?thesis
    using run
  proof (rule finalize_OkE)
    assume ex: "execute_transactions P (f_ledger st) [] (b_transactions block) = Ok (f_ledger st')"
      and h: "f_height st' = bh_height (b_header block)" "bh_height (b_header block) = sat_add (f_height st) 1"
      and tip: "f_tip_hash st' = h" "h = OnecoinBlock_hash P block" "bh_previous_hash (b_header block) = f_tip_hash st"
    note all = execute_transactions_apply_all [OF ex]
    have "unat (f_height st') = unat (f_height st) + 1"
      using h unat_not_max [OF assms(3)] sat_add_exact [of "f_height st" 1] by simp
    moreover have "l_total_issued_atoms (f_ledger st') = l_total_issued_atoms (f_ledger st)"
      using onecoin.all_keep [OF assms(1)] all word_unat_eq_iff by blast
    ultimately show ?thesis
      using Inr tip all onecoin.all_keep [OF assms(1)] onecoin.all_conserve [OF assms(1,2)] by auto
  qed
qed

lemma certificate_acceptedI:
  assumes "QuorumCertificate_verify P c validators h ht = Ok ()" "length validators * 6666 < 2 ^ 64"
  shows "certificate_accepted P validators c" "qc_block_hash c = h" "qc_height c = ht" "validators \<noteq> []"
  using assms by (auto simp: certificate_accepted_def QuorumCertificate_verify_def Let_def split: if_splits)

text \<open>
  What is assumed of the validators outside \<open>bad\<close>. \<open>cast k\<close> is what the holder of the key of validator \<open>k\<close> has
  signed. Signatures are not forged: a vote in one of the certificates whose signature the validator's key accepts was
  signed by it. The validator is honest: it has not signed approvals of two different blocks at one height.
\<close>

definition unforged ::
  "'a consensus_prims_scheme \<Rightarrow> (string, bytes) btree_map \<Rightarrow> (string \<Rightarrow> bytes set) \<Rightarrow> string set \<Rightarrow> SignedBlockVote set \<Rightarrow> bool" where
  "unforged P validators cast bad votes \<longleftrightarrow>
     (\<forall>v \<in> votes. \<forall>k pk. bt_get validators k = Some pk \<longrightarrow> k \<notin> bad \<longrightarrow>
        Identity_verify P pk (vote_signing_bytes P v) (v_signature v) \<longrightarrow> vote_signing_bytes P v \<in> cast k)"

definition votes_once ::
  "'a consensus_prims_scheme \<Rightarrow> (string \<Rightarrow> bytes set) \<Rightarrow> string set \<Rightarrow> SignedBlockVote set \<Rightarrow> bool" where
  "votes_once P cast bad votes \<longleftrightarrow>
     (\<forall>k v w. k \<notin> bad \<longrightarrow> v \<in> votes \<longrightarrow> w \<in> votes \<longrightarrow> vote_signing_bytes P v \<in> cast k \<longrightarrow> vote_signing_bytes P w \<in> cast k \<longrightarrow>
        v_approve v \<longrightarrow> v_approve w \<longrightarrow> v_height v = v_height w \<longrightarrow> v_block_hash v = v_block_hash w)"

lemma quorum_agreement:
  assumes "QuorumCertificate_verify P c validators h ht = Ok ()" "QuorumCertificate_verify P d validators h' ht = Ok ()"
    and n: "length validators * 6666 < 2 ^ 64"
    and bad: "finite bad" "10000 * card bad < 3332 * length validators"
    and unforged: "unforged P validators cast bad (set (qc_votes c) \<union> set (qc_votes d))"
    and once: "votes_once P cast bad (set (qc_votes c) \<union> set (qc_votes d))"
  shows "h = h'"
proof -
  note C = certificate_acceptedI [OF assms(1) n] and D = certificate_acceptedI [OF assms(2) n]
  have "card bad + card (dom (bt_get validators)) < 2 * ((length validators * 6666 + 9999) div 10000)"
    using bad(2) bt_card_dom_le [of validators] by linarith
  then obtain k where "k \<in> approvers_of P validators c" "k \<in> approvers_of P validators d" and k: "k \<notin> bad"
    using qc.common_honest [OF C(1) D(1) bad(1)] by blast
  then obtain v w pk where vw: "v \<in> set (qc_votes c)" "w \<in> set (qc_votes d)" "bt_get validators k = Some pk"
      "vote_verify P v pk" "vote_verify P w pk" "v_approve v" "v_approve w"
      "v_block_hash v = qc_block_hash c" "v_block_hash w = qc_block_hash d" "v_height v = qc_height c" "v_height w = qc_height d"
    unfolding approvers_of_def by auto
  have "vote_signing_bytes P v \<in> cast k" "vote_signing_bytes P w \<in> cast k"
    using vw unforged k unfolding unforged_def vote_verify_def by blast+
  moreover have "v_height v = v_height w"
    using vw C(3) D(3) by simp
  ultimately have "v_block_hash v = v_block_hash w"
    using once k vw(1,2,6,7) unfolding votes_once_def by blast
  then show ?thesis
    using vw C(2) D(2) by simp
qed

text \<open>C1. Two nodes that extend the same finalised state agree: if fewer than 33.32 percent of the
  validators sign approvals of different blocks at one height, and the signatures of the others are not forged,
  the blocks the two nodes finalise have the same hash, and if the blocks are the same the two nodes reach the
  same state. Votes in the certificates that the validators' keys do not accept are of no consequence.\<close>

theorem finalized_blocks_agree:
  assumes "finalize P st block cert validators = (Ok h, st')"
    and "finalize P st block2 cert2 validators = (Ok h2, st2)"
    and "length validators * 6666 < 2 ^ 64"
    and "finite bad" "10000 * card bad < 3332 * length validators"
    and "unforged P validators cast bad (set (qc_votes cert) \<union> set (qc_votes cert2))"
    and "votes_once P cast bad (set (qc_votes cert) \<union> set (qc_votes cert2))"
  shows "h = h2 \<and> h = OnecoinBlock_hash P block \<and> h2 = OnecoinBlock_hash P block2 \<and> (block = block2 \<longrightarrow> st' = st2)"
proof -
  have A: "h = OnecoinBlock_hash P block" "QuorumCertificate_verify P cert validators h (sat_add (f_height st) 1) = Ok ()"
    "execute_transactions P (f_ledger st) [] (b_transactions block) = Ok (f_ledger st')"
    "f_height st' = sat_add (f_height st) 1" "f_tip_hash st' = h"
    using assms(1) by (auto elim!: finalize_OkE)
  have B: "h2 = OnecoinBlock_hash P block2" "QuorumCertificate_verify P cert2 validators h2 (sat_add (f_height st) 1) = Ok ()"
    "execute_transactions P (f_ledger st) [] (b_transactions block2) = Ok (f_ledger st2)"
    "f_height st2 = sat_add (f_height st) 1" "f_tip_hash st2 = h2"
    using assms(2) by (auto elim!: finalize_OkE)
  have h: "h = h2"
    by (rule quorum_agreement [OF A(2) B(2) assms(3-7)])
  moreover have "st' = st2" if "block = block2"
    using that A(3-5) B(3-5) h by (cases st', cases st2) simp
  ultimately show ?thesis
    using A(1) B(1) by auto
qed


section \<open>Canonical order\<close>

lemma windows2_sorted:
  "windows2_any (\<lambda>a b. f a > f b) xs \<longleftrightarrow> \<not> sorted (map f xs)" for f :: "'a \<Rightarrow> 'b::linorder"
  by (induction "\<lambda>a b. f a > f b" xs rule: windows2_any.induct) (auto simp: not_less, meson order_trans)

lemma signed_verifies:
  "ed_correct P \<Longrightarrow> identity_wf P i \<Longrightarrow> Identity_verify P (ip_public_key (id_public i)) m (Identity_sign P i m)"
  by (simp add: ed_correct_def identity_wf_def Identity_verify_def Identity_sign_def)

lemma block_new_valid:
  assumes "ed_correct P" "identity_wf P i" "OnecoinBlock_new P i height prev txs time = Ok b"
  shows "validate_shape P b = Ok ()" "verify_proposer P b (ip_public_key (id_public i))"
    "b_transactions b = sort_key (tx_order_key P) txs" "bh_proposer (b_header b) = ip_awe_id (id_public i)"
    "bh_height (b_header b) = height" "bh_previous_hash (b_header b) = prev"
proof -
  let ?txs = "sort_key (tx_order_key P) txs"
  define b0 where "b0 = \<lparr>b_header = \<lparr>bh_version = CONSENSUS_VERSION, bh_height = height, bh_previous_hash = prev,
      bh_transactions_hash = hash_transactions P ?txs, bh_proposer = ip_awe_id (id_public i), bh_timestamp_unix = time\<rparr>,
      b_transactions = ?txs, b_proposer_signature = zero_sig\<rparr>"
  have b: "b = b0\<lparr>b_proposer_signature := Identity_sign P i (block_signing_bytes P b0)\<rparr>"
    and len: "length txs \<le> MAX_BLOCK_TRANSACTIONS"
    using assms(3) by (auto simp: OnecoinBlock_new_def Let_def b0_def split: if_splits)
  have "b0\<lparr>b_proposer_signature := zero_sig\<rparr> = b0"
    by (simp add: b0_def)
  then have "block_signing_bytes P b = block_signing_bytes P b0"
    by (simp add: block_signing_bytes_def b)
  then show "verify_proposer P b (ip_public_key (id_public i))"
    using assms(2) signed_verifies [OF assms(1,2), of "block_signing_bytes P b0"]
    by (simp add: verify_proposer_def b b0_def identity_wf_def)
  show "validate_shape P b = Ok ()"
    using len by (simp add: validate_shape_def b b0_def windows2_sorted)
  show "b_transactions b = ?txs" "bh_proposer (b_header b) = ip_awe_id (id_public i)"
    "bh_height (b_header b) = height" "bh_previous_hash (b_header b) = prev"
    by (simp_all add: b b0_def)
qed

lemma vote_new_valid:
  assumes "ed_correct P" "identity_wf P i"
  shows "vote_verify P (SignedBlockVote_new P i b a) (ip_public_key (id_public i))"
proof -
  let ?v = "\<lparr>v_block_hash = OnecoinBlock_hash P b, v_height = bh_height (b_header b),
             v_voter = ip_awe_id (id_public i), v_approve = a, v_signature = zero_sig\<rparr>"
  have "vote_signing_bytes P (SignedBlockVote_new P i b a) = vote_signing_bytes P ?v"
    by (simp add: vote_signing_bytes_def SignedBlockVote_new_def Let_def)
  then show ?thesis
    using assms(2) signed_verifies [OF assms, of "vote_signing_bytes P ?v"]
    by (simp add: vote_verify_def SignedBlockVote_new_def Let_def identity_wf_def)
qed

text \<open>Proposers that collect the same transactions, in whatever order, build the same canonical
  list, provided the order key (sender, nonce, transaction hash) tells the transactions apart; the block
  they sign passes the shape check and the proposer check of every node.\<close>

theorem proposers_order_alike:
  assumes "ed_correct P" "identity_wf P i" "identity_wf P j"
    and "mset txs = mset txs'" "inj_on (tx_order_key P) (set txs)"
    and "OnecoinBlock_new P i height prev txs time = Ok b" "OnecoinBlock_new P j height' prev' txs' time' = Ok b'"
  shows "b_transactions b = b_transactions b'
    \<and> bh_transactions_hash (b_header b) = bh_transactions_hash (b_header b')
    \<and> validate_shape P b = Ok () \<and> validate_shape P b' = Ok ()
    \<and> verify_proposer P b (ip_public_key (id_public i)) \<and> verify_proposer P b' (ip_public_key (id_public j))"
proof -
  note B = block_new_valid [OF assms(1,2,6)] and B' = block_new_valid [OF assms(1,3,7)]
  have "sort_key (tx_order_key P) txs = sort_key (tx_order_key P) txs'"
    using assms(4,5) by (intro sort_key_inj_key_eq) simp_all
  then have same: "b_transactions b = b_transactions b'"
    by (simp add: B(3) B'(3))
  moreover have "bh_transactions_hash (b_header b) = hash_transactions P (b_transactions b)"
    "bh_transactions_hash (b_header b') = hash_transactions P (b_transactions b')"
    using B(1) B'(1) by (simp_all add: validate_shape_def split: if_splits)
  ultimately show ?thesis
    using B(1,2) B'(1,2) by simp
qed


section \<open>A concrete chain\<close>

definition demo_cons :: consensus_prims where
  "demo_cons = coin_prims.extend demo_coin
     \<lparr>block_json = (\<lambda>b. b_proposer_signature b @ to_be_bytes_u64 (bh_timestamp_unix (b_header b))
                         @ to_be_bytes_u64 (bh_height (b_header b))),
      vote_json = (\<lambda>v. v_signature v @ v_block_hash v),
      txs_json = (\<lambda>txs. concat (map (\<lambda>tx. to_be_bytes_u64 (tx_nonce tx)) txs))\<rparr>"

lemma demo_cons_coin: "coin_prims.truncate demo_cons = demo_coin"
  by (simp add: demo_cons_def demo_coin_def demo_prims_def coin_prims.defs prims.defs)

lemma demo_cons_simps [simp]:
  "sha256 demo_cons = sha256 demo_coin" "blake3 demo_cons = blake3 demo_coin"
  "hex_encode demo_cons = hex_encode demo_coin" "ed_public demo_cons = ed_public demo_coin"
  "ed_sign demo_cons = ed_sign demo_coin" "ed_key_ok demo_cons = ed_key_ok demo_coin"
  "ed_verify demo_cons = ed_verify demo_coin" "tx_json demo_cons = tx_json demo_coin"
  by (simp_all add: demo_cons_def demo_coin_def demo_prims_def coin_prims.defs prims.defs)

lemma demo_cons_ed: "ed_correct demo_cons"
  by (simp add: ed_correct_def)

lemma demo_cons_hash: "AweId_from_public_key demo_cons = AweId_from_public_key demo_coin"
  "AweId_to_hex demo_cons = AweId_to_hex demo_coin" "hash demo_cons = hash demo_coin"
  by (simp_all add: fun_eq_iff AweId_from_public_key_def AweId_to_hex_def hash_def)

lemma demo_cons_ledger: "ledger_good demo_cons demo_ledger" "transfer_ready demo_cons l tx pk d = transfer_ready demo_coin l tx pk d"
  using demo_ledger_good
  by (simp_all add: ledger_inv_def transfer_ready_def sender_key_of_def recipient_key_of_def demo_cons_hash
      tx_verify_def tx_signing_bytes_def)

definition demo_id :: Identity where
  "demo_id = Identity_from_signing_key demo_cons (Username ''a'') (replicate 32 1)"

lemma demo_id_wf: "identity_wf demo_cons demo_id" "ip_public_key (id_public demo_id) = replicate 32 1"
  "ip_awe_id (id_public demo_id) = AweId (replicate 32 1)"
  by (simp_all add: identity_wf_def demo_id_def Identity_from_signing_key_def Let_def demo_cons_hash demo_aweid)

definition demo_validators :: "(string, bytes) btree_map" where
  "demo_validators = [(from_bytes (replicate 32 1), replicate 32 1)]"

definition demo_state :: OnecoinFinalizedState where
  "demo_state = \<lparr>f_ledger = demo_ledger, f_height = 0, f_tip_hash = replicate 32 0\<rparr>"

definition demo_block :: OnecoinBlock where
  "demo_block = (case OnecoinBlock_new demo_cons demo_id 1 (replicate 32 0) [demo_tx] 10 of Inr b \<Rightarrow> b)"

definition demo_cert :: QuorumCertificate where
  "demo_cert = \<lparr>qc_block_hash = OnecoinBlock_hash demo_cons demo_block, qc_height = 1,
     qc_votes = [SignedBlockVote_new demo_cons demo_id demo_block True]\<rparr>"

lemma demo_block_new: "OnecoinBlock_new demo_cons demo_id 1 (replicate 32 0) [demo_tx] 10 = Ok demo_block"
  by (simp add: demo_block_def OnecoinBlock_new_def Let_def MAX_BLOCK_TRANSACTIONS_def)

lemmas demo_block_valid = block_new_valid [OF demo_cons_ed demo_id_wf(1) demo_block_new]

lemma demo_cert_ok: "QuorumCertificate_verify demo_cons demo_cert demo_validators (OnecoinBlock_hash demo_cons demo_block) 1 = Ok ()"
proof -
  let ?v = "SignedBlockVote_new demo_cons demo_id demo_block True"
  have v: "v_block_hash ?v = OnecoinBlock_hash demo_cons demo_block" "v_height ?v = 1" "v_voter ?v = AweId (replicate 32 1)" "v_approve ?v"
    by (simp_all add: SignedBlockVote_new_def Let_def demo_block_valid demo_id_wf)
  have "vote_verify demo_cons ?v (replicate 32 1)"
    using vote_new_valid [OF demo_cons_ed demo_id_wf(1), of demo_block True] by (simp add: demo_id_wf)
  then have "count_vote demo_cons demo_cert demo_validators ?v [] = [(from_bytes (replicate 32 1), True)]"
    by (simp add: count_vote_def demo_cert_def demo_validators_def v AweId_to_hex_def bt_get_def)
  then show ?thesis
    by (simp add: QuorumCertificate_verify_def demo_cert_def demo_validators_def Let_def required_approvals_def
        sat_mul_def div_ceil_def QUORUM_BPS_def)
qed

lemma demo_execute: "execute_transactions demo_cons demo_ledger [] [demo_tx]
    = Ok (transferred demo_cons demo_ledger demo_tx (replicate 32 1) (tx_amount_atoms demo_tx))"
proof -
  have ready: "transfer_ready demo_cons demo_ledger demo_tx (replicate 32 1) (tx_amount_atoms demo_tx)"
    unfolding demo_cons_ledger by (rule demo_ready) (simp add: demo_tx_def ATOMS_PER_COIN_def)
  then have "bt_contains (l_members demo_ledger) (AweId_to_hex demo_cons (AweId_from_public_key demo_cons (replicate 32 1)))"
    by (simp add: transfer_ready_def sender_key_of_def)
  then show ?thesis
    using apply_transfer_cases(1) [OF ready]
    by (simp add: Let_def ledger_sender_key_def demo_tx_ok bt_contains_def bt_get_def [of "[]"])
qed

lemma demo_finalize:
  "finalize demo_cons demo_state demo_block demo_cert demo_validators =
     (Ok (OnecoinBlock_hash demo_cons demo_block),
      \<lparr>f_ledger = transferred demo_cons demo_ledger demo_tx (replicate 32 1) (tx_amount_atoms demo_tx),
       f_height = 1, f_tip_hash = OnecoinBlock_hash demo_cons demo_block\<rparr>)"
proof -
  have "bt_get demo_validators (AweId_to_hex demo_cons (bh_proposer (b_header demo_block))) = Some (replicate 32 1)"
    by (simp add: demo_validators_def demo_block_valid demo_id_wf AweId_to_hex_def bt_get_def)
  moreover have "verify_proposer demo_cons demo_block (replicate 32 1)"
    using demo_block_valid(2) by (simp add: demo_id_wf)
  ultimately show ?thesis
    by (simp add: finalize_def demo_block_valid demo_cert_ok demo_execute demo_state_def sat_add_def
        del: execute_transactions.simps)
qed

theorem finalize_atomic_witness:
  "\<exists>h st'. finalize demo_cons demo_state demo_block demo_cert demo_validators = (Ok h, st')
     \<and> unat (f_height st') = 1 \<and> coin_supply (f_ledger st') = coin_supply demo_ledger"
proof -
  have good: "ledger_good demo_cons (f_ledger demo_state)" and small: "coin_supply (f_ledger demo_state) < 2 ^ 128"
    and ht: "f_height demo_state \<noteq> - 1"
    using demo_cons_ledger(1) demo_circulating
    by (simp_all add: demo_state_def coin_supply_def demo_ledger_def OnecoinLedger_default_def)
  from finalize_atomic [OF good small ht demo_finalize] demo_finalize show ?thesis
    by (simp add: demo_state_def)
qed

theorem finalized_blocks_agree_witness:
  "\<exists>h st'. finalize demo_cons demo_state demo_block demo_cert demo_validators = (Ok h, st') \<and> h = OnecoinBlock_hash demo_cons demo_block"
proof (intro exI conjI)
  show "OnecoinBlock_hash demo_cons demo_block = OnecoinBlock_hash demo_cons demo_block"
    by (rule finalized_blocks_agree [OF demo_finalize demo_finalize, of "{}" "\<lambda>k. vote_signing_bytes demo_cons ` set (qc_votes demo_cert)", THEN conjunct1])
       (simp_all add: demo_validators_def demo_cert_def unforged_def votes_once_def)
qed (rule demo_finalize)

theorem proposers_order_alike_witness:
  "validate_shape demo_cons demo_block = Ok () \<and> b_transactions demo_block = [demo_tx]"
  using proposers_order_alike [OF demo_cons_ed demo_id_wf(1) demo_id_wf(1) refl _ demo_block_new demo_block_new]
  by (simp add: demo_block_valid)

end
