(* ===== verification/Onecoin_Store.thy ===== *)
theory Onecoin_Store
  imports Consensus
begin

text \<open>
  \<^verbatim>\<open>core/src/onecoin_store.rs\<close>: the durable ledger and the durable finalised state. The disk is a map
  from paths to contents; \<open>atomic_write\<close> takes the point at which the operating system fails, if any.
  The JSON codec is a field of \<open>store_prims\<close>; writing can fail, which \<^verbatim>\<open>serde_json\<close> documents for maps
  whose keys are not strings. The lemmas show that a crash never destroys the last saved file, that a
  saved ledger opens unchanged, that every ledger the operations can reach passes the check at open,
  and which ledgers cannot be saved or reopened.
\<close>

section \<open>Files\<close>

datatype path = Path (parent: string) (file_stem: string) (extension: "string option")

definition with_extension :: "path \<Rightarrow> string \<Rightarrow> path" where
  "with_extension p e = Path (parent p) (file_stem p) (Some e)"

type_synonym disk = "path \<Rightarrow> bytes option"

text \<open>Where a write fails: creating the temporary file, after writing some bytes of it, when syncing,
  or when renaming.\<close>

datatype write_fault = FailCreate | FailWrite bytes | FailSync | FailRename

definition os_error :: "'a result" where
  "os_error = Inl (Io OtherIo ''os error'')"

definition atomic_write :: "write_fault option \<Rightarrow> disk \<Rightarrow> path \<Rightarrow> bytes \<Rightarrow> unit result \<times> disk" where
  "atomic_write fault d path bs =
     (let tmp = with_extension path ''part'' in
      if fault = Some FailCreate then (os_error, d)
      else
        (case fault of
           Some (FailWrite partial) \<Rightarrow> (os_error, d(tmp := Some partial))
         | _ \<Rightarrow>
             let d = d(tmp := Some bs) in
             if fault = Some FailSync \<or> fault = Some FailRename then (os_error, d)
             else if tmp = path then (Ok (), d)
             else (Ok (), d(tmp := None, path := Some bs))))"

section \<open>Encoding\<close>

record store_prims = consensus_prims +
  ledger_to_json :: "OnecoinLedger \<Rightarrow> bytes option"
  ledger_from_json :: "bytes \<Rightarrow> OnecoinLedger option"
  state_to_json :: "OnecoinFinalizedState \<Rightarrow> bytes option"
  state_from_json :: "bytes \<Rightarrow> OnecoinFinalizedState option"

text \<open>Documented behaviour of \<^verbatim>\<open>serde_json\<close>: what was written reads back, and a value with a non-empty
  map whose keys are not strings (here byte arrays) cannot be written.\<close>

definition json_reads_back :: "'a store_prims_scheme \<Rightarrow> bool" where
  "json_reads_back P \<longleftrightarrow>
     (\<forall>l b. ledger_to_json P l = Some b \<longrightarrow> ledger_from_json P b = Some l)
     \<and> (\<forall>s b. state_to_json P s = Some b \<longrightarrow> state_from_json P b = Some s)"

definition string_keys_only :: "OnecoinLedger \<Rightarrow> bool" where
  "string_keys_only l \<longleftrightarrow> l_received_transactions l = [] \<and> l_rewarded_receipts l = []"

definition json_needs_string_keys :: "'a store_prims_scheme \<Rightarrow> bool" where
  "json_needs_string_keys P \<longleftrightarrow>
     (\<forall>l. ledger_to_json P l \<noteq> None \<longrightarrow> string_keys_only l)
     \<and> (\<forall>s. state_to_json P s \<noteq> None \<longrightarrow> string_keys_only (f_ledger s))"

definition MAGIC :: bytes where
  "MAGIC = as_bytes ''AWENET-ONECOIN-LEDGER-V1'' @ [0]"
definition MAX_LEDGER_BYTES :: nat where
  "MAX_LEDGER_BYTES = 64 * 1024 * 1024"
definition STATE_MAGIC :: bytes where
  "STATE_MAGIC = as_bytes ''AWENET-ONECOIN-STATE-V1'' @ [0]"

definition load_json :: "(bytes \<Rightarrow> 'v option) \<Rightarrow> disk \<Rightarrow> path \<Rightarrow> 'v result" where
  "load_json from_slice d path =
     (case d path of
        None \<Rightarrow> Inl (Io NotFound ''os error'')
      | Some bs \<Rightarrow>
          if length bs > MAX_LEDGER_BYTES \<or> length bs < length MAGIC \<or> take (length MAGIC) bs \<noteq> MAGIC
          then Inl (Io InvalidData ''invalid AWENET ledger file'')
          else (case from_slice (drop (length MAGIC) bs) of
                  None \<Rightarrow> Inl (Io InvalidData ''corrupt AWENET ledger state'')
                | Some v \<Rightarrow> Ok v))"

definition save_json :: "('v \<Rightarrow> bytes option) \<Rightarrow> write_fault option \<Rightarrow> disk \<Rightarrow> path \<Rightarrow> 'v \<Rightarrow> unit result \<times> disk" where
  "save_json to_vec fault d path v =
     (case to_vec v of
        None \<Rightarrow> (Inl (Io InvalidData ''ledger serialization failed''), d)
      | Some body \<Rightarrow>
          if length body > MAX_LEDGER_BYTES - length MAGIC
          then (Inl (Io InvalidData ''ledger state too large''), d)
          else atomic_write fault d path (MAGIC @ body))"

section \<open>The durable ledger\<close>

record PersistentOnecoinLedger =
  pl_path :: path
  pl_ledger :: OnecoinLedger

fun members_match :: "'a prims_scheme \<Rightarrow> (string \<times> bytes) list \<Rightarrow> bool" where
  "members_match P [] = True"
| "members_match P ((i, public_key) # rest) = (if hex_encode P public_key \<noteq> i then False else members_match P rest)"

definition validate_ledger ::
  "'a prims_scheme \<Rightarrow> string \<Rightarrow> string \<Rightarrow> string \<Rightarrow> OnecoinLedger \<Rightarrow> unit result" where
  "validate_ledger P e_members e_supply e_keys ledger =
     (if length (l_members ledger) \<noteq> length (l_balances ledger) \<or> length (l_members ledger) \<noteq> length (l_nonces ledger)
      then Inl (Io InvalidData e_members)
      else let computed = fold (\<lambda>v acc. sat_add acc v) (map snd (l_balances ledger)) 0 in
        if computed > l_total_issued_atoms ledger then Inl (Io InvalidData e_supply)
        else if \<not> members_match P (l_members ledger) then Inl (Io InvalidData e_keys)
        else Ok ())"

definition PersistentOnecoinLedger_validate :: "'a prims_scheme \<Rightarrow> OnecoinLedger \<Rightarrow> unit result" where
  "PersistentOnecoinLedger_validate P =
     validate_ledger P ''ledger member state is inconsistent'' ''ledger supply invariant violated''
       ''ledger AWEID/public-key mismatch''"

text \<open>\<open>fault\<close> is an error of \<^verbatim>\<open>create_dir_all\<close> or of reading the file.\<close>

definition PersistentOnecoinLedger_open ::
  "'a store_prims_scheme \<Rightarrow> rust_error option \<Rightarrow> disk \<Rightarrow> path \<Rightarrow> PersistentOnecoinLedger result" where
  "PersistentOnecoinLedger_open P fault d path =
     (case fault of Some e \<Rightarrow> Inl e | None \<Rightarrow>
      if d path \<noteq> None then
        (case load_json (ledger_from_json P) d path of
           Inl e \<Rightarrow> Inl e
         | Inr ledger \<Rightarrow>
             (case PersistentOnecoinLedger_validate P ledger of
                Inl e \<Rightarrow> Inl e
              | Inr _ \<Rightarrow> Ok \<lparr>pl_path = path, pl_ledger = ledger\<rparr>))
      else Ok \<lparr>pl_path = path, pl_ledger = OnecoinLedger_default\<rparr>)"

definition PersistentOnecoinLedger_save ::
  "'a store_prims_scheme \<Rightarrow> write_fault option \<Rightarrow> disk \<Rightarrow> PersistentOnecoinLedger \<Rightarrow> unit result \<times> disk" where
  "PersistentOnecoinLedger_save P fault d self = save_json (ledger_to_json P) fault d (pl_path self) (pl_ledger self)"

definition PersistentOnecoinLedger_apply_transfer ::
  "'a store_prims_scheme \<Rightarrow> write_fault option \<Rightarrow> disk \<Rightarrow> PersistentOnecoinLedger \<Rightarrow> OnecoinTransaction \<Rightarrow> bytes
     \<Rightarrow> bytes result \<times> PersistentOnecoinLedger \<times> disk" where
  "PersistentOnecoinLedger_apply_transfer P fault d self tx sender_public_key =
     (case apply_transfer P (pl_ledger self) tx sender_public_key of
        (Inl e, ledger) \<Rightarrow> (Inl e, self\<lparr>pl_ledger := ledger\<rparr>, d)
      | (Inr i, ledger) \<Rightarrow>
          let self = self\<lparr>pl_ledger := ledger\<rparr> in
          (case PersistentOnecoinLedger_save P fault d self of
             (Inl e, d) \<Rightarrow> (Err ''failed to persist ONECOIN transaction'', self, d)
           | (Inr _, d) \<Rightarrow> (Ok i, self, d)))"

definition PersistentOnecoinLedger_flush ::
  "'a store_prims_scheme \<Rightarrow> write_fault option \<Rightarrow> disk \<Rightarrow> PersistentOnecoinLedger \<Rightarrow> unit result \<times> disk" where
  "PersistentOnecoinLedger_flush P fault d self = PersistentOnecoinLedger_save P fault d self"

section \<open>The durable finalised state\<close>

record PersistentOnecoinState =
  ps_path :: path
  ps_state :: OnecoinFinalizedState

definition validate_state :: "'a prims_scheme \<Rightarrow> OnecoinFinalizedState \<Rightarrow> unit result" where
  "validate_state P state =
     validate_ledger P ''ONECOIN state member invariant violated'' ''ONECOIN state supply invariant violated''
       ''ONECOIN state AWEID/public-key mismatch'' (f_ledger state)"

definition PersistentOnecoinState_open ::
  "'a store_prims_scheme \<Rightarrow> rust_error option \<Rightarrow> disk \<Rightarrow> path \<Rightarrow> PersistentOnecoinState result" where
  "PersistentOnecoinState_open P fault d path =
     (case fault of Some e \<Rightarrow> Inl e | None \<Rightarrow>
      (case d path of
        Some bs \<Rightarrow>
          if length bs > MAX_LEDGER_BYTES \<or> length bs < length STATE_MAGIC
             \<or> take (length STATE_MAGIC) bs \<noteq> STATE_MAGIC
          then Inl (Io InvalidData ''invalid AWENET ONECOIN state file'')
          else (case state_from_json P (drop (length STATE_MAGIC) bs) of
                  None \<Rightarrow> Inl (Io InvalidData ''corrupt AWENET ONECOIN state'')
                | Some state \<Rightarrow>
                    (case validate_state P state of
                       Inl e \<Rightarrow> Inl e
                     | Inr _ \<Rightarrow> Ok \<lparr>ps_path = path, ps_state = state\<rparr>))
      | None \<Rightarrow> Ok \<lparr>ps_path = path, ps_state = OnecoinFinalizedState_default\<rparr>))"

definition PersistentOnecoinState_save ::
  "'a store_prims_scheme \<Rightarrow> write_fault option \<Rightarrow> disk \<Rightarrow> PersistentOnecoinState \<Rightarrow> unit result \<times> disk" where
  "PersistentOnecoinState_save P fault d self =
     (case validate_state P (ps_state self) of
        Inl e \<Rightarrow> (Inl e, d)
      | Inr _ \<Rightarrow>
          (case state_to_json P (ps_state self) of
             None \<Rightarrow> (Inl (Io InvalidData ''ONECOIN state serialization failed''), d)
           | Some body \<Rightarrow>
               if length body > MAX_LEDGER_BYTES - length STATE_MAGIC
               then (Inl (Io InvalidData ''ONECOIN state too large''), d)
               else atomic_write fault d (ps_path self) (STATE_MAGIC @ body)))"

definition PersistentOnecoinState_finalize ::
  "'a store_prims_scheme \<Rightarrow> write_fault option \<Rightarrow> disk \<Rightarrow> PersistentOnecoinState \<Rightarrow> OnecoinBlock \<Rightarrow> QuorumCertificate
     \<Rightarrow> (string, bytes) btree_map \<Rightarrow> bytes result \<times> PersistentOnecoinState \<times> disk" where
  "PersistentOnecoinState_finalize P fault d self block certificate validators =
     (case finalize P (ps_state self) block certificate validators of
        (Inl e, state) \<Rightarrow> (Inl e, self\<lparr>ps_state := state\<rparr>, d)
      | (Inr h, state) \<Rightarrow>
          let self = self\<lparr>ps_state := state\<rparr> in
          (case PersistentOnecoinState_save P fault d self of
             (Inl e, d) \<Rightarrow> (Err ''failed to persist finalized ONECOIN state'', self, d)
           | (Inr _, d) \<Rightarrow> (Ok h, self, d)))"


section \<open>What the check at open accepts\<close>

lemma fold_sat_add:
  "unat (fold (\<lambda>v acc. sat_add acc v) vs (a :: 'a::len word)) = min (unat a + sum_list (map unat vs)) (2 ^ LENGTH('a) - 1)"
proof (induction vs arbitrary: a)
  case Nil
  have "unat a \<le> 2 ^ LENGTH('a) - 1"
    using unat_less_pow [of a] by linarith
  then show ?case
    by (simp add: min_absorb1)
next
  case (Cons v vs)
  then show ?case
    using unat_less_pow [of a] by (simp add: unat_sat_add min_def) linarith
qed

lemma members_match_iff: "members_match P ms \<longleftrightarrow> (\<forall>(k, raw) \<in> set ms. k = hex_encode P raw)"
  by (induction ms) (auto split: if_splits)

lemma good_ledger_validates:
  assumes "ledger_good P l"
  shows "validate_ledger P a b c l = Ok ()"
proof -
  have inv: "bt_inv (l_members l)" "bt_inv (l_balances l)" "bt_inv (l_nonces l)"
    "dom (bt_get (l_balances l)) = dom (bt_get (l_members l))" "dom (bt_get (l_nonces l)) = dom (bt_get (l_members l))"
    using assms by (simp_all add: ledger_inv_def)
  have len: "length (l_members l) = length (l_balances l)" "length (l_members l) = length (l_nonces l)"
    using bt_len_card [OF inv(1)] bt_len_card [OF inv(2)] bt_len_card [OF inv(3)] inv(4,5) by simp_all
  have "unat (fold (\<lambda>v acc. sat_add acc v) (map snd (l_balances l)) (0 :: u128)) = min (circulating l) (2 ^ 128 - 1)"
    using fold_sat_add [of "map snd (l_balances l)" "0 :: u128"] by (simp add: circulating_def bt_sum_def comp_def)
  also have "\<dots> \<le> unat (l_total_issued_atoms l)"
    using assms by (simp add: supply_ok_def coin_supply_def min_def split: if_splits)
  finally have sum: "fold (\<lambda>v acc. sat_add acc v) (map snd (l_balances l)) 0 \<le> l_total_issued_atoms l"
    by (simp add: word_le_nat_alt)
  have "members_match P (l_members l)"
    unfolding members_match_iff using assms bt_get_in [OF inv(1)] by (auto simp: ledger_inv_def)
  then show ?thesis
    using len sum by (simp add: validate_ledger_def Let_def not_less)
qed

section \<open>Saving and opening\<close>

text \<open>C26. Saving is crash safe: wherever the operating system fails, the file at the target path still
  has its previous content; it changes only when the write reports success, to exactly the new bytes, and
  no other file than the target and its temporary sibling is touched.\<close>

theorem atomic_write_crash_safe:
  assumes "extension path \<noteq> Some ''part''" "atomic_write fault d path bs = (r, d')"
  shows "(is_ok r \<longrightarrow> d' path = Some bs) \<and> (\<not> is_ok r \<longrightarrow> d' path = d path)
    \<and> (\<forall>q. q \<noteq> path \<longrightarrow> q \<noteq> with_extension path ''part'' \<longrightarrow> d' q = d q)"
proof -
  have "with_extension path ''part'' \<noteq> path"
    using assms(1) by (cases path) (auto simp: with_extension_def)
  then show ?thesis
    using assms(2) by (auto simp: atomic_write_def os_error_def Let_def
        split: if_splits option.splits write_fault.splits)
qed

definition demo_path :: path where
  "demo_path = Path ''data'' ''ledger'' (Some ''json'')"

theorem atomic_write_crash_safe_witness:
  "snd (atomic_write (Some FailRename) ((\<lambda>_. None)(demo_path := Some [1])) demo_path [2]) demo_path = Some [1]"
proof -
  have "extension demo_path \<noteq> Some ''part''"
    by (simp add: demo_path_def)
  from atomic_write_crash_safe [OF this prod.collapse [symmetric],
      of "Some FailRename" "(\<lambda>_. None)(demo_path := Some [1])" "[2]"]
  show ?thesis
    by (simp add: atomic_write_def os_error_def Let_def)
qed

lemma atomic_write_Ok: "atomic_write fault d path bs = (Ok (), d') \<Longrightarrow> d' path = Some bs"
  by (auto simp: atomic_write_def os_error_def Let_def split: if_splits option.splits write_fault.splits)

lemma ledger_save_Ok:
  assumes "PersistentOnecoinLedger_save P fault d p = (Ok (), d')"
  obtains body where "ledger_to_json P (pl_ledger p) = Some body" "length body \<le> MAX_LEDGER_BYTES - length MAGIC"
    "d' (pl_path p) = Some (MAGIC @ body)"
  using assms by (auto simp: PersistentOnecoinLedger_save_def save_json_def dest: atomic_write_Ok
      split: option.splits if_splits)

lemma magic_small: "length MAGIC \<le> MAX_LEDGER_BYTES" "length STATE_MAGIC \<le> MAX_LEDGER_BYTES"
  by (simp_all add: MAGIC_def STATE_MAGIC_def MAX_LEDGER_BYTES_def)

text \<open>C25. What was saved opens again: for every ledger that keeps the invariant and the supply bound,
  so for every ledger reached through the ledger's own operations, a successful save followed by an open
  of the same path gives back exactly that ledger.\<close>

theorem ledger_save_open_roundtrip:
  assumes "json_reads_back P" "ledger_good P (pl_ledger p)"
    and "PersistentOnecoinLedger_save P fault d p = (Ok (), d')"
  shows "PersistentOnecoinLedger_open P None d' (pl_path p) = Ok p"
proof -
  obtain body where body: "ledger_to_json P (pl_ledger p) = Some body"
    "length body \<le> MAX_LEDGER_BYTES - length MAGIC" "d' (pl_path p) = Some (MAGIC @ body)"
    using assms(3) by (rule ledger_save_Ok)
  have "ledger_from_json P body = Some (pl_ledger p)"
    using assms(1) body(1) by (simp add: json_reads_back_def)
  then have "load_json (ledger_from_json P) d' (pl_path p) = Ok (pl_ledger p)"
    using body(2) magic_small(1) by (simp add: load_json_def body(3))
  then show ?thesis
    using body(3) good_ledger_validates [OF assms(2)]
    by (simp add: PersistentOnecoinLedger_open_def PersistentOnecoinLedger_validate_def)
qed

text \<open>Concrete codec: an empty file body stands for the demo ledger and the demo state.\<close>

definition demo_store :: store_prims where
  "demo_store = consensus_prims.extend demo_cons
     \<lparr>ledger_to_json = (\<lambda>l. if l = demo_ledger then Some [] else None),
      ledger_from_json = (\<lambda>b. if b = [] then Some demo_ledger else None),
      state_to_json = (\<lambda>s. if s = demo_state then Some [] else None),
      state_from_json = (\<lambda>b. if b = [] then Some demo_state else None)\<rparr>"

lemma demo_store_simps [simp]:
  "ledger_to_json demo_store = (\<lambda>l. if l = demo_ledger then Some [] else None)"
  "ledger_from_json demo_store = (\<lambda>b. if b = [] then Some demo_ledger else None)"
  "state_to_json demo_store = (\<lambda>s. if s = demo_state then Some [] else None)"
  "state_from_json demo_store = (\<lambda>b. if b = [] then Some demo_state else None)"
  "hex_encode demo_store = hex_encode demo_coin" "sha256 demo_store = sha256 demo_coin"
  "blake3 demo_store = blake3 demo_coin" "ed_key_ok demo_store = ed_key_ok demo_coin"
  "ed_verify demo_store = ed_verify demo_coin" "tx_json demo_store = tx_json demo_coin"
  by (simp_all add: demo_store_def demo_cons_def demo_coin_def demo_prims_def consensus_prims.defs coin_prims.defs prims.defs)

lemma demo_store_json: "json_reads_back demo_store" "json_needs_string_keys demo_store"
  by (auto simp: json_reads_back_def json_needs_string_keys_def string_keys_only_def demo_state_def demo_ledger_def
      OnecoinLedger_default_def)

lemma demo_store_good: "ledger_good demo_store demo_ledger"
  using demo_ledger_good by (simp add: ledger_inv_def)

theorem ledger_save_open_roundtrip_witness:
  "\<exists>d'. PersistentOnecoinLedger_save demo_store None (\<lambda>_. None) \<lparr>pl_path = demo_path, pl_ledger = demo_ledger\<rparr> = (Ok (), d')
     \<and> PersistentOnecoinLedger_open demo_store None d' demo_path = Ok \<lparr>pl_path = demo_path, pl_ledger = demo_ledger\<rparr>"
proof -
  let ?p = "\<lparr>pl_path = demo_path, pl_ledger = demo_ledger\<rparr>"
  have good: "ledger_good demo_store (pl_ledger ?p)"
    using demo_store_good by simp
  obtain d' where run: "PersistentOnecoinLedger_save demo_store None (\<lambda>_. None) ?p = (Ok (), d')"
    by (simp add: PersistentOnecoinLedger_save_def save_json_def atomic_write_def Let_def split: if_splits)
  from ledger_save_open_roundtrip [OF demo_store_json(1) good run] run show ?thesis
    by auto
qed

section \<open>Ledgers that cannot be stored\<close>

text \<open>The store cannot hold a ledger that has ever minted a contribution reward or credited a
  replicated transfer: both record a transaction under a byte-array key, which the JSON writer rejects,
  so every later save of the ledger fails and leaves the file as it was.\<close>

theorem rewarded_ledger_cannot_be_saved:
  assumes "json_needs_string_keys P"
    and "mint_verified_contribution_reward P l s = (Ok w, pl_ledger p) \<or> receive_transfer P l tx pk r = (Ok True, pl_ledger p)"
  shows "PersistentOnecoinLedger_save P fault d p = (Inl (Io InvalidData ''ledger serialization failed''), d)"
proof -
  have "\<not> string_keys_only (pl_ledger p)"
    using assms(2)
  proof
    assume "mint_verified_contribution_reward P l s = (Ok w, pl_ledger p)"
    then show ?thesis
      by (rule mint_OkE) (simp add: string_keys_only_def)
  next
    assume "receive_transfer P l tx pk r = (Ok True, pl_ledger p)"
    then have "\<exists>m. l_received_transactions (pl_ledger p) = bt_insert (tx_id P tx) (tx_amount_atoms tx) m"
      by (auto simp: receive_transfer_def Let_def split: if_splits dest!: arg_cong [of _ _ l_received_transactions] sym [of "bt_insert _ _ _"])
    then show ?thesis
      unfolding string_keys_only_def by (metis bt_insert_not_Nil)
  qed
  then have "ledger_to_json P (pl_ledger p) = None"
    using assms(1) by (auto simp: json_needs_string_keys_def)
  then show ?thesis
    by (simp add: PersistentOnecoinLedger_save_def save_json_def)
qed


theorem rewarded_ledger_cannot_be_saved_witness:
  "\<exists>l'. receive_transfer demo_store demo_ledger demo_tx (replicate 32 1) (AweId (replicate 32 2)) = (Ok True, l')
     \<and> \<not> is_ok (fst (PersistentOnecoinLedger_save demo_store None (\<lambda>_. None) \<lparr>pl_path = demo_path, pl_ledger = l'\<rparr>))"
proof -
  have ok: "tx_verify demo_store demo_tx (replicate 32 1)"
    by (simp add: demo_tx_def tx_verify_def tx_signing_bytes_def pad32_def)
  obtain l' where run: "receive_transfer demo_store demo_ledger demo_tx (replicate 32 1) (AweId (replicate 32 2)) = (Ok True, l')"
    using receive_transfer_fresh [OF demo_tx_ok(3) demo_tx_ok(2) ok demo_not_received] by blast
  then have "receive_transfer demo_store demo_ledger demo_tx (replicate 32 1) (AweId (replicate 32 2))
      = (Ok True, pl_ledger \<lparr>pl_path = demo_path, pl_ledger = l'\<rparr>)"
    by simp
  from rewarded_ledger_cannot_be_saved [OF demo_store_json(2) disjI2 [OF this]] run show ?thesis
    by (intro exI [of _ l'] conjI) simp_all
qed

lemma finalize_good:
  assumes "finalize P st block cert validators = (Ok h, st')" "ledger_good P (f_ledger st)"
  shows "ledger_good P (f_ledger st')"
proof -
  have "execute_transactions P (f_ledger st) [] (b_transactions block) = Ok (f_ledger st')"
    using assms(1) by (rule finalize_OkE)
  then show ?thesis
    using onecoin.all_keep [OF assms(2)] execute_transactions_apply_all by blast
qed

text \<open>Finalising durably: when the block is finalised and saved, the file opens to the new state;
  when only the save fails, the call reports an error but the in-memory state has already moved to the
  new block while the file still holds the old one, so repeating the call is refused.\<close>

theorem persistent_finalize_outcomes:
  assumes "json_reads_back P" "ledger_good P (f_ledger (ps_state p))" "coin_supply (f_ledger (ps_state p)) < 2 ^ 128"
    and "f_height (ps_state p) \<noteq> - 1" "f_height (ps_state p) + 1 \<noteq> - 1" "extension (ps_path p) \<noteq> Some ''part''"
    and "PersistentOnecoinState_finalize P fault d p block cert validators = (r, p', d')"
    and "finalize P (ps_state p) block cert validators = (Ok h, st')"
  shows "ps_state p' = st'
    \<and> (is_ok r \<longrightarrow> PersistentOnecoinState_open P None d' (ps_path p) = Ok p')
    \<and> (\<not> is_ok r \<longrightarrow> d' (ps_path p) = d (ps_path p)
          \<and> \<not> is_ok (fst (PersistentOnecoinState_finalize P None d' p' block cert validators)))"
proof -
  obtain q e where save: "PersistentOnecoinState_save P fault d (p\<lparr>ps_state := st'\<rparr>) = (q, e)"
    by fastforce
  have out: "p' = p\<lparr>ps_state := st'\<rparr>" "d' = e" "is_ok r \<longleftrightarrow> is_ok q"
    using assms(7,8) save by (auto simp: PersistentOnecoinState_finalize_def Let_def split: sum.splits)
  have good: "ledger_good P (f_ledger st')"
    using assms(8,2) by (rule finalize_good)
  have val: "validate_state P st' = Ok ()"
    unfolding validate_state_def by (rule good_ledger_validates [OF good])
  have tmp: "with_extension (ps_path p) ''part'' \<noteq> ps_path p"
    using assms(6) by (cases "ps_path p") (auto simp: with_extension_def)
  have "PersistentOnecoinState_open P None d' (ps_path p) = Ok p'" if "is_ok r"
  proof -
    have "PersistentOnecoinState_save P fault d (p\<lparr>ps_state := st'\<rparr>) = (Ok (), e)"
      using that save out(3) by (simp add: is_ok_iff)
    then obtain body where body: "state_to_json P st' = Some body" "length body \<le> MAX_LEDGER_BYTES - length STATE_MAGIC"
      "e (ps_path p) = Some (STATE_MAGIC @ body)"
      by (auto simp: PersistentOnecoinState_save_def val dest: atomic_write_Ok split: option.splits if_splits)
    have "state_from_json P body = Some st'"
      using assms(1) body(1) by (simp add: json_reads_back_def)
    then show ?thesis
      using body magic_small(2) val by (simp add: PersistentOnecoinState_open_def out)
  qed
  moreover have "d' (ps_path p) = d (ps_path p)" if "\<not> is_ok r"
    using that save out(2,3) tmp by (auto simp: PersistentOnecoinState_save_def val atomic_write_def os_error_def Let_def
        split: option.splits if_splits write_fault.splits)
  moreover have "\<not> is_ok (fst (PersistentOnecoinState_finalize P None d' p' block cert validators))"
  proof -
    have ht: "f_height st' = sat_add (f_height (ps_state p)) 1" "bh_height (b_header block) = sat_add (f_height (ps_state p)) 1"
      using assms(8) by (auto elim!: finalize_OkE)
    have "sat_add (f_height (ps_state p)) 1 = f_height (ps_state p) + 1"
      using unat_not_max [OF assms(4)] by (simp add: sat_add_def)
    then have "bh_height (b_header block) \<noteq> sat_add (f_height st') 1"
      using ht unat_not_max [OF assms(5)] by (simp add: sat_add_def)
    then have "\<not> is_ok (fst (finalize P st' block cert validators))"
      by (auto simp: finalize_def split: sum.splits option.splits)
    then show ?thesis
      by (cases "finalize P st' block cert validators") (auto simp: PersistentOnecoinState_finalize_def out is_ok_iff split: sum.splits)
  qed
  ultimately show ?thesis
    by (simp add: out)
qed


lemma finalize_prims_cong:
  fixes P :: "'a consensus_prims_scheme" and Q :: "'b consensus_prims_scheme"
  assumes "sha256 P = sha256 Q" "blake3 P = blake3 Q" "hex_encode P = hex_encode Q" "ed_key_ok P = ed_key_ok Q"
    "ed_verify P = ed_verify Q" "tx_json P = tx_json Q" "block_json P = block_json Q" "vote_json P = vote_json Q"
    "txs_json P = txs_json Q"
  shows "finalize P st b c v = finalize Q st b c v"
proof -
  have ids: "AweId_from_public_key P = AweId_from_public_key Q" "AweId_to_hex P = AweId_to_hex Q"
    "tx_id P = tx_id Q" "OnecoinBlock_hash P = OnecoinBlock_hash Q" "hash_transactions P = hash_transactions Q"
    "Identity_verify P = Identity_verify Q" "tx_verify P = tx_verify Q"
    using assms by (simp_all add: fun_eq_iff AweId_from_public_key_def hash_def AweId_to_hex_def tx_id_def
        OnecoinBlock_hash_def hash_transactions_def Identity_verify_def tx_verify_def tx_signing_bytes_def)
  have tr: "apply_transfer P l tx k = apply_transfer Q l tx k" for l tx k
    by (simp add: apply_transfer_def Let_def ids assms(3))
  have ex: "execute_transactions P l s txs = execute_transactions Q l s txs" for l s txs
    by (induction txs arbitrary: l s) (simp_all add: Let_def ids tr ledger_sender_key_def split: prod.split sum.split)
  have more: "vote_verify P = vote_verify Q" "tx_order_key P = tx_order_key Q" "verify_proposer P = verify_proposer Q"
    using assms by (simp_all add: fun_eq_iff vote_verify_def vote_signing_bytes_def tx_order_key_def verify_proposer_def
        block_signing_bytes_def ids)
  have count: "count_vote P c v = count_vote Q c v"
    unfolding count_vote_def fun_eq_iff ids more by simp
  show ?thesis
    unfolding finalize_def validate_shape_def QuorumCertificate_verify_def ids ex more count by (rule refl)
qed

theorem persistent_finalize_outcomes_witness:
  "\<exists>r p' d'. PersistentOnecoinState_finalize demo_store None (\<lambda>_. None) \<lparr>ps_path = demo_path, ps_state = demo_state\<rparr>
      demo_block demo_cert demo_validators = (r, p', d') \<and> \<not> is_ok r \<and> f_height (ps_state p') = 1 \<and> d' demo_path = None"
proof -
  let ?p = "\<lparr>ps_path = demo_path, ps_state = demo_state\<rparr>"
  let ?r = "PersistentOnecoinState_finalize demo_store None (\<lambda>_. None) ?p demo_block demo_cert demo_validators"
  have "finalize demo_store demo_state demo_block demo_cert demo_validators
      = finalize demo_cons demo_state demo_block demo_cert demo_validators"
    by (rule finalize_prims_cong)
       (simp_all add: demo_store_def demo_cons_def demo_coin_def demo_prims_def consensus_prims.defs coin_prims.defs prims.defs)
  note fin = trans [OF this demo_finalize]
  obtain r p' d' where run: "?r = (r, p', d')"
    by (cases ?r)
  have bad: "\<not> is_ok r"
    using run fin by (auto simp: PersistentOnecoinState_finalize_def PersistentOnecoinState_save_def Let_def demo_state_def
        split: sum.splits)
  have good: "ledger_good demo_store (f_ledger (ps_state ?p))" and small: "coin_supply (f_ledger (ps_state ?p)) < 2 ^ 128"
    and ht: "f_height (ps_state ?p) \<noteq> - 1" "f_height (ps_state ?p) + 1 \<noteq> - 1" and ext: "extension (ps_path ?p) \<noteq> Some ''part''"
    using demo_store_good demo_circulating
    by (simp_all add: demo_state_def coin_supply_def demo_ledger_def OnecoinLedger_default_def demo_path_def)
  have fin': "finalize demo_store (ps_state ?p) demo_block demo_cert demo_validators =
     (Ok (OnecoinBlock_hash demo_cons demo_block),
      \<lparr>f_ledger = transferred demo_cons demo_ledger demo_tx (replicate 32 1) (tx_amount_atoms demo_tx),
       f_height = 1, f_tip_hash = OnecoinBlock_hash demo_cons demo_block\<rparr>)"
    using fin by simp
  from persistent_finalize_outcomes [OF demo_store_json(1) good small ht ext run fin'] run bad show ?thesis
    by simp
qed

end
