(* ===== verification/Consensus_Runtime.thy ===== *)
theory Consensus_Runtime
  imports Onecoin_Store
begin

text \<open>
  \<^verbatim>\<open>core/src/onecoin_consensus_runtime.rs\<close>: the message handler of a consensus node. A node keeps the
  durable finalised state, the proposals it has seen (\<open>rt_pending\<close>) and the votes for them. The whole
  handler is modelled, with the messages it sends. The lemmas show that only validators move it, that
  its finalised state changes only with a verified quorum certificate and keeps the ledger invariant,
  that a validator votes for every proposal that extends its state, also for conflicting ones, and
  that a proposal that loses its height stays in the pending table.
\<close>

definition ONECOIN_CONSENSUS_STREAM :: u32 where
  "ONECOIN_CONSENSUS_STREAM = 200"
definition MAX_CONSENSUS_MESSAGE_BYTES :: nat where
  "MAX_CONSENSUS_MESSAGE_BYTES = 4 * 1024 * 1024"
definition MAX_PENDING_BLOCKS :: nat where
  "MAX_PENDING_BLOCKS = 256"
definition MAX_VOTES_PER_BLOCK :: nat where
  "MAX_VOTES_PER_BLOCK = 4096"

datatype OnecoinConsensusMessage = Proposal OnecoinBlock | Vote SignedBlockVote | Certificate QuorumCertificate

definition OnecoinConsensusMessage_encode ::
  "(OnecoinConsensusMessage \<Rightarrow> bytes) \<Rightarrow> OnecoinConsensusMessage \<Rightarrow> bytes result" where
  "OnecoinConsensusMessage_encode to_vec self =
     (let bs = to_vec self in
      if length bs > MAX_CONSENSUS_MESSAGE_BYTES then Err ''ONECOIN consensus message too large'' else Ok bs)"

definition OnecoinConsensusMessage_decode ::
  "(bytes \<Rightarrow> OnecoinConsensusMessage option) \<Rightarrow> bytes \<Rightarrow> OnecoinConsensusMessage result" where
  "OnecoinConsensusMessage_decode from_slice bs =
     (if length bs > MAX_CONSENSUS_MESSAGE_BYTES then Err ''ONECOIN consensus message too large''
      else case from_slice bs of None \<Rightarrow> Err ''invalid ONECOIN consensus message'' | Some m \<Rightarrow> Ok m)"

record OnecoinConsensusRuntime =
  rt_state :: PersistentOnecoinState
  rt_validators :: "(string, bytes) btree_map"
  rt_pending :: "(bytes, OnecoinBlock) btree_map"
  rt_votes :: "(bytes, (string, SignedBlockVote) btree_map) btree_map"

fun validators_match :: "'a prims_scheme \<Rightarrow> (string \<times> bytes) list \<Rightarrow> bool" where
  "validators_match P [] = True"
| "validators_match P ((i, key) # rest) =
     (if AweId_to_hex P (AweId_from_public_key P key) \<noteq> i then False else validators_match P rest)"

definition OnecoinConsensusRuntime_open ::
  "'a store_prims_scheme \<Rightarrow> rust_error option \<Rightarrow> disk \<Rightarrow> path \<Rightarrow> (string, bytes) btree_map
     \<Rightarrow> OnecoinConsensusRuntime result" where
  "OnecoinConsensusRuntime_open P fault d path validators =
     (case PersistentOnecoinState_open P fault d path of
        Inl e \<Rightarrow> Err ''failed to open ONECOIN consensus state''
      | Inr state \<Rightarrow>
          if validators = [] then Err ''ONECOIN validator set is empty''
          else if \<not> validators_match P validators then Err ''ONECOIN validator AWEID/public-key mismatch''
          else Ok \<lparr>rt_state = state, rt_validators = validators, rt_pending = [], rt_votes = []\<rparr>)"

definition local_is_validator :: "'a prims_scheme \<Rightarrow> OnecoinConsensusRuntime \<Rightarrow> Identity \<Rightarrow> bool" where
  "local_is_validator P self identity =
     (bt_get (rt_validators self) (AweId_to_hex P (ip_awe_id (id_public identity)))
        = Some (ip_public_key (id_public identity)))"

type_synonym outbound = "(bytes \<times> OnecoinConsensusMessage) list"

text \<open>A handler returns its result, the runtime and the disk it leaves.\<close>

definition handle_proposal ::
  "'a store_prims_scheme \<Rightarrow> OnecoinConsensusRuntime \<Rightarrow> bytes \<Rightarrow> Identity \<Rightarrow> OnecoinBlock
     \<Rightarrow> outbound result \<times> OnecoinConsensusRuntime" where
  "handle_proposal P self sender identity block =
     (case validate_shape P block of Inl e \<Rightarrow> (Inl e, self) | Inr _ \<Rightarrow>
      if bh_proposer (b_header block) \<noteq> AweId_from_public_key P sender
      then (Err ''proposal sender does not match block proposer'', self)
      else case bt_get (rt_validators self) (AweId_to_hex P (bh_proposer (b_header block))) of
        None \<Rightarrow> (Err ''proposal proposer is not a validator'', self)
      | Some proposer_key \<Rightarrow>
          if \<not> verify_proposer P block proposer_key then (Err ''invalid proposal signature'', self)
          else if bh_height (b_header block) \<noteq> f_height (ps_state (rt_state self)) + 1
                  \<or> bh_previous_hash (b_header block) \<noteq> f_tip_hash (ps_state (rt_state self))
          then (Err ''proposal does not extend finalized state'', self)
          else if length (rt_pending self) \<ge> MAX_PENDING_BLOCKS
                  \<and> \<not> bt_contains (rt_pending self) (OnecoinBlock_hash P block)
          then (Err ''too many pending consensus blocks'', self)
          else
            let h = OnecoinBlock_hash P block;
                self = self\<lparr>rt_pending := bt_insert h block (rt_pending self)\<rparr>
            in (Ok (if local_is_validator P self identity
                    then [(sender, Vote (SignedBlockVote_new P identity block True))] else []), self))"

definition handle_vote ::
  "'a store_prims_scheme \<Rightarrow> write_fault option \<Rightarrow> disk \<Rightarrow> OnecoinConsensusRuntime \<Rightarrow> bytes \<Rightarrow> SignedBlockVote
     \<Rightarrow> outbound result \<times> OnecoinConsensusRuntime \<times> disk" where
  "handle_vote P fault d self sender vote =
     (if v_voter vote \<noteq> AweId_from_public_key P sender then (Err ''vote sender does not match voter'', self, d)
      else case bt_get (rt_validators self) (AweId_to_hex P (v_voter vote)) of
        None \<Rightarrow> (Err ''vote voter is not a validator'', self, d)
      | Some key \<Rightarrow>
          if \<not> vote_verify P vote key then (Err ''invalid vote signature'', self, d)
          else case bt_get (rt_pending self) (v_block_hash vote) of
            None \<Rightarrow> (Err ''vote references unknown block'', self, d)
          | Some block \<Rightarrow>
              if bh_height (b_header block) \<noteq> v_height vote then (Err ''vote height mismatch'', self, d)
              else
                let self = self\<lparr>rt_votes := bt_or_insert (v_block_hash vote) [] (rt_votes self)\<rparr>;
                    entry = bt_get_or (rt_votes self) (v_block_hash vote) [];
                    vote_id = AweId_to_hex P (v_voter vote)
                in if length entry \<ge> MAX_VOTES_PER_BLOCK \<and> \<not> bt_contains entry vote_id
                   then (Err ''too many votes for pending block'', self, d)
                   else
                     let entry = bt_insert vote_id vote entry;
                         self = self\<lparr>rt_votes := bt_insert (v_block_hash vote) entry (rt_votes self)\<rparr>;
                         cert = \<lparr>qc_block_hash = v_block_hash vote, qc_height = bh_height (b_header block),
                                 qc_votes = map snd entry\<rparr>
                     in if is_ok (QuorumCertificate_verify P cert (rt_validators self)
                                    (OnecoinBlock_hash P block) (bh_height (b_header block)))
                        then (case PersistentOnecoinState_finalize P fault d (rt_state self) block cert (rt_validators self) of
                                (Inl e, state, d) \<Rightarrow> (Inl e, self\<lparr>rt_state := state\<rparr>, d)
                              | (Inr _, state, d) \<Rightarrow>
                                  (Ok (map (\<lambda>peer. (peer, Certificate cert)) (map snd (rt_validators self))),
                                   self\<lparr>rt_state := state,
                                        rt_pending := bt_remove (v_block_hash vote) (rt_pending self),
                                        rt_votes := bt_remove (v_block_hash vote) (rt_votes self)\<rparr>, d))
                        else (Ok [], self, d))"

definition handle_certificate ::
  "'a store_prims_scheme \<Rightarrow> write_fault option \<Rightarrow> disk \<Rightarrow> OnecoinConsensusRuntime \<Rightarrow> QuorumCertificate
     \<Rightarrow> outbound result \<times> OnecoinConsensusRuntime \<times> disk" where
  "handle_certificate P fault d self cert =
     (case bt_get (rt_pending self) (qc_block_hash cert) of
        None \<Rightarrow> (Err ''certificate references unknown block'', self, d)
      | Some block \<Rightarrow>
          (case PersistentOnecoinState_finalize P fault d (rt_state self) block cert (rt_validators self) of
             (Inl e, state, d) \<Rightarrow> (Inl e, self\<lparr>rt_state := state\<rparr>, d)
           | (Inr _, state, d) \<Rightarrow>
               (Ok [], self\<lparr>rt_state := state, rt_pending := bt_remove (qc_block_hash cert) (rt_pending self),
                            rt_votes := bt_remove (qc_block_hash cert) (rt_votes self)\<rparr>, d)))"

definition handle ::
  "'a store_prims_scheme \<Rightarrow> write_fault option \<Rightarrow> disk \<Rightarrow> OnecoinConsensusRuntime \<Rightarrow> bytes \<Rightarrow> Identity
     \<Rightarrow> OnecoinConsensusMessage \<Rightarrow> outbound result \<times> OnecoinConsensusRuntime \<times> disk" where
  "handle P fault d self sender identity message =
     (let sender_id = AweId_to_hex P (AweId_from_public_key P sender) in
      if bt_get (rt_validators self) sender_id \<noteq> Some sender
      then (Err ''consensus sender is not a validator'', self, d)
      else case message of
        Proposal block \<Rightarrow> (case handle_proposal P self sender identity block of (r, self) \<Rightarrow> (r, self, d))
      | Vote vote \<Rightarrow> handle_vote P fault d self sender vote
      | Certificate cert \<Rightarrow> handle_certificate P fault d self cert)"

definition persisted_state :: "OnecoinConsensusRuntime \<Rightarrow> OnecoinFinalizedState" where
  "persisted_state self = ps_state (rt_state self)"


section \<open>What moves the finalised state\<close>

lemma persistent_finalize_state:
  assumes "PersistentOnecoinState_finalize P fault d p block cert validators = (r, p', d')"
  shows "ps_state p' = snd (finalize P (ps_state p) block cert validators)"
    and "is_ok r \<Longrightarrow> is_ok (fst (finalize P (ps_state p) block cert validators))"
  using assms by (auto simp: PersistentOnecoinState_finalize_def Let_def split: prod.splits sum.splits)

lemma finalize_cases:
  obtains (refused) e where "finalize P st b c v = (Inl e, st)"
  | (accepted) h st' where "finalize P st b c v = (Ok h, st')"
  using finalize_Inl [of P st b c v] by (cases "finalize P st b c v"; cases "fst (finalize P st b c v)") auto

lemma handle_proposal_frame:
  assumes "handle_proposal P rt sender i block = (r, rt')"
  shows "rt_state rt' = rt_state rt" "rt_validators rt' = rt_validators rt" "rt_votes rt' = rt_votes rt"
    "rt_pending rt' = rt_pending rt \<or> rt_pending rt' = bt_insert (OnecoinBlock_hash P block) block (rt_pending rt)"
  using assms by (auto simp: handle_proposal_def Let_def split: sum.splits option.splits if_splits)

text \<open>The finalisation attempts of the vote and certificate handlers: either the state is untouched, or
  a pending block was finalised with a certificate.\<close>

definition moved :: "'a store_prims_scheme \<Rightarrow> OnecoinConsensusRuntime \<Rightarrow> OnecoinConsensusRuntime \<Rightarrow> bool" where
  "moved P rt rt' \<longleftrightarrow>
     (\<exists>block cert h. bt_get (rt_pending rt) (qc_block_hash cert) = Some block
        \<and> finalize P (persisted_state rt) block cert (rt_validators rt) = (Ok h, persisted_state rt')
        \<and> (rt_pending rt' = rt_pending rt \<or> rt_pending rt' = bt_remove (qc_block_hash cert) (rt_pending rt)))"

definition stayed :: "OnecoinConsensusRuntime \<Rightarrow> OnecoinConsensusRuntime \<Rightarrow> bool" where
  "stayed rt rt' \<longleftrightarrow> persisted_state rt' = persisted_state rt \<and> rt_pending rt' = rt_pending rt"

lemma attempt_moves:
  assumes "bt_get (rt_pending rt) (qc_block_hash cert) = Some block"
    and "PersistentOnecoinState_finalize P fault d (rt_state rt) block cert (rt_validators rt) = (r, st, d')"
    and "rt_state rt' = st"
    and "rt_pending rt' = (if is_ok r then bt_remove (qc_block_hash cert) (rt_pending rt) else rt_pending rt)"
  shows "moved P rt rt' \<or> stayed rt rt'"
proof (cases rule: finalize_cases [of P "persisted_state rt" block cert "rt_validators rt"])
  case (refused e)
  then have "\<not> is_ok r" "persisted_state rt' = persisted_state rt"
    using persistent_finalize_state [OF assms(2)] assms(3) by (auto simp: persisted_state_def)
  then show ?thesis
    using assms(4) by (simp add: stayed_def)
next
  case (accepted h st')
  then have "persisted_state rt' = st'"
    using persistent_finalize_state(1) [OF assms(2)] assms(3) by (simp add: persisted_state_def)
  moreover have "rt_pending rt' = rt_pending rt \<or> rt_pending rt' = bt_remove (qc_block_hash cert) (rt_pending rt)"
    using assms(4) by simp
  ultimately show ?thesis
    using accepted assms(1) unfolding moved_def by blast
qed

lemma handle_vote_moves:
  assumes "handle_vote P fault d rt sender vote = (r, rt', d')"
  shows "(moved P rt rt' \<or> stayed rt rt') \<and> rt_validators rt' = rt_validators rt"
proof (cases "bt_get (rt_validators rt) (AweId_to_hex P (v_voter vote)) = None \<or> bt_get (rt_pending rt) (v_block_hash vote) = None")
  case True
  then have "rt' = rt"
    using assms by (auto simp: handle_vote_def split: if_splits option.splits)
  then show ?thesis
    by (simp add: stayed_def)
next
  case False
  then obtain key block where kb: "bt_get (rt_validators rt) (AweId_to_hex P (v_voter vote)) = Some key"
      "bt_get (rt_pending rt) (v_block_hash vote) = Some block"
    by auto
  let ?entry = "bt_insert (AweId_to_hex P (v_voter vote)) vote (bt_get_or (rt_votes rt) (v_block_hash vote) [])"
  let ?cert = "\<lparr>qc_block_hash = v_block_hash vote, qc_height = bh_height (b_header block), qc_votes = map snd ?entry\<rparr>"
  obtain q st e where fin: "PersistentOnecoinState_finalize P fault d (rt_state rt) block ?cert (rt_validators rt) = (q, st, e)"
    by (cases "PersistentOnecoinState_finalize P fault d (rt_state rt) block ?cert (rt_validators rt)") auto
  have get: "bt_get_or (bt_or_insert (v_block_hash vote) [] (rt_votes rt)) (v_block_hash vote) []
      = bt_get_or (rt_votes rt) (v_block_hash vote) []"
    by (simp add: bt_get_or_def split: option.split)
  have "(rt_state rt' = rt_state rt \<and> rt_pending rt' = rt_pending rt
      \<or> rt_state rt' = st \<and> rt_pending rt' = (if is_ok q then bt_remove (v_block_hash vote) (rt_pending rt) else rt_pending rt))
      \<and> rt_validators rt' = rt_validators rt"
    using assms kb fin
    by (cases q) (auto simp: handle_vote_def Let_def get split: if_splits)
  then show ?thesis
    using attempt_moves [OF _ fin, of rt'] kb by (auto simp: stayed_def persisted_state_def)
qed

lemma handle_certificate_moves:
  assumes "handle_certificate P fault d rt cert = (r, rt', d')"
  shows "(moved P rt rt' \<or> stayed rt rt') \<and> rt_validators rt' = rt_validators rt"
proof (cases "bt_get (rt_pending rt) (qc_block_hash cert)")
  case None
  then show ?thesis
    using assms by (simp add: handle_certificate_def stayed_def)
next
  case (Some block)
  obtain q st e where fin: "PersistentOnecoinState_finalize P fault d (rt_state rt) block cert (rt_validators rt) = (q, st, e)"
    by (cases "PersistentOnecoinState_finalize P fault d (rt_state rt) block cert (rt_validators rt)") auto
  have "rt_state rt' = st \<and> rt_pending rt' = (if is_ok q then bt_remove (qc_block_hash cert) (rt_pending rt) else rt_pending rt)
      \<and> rt_validators rt' = rt_validators rt"
    using assms Some fin by (auto simp: handle_certificate_def split: sum.splits)
  then show ?thesis
    using attempt_moves [OF Some fin, of rt'] by blast
qed

lemma handle_moves:
  assumes "handle P fault d rt sender i m = (r, rt', d')"
  shows "rt_validators rt' = rt_validators rt
    \<and> (persisted_state rt' \<noteq> persisted_state rt \<longrightarrow> moved P rt rt'
         \<and> bt_get (rt_validators rt) (AweId_to_hex P (AweId_from_public_key P sender)) = Some sender)"
  using assms handle_proposal_frame [of P rt sender i _ r rt'] handle_vote_moves [of P fault d rt sender _ r rt' d']
    handle_certificate_moves [of P fault d rt _ r rt' d']
  by (auto simp: handle_def Let_def stayed_def persisted_state_def
      split: if_splits OnecoinConsensusMessage.splits prod.splits)

text \<open>C8. A consensus node moves its finalised state only for a message of a validator, only to a block
  it has seen proposed, and only with a quorum certificate for exactly that block; the step appends that
  block to its chain, keeps the ledger's invariant and supply bound and never changes the validators.\<close>

theorem runtime_finalizes_only_with_quorum:
  assumes "handle P fault d rt sender i m = (r, rt', d')" "persisted_state rt' \<noteq> persisted_state rt"
    and "ledger_good P (f_ledger (persisted_state rt))"
  shows "bt_get (rt_validators rt) (AweId_to_hex P (AweId_from_public_key P sender)) = Some sender
    \<and> rt_validators rt' = rt_validators rt
    \<and> (\<exists>block cert. bt_get (rt_pending rt) (qc_block_hash cert) = Some block
         \<and> QuorumCertificate_verify P cert (rt_validators rt) (OnecoinBlock_hash P block) (bh_height (b_header block)) = Ok ()
         \<and> bh_previous_hash (b_header block) = f_tip_hash (persisted_state rt)
         \<and> f_tip_hash (persisted_state rt') = OnecoinBlock_hash P block
         \<and> f_height (persisted_state rt') = bh_height (b_header block))
    \<and> ledger_good P (f_ledger (persisted_state rt'))"
proof -
  obtain block cert h where b: "bt_get (rt_pending rt) (qc_block_hash cert) = Some block"
    and fin: "finalize P (persisted_state rt) block cert (rt_validators rt) = (Ok h, persisted_state rt')"
    using handle_moves [OF assms(1)] assms(2) unfolding moved_def by blast
  have "QuorumCertificate_verify P cert (rt_validators rt) (OnecoinBlock_hash P block) (bh_height (b_header block)) = Ok ()"
    "bh_previous_hash (b_header block) = f_tip_hash (persisted_state rt)"
    "f_tip_hash (persisted_state rt') = OnecoinBlock_hash P block" "f_height (persisted_state rt') = bh_height (b_header block)"
    using fin by (auto elim!: finalize_OkE)
  then show ?thesis
    using b handle_moves [OF assms(1)] assms(2) finalize_good [OF fin assms(3)] by blast
qed


definition demo_runtime :: OnecoinConsensusRuntime where
  "demo_runtime = \<lparr>rt_state = \<lparr>ps_path = demo_path, ps_state = demo_state\<rparr>, rt_validators = demo_validators,
     rt_pending = [(OnecoinBlock_hash demo_cons demo_block, demo_block)], rt_votes = []\<rparr>"

lemma demo_store_prims [simp]:
  "block_json demo_store = block_json demo_cons" "vote_json demo_store = vote_json demo_cons"
  "txs_json demo_store = txs_json demo_cons" "ed_public demo_store = ed_public demo_coin"
  "ed_sign demo_store = ed_sign demo_coin"
  by (simp_all add: demo_store_def demo_cons_def demo_coin_def demo_prims_def consensus_prims.defs coin_prims.defs prims.defs)

lemma demo_store_same:
  "AweId_from_public_key demo_store = AweId_from_public_key demo_coin" "AweId_to_hex demo_store = AweId_to_hex demo_coin"
  "finalize demo_store st b c v = finalize demo_cons st b c v"
  by (simp_all add: fun_eq_iff AweId_from_public_key_def AweId_to_hex_def hash_def finalize_prims_cong)

lemma demo_sender: "bt_get demo_validators (AweId_to_hex demo_store (AweId_from_public_key demo_store (replicate 32 1))) = Some (replicate 32 1)"
  by (simp add: demo_store_same demo_aweid AweId_to_hex_def demo_validators_def bt_get_def)

theorem runtime_finalizes_only_with_quorum_witness:
  "\<exists>r rt' d'. handle demo_store None (\<lambda>_. None) demo_runtime (replicate 32 1) demo_id (Certificate demo_cert) = (r, rt', d')
     \<and> persisted_state rt' \<noteq> persisted_state demo_runtime \<and> f_height (persisted_state rt') = 1"
proof -
  let ?r = "handle demo_store None (\<lambda>_. None) demo_runtime (replicate 32 1) demo_id (Certificate demo_cert)"
  obtain r rt' d' where run: "?r = (r, rt', d')"
    by (cases ?r)
  have pend: "bt_get (rt_pending demo_runtime) (qc_block_hash demo_cert) = Some demo_block"
    by (simp add: demo_runtime_def demo_cert_def bt_get_def)
  have "?r = handle_certificate demo_store None (\<lambda>_. None) demo_runtime demo_cert"
    using demo_sender by (simp add: handle_def Let_def demo_runtime_def)
  then have "persisted_state rt' = snd (finalize demo_store demo_state demo_block demo_cert demo_validators)"
    using run pend persistent_finalize_state(1) [of demo_store None "\<lambda>_. None" "rt_state demo_runtime" demo_block demo_cert demo_validators]
    by (auto simp: handle_certificate_def persisted_state_def demo_runtime_def split: sum.splits prod.splits)
  then have ht: "f_height (persisted_state rt') = 1"
    by (simp add: demo_store_same demo_finalize)
  then have ne: "persisted_state rt' \<noteq> persisted_state demo_runtime"
    by (auto simp: demo_runtime_def demo_state_def persisted_state_def)
  have "ledger_good demo_store (f_ledger (persisted_state demo_runtime))"
    using demo_store_good by (simp add: demo_runtime_def demo_state_def persisted_state_def)
  from runtime_finalizes_only_with_quorum [OF run ne this] run ne ht show ?thesis
    by blast
qed

section \<open>Conflicting proposals\<close>

lemma handle_proposal_Ok:
  assumes "handle_proposal P rt sender i block = (Ok out, rt')"
  shows "bh_height (b_header block) = f_height (persisted_state rt) + 1"
    and "rt' = rt\<lparr>rt_pending := bt_insert (OnecoinBlock_hash P block) block (rt_pending rt)\<rparr>"
    and "out = (if local_is_validator P rt i then [(sender, Vote (SignedBlockVote_new P i block True))] else [])"
  using assms by (auto simp: handle_proposal_def persisted_state_def local_is_validator_def Let_def
      split: sum.splits option.splits if_splits)

lemma SignedBlockVote_new_fields [simp]:
  "v_block_hash (SignedBlockVote_new P i b a) = OnecoinBlock_hash P b" "v_height (SignedBlockVote_new P i b a) = bh_height (b_header b)"
  "v_voter (SignedBlockVote_new P i b a) = ip_awe_id (id_public i)" "v_approve (SignedBlockVote_new P i b a) = a"
  by (simp_all add: SignedBlockVote_new_def Let_def)

text \<open>C40. A validator does not remember what it has voted for: two proposals of different blocks that each
  extend its finalised state are both answered, one after the other, with a signed approving vote that
  verifies under its key. The two votes name different blocks of one height, so nodes that follow the code
  do not keep the rule, assumed of honest validators, that makes quorum certificates unique.\<close>

theorem validator_votes_for_conflicting_blocks:
  assumes "local_is_validator P rt i" "length (rt_pending rt) + 1 < MAX_PENDING_BLOCKS" "bt_inv (rt_pending rt)"
    and "handle_proposal P rt s1 i b1 = (Ok out1, rt1)" "handle_proposal P rt s2 i b2 = (Ok out2, rt2)"
    and "OnecoinBlock_hash P b1 \<noteq> OnecoinBlock_hash P b2" "ed_correct P" "identity_wf P i"
  shows "\<exists>v1 v2 rt3. out1 = [(s1, Vote v1)] \<and> handle_proposal P rt1 s2 i b2 = (Ok [(s2, Vote v2)], rt3)
    \<and> v_block_hash v1 \<noteq> v_block_hash v2 \<and> v_height v1 = v_height v2 \<and> v_approve v1 \<and> v_approve v2
    \<and> vote_verify P v1 (ip_public_key (id_public i)) \<and> vote_verify P v2 (ip_public_key (id_public i))
    \<and> bt_get (rt_pending rt3) (v_block_hash v1) = Some b1 \<and> bt_get (rt_pending rt3) (v_block_hash v2) = Some b2"
proof -
  have rt1: "rt1 = rt\<lparr>rt_pending := bt_insert (OnecoinBlock_hash P b1) b1 (rt_pending rt)\<rparr>"
    and out1: "out1 = [(s1, Vote (SignedBlockVote_new P i b1 True))]"
    using handle_proposal_Ok [OF assms(4)] assms(1) by simp_all
  have len: "length (rt_pending rt1) < MAX_PENDING_BLOCKS"
    using assms(2,3) by (simp add: rt1 bt.len_insert)
  have val: "local_is_validator P (rt1\<lparr>rt_pending := x\<rparr>) i" for x
    using assms(1) by (simp add: local_is_validator_def rt1)
  have "handle_proposal P rt1 s2 i b2 = (Ok [(s2, Vote (SignedBlockVote_new P i b2 True))],
      rt1\<lparr>rt_pending := bt_insert (OnecoinBlock_hash P b2) b2 (rt_pending rt1)\<rparr>)"
    using assms(5) len val unfolding handle_proposal_def Let_def
    by (auto simp: rt1 split: sum.splits option.splits if_splits)
  then show ?thesis
    using out1 handle_proposal_Ok(1) [OF assms(4)] handle_proposal_Ok(1) [OF assms(5)] assms(6)
      vote_new_valid [OF assms(7,8), of b1 True] vote_new_valid [OF assms(7,8), of b2 True]
    by (intro exI [of _ "SignedBlockVote_new P i b1 True"] exI [of _ "SignedBlockVote_new P i b2 True"]
        exI [of _ "rt1\<lparr>rt_pending := bt_insert (OnecoinBlock_hash P b2) b2 (rt_pending rt1)\<rparr>"]) (simp add: rt1)
qed

text \<open>Two blocks of height 1: an empty one, and one made a second later with a transaction.\<close>

definition demo_block_of :: "OnecoinTransaction list \<Rightarrow> u64 \<Rightarrow> OnecoinBlock" where
  "demo_block_of txs time = (case OnecoinBlock_new demo_store demo_id 1 (replicate 32 0) txs time of Inr b \<Rightarrow> b)"

lemma demo_store_ed: "ed_correct demo_store" "identity_wf demo_store demo_id"
  using demo_id_wf(1) by (simp_all add: ed_correct_def identity_wf_def demo_store_same demo_cons_hash)

lemma demo_proposal:
  assumes "length txs < MAX_BLOCK_TRANSACTIONS"
  shows "\<exists>out rt'. handle_proposal demo_store (demo_runtime\<lparr>rt_pending := []\<rparr>) (replicate 32 1) demo_id (demo_block_of txs time) = (Ok out, rt')"
    and "bh_timestamp_unix (b_header (demo_block_of txs time)) = time" "bh_height (b_header (demo_block_of txs time)) = 1"
proof -
  have new: "OnecoinBlock_new demo_store demo_id 1 (replicate 32 0) txs time = Ok (demo_block_of txs time)"
    using assms by (simp add: demo_block_of_def OnecoinBlock_new_def Let_def)
  note valid = block_new_valid [OF demo_store_ed new]
  have "bh_proposer (b_header (demo_block_of txs time)) = AweId_from_public_key demo_store (replicate 32 1)"
    by (simp add: valid demo_id_wf demo_store_same demo_aweid)
  then show "\<exists>out rt'. handle_proposal demo_store (demo_runtime\<lparr>rt_pending := []\<rparr>) (replicate 32 1) demo_id (demo_block_of txs time) = (Ok out, rt')"
    using valid demo_sender
    by (simp add: handle_proposal_def demo_runtime_def demo_state_def demo_id_wf MAX_PENDING_BLOCKS_def Let_def)
  show "bh_height (b_header (demo_block_of txs time)) = 1"
    by (rule valid)
  show "bh_timestamp_unix (b_header (demo_block_of txs time)) = time"
    using assms by (simp add: demo_block_of_def OnecoinBlock_new_def Let_def)
qed

lemma demo_hashes_differ:
  assumes "bh_timestamp_unix (b_header b) \<noteq> bh_timestamp_unix (b_header c)"
  shows "OnecoinBlock_hash demo_store b \<noteq> OnecoinBlock_hash demo_store c"
proof
  have eq: "OnecoinBlock_hash demo_store b = take 32 (rev (to_be_bytes_u64 (bh_height (b_header b)))
      @ rev (to_be_bytes_u64 (bh_timestamp_unix (b_header b))) @ rev (b_proposer_signature b) @ replicate 32 0)" for b
    by (simp add: OnecoinBlock_hash_def demo_cons_def consensus_prims.defs coin_prims.defs prims.defs pad32_def)
  assume "OnecoinBlock_hash demo_store b = OnecoinBlock_hash demo_store c"
  then have "take 16 (OnecoinBlock_hash demo_store b) = take 16 (OnecoinBlock_hash demo_store c)"
    by simp
  then have "to_be_bytes_u64 (bh_timestamp_unix (b_header b)) = to_be_bytes_u64 (bh_timestamp_unix (b_header c))"
    by (simp add: eq)
  then show False
    using assms from_be_to_be_u64 by metis
qed

theorem validator_votes_for_conflicting_blocks_witness:
  "\<exists>rt1 v1 v2 rt3. handle_proposal demo_store (demo_runtime\<lparr>rt_pending := []\<rparr>) (replicate 32 1) demo_id (demo_block_of [] 10)
      = (Ok [(replicate 32 1, Vote v1)], rt1)
    \<and> handle_proposal demo_store rt1 (replicate 32 1) demo_id (demo_block_of [demo_tx] 11) = (Ok [(replicate 32 1, Vote v2)], rt3)
    \<and> v_block_hash v1 \<noteq> v_block_hash v2 \<and> v_height v1 = v_height v2"
proof -
  let ?rt = "demo_runtime\<lparr>rt_pending := []\<rparr>" and ?b = "demo_block_of [] 10" and ?c = "demo_block_of [demo_tx] 11"
  have small: "length [] < MAX_BLOCK_TRANSACTIONS" "length [demo_tx] < MAX_BLOCK_TRANSACTIONS"
    by (simp_all add: MAX_BLOCK_TRANSACTIONS_def)
  obtain o1 r1 where p1: "handle_proposal demo_store ?rt (replicate 32 1) demo_id ?b = (Ok o1, r1)"
    using demo_proposal(1) [OF small(1), of 10] by auto
  obtain o2 r2 where p2: "handle_proposal demo_store ?rt (replicate 32 1) demo_id ?c = (Ok o2, r2)"
    using demo_proposal(1) [OF small(2), of 11] by auto
  have val: "local_is_validator demo_store ?rt demo_id"
    using demo_sender by (simp add: local_is_validator_def demo_runtime_def demo_id_wf demo_store_same demo_aweid)
  have room: "length (rt_pending ?rt) + 1 < MAX_PENDING_BLOCKS" "bt_inv (rt_pending ?rt)"
    by (simp_all add: MAX_PENDING_BLOCKS_def bt_inv_def)
  have ne: "OnecoinBlock_hash demo_store ?b \<noteq> OnecoinBlock_hash demo_store ?c"
    using demo_proposal(2) [OF small(1), of 10] demo_proposal(2) [OF small(2), of 11] by (intro demo_hashes_differ) simp
  from validator_votes_for_conflicting_blocks [OF val room p1 p2 ne demo_store_ed] p1 show ?thesis
    by blast
qed

section \<open>Stale proposals\<close>

text \<open>
  A proposal whose height has been finalised without it is stale. Stale proposals are never removed from the
  pending table: when it holds 256 of them and nothing else, the node accepts no proposal and finalises no
  block any more, whatever messages come and however its disk behaves. The steps leave out the case that a
  proposal has the digest of a different pending block.
\<close>

inductive runtime_step :: "'a store_prims_scheme \<Rightarrow> OnecoinConsensusRuntime \<Rightarrow> OnecoinConsensusRuntime \<Rightarrow> bool" for P where
  step: "handle P fault d rt sender i m = (r, rt', d') \<Longrightarrow>
    (\<And>block b. m = Proposal block \<Longrightarrow> bt_get (rt_pending rt) (OnecoinBlock_hash P block) = Some b \<Longrightarrow> b = block) \<Longrightarrow>
    runtime_step P rt rt'"

definition blocked :: "OnecoinConsensusRuntime \<Rightarrow> bool" where
  "blocked rt \<longleftrightarrow> MAX_PENDING_BLOCKS \<le> length (rt_pending rt) \<and> f_height (persisted_state rt) \<noteq> - 1
     \<and> (\<forall>h b. bt_get (rt_pending rt) h = Some b \<longrightarrow> bh_height (b_header b) \<le> f_height (persisted_state rt))"

lemma stale_not_next:
  fixes h :: u64
  assumes "h \<noteq> - 1" "b \<le> h"
  shows "b \<noteq> h + 1" "b \<noteq> sat_add h 1"
proof -
  have "unat (h + 1) = unat h + 1"
    by (rule unat_inc [OF unat_not_max [OF assms(1)]])
  moreover have "unat (sat_add h 1) = unat h + 1"
    using unat_not_max [OF assms(1)] sat_add_exact [of h 1] by simp
  ultimately show "b \<noteq> h + 1" "b \<noteq> sat_add h 1"
    using assms(2) by (auto simp: word_le_nat_alt)
qed

lemma blocked_not_moved: "blocked rt \<Longrightarrow> \<not> moved P rt rt'"
  unfolding moved_def blocked_def using stale_not_next(2) by (metis finalize_OkE)

lemma blocked_refuses:
  assumes "blocked rt" "handle_proposal P rt sender i block = (r, rt')"
    and "\<And>b. bt_get (rt_pending rt) (OnecoinBlock_hash P block) = Some b \<Longrightarrow> b = block"
  shows "\<not> is_ok r \<and> rt' = rt"
proof -
  have "bh_height (b_header block) \<noteq> f_height (persisted_state rt) + 1" if "bt_contains (rt_pending rt) (OnecoinBlock_hash P block)"
    using assms(1,3) that stale_not_next(1) unfolding blocked_def bt_contains_def by blast
  then show ?thesis
    using assms(1,2) unfolding blocked_def
    by (auto simp: handle_proposal_def persisted_state_def Let_def split: sum.splits option.splits if_splits)
qed

lemma blocked_step:
  assumes "runtime_step P rt rt'" "blocked rt"
  shows "persisted_state rt' = persisted_state rt \<and> rt_pending rt' = rt_pending rt"
  using assms
proof (cases rule: runtime_step.cases)
  case (step fault d sender i m r d')
  show ?thesis
  proof (cases m)
    case (Proposal block)
    have "(r, rt', d') = (r, rt, d') \<or> (\<exists>out. handle_proposal P rt sender i block = (out, rt'))"
      using step(1) by (auto simp: Proposal handle_def Let_def split: if_splits prod.splits)
    then show ?thesis
      using blocked_refuses [OF assms(2)] step(2) [OF Proposal] by blast
  next
    case (Vote vote)
    then show ?thesis
      using step(1) handle_vote_moves [of P fault d rt sender vote r rt' d'] blocked_not_moved [OF assms(2)]
      by (auto simp: handle_def Let_def stayed_def split: if_splits)
  next
    case (Certificate cert)
    then show ?thesis
      using step(1) handle_certificate_moves [of P fault d rt cert r rt' d'] blocked_not_moved [OF assms(2)]
      by (auto simp: handle_def Let_def stayed_def split: if_splits)
  qed
qed

theorem stale_proposals_block_the_node:
  assumes "(runtime_step P)\<^sup>*\<^sup>* rt rt'" "blocked rt"
  shows "persisted_state rt' = persisted_state rt \<and> rt_pending rt' = rt_pending rt \<and> blocked rt'"
  using assms
proof (induction rule: rtranclp_induct)
  case (step y z)
  then show ?case
    using blocked_step [of P y z] by (simp add: blocked_def)
qed simp

end
