(* ===== verification/Canonical.thy ===== *)
theory Canonical
  imports Prelude
begin

text \<open>
  \<^verbatim>\<open>core/src/protocol.rs\<close> (the protocol envelope and its admission check) and
  \<^verbatim>\<open>core/src/canonical.rs\<close> (its wire encoding). A decoder works on \<^verbatim>\<open>&mut &[u8]\<close>: it returns its
  result with the input that is left. The lemmas give both directions of the codec: decoding
  inverts encoding, and whatever decodes is the encoding of its result.
\<close>

section \<open>UTF-8\<close>

text \<open>The well-formedness test of \<^verbatim>\<open>String::from_utf8\<close>: no overlong forms, no surrogates, nothing above
  U+10FFFF.\<close>

definition utf8_cont :: "u8 \<Rightarrow> bool" where
  "utf8_cont b = (0x80 \<le> b \<and> b \<le> 0xBF)"

fun valid_utf8 :: "bytes \<Rightarrow> bool" where
  "valid_utf8 [] = True"
| "valid_utf8 (a # r) =
    (if a < 0x80 then valid_utf8 r
     else if 0xC2 \<le> a \<and> a \<le> 0xDF then
       (case r of b # s \<Rightarrow> utf8_cont b \<and> valid_utf8 s | _ \<Rightarrow> False)
     else if 0xE0 \<le> a \<and> a \<le> 0xEF then
       (case r of b # c # s \<Rightarrow>
            (if a = 0xE0 then 0xA0 \<le> b \<and> b \<le> 0xBF
             else if a = 0xED then 0x80 \<le> b \<and> b \<le> 0x9F
             else utf8_cont b) \<and> utf8_cont c \<and> valid_utf8 s
        | _ \<Rightarrow> False)
     else if 0xF0 \<le> a \<and> a \<le> 0xF4 then
       (case r of b # c # d # s \<Rightarrow>
            (if a = 0xF0 then 0x90 \<le> b \<and> b \<le> 0xBF
             else if a = 0xF4 then 0x80 \<le> b \<and> b \<le> 0x8F
             else utf8_cont b) \<and> utf8_cont c \<and> utf8_cont d \<and> valid_utf8 s
        | _ \<Rightarrow> False)
     else False)"

definition from_utf8 :: "bytes \<Rightarrow> string option" where
  "from_utf8 bs = (if valid_utf8 bs then Some (from_bytes bs) else None)"

section \<open>The envelope (protocol.rs)\<close>

definition PROTOCOL_VERSION :: u16 where
  "PROTOCOL_VERSION = 1"
definition MAX_MESSAGE_TYPE_LEN :: nat where
  "MAX_MESSAGE_TYPE_LEN = 64"
definition MAX_REQUEST_ID_LEN :: nat where
  "MAX_REQUEST_ID_LEN = 128"
definition MAX_PAYLOAD_LEN :: nat where
  "MAX_PAYLOAD_LEN = 8 * 1024 * 1024"

record ProtocolEnvelope =
  env_version :: u16
  env_message_type :: string
  env_request_id :: string
  env_payload :: bytes

definition envelope_new :: "string \<Rightarrow> string \<Rightarrow> bytes \<Rightarrow> ProtocolEnvelope" where
  "envelope_new message_type request_id payload =
     \<lparr>env_version = PROTOCOL_VERSION, env_message_type = message_type,
      env_request_id = request_id, env_payload = payload\<rparr>"

definition envelope_validate :: "ProtocolEnvelope \<Rightarrow> bool" where
  "envelope_validate e =
     (env_version e = PROTOCOL_VERSION
      \<and> env_message_type e \<noteq> []
      \<and> length (env_message_type e) \<le> MAX_MESSAGE_TYPE_LEN
      \<and> env_request_id e \<noteq> []
      \<and> length (env_request_id e) \<le> MAX_REQUEST_ID_LEN
      \<and> length (env_payload e) \<le> MAX_PAYLOAD_LEN)"

section \<open>The wire encoding (canonical.rs)\<close>

definition put_bytes :: "bytes \<Rightarrow> bytes \<Rightarrow> bytes" where
  "put_bytes out bs = out @ to_be_bytes_u64 (of_nat (length bs)) @ bs"

definition encode_envelope :: "ProtocolEnvelope \<Rightarrow> bytes" where
  "encode_envelope e =
     (let out = to_be_bytes_u16 (env_version e);
          out = put_bytes out (as_bytes (env_message_type e));
          out = put_bytes out (as_bytes (env_request_id e))
      in put_bytes out (env_payload e))"

definition take_u16 :: "bytes \<Rightarrow> (u16 \<times> bytes) result" where
  "take_u16 input =
     (if length input < 2 then Err ''truncated u16''
      else Ok (from_be_bytes_u16 (take 2 input), drop 2 input))"

definition take_bytes :: "bytes \<Rightarrow> (bytes \<times> bytes) result" where
  "take_bytes input =
     (if length input < 8 then Err ''truncated length''
      else let len = unat (from_be_bytes_u64 (take 8 input)); input = drop 8 input
           in if len > length input then Err ''truncated bytes''
              else Ok (take len input, drop len input))"

definition decode_envelope :: "bytes \<Rightarrow> ProtocolEnvelope result" where
  "decode_envelope input =
     (case take_u16 input of Inl e \<Rightarrow> Inl e | Inr (version, input) \<Rightarrow>
      case take_bytes input of Inl e \<Rightarrow> Inl e | Inr (mt, input) \<Rightarrow>
      case from_utf8 mt of None \<Rightarrow> Err ''invalid message type'' | Some message_type \<Rightarrow>
      case take_bytes input of Inl e \<Rightarrow> Inl e | Inr (rid, input) \<Rightarrow>
      case from_utf8 rid of None \<Rightarrow> Err ''invalid request id'' | Some request_id \<Rightarrow>
      case take_bytes input of Inl e \<Rightarrow> Inl e | Inr (payload, input) \<Rightarrow>
      if input \<noteq> [] then Err ''trailing bytes''
      else Ok \<lparr>env_version = version, env_message_type = message_type,
               env_request_id = request_id, env_payload = payload\<rparr>)"

text \<open>What the Rust types guarantee of an envelope: its strings are UTF-8 and every length fits the
  address space.\<close>

definition envelope_wf :: "ProtocolEnvelope \<Rightarrow> bool" where
  "envelope_wf e =
     (valid_utf8 (as_bytes (env_message_type e)) \<and> valid_utf8 (as_bytes (env_request_id e))
      \<and> length (env_message_type e) < 2 ^ 64 \<and> length (env_request_id e) < 2 ^ 64
      \<and> length (env_payload e) < 2 ^ 64)"

section \<open>Lemmas\<close>

lemma take_u16_put: "take_u16 (to_be_bytes_u16 v @ r) = Ok (v, r)"
  by (simp add: take_u16_def)

lemma take_bytes_put:
  assumes "length bs < 2 ^ 64"
  shows "take_bytes (to_be_bytes_u64 (of_nat (length bs)) @ bs @ r) = Ok (bs, r)"
proof -
  have "unat (of_nat (length bs) :: u64) = length bs"
    using assms by (simp add: unat_of_nat)
  then show ?thesis
    by (simp add: take_bytes_def)
qed

lemma take_u16_inverse:
  assumes "take_u16 x = Ok (v, r)"
  shows "x = to_be_bytes_u16 v @ r"
  using assms by (auto simp: take_u16_def to_be_from_be_u16 split: if_splits)

lemma take_bytes_inverse:
  assumes "take_bytes x = Ok (bs, r)"
  shows "x = to_be_bytes_u64 (of_nat (length bs)) @ bs @ r"
proof -
  let ?n = "from_be_bytes_u64 (take 8 x)"
  have x: "\<not> length x < 8" "unat ?n \<le> length x - 8"
      and bs: "bs = take (unat ?n) (drop 8 x)" and r: "r = drop (unat ?n) (drop 8 x)"
    using assms by (auto simp: take_bytes_def Let_def split: if_splits)
  have "of_nat (length bs) = ?n"
    using x bs by simp
  moreover have "to_be_bytes_u64 ?n = take 8 x"
    using x(1) by (intro to_be_from_be_u64) simp
  moreover have "bs @ r = drop 8 x"
    unfolding bs r by (rule append_take_drop_id)
  ultimately have "to_be_bytes_u64 (of_nat (length bs)) @ bs @ r = take 8 x @ drop 8 x"
    by simp
  then show ?thesis by simp
qed

lemma encode_envelope_alt:
  "encode_envelope e =
     to_be_bytes_u16 (env_version e) @
     to_be_bytes_u64 (of_nat (length (as_bytes (env_message_type e)))) @ as_bytes (env_message_type e) @
     to_be_bytes_u64 (of_nat (length (as_bytes (env_request_id e)))) @ as_bytes (env_request_id e) @
     to_be_bytes_u64 (of_nat (length (env_payload e))) @ env_payload e @ []"
  by (simp add: encode_envelope_def put_bytes_def Let_def)

lemma from_utf8_as_bytes: "valid_utf8 (as_bytes s) \<Longrightarrow> from_utf8 (as_bytes s) = Some s"
  by (simp add: from_utf8_def)

lemma from_utf8_Some: "from_utf8 bs = Some s \<Longrightarrow> as_bytes s = bs \<and> valid_utf8 bs"
  by (auto simp: from_utf8_def split: if_splits)

lemma decode_encode_wf:
  assumes "envelope_wf e"
  shows "decode_envelope (encode_envelope e) = Ok e"
proof -
  have u: "from_utf8 (as_bytes (env_message_type e)) = Some (env_message_type e)"
      "from_utf8 (as_bytes (env_request_id e)) = Some (env_request_id e)"
    using assms by (auto simp: envelope_wf_def from_utf8_as_bytes)
  have l: "length (as_bytes (env_message_type e)) < 2 ^ 64"
      "length (as_bytes (env_request_id e)) < 2 ^ 64" "length (env_payload e) < 2 ^ 64"
    using assms by (auto simp: envelope_wf_def)
  show ?thesis
    unfolding decode_envelope_def encode_envelope_alt
    by (simp only: take_u16_put take_bytes_put [OF l(1)] take_bytes_put [OF l(2)]
        take_bytes_put [OF l(3)] u sum.case prod.case option.case) simp
qed

text \<open>C18. Decoding the wire bytes of an envelope gives the envelope back: the decoder accepts every
  envelope a Rust program can hold and loses nothing of it.\<close>

theorem decode_encode_envelope:
  assumes "envelope_wf e"
  shows "decode_envelope (encode_envelope e) = Ok e"
  using assms by (rule decode_encode_wf)

theorem decode_encode_envelope_witness:
  "envelope_wf (envelope_new ''identity'' ''r1'' [1, 2, 3]) \<and>
   decode_envelope (encode_envelope (envelope_new ''identity'' ''r1'' [1, 2, 3])) =
     Ok (envelope_new ''identity'' ''r1'' [1, 2, 3])"
proof -
  have wf: "envelope_wf (envelope_new ''identity'' ''r1'' [1, 2, 3])"
    by (simp add: envelope_wf_def envelope_new_def as_bytes_def)
  show ?thesis
    using wf decode_encode_envelope [OF wf] by simp
qed

text \<open>C19. The encoding is canonical: bytes that decode are exactly the encoding of what they decode
  to, so two different wire images never stand for the same envelope.\<close>

theorem decode_envelope_canonical:
  assumes "decode_envelope x = Ok e"
  shows "x = encode_envelope e"
proof -
  obtain v r0 mt r1 rid r2 p where steps:
      "take_u16 x = Ok (v, r0)" "take_bytes r0 = Ok (mt, r1)"
      "from_utf8 mt = Some (env_message_type e)"
      "take_bytes r1 = Ok (rid, r2)" "from_utf8 rid = Some (env_request_id e)"
      "take_bytes r2 = Ok (p, [])" "env_version e = v" "env_payload e = p"
    using assms unfolding decode_envelope_def
    by (auto split: sum.splits prod.splits option.splits if_splits)
  have "as_bytes (env_message_type e) = mt" "as_bytes (env_request_id e) = rid"
    using steps from_utf8_Some by blast+
  with steps show ?thesis
    unfolding encode_envelope_alt
    by (metis take_u16_inverse take_bytes_inverse)
qed

theorem decode_envelope_canonical_witness:
  "\<exists>e. decode_envelope (encode_envelope (envelope_new ''data'' ''req'' [7])) = Ok e \<and>
       encode_envelope (envelope_new ''data'' ''req'' [7]) = encode_envelope e"
proof -
  let ?e = "envelope_new ''data'' ''req'' [7]"
  have "decode_envelope (encode_envelope ?e) = Ok ?e"
    by (rule decode_encode_wf) (simp add: envelope_wf_def envelope_new_def as_bytes_def)
  then show ?thesis
    using decode_envelope_canonical by blast
qed

end
