(* ===== verification/Replay.thy ===== *)
theory Replay
  imports Ordered_Map
begin

text \<open>
  The two sliding-window replay filters: \<^verbatim>\<open>ReplayGuard\<close> of \<^verbatim>\<open>core/src/replay.rs\<close>, keyed by the
  authenticated peer, and \<^verbatim>\<open>ShieldReplayGuard\<close> of \<^verbatim>\<open>core/src/security.rs\<close>, keyed by session and
  request. Both keep a highest sequence number, a 64-bit history and a generation for eviction.

  The specification is the set of sequence numbers accepted so far: a number is fresh when it is not
  in the set and less than 64 behind its maximum. \<open>represents\<close> relates a window to such a set; the
  locale \<open>replay_filter\<close> states what both guards promise and derives that no packet is accepted
  twice while the table is not full.
\<close>

section \<open>The window and the two guards\<close>

definition MAX_PEERS :: nat where
  "MAX_PEERS = 65536"
definition REPLAY_WINDOW :: u8 where
  "REPLAY_WINDOW = 64"
definition SHIELD_REPLAY_WINDOW :: u8 where
  "SHIELD_REPLAY_WINDOW = 64"
definition SHIELD_MAX_TRACKED_REQUESTS :: nat where
  "SHIELD_MAX_TRACKED_REQUESTS = 65536"

record ReplayState =
  rs_highest :: u64
  rs_bitmap :: u64
  rs_generation :: u64

record ReplayGuard =
  rg_states :: "(bytes, ReplayState) btree_map"
  rg_generation :: u64

definition ReplayGuard_default :: ReplayGuard where
  "ReplayGuard_default = \<lparr>rg_states = [], rg_generation = 0\<rparr>"

definition ReplayGuard_accept :: "ReplayGuard \<Rightarrow> bytes \<Rightarrow> u64 \<Rightarrow> bool \<times> ReplayGuard" where
  "ReplayGuard_accept self peer sequence =
     (case bt_get (rg_states self) peer of
        Some state \<Rightarrow>
          if sequence > rs_highest state then
            let shift = sequence - rs_highest state;
                generation = rg_generation self + 1;
                bitmap = (if shift \<ge> ucast REPLAY_WINDOW then 1
                          else push_bit (unat shift) (rs_bitmap state) OR 1)
            in (True, \<lparr>rg_states = bt_insert peer
                         \<lparr>rs_highest = sequence, rs_bitmap = bitmap, rs_generation = generation\<rparr>
                         (rg_states self),
                       rg_generation = generation\<rparr>)
          else
            let delta = rs_highest state - sequence in
            if delta \<ge> ucast REPLAY_WINDOW then (False, self)
            else
              let bit = push_bit (unat delta) 1; generation = rg_generation self + 1 in
              if rs_bitmap state AND bit \<noteq> 0 then (False, self\<lparr>rg_generation := generation\<rparr>)
              else (True, \<lparr>rg_states = bt_insert peer
                             (state\<lparr>rs_bitmap := rs_bitmap state OR bit, rs_generation := generation\<rparr>)
                             (rg_states self),
                           rg_generation = generation\<rparr>)
      | None \<Rightarrow>
          let states = evict_min rs_generation MAX_PEERS (rg_states self);
              generation = rg_generation self + 1
          in (True, \<lparr>rg_states = bt_insert peer
                       \<lparr>rs_highest = sequence, rs_bitmap = 1, rs_generation = generation\<rparr> states,
                     rg_generation = generation\<rparr>))"

definition ReplayGuard_tracked_peers :: "ReplayGuard \<Rightarrow> nat" where
  "ReplayGuard_tracked_peers self = length (rg_states self)"

record ShieldReplayGuard =
  sg_states :: "(bytes \<times> bytes, ReplayState) btree_map"
  sg_generation :: u64

definition ShieldReplayGuard_default :: ShieldReplayGuard where
  "ShieldReplayGuard_default = \<lparr>sg_states = [], sg_generation = 0\<rparr>"

definition ShieldReplayGuard_accept ::
  "ShieldReplayGuard \<Rightarrow> bytes \<Rightarrow> bytes \<Rightarrow> u64 \<Rightarrow> bool \<times> ShieldReplayGuard" where
  "ShieldReplayGuard_accept self session_id request_id sequence =
     (let key = (session_id, request_id) in
      case bt_get (sg_states self) key of
        Some state \<Rightarrow>
          if sequence > rs_highest state then
            let shift = sequence - rs_highest state;
                generation = sg_generation self + 1;
                bitmap = (if shift \<ge> ucast SHIELD_REPLAY_WINDOW then 1
                          else push_bit (unat shift) (rs_bitmap state) OR 1)
            in (True, \<lparr>sg_states = bt_insert key
                         \<lparr>rs_highest = sequence, rs_bitmap = bitmap, rs_generation = generation\<rparr>
                         (sg_states self),
                       sg_generation = generation\<rparr>)
          else
            let delta = rs_highest state - sequence in
            if delta \<ge> ucast SHIELD_REPLAY_WINDOW then (False, self)
            else
              let bit = push_bit (unat delta) 1; generation = sg_generation self + 1 in
              if rs_bitmap state AND bit \<noteq> 0 then (False, self\<lparr>sg_generation := generation\<rparr>)
              else (True, \<lparr>sg_states = bt_insert key
                             (state\<lparr>rs_bitmap := rs_bitmap state OR bit, rs_generation := generation\<rparr>)
                             (sg_states self),
                           sg_generation = generation\<rparr>)
      | None \<Rightarrow>
          let states = evict_min rs_generation SHIELD_MAX_TRACKED_REQUESTS (sg_states self);
              generation = sg_generation self + 1
          in (True, \<lparr>sg_states = bt_insert key
                       \<lparr>rs_highest = sequence, rs_bitmap = 1, rs_generation = generation\<rparr> states,
                     sg_generation = generation\<rparr>))"

definition ShieldReplayGuard_tracked_requests :: "ShieldReplayGuard \<Rightarrow> nat" where
  "ShieldReplayGuard_tracked_requests self = length (sg_states self)"

section \<open>The specification of a window\<close>

definition fresh :: "nat set \<Rightarrow> nat \<Rightarrow> bool" where
  "fresh A s \<longleftrightarrow> s \<notin> A \<and> (\<forall>a \<in> A. a < s + 64)"

definition represents :: "ReplayState \<Rightarrow> nat set \<Rightarrow> bool" where
  "represents st A \<longleftrightarrow>
     unat (rs_highest st) \<in> A \<and> (\<forall>a \<in> A. a \<le> unat (rs_highest st))
     \<and> (\<forall>d < 64. bit (rs_bitmap st) d \<longleftrightarrow> d \<le> unat (rs_highest st) \<and> unat (rs_highest st) - d \<in> A)"

lemma represents_single: "represents \<lparr>rs_highest = s, rs_bitmap = 1, rs_generation = g\<rparr> {unat s}"
  by (auto simp: represents_def bit_1_iff)

lemma fresh_above:
  assumes "represents st A" "rs_highest st < s"
  shows "fresh A (unat s)"
proof -
  have "unat (rs_highest st) < unat s"
    using assms(2) by (simp add: word_less_nat_alt)
  then show ?thesis
    using assms(1) by (force simp: represents_def fresh_def)
qed

lemma bit_shift_or_1:
  "d < 64 \<Longrightarrow> bit (push_bit k bm OR (1 :: u64)) d \<longleftrightarrow> d = 0 \<or> (k \<le> d \<and> bit bm (d - k))"
  by (auto simp: bit_or_iff bit_push_bit_iff bit_1_iff)

lemma represents_above:
  assumes "represents st A" "rs_highest st < s"
  shows "represents \<lparr>rs_highest = s,
           rs_bitmap = (if s - rs_highest st \<ge> 64 then 1
                        else push_bit (unat (s - rs_highest st)) (rs_bitmap st) OR 1),
           rs_generation = g\<rparr> (insert (unat s) A)"
proof -
  define h t where "h = unat (rs_highest st)" and "t = unat s"
  have ht: "h < t"
    using assms(2) by (simp add: word_less_nat_alt h_def t_def)
  have k: "unat (s - rs_highest st) = t - h"
    using assms(2) by (simp add: unat_minus h_def t_def)
  have win: "s - rs_highest st \<ge> 64 \<longleftrightarrow> t - h \<ge> 64"
    by (simp add: word_le_nat_alt k)
  have A: "h \<in> A" "\<forall>a \<in> A. a \<le> h" "\<forall>d < 64. bit (rs_bitmap st) d \<longleftrightarrow> d \<le> h \<and> h - d \<in> A"
    using assms(1) by (simp_all add: represents_def h_def)
  have old: "d \<le> t \<and> t - d \<in> A \<longleftrightarrow> (t - h \<le> d \<and> d - (t - h) \<le> h \<and> h - (d - (t - h)) \<in> A)" for d
    using A(2) ht by (cases "t - h \<le> d") force+
  show ?thesis
  proof (cases "t - h \<ge> 64")
    case True
    have "t - d \<notin> A" if "d < 64" "d \<le> t" for d
      using A(2) True ht that by force
    then show ?thesis
      using True A ht by (auto simp: represents_def win bit_1_iff t_def [symmetric])
  next
    case False
    have "bit (push_bit (t - h) (rs_bitmap st) OR 1) d \<longleftrightarrow> d \<le> t \<and> t - d \<in> insert t A" if "d < 64" for d
    proof (cases "d = 0")
      case True
      then show ?thesis using that by (simp add: bit_shift_or_1)
    next
      case False
      have "d - (t - h) < 64"
        using that by simp
      then have "bit (rs_bitmap st) (d - (t - h)) \<longleftrightarrow> d - (t - h) \<le> h \<and> h - (d - (t - h)) \<in> A"
        using A(3) by blast
      moreover have "t - d \<noteq> t" if "d \<le> t"
        using False that by simp
      ultimately show ?thesis
        using False that old [of d] by (auto simp: bit_shift_or_1)
    qed
    then show ?thesis
      using False A ht by (auto simp: represents_def win k t_def [symmetric])
  qed
qed

lemma represents_below:
  assumes "represents st A" "s \<le> rs_highest st" "rs_highest st - s < 64"
  shows "rs_bitmap st AND push_bit (unat (rs_highest st - s)) 1 \<noteq> 0 \<longleftrightarrow> unat s \<in> A"
    and "fresh A (unat s) \<longleftrightarrow> unat s \<notin> A"
    and "represents (st\<lparr>rs_bitmap := rs_bitmap st OR push_bit (unat (rs_highest st - s)) 1,
                       rs_generation := g\<rparr>) (insert (unat s) A)"
proof -
  define h t where "h = unat (rs_highest st)" and "t = unat s"
  have ht: "t \<le> h"
    using assms(2) by (simp add: word_le_nat_alt h_def t_def)
  have k: "unat (rs_highest st - s) = h - t"
    using assms(2) by (simp add: unat_minus h_def t_def)
  have d: "h - t < 64"
    using assms(3) by (simp add: word_less_nat_alt k)
  have A: "h \<in> A" "\<forall>a \<in> A. a \<le> h" "\<forall>d < 64. bit (rs_bitmap st) d \<longleftrightarrow> d \<le> h \<and> h - d \<in> A"
    using assms(1) by (simp_all add: represents_def h_def)
  have "bit (rs_bitmap st) (h - t) \<longleftrightarrow> t \<in> A"
    using A(3) d ht by simp
  then show "rs_bitmap st AND push_bit (unat (rs_highest st - s)) 1 \<noteq> 0 \<longleftrightarrow> unat s \<in> A"
    by (simp add: k t_def [symmetric] and_exp_eq_0_iff_not_bit push_bit_of_1)
  show "fresh A (unat s) \<longleftrightarrow> unat s \<notin> A"
    using A(2) d ht by (force simp: fresh_def t_def [symmetric])
  have "bit (rs_bitmap st OR push_bit (h - t) 1) e \<longleftrightarrow> e \<le> h \<and> h - e \<in> insert t A" if "e < 64" for e
    using A(3) ht that by (auto simp: bit_or_iff bit_exp_iff push_bit_of_1)
  then show "represents (st\<lparr>rs_bitmap := rs_bitmap st OR push_bit (unat (rs_highest st - s)) 1,
                       rs_generation := g\<rparr>) (insert (unat s) A)"
    using A ht by (auto simp: represents_def k t_def [symmetric] h_def [symmetric])
qed

lemma fresh_too_old:
  assumes "represents st A" "s \<le> rs_highest st" "\<not> rs_highest st - s < 64"
  shows "\<not> fresh A (unat s)"
proof -
  have "64 \<le> unat (rs_highest st) - unat s"
    using assms(2,3) by (simp add: word_less_nat_alt not_less unat_minus)
  then show ?thesis
    using assms(1) by (force simp: represents_def fresh_def)
qed

section \<open>What a replay filter promises\<close>

text \<open>Feeding a list of packets to a filter: the accepted packets in order, and the final filter.\<close>

primrec run_filter ::
  "('g \<Rightarrow> 'k \<Rightarrow> u64 \<Rightarrow> bool \<times> 'g) \<Rightarrow> 'g \<Rightarrow> ('k \<times> u64) list \<Rightarrow> ('k \<times> u64) list \<times> 'g" where
  "run_filter accept g [] = ([], g)"
| "run_filter accept g (p # ps) =
     (let (ok, g') = accept g (fst p) (snd p); (acc, g'') = run_filter accept g' ps
      in (if ok then p # acc else acc, g''))"

locale replay_filter =
  fixes accept :: "'g \<Rightarrow> 'k \<Rightarrow> u64 \<Rightarrow> bool \<times> 'g"
    and window :: "'g \<Rightarrow> 'k \<Rightarrow> ReplayState option"
    and inv :: "'g \<Rightarrow> bool"
    and bound :: nat
  assumes accept_new: "window g k = None \<Longrightarrow> fst (accept g k s)"
    and accept_known: "window g k = Some st \<Longrightarrow> represents st A \<Longrightarrow>
          fst (accept g k s) \<longleftrightarrow> fresh A (unat s)"
    and window_new: "inv g \<Longrightarrow> window g k = None \<Longrightarrow>
          \<exists>st. window (snd (accept g k s)) k = Some st \<and> represents st {unat s}"
    and window_known: "inv g \<Longrightarrow> window g k = Some st \<Longrightarrow> represents st A \<Longrightarrow> fst (accept g k s) \<Longrightarrow>
          \<exists>st'. window (snd (accept g k s)) k = Some st' \<and> represents st' (insert (unat s) A)"
    and window_reject: "\<not> fst (accept g k s) \<Longrightarrow> window (snd (accept g k s)) = window g"
    and window_other: "inv g \<Longrightarrow> j \<noteq> k \<Longrightarrow> window g k \<noteq> None \<or> card (dom (window g)) < bound \<Longrightarrow>
          window (snd (accept g k s)) j = window g j"
    and inv_accept: "inv g \<Longrightarrow> inv (snd (accept g k s))"
    and inv_bound: "inv g \<Longrightarrow> card (dom (window g)) \<le> bound"
begin

text \<open>The state of a filter after accepting exactly the packets in \<open>A\<close>, key by key.\<close>

definition tracks :: "'g \<Rightarrow> ('k \<Rightarrow> nat set) \<Rightarrow> bool" where
  "tracks g A \<longleftrightarrow> inv g \<and> (\<forall>k. case window g k of None \<Rightarrow> A k = {} | Some st \<Rightarrow> represents st (A k))"

lemma tracks_accept:
  assumes "tracks g A" and "window g k \<noteq> None \<or> card (dom (window g)) < bound"
  shows "fst (accept g k s) \<longleftrightarrow> fresh (A k) (unat s)"
    and "tracks (snd (accept g k s))
           (if fst (accept g k s) then A(k := insert (unat s) (A k)) else A)"
proof -
  have inv: "inv g" and A: "\<And>k. case window g k of None \<Rightarrow> A k = {} | Some st \<Rightarrow> represents st (A k)"
    using assms(1) by (auto simp: tracks_def)
  show "fst (accept g k s) \<longleftrightarrow> fresh (A k) (unat s)"
    using A [of k] accept_new [of g k s] accept_known [of g k _ "A k" s]
    by (cases "window g k") (auto simp: fresh_def)
  show "tracks (snd (accept g k s))
           (if fst (accept g k s) then A(k := insert (unat s) (A k)) else A)"
  proof (cases "fst (accept g k s)")
    case False
    then show ?thesis
      using assms(1) inv_accept [OF inv] window_reject by (auto simp: tracks_def)
  next
    case True
    have "\<exists>st. window (snd (accept g k s)) k = Some st \<and> represents st (insert (unat s) (A k))"
      using A [of k] True window_new [OF inv, of k s] window_known [OF inv, of k _ "A k" s]
      by (cases "window g k") auto
    then obtain st where st: "window (snd (accept g k s)) k = Some st"
        "represents st (insert (unat s) (A k))"
      by blast
    have "case window (snd (accept g k s)) j of None \<Rightarrow> (A(k := insert (unat s) (A k))) j = {}
          | Some st \<Rightarrow> represents st ((A(k := insert (unat s) (A k))) j)" for j
      using A [of j] st window_other [OF inv _ assms(2), of j s]
      by (cases "j = k") (auto split: option.splits)
    then show ?thesis
      using True inv_accept [OF inv] by (simp add: tracks_def)
  qed
qed

lemma dom_window_accept:
  assumes "inv g" "window g k \<noteq> None \<or> card (dom (window g)) < bound"
  shows "dom (window (snd (accept g k s))) \<subseteq> insert k (dom (window g))"
  using window_other [OF assms(1) _ assms(2)] by (auto simp: dom_def)

lemma run_filter_fresh:
  assumes "tracks g A" "finite (dom (window g))"
    and "card (dom (window g) \<union> fst ` set ps) \<le> bound"
  shows "distinct (fst (run_filter accept g ps))
         \<and> (\<forall>(k, s) \<in> set (fst (run_filter accept g ps)). unat s \<notin> A k)"
  using assms
proof (induction ps arbitrary: g A)
  case Nil
  then show ?case by simp
next
  case (Cons p ps)
  obtain k s where p: "p = (k, s)" by force
  let ?ok = "fst (accept g k s)" and ?g = "snd (accept g k s)"
  let ?A = "if ?ok then A(k := insert (unat s) (A k)) else A"
  have room: "window g k \<noteq> None \<or> card (dom (window g)) < bound"
  proof (rule disjCI)
    assume "\<not> card (dom (window g)) < bound"
    then have "card (dom (window g) \<union> fst ` set (p # ps)) \<le> card (dom (window g))"
      using Cons.prems(3) by linarith
    then have "dom (window g) \<union> fst ` set (p # ps) = dom (window g)"
      using Cons.prems(2) by (metis Un_upper1 card_seteq finite_UnI finite_imageI List.finite_set)
    then show "window g k \<noteq> None"
      using p by auto
  qed
  note step = tracks_accept [OF Cons.prems(1) room, of s]
  have sub: "dom (window ?g) \<subseteq> insert k (dom (window g))"
    using Cons.prems(1) room by (intro dom_window_accept) (auto simp: tracks_def)
  have fin: "finite (dom (window ?g))"
    using sub Cons.prems(2) by (meson finite.insertI finite_subset)
  have "dom (window ?g) \<union> fst ` set ps \<subseteq> dom (window g) \<union> fst ` set (p # ps)"
    using sub p by auto
  then have "card (dom (window ?g) \<union> fst ` set ps) \<le> bound"
    using Cons.prems(2,3) by (meson List.finite_set card_mono finite_UnI finite_imageI le_trans)
  then have IH: "distinct (fst (run_filter accept ?g ps))
      \<and> (\<forall>(j, t) \<in> set (fst (run_filter accept ?g ps)). unat t \<notin> ?A j)"
    using Cons.IH [OF step(2) fin] by blast
  show ?case
    using IH step(1) p
    by (cases ?ok) (auto simp: split_beta fresh_def split: if_splits)
qed

end

section \<open>Both guards satisfy it\<close>

definition rg_inv :: "ReplayGuard \<Rightarrow> bool" where
  "rg_inv g = (bt_inv (rg_states g) \<and> length (rg_states g) \<le> MAX_PEERS)"

definition sg_inv :: "ShieldReplayGuard \<Rightarrow> bool" where
  "sg_inv g = (bt_inv (sg_states g) \<and> length (sg_states g) \<le> SHIELD_MAX_TRACKED_REQUESTS)"

lemmas window_size_defs = REPLAY_WINDOW_def SHIELD_REPLAY_WINDOW_def MAX_PEERS_def
  SHIELD_MAX_TRACKED_REQUESTS_def

lemma evict_noop: "length m < bound \<Longrightarrow> evict_min rank bound m = m"
  by (simp add: evict_min_def)

lemmas guard_simps = ReplayGuard_accept_def ShieldReplayGuard_accept_def Let_def split_beta
  REPLAY_WINDOW_def SHIELD_REPLAY_WINDOW_def

interpretation rg: replay_filter ReplayGuard_accept "\<lambda>g. bt_get (rg_states g)" rg_inv MAX_PEERS
proof (unfold_locales, goal_cases)
  case (1 g k s)
  then show ?case by (simp add: guard_simps)
next
  case (2 g k st A s)
  then show ?case
    using fresh_above [of st A s] fresh_too_old [of st A s] represents_below(1,2) [of st A s]
    by (auto simp: guard_simps not_less)
next
  case (3 g k s)
  then show ?case by (simp add: guard_simps represents_single)
next
  case (4 g k st A s)
  then show ?case
    using represents_above [of st A s "rg_generation g + 1"]
      represents_below(3) [of st A s "rg_generation g + 1"]
    by (auto simp: guard_simps not_less split: if_splits)
next
  case (5 g k s)
  then show ?case by (auto simp: guard_simps split: option.splits if_splits)
next
  case (6 g j k s)
  then show ?case
    by (auto simp: guard_simps rg_inv_def bt_len_card [symmetric] evict_noop split: option.splits)
next
  case (7 g k s)
  then show ?case
  proof (cases "bt_get (rg_states g) k")
    case None
    with 7 show ?thesis
      by (simp add: guard_simps rg_inv_def evict_insert_bound window_size_defs)
  next
    case (Some st)
    with 7 show ?thesis
      by (auto simp: guard_simps rg_inv_def bt.len_insert)
  qed
next
  case (8 g)
  then show ?case by (simp add: rg_inv_def bt_len_card [symmetric])
qed

interpretation sg: replay_filter "\<lambda>g k. ShieldReplayGuard_accept g (fst k) (snd k)"
    "\<lambda>g. bt_get (sg_states g)" sg_inv SHIELD_MAX_TRACKED_REQUESTS
proof (unfold_locales, goal_cases)
  case (1 g k s)
  then show ?case by (simp add: guard_simps)
next
  case (2 g k st A s)
  then show ?case
    using fresh_above [of st A s] fresh_too_old [of st A s] represents_below(1,2) [of st A s]
    by (auto simp: guard_simps not_less)
next
  case (3 g k s)
  then show ?case by (simp add: guard_simps represents_single)
next
  case (4 g k st A s)
  then show ?case
    using represents_above [of st A s "sg_generation g + 1"]
      represents_below(3) [of st A s "sg_generation g + 1"]
    by (auto simp: guard_simps not_less split: if_splits)
next
  case (5 g k s)
  then show ?case by (auto simp: guard_simps split: option.splits if_splits)
next
  case (6 g j k s)
  then show ?case
    by (auto simp: guard_simps sg_inv_def bt_len_card [symmetric] evict_noop split: option.splits)
next
  case (7 g k s)
  then show ?case
  proof (cases "bt_get (sg_states g) k")
    case None
    with 7 show ?thesis
      by (simp add: guard_simps sg_inv_def evict_insert_bound window_size_defs)
  next
    case (Some st)
    with 7 show ?thesis
      by (auto simp: guard_simps sg_inv_def bt.len_insert)
  qed
next
  case (8 g)
  then show ?case by (simp add: sg_inv_def bt_len_card [symmetric])
qed

lemma rg_tracks_default: "rg.tracks ReplayGuard_default (\<lambda>_. {})"
  by (simp add: rg.tracks_def rg_inv_def ReplayGuard_default_def bt_get_def)

lemma sg_tracks_default: "sg.tracks ShieldReplayGuard_default (\<lambda>_. {})"
  by (simp add: sg.tracks_def sg_inv_def ShieldReplayGuard_default_def bt_get_def)

section \<open>Properties\<close>

text \<open>C11. The peer replay guard implements the sliding-window specification: for a peer whose window
  represents the set \<open>A\<close> of sequence numbers accepted from it, the guard accepts exactly the numbers
  that are new and less than 64 behind the highest, and the window it leaves represents the set with
  the accepted number added.\<close>

theorem replay_guard_refines_window:
  assumes "rg_inv g" "bt_get (rg_states g) peer = Some st" "represents st A"
  shows "(fst (ReplayGuard_accept g peer s) \<longleftrightarrow> unat s \<notin> A \<and> (\<forall>a \<in> A. a < unat s + 64))
    \<and> (\<exists>st'. bt_get (rg_states (snd (ReplayGuard_accept g peer s))) peer = Some st'
         \<and> represents st' (if fst (ReplayGuard_accept g peer s) then insert (unat s) A else A))"
proof -
  have "fst (ReplayGuard_accept g peer s) \<longleftrightarrow> fresh A (unat s)"
    by (rule rg.accept_known [OF assms(2,3)])
  moreover have "\<exists>st'. bt_get (rg_states (snd (ReplayGuard_accept g peer s))) peer = Some st'
         \<and> represents st' (if fst (ReplayGuard_accept g peer s) then insert (unat s) A else A)"
  proof (cases "fst (ReplayGuard_accept g peer s)")
    case True
    then show ?thesis
      using rg.window_known [OF assms] by simp
  next
    case False
    then show ?thesis
      using rg.window_reject [of g peer s] assms(2,3) by simp
  qed
  ultimately show ?thesis
    by (simp add: fresh_def)
qed

theorem replay_guard_refines_window_witness:
  "\<exists>g st. rg_inv g \<and> bt_get (rg_states g) [7] = Some st \<and> represents st {10}
     \<and> fst (ReplayGuard_accept g [7] 8) \<and> \<not> fst (ReplayGuard_accept g [7] 10)"
proof -
  let ?g = "snd (ReplayGuard_accept ReplayGuard_default [7] 10)"
  let ?st = "\<lparr>rs_highest = 10, rs_bitmap = 1, rs_generation = 1\<rparr>"
  have g: "rg_inv ?g" "bt_get (rg_states ?g) [7] = Some ?st"
    by (simp_all add: ReplayGuard_accept_def ReplayGuard_default_def rg_inv_def MAX_PEERS_def
        bt_get_def evict_min_def Let_def bt_inv_def)
  have st: "represents ?st {10}"
    using represents_single [of 10] by simp
  show ?thesis
    using g st replay_guard_refines_window [OF g st, of 8] replay_guard_refines_window [OF g st, of 10]
    by (intro exI [of _ ?g] exI [of _ ?st]) simp
qed

text \<open>Starting from an empty guard, as long as at most 65536 different peers appear, no packet
  (peer and sequence number) is ever accepted twice, whatever the order and repetition of the
  packets offered.\<close>

theorem replay_guard_no_replay:
  assumes "card (fst ` set packets) \<le> MAX_PEERS"
  shows "distinct (fst (run_filter ReplayGuard_accept ReplayGuard_default packets))"
  using rg.run_filter_fresh [OF rg_tracks_default, of packets] assms
  by (simp add: ReplayGuard_default_def bt_dom)

theorem replay_guard_no_replay_witness:
  "card (fst ` set [([7], 10), ([7], 8), ([7], 10)]) \<le> MAX_PEERS
   \<and> distinct (fst (run_filter ReplayGuard_accept ReplayGuard_default [([7], 10), ([7], 8), ([7], 10)]))"
proof -
  have c: "card (fst ` set [([7] :: bytes, 10 :: u64), ([7], 8), ([7], 10)]) \<le> MAX_PEERS"
    by (simp add: MAX_PEERS_def)
  show ?thesis
    using c replay_guard_no_replay [OF c] by simp
qed

text \<open>The shield guard has the same guarantee per session and request: with at most 65536 requests
  in flight, no sequence number is accepted twice for the same session and request.\<close>

theorem shield_guard_no_replay:
  assumes "card (fst ` set packets) \<le> SHIELD_MAX_TRACKED_REQUESTS"
  shows "distinct (fst (run_filter (\<lambda>g k. ShieldReplayGuard_accept g (fst k) (snd k))
                          ShieldReplayGuard_default packets))"
  using sg.run_filter_fresh [OF sg_tracks_default, of packets] assms
  by (simp add: ShieldReplayGuard_default_def bt_dom)

theorem shield_guard_no_replay_witness:
  "distinct (fst (run_filter (\<lambda>g k. ShieldReplayGuard_accept g (fst k) (snd k))
                    ShieldReplayGuard_default [(([1], [2]), 10), (([1], [2]), 8), (([1], [2]), 8)]))"
  by (rule shield_guard_no_replay) (simp add: SHIELD_MAX_TRACKED_REQUESTS_def)

text \<open>The replay table never holds more than its fixed number of peers, whatever is offered.\<close>

theorem replay_guard_bounded:
  "ReplayGuard_tracked_peers (snd (run_filter ReplayGuard_accept ReplayGuard_default packets)) \<le> MAX_PEERS"
proof -
  have "rg_inv (snd (run_filter ReplayGuard_accept g packets))" if "rg_inv g" for g
    using that by (induction packets arbitrary: g) (auto simp: split_beta rg.inv_accept)
  moreover have "rg_inv ReplayGuard_default"
    using rg_tracks_default by (simp add: rg.tracks_def)
  ultimately show ?thesis
    unfolding ReplayGuard_tracked_peers_def rg_inv_def by blast
qed

end
