(* ===== verification/Limits.thy ===== *)
theory Limits
  imports Ordered_Map
begin

text \<open>
  \<^verbatim>\<open>core/src/limits.rs\<close>: the token bucket and the two admission tables built from it, keyed by
  peer identity and by source address. The main facts are a rate bound (what a bucket grants over a
  period never exceeds its capacity plus the refill of the period), its lifting to both tables
  through the locale \<open>admission_table\<close>, the bound on the table size, and the behaviour of eviction,
  which drops the most depleted bucket first.
\<close>

section \<open>Token bucket\<close>

record TokenBucket =
  tb_capacity :: u64
  tb_tokens :: u64
  tb_refill_per_second :: u64
  tb_last_second :: u64

definition TokenBucket_new :: "u64 \<Rightarrow> u64 \<Rightarrow> u64 \<Rightarrow> TokenBucket" where
  "TokenBucket_new capacity refill_per_second now_second =
     (let capacity = max capacity 1 in
      \<lparr>tb_capacity = capacity, tb_tokens = capacity,
       tb_refill_per_second = max refill_per_second 1, tb_last_second = now_second\<rparr>)"

definition TokenBucket_allow :: "TokenBucket \<Rightarrow> u64 \<Rightarrow> u64 \<Rightarrow> bool \<times> TokenBucket" where
  "TokenBucket_allow self cost now_second =
     (if cost = 0 then (True, self)
      else if cost > tb_capacity self then (False, self)
      else
        let elapsed = sat_sub now_second (tb_last_second self);
            self = (if elapsed > 0 then
                      let refill = sat_mul elapsed (tb_refill_per_second self) in
                      self\<lparr>tb_tokens := min (sat_add (tb_tokens self) refill) (tb_capacity self),
                           tb_last_second := now_second\<rparr>
                    else self)
        in if tb_tokens self < cost then (False, self)
           else (True, self\<lparr>tb_tokens := tb_tokens self - cost\<rparr>))"

definition TokenBucket_remaining :: "TokenBucket \<Rightarrow> u64" where
  "TokenBucket_remaining self = tb_tokens self"

section \<open>Admission by peer\<close>

text \<open>The \<^verbatim>\<open>expect\<close> on the bucket just inserted cannot fail (\<open>admission_bucket_present\<close>); the unreachable
  case refuses and changes nothing.\<close>

record PeerAdmission =
  pa_buckets :: "(bytes, TokenBucket) btree_map"
  pa_max_peers :: nat
  pa_capacity :: u64
  pa_refill_per_second :: u64

definition PeerAdmission_new :: "nat \<Rightarrow> u64 \<Rightarrow> u64 \<Rightarrow> PeerAdmission" where
  "PeerAdmission_new max_peers capacity refill_per_second =
     \<lparr>pa_buckets = [], pa_max_peers = max max_peers 1, pa_capacity = max capacity 1,
      pa_refill_per_second = max refill_per_second 1\<rparr>"

definition PeerAdmission_allow :: "PeerAdmission \<Rightarrow> bytes \<Rightarrow> u64 \<Rightarrow> u64 \<Rightarrow> bool \<times> PeerAdmission" where
  "PeerAdmission_allow self peer cost now_second =
     (let buckets = pa_buckets self;
          buckets = (if \<not> bt_contains buckets peer then
                       bt_insert peer
                         (TokenBucket_new (pa_capacity self) (pa_refill_per_second self) now_second)
                         (evict_min TokenBucket_remaining (pa_max_peers self) buckets)
                     else buckets)
      in case bt_get buckets peer of
           None \<Rightarrow> (False, self)
         | Some bucket \<Rightarrow>
             let (allowed, bucket) = TokenBucket_allow bucket cost now_second
             in (allowed, self\<lparr>pa_buckets := bt_insert peer bucket buckets\<rparr>))"

definition PeerAdmission_tracked_peers :: "PeerAdmission \<Rightarrow> nat" where
  "PeerAdmission_tracked_peers self = length (pa_buckets self)"

section \<open>Admission by source address\<close>

datatype IpAddr = V4 u32 | V6 u128

instantiation IpAddr :: linorder
begin

fun less_eq_IpAddr :: "IpAddr \<Rightarrow> IpAddr \<Rightarrow> bool" where
  "less_eq_IpAddr (V4 a) (V4 b) = (a \<le> b)"
| "less_eq_IpAddr (V4 a) (V6 b) = True"
| "less_eq_IpAddr (V6 a) (V4 b) = False"
| "less_eq_IpAddr (V6 a) (V6 b) = (a \<le> b)"

definition less_IpAddr :: "IpAddr \<Rightarrow> IpAddr \<Rightarrow> bool" where
  "less_IpAddr a b = (a \<le> b \<and> \<not> b \<le> a)"

instance
proof
  fix x y z :: IpAddr
  show "x < y \<longleftrightarrow> x \<le> y \<and> \<not> y \<le> x" by (simp add: less_IpAddr_def)
  show "x \<le> x" by (cases x) simp_all
  show "x \<le> y \<Longrightarrow> y \<le> z \<Longrightarrow> x \<le> z" by (cases x; cases y; cases z) auto
  show "x \<le> y \<Longrightarrow> y \<le> x \<Longrightarrow> x = y" by (cases x; cases y) auto
  show "x \<le> y \<or> y \<le> x" by (cases x; cases y) auto
qed

end

record IpAdmission =
  ia_buckets :: "(IpAddr, TokenBucket) btree_map"
  ia_max_sources :: nat
  ia_capacity :: u64
  ia_refill_per_second :: u64

definition IpAdmission_new :: "nat \<Rightarrow> u64 \<Rightarrow> u64 \<Rightarrow> IpAdmission" where
  "IpAdmission_new max_sources capacity refill_per_second =
     \<lparr>ia_buckets = [], ia_max_sources = max max_sources 1, ia_capacity = max capacity 1,
      ia_refill_per_second = max refill_per_second 1\<rparr>"

definition IpAdmission_allow :: "IpAdmission \<Rightarrow> IpAddr \<Rightarrow> u64 \<Rightarrow> bool \<times> IpAdmission" where
  "IpAdmission_allow self source now_second =
     (let buckets = ia_buckets self;
          buckets = (if \<not> bt_contains buckets source then
                       bt_insert source
                         (TokenBucket_new (ia_capacity self) (ia_refill_per_second self) now_second)
                         (evict_min TokenBucket_remaining (ia_max_sources self) buckets)
                     else buckets)
      in case bt_get buckets source of
           None \<Rightarrow> (False, self)
         | Some bucket \<Rightarrow>
             let (allowed, bucket) = TokenBucket_allow bucket 1 now_second
             in (allowed, self\<lparr>ia_buckets := bt_insert source bucket buckets\<rparr>))"

definition IpAdmission_tracked_sources :: "IpAdmission \<Rightarrow> nat" where
  "IpAdmission_tracked_sources self = length (ia_buckets self)"

section \<open>The rate bound of a bucket\<close>

definition tb_inv :: "TokenBucket \<Rightarrow> bool" where
  "tb_inv b = (tb_tokens b \<le> tb_capacity b \<and> 1 \<le> tb_capacity b \<and> 1 \<le> tb_refill_per_second b)"

lemma tb_inv_new: "tb_inv (TokenBucket_new c r t)"
  by (simp add: tb_inv_def TokenBucket_new_def Let_def)

text \<open>What a bucket can still grant up to time \<open>T\<close>: its tokens and the refill of the time left.\<close>

definition potential :: "nat \<Rightarrow> TokenBucket \<Rightarrow> nat" where
  "potential T b = unat (tb_tokens b) + unat (tb_refill_per_second b) * (T - unat (tb_last_second b))"

definition granted_cost :: "bool \<Rightarrow> u64 \<Rightarrow> nat" where
  "granted_cost ok cost = (if ok then unat cost else 0)"

definition refilled :: "TokenBucket \<Rightarrow> u64 \<Rightarrow> TokenBucket" where
  "refilled b now =
     (if sat_sub now (tb_last_second b) > 0 then
        b\<lparr>tb_tokens := min (sat_add (tb_tokens b)
            (sat_mul (sat_sub now (tb_last_second b)) (tb_refill_per_second b))) (tb_capacity b),
          tb_last_second := now\<rparr>
      else b)"

lemma TokenBucket_allow_alt:
  "TokenBucket_allow b cost now =
     (if cost = 0 then (True, b) else if cost > tb_capacity b then (False, b)
      else if tb_tokens (refilled b now) < cost then (False, refilled b now)
      else (True, (refilled b now)\<lparr>tb_tokens := tb_tokens (refilled b now) - cost\<rparr>))"
  by (simp add: TokenBucket_allow_def refilled_def Let_def)

lemma refilled_fields [simp]:
  "tb_capacity (refilled b now) = tb_capacity b"
  "tb_refill_per_second (refilled b now) = tb_refill_per_second b"
  by (simp_all add: refilled_def)

lemma potential_refilled:
  assumes "unat now \<le> T"
  shows "potential T (refilled b now) \<le> potential T b"
proof (cases "sat_sub now (tb_last_second b) > 0")
  case False
  then show ?thesis by (simp add: refilled_def)
next
  case True
  define l n r where "l = unat (tb_last_second b)" "n = unat now" "r = unat (tb_refill_per_second b)"
  have "0 < unat (sat_sub now (tb_last_second b))"
    using True by (simp add: word_less_nat_alt)
  then have "l < n"
    by (simp add: unat_simps l_n_r_def)
  have "unat (tb_tokens (refilled b now)) \<le>
      unat (sat_add (tb_tokens b) (sat_mul (sat_sub now (tb_last_second b)) (tb_refill_per_second b)))"
    using True by (simp add: refilled_def unat_min)
  also have "\<dots> \<le> unat (tb_tokens b) + unat (sat_mul (sat_sub now (tb_last_second b)) (tb_refill_per_second b))"
    by (rule sat_add_le_sum)
  also have "\<dots> \<le> unat (tb_tokens b) + (n - l) * r"
    by (simp add: unat_simps l_n_r_def)
  finally have t: "unat (tb_tokens (refilled b now)) \<le> unat (tb_tokens b) + (n - l) * r" .
  have "(n - l) * r + r * (T - n) = r * (T - l)"
  proof -
    have "n - l + (T - n) = T - l"
      using \<open>l < n\<close> assms by (simp add: l_n_r_def)
    then show ?thesis
      by (metis add_mult_distrib2 mult.commute)
  qed
  then show ?thesis
    using t True by (simp add: potential_def refilled_def l_n_r_def)
qed

lemma potential_allow:
  assumes "unat now \<le> T" and "TokenBucket_allow b cost now = (ok, b')"
  shows "granted_cost ok cost + potential T b' \<le> potential T b"
proof -
  have sub: "unat (tb_tokens (refilled b now) - cost) = unat (tb_tokens (refilled b now)) - unat cost
      \<and> unat cost \<le> unat (tb_tokens (refilled b now))" if "\<not> tb_tokens (refilled b now) < cost"
    using that by (simp add: unat_minus word_le_nat_alt not_less)
  show ?thesis
    using assms(2) potential_refilled [OF assms(1), of b] sub
    by (auto simp: TokenBucket_allow_alt granted_cost_def potential_def split: if_splits)
qed

lemma tb_inv_allow: "tb_inv b \<Longrightarrow> tb_inv (snd (TokenBucket_allow b cost now))"
proof -
  assume b: "tb_inv b"
  then have r: "tb_inv (refilled b now)"
    by (auto simp: tb_inv_def refilled_def)
  have "x - c \<le> y" if "x \<le> y" "\<not> x < c" for x y c :: u64
    using that by (meson linorder_not_less order.trans word_sub_le)
  then show ?thesis
    using b r by (auto simp: TokenBucket_allow_alt tb_inv_def)
qed

primrec run_bucket :: "TokenBucket \<Rightarrow> (u64 \<times> u64) list \<Rightarrow> nat \<times> TokenBucket" where
  "run_bucket b [] = (0, b)"
| "run_bucket b (c # cs) =
     (let (ok, b') = TokenBucket_allow b (fst c) (snd c); (n, b'') = run_bucket b' cs
      in (granted_cost ok (fst c) + n, b''))"

lemma run_bucket_potential:
  assumes "\<forall>c \<in> set calls. unat (snd c) \<le> T"
  shows "fst (run_bucket b calls) + potential T (snd (run_bucket b calls)) \<le> potential T b"
  using assms
proof (induction calls arbitrary: b)
  case (Cons c cs)
  obtain ok b' where a: "TokenBucket_allow b (fst c) (snd c) = (ok, b')" by force
  have "granted_cost ok (fst c) + potential T b' \<le> potential T b"
    using Cons.prems a by (intro potential_allow) auto
  moreover have "fst (run_bucket b' cs) + potential T (snd (run_bucket b' cs)) \<le> potential T b'"
    using Cons by simp
  ultimately show ?case
    using a by (simp add: split_beta)
qed simp

text \<open>Over a window that opens at \<open>t0\<close>, a bucket last touched before can grant its capacity and the refill
  of the window: the first call in the window refills it, but never beyond the capacity.\<close>

definition window_potential :: "nat \<Rightarrow> nat \<Rightarrow> TokenBucket \<Rightarrow> nat" where
  "window_potential t0 T b =
     (if unat (tb_last_second b) < t0
      then unat (tb_capacity b) + unat (tb_refill_per_second b) * (T - t0) else potential T b)"

lemma refilled_opens_window:
  assumes "t0 \<le> unat now" "unat (tb_last_second b) < t0"
  shows "tb_last_second (refilled b now) = now"
    and "tb_tokens (refilled b now) \<le> tb_capacity b"
proof -
  have "0 < unat (sat_sub now (tb_last_second b))"
    using assms by (simp add: unat_simps)
  then have "0 < sat_sub now (tb_last_second b)"
    by (simp add: word_less_nat_alt)
  then show "tb_last_second (refilled b now) = now" "tb_tokens (refilled b now) \<le> tb_capacity b"
    by (simp_all add: refilled_def)
qed

lemma window_potential_refilled:
  assumes "t0 \<le> unat now" "unat now \<le> T"
  shows "potential T (refilled b now) \<le> window_potential t0 T b"
    and "t0 \<le> unat (tb_last_second (refilled b now))"
proof -
  show "potential T (refilled b now) \<le> window_potential t0 T b"
  proof (cases "unat (tb_last_second b) < t0")
    case True
    note r = refilled_opens_window [OF assms(1) True]
    have "unat (tb_refill_per_second b) * (T - unat now) \<le> unat (tb_refill_per_second b) * (T - t0)"
      using assms(1) by (simp add: diff_le_mono2)
    moreover have "unat (tb_tokens (refilled b now)) \<le> unat (tb_capacity b)"
      using r(2) by (simp add: word_le_nat_alt)
    ultimately show ?thesis
      using r(1) True by (simp add: window_potential_def potential_def add_mono del: mult_le_cancel1 nat_mult_le_cancel_disj)
  qed (use potential_refilled [OF assms(2)] in \<open>simp add: window_potential_def\<close>)
  show "t0 \<le> unat (tb_last_second (refilled b now))"
    using refilled_opens_window(1) [OF assms(1)] assms(1)
    by (cases "unat (tb_last_second b) < t0") (auto simp: refilled_def)
qed

lemma window_potential_allow:
  assumes "t0 \<le> unat now" "unat now \<le> T" and "TokenBucket_allow b cost now = (ok, b')"
  shows "granted_cost ok cost + window_potential t0 T b' \<le> window_potential t0 T b"
proof -
  note r = window_potential_refilled [OF assms(1,2), of b]
  have sub: "unat (tb_tokens (refilled b now) - cost) = unat (tb_tokens (refilled b now)) - unat cost
      \<and> unat cost \<le> unat (tb_tokens (refilled b now))" if "\<not> tb_tokens (refilled b now) < cost"
    using that by (simp add: unat_minus word_le_nat_alt not_less)
  have "window_potential t0 T (refilled b now) = potential T (refilled b now)"
    using r(2) by (simp add: window_potential_def)
  then show ?thesis
    using assms(3) r sub
    by (auto simp: TokenBucket_allow_alt granted_cost_def window_potential_def [of t0 T "tb_tokens_update f b'" for f b']
        potential_def split: if_splits)
qed

lemma run_bucket_window:
  assumes "\<forall>c \<in> set calls. t0 \<le> unat (snd c) \<and> unat (snd c) \<le> T"
  shows "fst (run_bucket b calls) + window_potential t0 T (snd (run_bucket b calls)) \<le> window_potential t0 T b"
  using assms
proof (induction calls arbitrary: b)
  case (Cons c cs)
  obtain ok b' where a: "TokenBucket_allow b (fst c) (snd c) = (ok, b')" by force
  have "granted_cost ok (fst c) + window_potential t0 T b' \<le> window_potential t0 T b"
    using Cons.prems a by (intro window_potential_allow) auto
  moreover have "fst (run_bucket b' cs) + window_potential t0 T (snd (run_bucket b' cs)) \<le> window_potential t0 T b'"
    using Cons by simp
  ultimately show ?case
    using a by (simp add: split_beta)
qed simp

lemma allow_keeps_config:
  "tb_capacity (snd (TokenBucket_allow b cost now)) = tb_capacity b"
  "tb_refill_per_second (snd (TokenBucket_allow b cost now)) = tb_refill_per_second b"
  by (simp_all add: TokenBucket_allow_alt)

lemma run_bucket_keeps:
  "tb_inv b \<Longrightarrow> tb_inv (snd (run_bucket b calls))"
  "tb_capacity (snd (run_bucket b calls)) = tb_capacity b"
  "tb_refill_per_second (snd (run_bucket b calls)) = tb_refill_per_second b"
  by (induction calls arbitrary: b)
    (simp_all add: split_beta Let_def tb_inv_allow allow_keeps_config)

lemma window_potential_bound:
  assumes "tb_inv b"
  shows "window_potential t0 T b \<le> unat (tb_capacity b) + unat (tb_refill_per_second b) * (T - t0)"
proof (cases "unat (tb_last_second b) < t0")
  case False
  then have "unat (tb_refill_per_second b) * (T - unat (tb_last_second b)) \<le> unat (tb_refill_per_second b) * (T - t0)"
    by (simp add: diff_le_mono2)
  moreover have "unat (tb_tokens b) \<le> unat (tb_capacity b)"
    using assms by (simp add: tb_inv_def word_le_nat_alt)
  ultimately show ?thesis
    using False by (simp add: window_potential_def potential_def add_mono del: mult_le_cancel1 nat_mult_le_cancel_disj)
qed (simp add: window_potential_def)

lemma idle_bucket_allows:
  assumes "cost \<le> tb_capacity b"
    and "unat cost \<le> unat (tb_refill_per_second b) * (unat now - unat (tb_last_second b))"
  shows "fst (TokenBucket_allow b cost now)"
proof -
  have "cost \<le> tb_tokens (refilled b now)" if "cost \<noteq> 0"
  proof -
    have n: "0 < unat cost"
      using that by (simp add: unat_gt_0)
    then have "0 < unat now - unat (tb_last_second b)"
      using assms(2) by (metis gr0I le_zero_eq mult_0_right less_irrefl)
    then have e: "0 < sat_sub now (tb_last_second b)"
      by (simp add: word_less_nat_alt unat_simps)
    have "unat cost \<le> unat (sat_mul (sat_sub now (tb_last_second b)) (tb_refill_per_second b))"
      using assms(2) unat_less_pow [of cost] by (simp add: unat_simps mult.commute)
    then have "unat cost \<le> unat (sat_add (tb_tokens b) (sat_mul (sat_sub now (tb_last_second b)) (tb_refill_per_second b)))"
      using unat_less_pow [of cost] by (simp add: unat_sat_add)
    then show ?thesis
      using assms(1) e by (simp add: refilled_def word_le_nat_alt)
  qed
  then show ?thesis
    using assms(1) by (cases "cost = 0") (simp_all add: TokenBucket_allow_alt not_less not_le)
qed

text \<open>C30. The rate limit holds over any window of time: whatever the bucket served \<open>before\<close>, the total cost
  it grants to requests stamped from \<open>t0\<close> to \<open>T\<close> is at most its capacity plus the refill of those seconds,
  in whatever order the time stamps come and however large the requests are. In the other direction, a
  request of at most the capacity is granted once the refill since the last one covers it.\<close>

theorem token_bucket_rate_bound:
  fixes before :: "(u64 \<times> u64) list"
  assumes "\<forall>c \<in> set calls. t0 \<le> unat (snd c) \<and> unat (snd c) \<le> T"
    and "b = snd (run_bucket (TokenBucket_new capacity refill created) before)"
  shows "fst (run_bucket b calls) \<le> unat (max capacity 1) + unat (max refill 1) * (T - t0)
       \<and> (cost \<le> max capacity 1 \<and> unat cost \<le> unat (max refill 1) * (unat now - unat (tb_last_second b))
            \<longrightarrow> fst (TokenBucket_allow b cost now))"
proof -
  have config: "tb_capacity b = max capacity 1" "tb_refill_per_second b = max refill 1"
    by (simp_all add: assms(2) run_bucket_keeps TokenBucket_new_def Let_def)
  have "tb_inv b"
    by (simp add: assms(2) run_bucket_keeps tb_inv_new)
  from window_potential_bound [OF this, of t0 T] run_bucket_window [OF assms(1), of b]
  show ?thesis
    using idle_bucket_allows [of cost b now] by (simp add: config)
qed

text \<open>Two seconds of use, an hour of silence, and a window of two seconds in which 20 of 26 tokens asked for
  are granted, the capacity and two seconds of refill.\<close>

theorem token_bucket_rate_bound_witness:
  "fst (run_bucket (snd (run_bucket (TokenBucket_new 10 5 0) [(10, 0), (1, 1)])) [(10, 3600), (5, 3601), (6, 3601), (5, 3602)])
     = 10 + 5 * 2
   \<and> fst (TokenBucket_allow (snd (run_bucket (TokenBucket_new 10 5 0) [(10, 0), (1, 1)])) 10 3)"
proof -
  let ?before = "[(10, 0), (1, 1)]" and ?calls = "[(10, 3600), (5, 3601), (6, 3601), (5, 3602)]"
  let ?b = "snd (run_bucket (TokenBucket_new 10 5 0) ?before)"
  have b: "tb_last_second ?b = 1"
    by (simp add: TokenBucket_allow_def TokenBucket_new_def sat_sub_def sat_add_def sat_mul_def Let_def)
  have "fst (run_bucket ?b ?calls) \<le> 20 \<and> fst (TokenBucket_allow ?b 10 3)"
    using token_bucket_rate_bound [of ?calls 3600 3602 ?b 10 5 0 ?before 10 3] b by simp
  moreover have "20 \<le> fst (run_bucket ?b ?calls)"
    by (simp add: TokenBucket_allow_def TokenBucket_new_def sat_sub_def sat_add_def sat_mul_def granted_cost_def Let_def)
  ultimately show ?thesis
    by simp
qed

section \<open>Admission tables\<close>

lemma admission_bucket_present:
  "bt_get (if \<not> bt_contains m k then bt_insert k v m' else m) k \<noteq> None"
  by (simp add: bt_contains_def)

text \<open>Feeding a table a list of timed requests: the cost granted to one key.\<close>

primrec granted_to ::
  "('s \<Rightarrow> 'r \<Rightarrow> u64 \<Rightarrow> bool \<times> 's) \<Rightarrow> ('r \<Rightarrow> 'k) \<Rightarrow> ('r \<Rightarrow> u64) \<Rightarrow> 'k \<Rightarrow> 's \<Rightarrow> ('r \<times> u64) list \<Rightarrow> nat" where
  "granted_to allow key cost k s [] = 0"
| "granted_to allow key cost k s (q # qs) =
     (let (ok, s') = allow s (fst q) (snd q)
      in (if key (fst q) = k then granted_cost ok (cost (fst q)) else 0)
         + granted_to allow key cost k s' qs)"

locale admission_table =
  fixes allow :: "'s \<Rightarrow> 'r \<Rightarrow> u64 \<Rightarrow> bool \<times> 's"
    and key :: "'r \<Rightarrow> 'k"
    and cost :: "'r \<Rightarrow> u64"
    and buckets :: "'s \<Rightarrow> 'k \<Rightarrow> TokenBucket option"
    and capacity :: "'s \<Rightarrow> u64"
    and refill :: "'s \<Rightarrow> u64"
    and inv :: "'s \<Rightarrow> bool"
    and bound :: "'s \<Rightarrow> nat"
  assumes allow_decides: "fst (allow s r now) =
            fst (TokenBucket_allow (case buckets s (key r) of
                   None \<Rightarrow> TokenBucket_new (capacity s) (refill s) now | Some b \<Rightarrow> b) (cost r) now)"
    and allow_bucket: "buckets (snd (allow s r now)) (key r) =
            Some (snd (TokenBucket_allow (case buckets s (key r) of
                   None \<Rightarrow> TokenBucket_new (capacity s) (refill s) now | Some b \<Rightarrow> b) (cost r) now))"
    and allow_other: "inv s \<Longrightarrow> j \<noteq> key r \<Longrightarrow> buckets s (key r) \<noteq> None \<or> card (dom (buckets s)) < bound s \<Longrightarrow>
            buckets (snd (allow s r now)) j = buckets s j"
    and inv_allow: "inv s \<Longrightarrow> inv (snd (allow s r now))"
    and config_allow: "bound (snd (allow s r now)) = bound s" "capacity (snd (allow s r now)) = capacity s"
            "refill (snd (allow s r now)) = refill s"
    and table_bound: "inv s \<Longrightarrow> card (dom (buckets s)) \<le> bound s"
begin

definition key_potential :: "nat \<Rightarrow> nat \<Rightarrow> 's \<Rightarrow> 'k \<Rightarrow> nat" where
  "key_potential t0 T s k =
     (case buckets s k of
        None \<Rightarrow> unat (max (capacity s) 1) + unat (max (refill s) 1) * (T - t0)
      | Some b \<Rightarrow> potential T b)"

lemma key_potential_allow:
  assumes "t0 \<le> unat now" "unat now \<le> T"
  shows "granted_cost (fst (allow s r now)) (cost r) + key_potential t0 T (snd (allow s r now)) (key r)
           \<le> key_potential t0 T s (key r)"
proof -
  let ?b = "case buckets s (key r) of None \<Rightarrow> TokenBucket_new (capacity s) (refill s) now | Some b \<Rightarrow> b"
  have "granted_cost (fst (TokenBucket_allow ?b (cost r) now)) (cost r)
        + potential T (snd (TokenBucket_allow ?b (cost r) now)) \<le> potential T ?b"
    by (rule potential_allow [OF assms(2)]) simp
  moreover have "potential T ?b \<le> key_potential t0 T s (key r)"
    using assms(1) by (cases "buckets s (key r)")
      (simp_all add: key_potential_def potential_def TokenBucket_new_def Let_def diff_le_mono2)
  ultimately show ?thesis
    by (simp add: key_potential_def allow_decides allow_bucket)
qed

lemma dom_allow:
  assumes "inv s" "buckets s (key r) \<noteq> None \<or> card (dom (buckets s)) < bound s"
  shows "dom (buckets (snd (allow s r now))) \<subseteq> insert (key r) (dom (buckets s))"
  using allow_other [OF assms(1) _ assms(2)] by (auto simp: dom_def)

lemma granted_to_bound:
  assumes "inv s" "finite (dom (buckets s))"
    and "card (dom (buckets s) \<union> key ` fst ` set qs) \<le> bound s"
    and "\<forall>q \<in> set qs. t0 \<le> unat (snd q) \<and> unat (snd q) \<le> T"
  shows "granted_to allow key cost k s qs \<le> key_potential t0 T s k"
  using assms
proof (induction qs arbitrary: s)
  case (Cons q qs)
  obtain r now where q: "q = (r, now)" by force
  let ?s = "snd (allow s r now)"
  let ?D = "dom (buckets s) \<union> key ` fst ` set (q # qs)"
  have time: "t0 \<le> unat now" "unat now \<le> T"
    using Cons.prems(4) q by auto
  have finD: "finite ?D" using Cons.prems(2) by simp
  have room: "buckets s (key r) \<noteq> None \<or> card (dom (buckets s)) < bound s"
  proof (rule disjCI)
    assume "\<not> card (dom (buckets s)) < bound s"
    then have "card ?D \<le> card (dom (buckets s))"
      using Cons.prems(3) by linarith
    then have "?D = dom (buckets s)"
      using finD by (metis Un_upper1 card_seteq)
    then show "buckets s (key r) \<noteq> None"
      using q by auto
  qed
  have sub: "dom (buckets ?s) \<subseteq> insert (key r) (dom (buckets s))"
    using Cons.prems(1) room by (rule dom_allow)
  then have subD: "dom (buckets ?s) \<union> key ` fst ` set qs \<subseteq> ?D"
    using q by auto
  have fin: "finite (dom (buckets ?s))"
    using sub Cons.prems(2) by (meson finite.insertI finite_subset)
  have "card (dom (buckets ?s) \<union> key ` fst ` set qs) \<le> card ?D"
    using finD subD by (rule card_mono)
  then have "card (dom (buckets ?s) \<union> key ` fst ` set qs) \<le> bound ?s"
    using Cons.prems(3) by (simp only: config_allow(1))
  with fin have IH: "granted_to allow key cost k ?s qs \<le> key_potential t0 T ?s k"
    using Cons.IH [OF inv_allow [OF Cons.prems(1)]] Cons.prems(4) by simp
  show ?case
  proof (cases "key r = k")
    case True
    then show ?thesis
      using IH key_potential_allow [OF time, of s r] q by (auto simp: split_beta)
  next
    case False
    then have "key_potential t0 T ?s k = key_potential t0 T s k"
      using allow_other [OF Cons.prems(1) _ room]
      by (simp add: key_potential_def config_allow split: option.split)
    then show ?thesis
      using IH False q by (simp add: split_beta)
  qed
qed simp

end

definition pa_inv :: "PeerAdmission \<Rightarrow> bool" where
  "pa_inv s = (bt_inv (pa_buckets s) \<and> length (pa_buckets s) \<le> pa_max_peers s \<and> 0 < pa_max_peers s)"

definition ia_inv :: "IpAdmission \<Rightarrow> bool" where
  "ia_inv s = (bt_inv (ia_buckets s) \<and> length (ia_buckets s) \<le> ia_max_sources s \<and> 0 < ia_max_sources s)"

lemmas admission_simps = PeerAdmission_allow_def IpAdmission_allow_def Let_def split_beta bt_contains_def

lemma evict_insert_twice_bound:
  assumes "bt_inv m" "length m \<le> n" "0 < n" "bt_get m k = None"
  shows "length (bt_insert k b (bt_insert k v (evict_min r n m))) \<le> n"
  using evict_insert_bound [OF assms, of v r] assms(1)
    bt.len_insert [of "bt_insert k v (evict_min r n m)" k b] by simp

lemma insert_present_len: "bt_inv m \<Longrightarrow> bt_get m k = Some v \<Longrightarrow> length (bt_insert k b m) = length m"
  by (simp add: bt.len_insert)

interpretation pa: admission_table "\<lambda>s r. PeerAdmission_allow s (fst r) (snd r)" fst snd
    "\<lambda>s. bt_get (pa_buckets s)" pa_capacity pa_refill_per_second pa_inv pa_max_peers
proof (unfold_locales, goal_cases)
  case (3 s j r now)
  then have "evict_min TokenBucket_remaining (pa_max_peers s) (pa_buckets s) = pa_buckets s"
    if "bt_get (pa_buckets s) (fst r) = None"
    using that by (simp add: evict_min_def pa_inv_def bt_len_card)
  with 3 show ?case
    by (auto simp: admission_simps split: option.splits)
next
  case (4 s r now)
  then show ?case
    by (cases "bt_get (pa_buckets s) (fst r)")
      (simp_all add: admission_simps pa_inv_def evict_insert_twice_bound evict_insert_bound insert_present_len)
next
  case (8 s)
  then show ?case by (simp add: pa_inv_def bt_len_card [symmetric])
qed (auto simp: admission_simps split: option.splits)

interpretation ia: admission_table IpAdmission_allow "\<lambda>r. r" "\<lambda>_. 1"
    "\<lambda>s. bt_get (ia_buckets s)" ia_capacity ia_refill_per_second ia_inv ia_max_sources
proof (unfold_locales, goal_cases)
  case (3 s j r now)
  then have "evict_min TokenBucket_remaining (ia_max_sources s) (ia_buckets s) = ia_buckets s"
    if "bt_get (ia_buckets s) r = None"
    using that by (simp add: evict_min_def ia_inv_def bt_len_card)
  with 3 show ?case
    by (auto simp: admission_simps split: option.splits)
next
  case (4 s r now)
  then show ?case
    by (cases "bt_get (ia_buckets s) r")
      (simp_all add: admission_simps ia_inv_def evict_insert_twice_bound evict_insert_bound insert_present_len)
next
  case (8 s)
  then show ?case by (simp add: ia_inv_def bt_len_card [symmetric])
qed (auto simp: admission_simps split: option.splits)

section \<open>Properties of the tables\<close>

lemma pa_inv_new: "pa_inv (PeerAdmission_new n c r)"
  by (simp add: pa_inv_def PeerAdmission_new_def)

lemma ia_inv_new: "ia_inv (IpAdmission_new n c r)"
  by (simp add: ia_inv_def IpAdmission_new_def)

text \<open>Peer admission enforces the rate limit per peer: while the peers seen fit the table, the cost
  granted to any one peer between \<open>t0\<close> and \<open>T\<close> is at most the configured capacity plus the refill of
  that time, however the requests of all peers are interleaved.\<close>

theorem peer_admission_rate_bound:
  assumes "card (fst ` fst ` set requests) \<le> max max_peers 1"
    and "\<forall>q \<in> set requests. t0 \<le> unat (snd q) \<and> unat (snd q) \<le> T"
  shows "granted_to (\<lambda>s r. PeerAdmission_allow s (fst r) (snd r)) fst snd peer
           (PeerAdmission_new max_peers capacity refill) requests
         \<le> unat (max capacity 1) + unat (max refill 1) * (T - t0)"
proof -
  have "pa.key_potential t0 T (PeerAdmission_new max_peers capacity refill) peer
      = unat (max capacity 1) + unat (max refill 1) * (T - t0)"
    by (simp add: pa.key_potential_def PeerAdmission_new_def bt_get_def)
  then show ?thesis
    using pa.granted_to_bound [OF pa_inv_new, of max_peers capacity refill requests t0 T peer] assms
    by (simp add: PeerAdmission_new_def bt_dom)
qed

theorem peer_admission_rate_bound_witness:
  "granted_to (\<lambda>s r. PeerAdmission_allow s (fst r) (snd r)) fst snd [1]
     (PeerAdmission_new 4 3 1) [(([1], 2), 5), (([2], 1), 5), (([1], 3), 6)]
   \<le> unat (max 3 1 :: u64) + unat (max 1 1 :: u64) * (6 - 5)"
proof (rule peer_admission_rate_bound)
  show "card (fst ` fst ` set [(([1] :: bytes, 2 :: u64), 5 :: u64), (([2], 1), 5), (([1], 3), 6)]) \<le> max 4 1"
    by (simp add: card_insert_if)
qed simp

text \<open>The address table is bounded by its configured number of sources after any sequence of
  connection attempts.\<close>

theorem ip_admission_bounded:
  "IpAdmission_tracked_sources
     (fold (\<lambda>q s. snd (IpAdmission_allow s (fst q) (snd q))) attempts (IpAdmission_new max_sources c r))
   \<le> max max_sources 1"
proof -
  let ?f = "\<lambda>q s. snd (IpAdmission_allow s (fst q) (snd q))"
  have "ia_inv (fold ?f attempts s) \<and> ia_max_sources (fold ?f attempts s) = ia_max_sources s"
    if "ia_inv s" for s
    using that by (induction attempts arbitrary: s) (simp_all add: ia.inv_allow ia.config_allow)
  from this [OF ia_inv_new, of max_sources c r] show ?thesis
    by (simp add: ia_inv_def IpAdmission_tracked_sources_def IpAdmission_new_def)
qed

text \<open>Eviction resets the limit of the peer it should hold back. When the table is full and a peer
  has strictly fewer tokens left than every other, a request from any new peer evicts it, and its own
  next request is served from a full bucket, although no time has passed.\<close>

theorem peer_admission_eviction_resets:
  assumes "pa_inv s" "length (pa_buckets s) = pa_max_peers s" "1 < pa_max_peers s"
    and "bt_get (pa_buckets s) p = Some b"
    and "\<forall>j b'. bt_get (pa_buckets s) j = Some b' \<longrightarrow> j \<noteq> p \<longrightarrow> tb_tokens b < tb_tokens b'"
    and "bt_get (pa_buckets s) q = None" "cost \<le> pa_capacity s" "1 \<le> pa_capacity s"
  shows "bt_get (pa_buckets (snd (PeerAdmission_allow s q c now))) p = None
     \<and> fst (PeerAdmission_allow (snd (PeerAdmission_allow s q c now)) p cost now)"
proof -
  let ?s = "snd (PeerAdmission_allow s q c now)"
  have inv: "bt_inv (pa_buckets s)" using assms(1) by (simp add: pa_inv_def)
  obtain e where e: "min_by_key (\<lambda>e. TokenBucket_remaining (snd e)) (pa_buckets s) = Some e"
    using assms(2,3) by (cases "min_by_key (\<lambda>e. TokenBucket_remaining (snd e)) (pa_buckets s)") auto
  have "bt_get (pa_buckets s) (fst e) = Some (snd e)"
    using min_by_key_mem [OF e] bt_get_in [OF inv] by simp
  moreover have "tb_tokens (snd e) \<le> tb_tokens b"
    using min_by_key_le [OF e, of "(p, b)"] assms(4) bt_get_in [OF inv]
    by (simp add: TokenBucket_remaining_def)
  ultimately have "fst e = p"
    using assms(5) by (metis linorder_not_less)
  then have gone: "bt_get (pa_buckets ?s) p = None"
    using e assms(2,4,6) inv by (auto simp: admission_simps evict_min_def)
  have "fst (TokenBucket_allow (TokenBucket_new (pa_capacity s) (pa_refill_per_second s) now) cost now)"
    using assms(7,8)
    by (auto simp: TokenBucket_allow_def TokenBucket_new_def sat_sub_def Let_def max_def dest: leD)
  then show ?thesis
    using gone pa.allow_decides [of ?s "(p, cost)" now] pa.config_allow [of s "(q, c)" now] by simp
qed

theorem peer_admission_eviction_resets_witness:
  "\<exists>s. pa_inv s \<and> length (pa_buckets s) = pa_max_peers s
     \<and> \<not> fst (PeerAdmission_allow s [1] 1 7)
     \<and> fst (PeerAdmission_allow (snd (PeerAdmission_allow s [3] 1 7)) [1] 1 7)"
proof -
  let ?b = "\<lambda>n. \<lparr>tb_capacity = 2, tb_tokens = n, tb_refill_per_second = 1, tb_last_second = 7\<rparr>"
  let ?s = "\<lparr>pa_buckets = [([1], ?b 0), ([2], ?b 1)], pa_max_peers = 2, pa_capacity = 2,
             pa_refill_per_second = 1\<rparr>"
  have s: "pa_inv ?s" "length (pa_buckets ?s) = pa_max_peers ?s"
    by (simp_all add: pa_inv_def bt_inv_def)
  have "fst (PeerAdmission_allow (snd (PeerAdmission_allow ?s [3] 1 7)) [1] 1 7)"
    using peer_admission_eviction_resets [OF s, of "[1]" "?b 0" "[3]" 1 1 7]
    by (auto simp: bt_get_def split: if_splits)
  moreover have "\<not> fst (PeerAdmission_allow ?s [1] 1 7)"
    by (simp add: admission_simps TokenBucket_allow_def sat_sub_def bt_get_def)
  ultimately show ?thesis
    using s by (intro exI [of _ ?s]) simp
qed

end
