(* ===== verification/Onebank.thy ===== *)
theory Onebank
  imports Onecoin_Once
begin

text \<open>
  \<^verbatim>\<open>core/src/onebank.rs\<close> and \<^verbatim>\<open>core/src/onecoin_wallet.rs\<close>: contribution tiers, rewards and fees of the
  bank policy, signed exchange offers and orders, and the local wallet. The lemmas show that more
  resources never lower a tier, how fee and net amount add up, what an order costs, and that the
  ledger accepts the transfers the wallet builds.
\<close>

section \<open>Tiers and contributions\<close>

definition MAX_FEE_BPS :: u64 where
  "MAX_FEE_BPS = 500"

datatype UserTier = Free | Basic | NetPlus | NetPro | NetUltra | Pro | DataGroup | CentreGroup | AwenetUser

fun tier_rank :: "UserTier \<Rightarrow> nat" where
  "tier_rank Free = 0"
| "tier_rank Basic = 1"
| "tier_rank NetPlus = 2"
| "tier_rank NetPro = 3"
| "tier_rank NetUltra = 4"
| "tier_rank Pro = 5"
| "tier_rank DataGroup = 6"
| "tier_rank CentreGroup = 7"
| "tier_rank AwenetUser = 8"

lemma tier_rank_inject: "tier_rank a = tier_rank b \<longleftrightarrow> a = b"
  by (cases a; cases b) simp_all

instantiation UserTier :: linorder
begin

definition less_eq_UserTier :: "UserTier \<Rightarrow> UserTier \<Rightarrow> bool" where
  "less_eq_UserTier a b \<longleftrightarrow> tier_rank a \<le> tier_rank b"

definition less_UserTier :: "UserTier \<Rightarrow> UserTier \<Rightarrow> bool" where
  "less_UserTier a b \<longleftrightarrow> tier_rank a < tier_rank b"

instance
  by standard (auto simp: less_eq_UserTier_def less_UserTier_def tier_rank_inject)

end

fun UserTier_wire_name :: "UserTier \<Rightarrow> string" where
  "UserTier_wire_name Free = ''FREE''"
| "UserTier_wire_name Basic = ''BASIC''"
| "UserTier_wire_name NetPlus = ''NET+''"
| "UserTier_wire_name NetPro = ''NET PRO''"
| "UserTier_wire_name NetUltra = ''NET ULTRA''"
| "UserTier_wire_name Pro = ''PRO''"
| "UserTier_wire_name DataGroup = ''DATA GROUP''"
| "UserTier_wire_name CentreGroup = ''CENTRE GROUP''"
| "UserTier_wire_name AwenetUser = ''AWENET USER''"

record ResourceContribution =
  rc_storage_bytes :: u64
  rc_cpu_cores :: u32
  rc_ram_bytes :: u64
  rc_gpu_units :: u32
  rc_bandwidth_bytes :: u64
  rc_online_hours :: u16
  rc_node_count :: u32
  rc_server_count :: u32
  rc_uptime_bps :: u16
  rc_utilization_bps :: u16

definition ResourceContribution_validate :: "ResourceContribution \<Rightarrow> unit result" where
  "ResourceContribution_validate self =
     (if rc_online_hours self > 24 \<or> rc_uptime_bps self > 10000 \<or> rc_utilization_bps self > 10000
      then Err ''invalid resource contribution bounds'' else Ok ())"

definition ResourceContribution_score :: "ResourceContribution \<Rightarrow> u128" where
  "ResourceContribution_score self =
     (let s = ucast (rc_storage_bytes self) div (1024 * 1024);
          s = sat_add s (sat_mul (ucast (rc_ram_bytes self) div (1024 * 1024)) 4);
          s = sat_add s (sat_mul (ucast (rc_cpu_cores self)) 1024);
          s = sat_add s (sat_mul (ucast (rc_gpu_units self)) 16384);
          s = sat_add s (ucast (rc_bandwidth_bytes self) div (1024 * 1024));
          s = sat_add s (sat_mul (ucast (rc_node_count self)) 10000)
      in sat_add s (sat_mul (ucast (rc_server_count self)) 20000))"

record TierBenefits =
  tb_tier :: UserTier
  tb_bonus_storage_bytes :: u64
  tb_vps_cpu :: u32
  tb_vps_ram_bytes :: u64
  tb_vps_24_7 :: bool
  tb_node_server_management :: bool
  tb_data_centre_management :: bool
  tb_data_group_management :: bool
  tb_centre_group_management :: bool
  tb_minimum_monthly_atoms :: u128

definition TierBenefits_for_tier :: "UserTier \<Rightarrow> ResourceContribution \<Rightarrow> TierBenefits" where
  "TierBenefits_for_tier tier contribution =
     (let gb = 1024 * 1024 * 1024;
          make = (\<lambda>storage cpu ram always node centre data_group centre_group atoms.
            \<lparr>tb_tier = tier, tb_bonus_storage_bytes = storage, tb_vps_cpu = cpu, tb_vps_ram_bytes = ram,
             tb_vps_24_7 = always, tb_node_server_management = node, tb_data_centre_management = centre,
             tb_data_group_management = data_group, tb_centre_group_management = centre_group,
             tb_minimum_monthly_atoms = atoms\<rparr>);
          own = rc_storage_bytes contribution; ram = rc_ram_bytes contribution
      in case tier of
           Free \<Rightarrow> make (20 * gb) 1 gb False False False False False 0
         | Basic \<Rightarrow> make (20 * gb) 2 (4 * gb) True False False False False (10 * ATOMS_PER_COIN)
         | NetPlus \<Rightarrow> make (30 * gb) 2 (8 * gb) True True False False False (40 * ATOMS_PER_COIN)
         | NetPro \<Rightarrow> make own 0 ram True True False False False 0
         | NetUltra \<Rightarrow> make own 0 ram True True True False False 0
         | Pro \<Rightarrow> make own 0 ram True True True True False 0
         | DataGroup \<Rightarrow> make own 0 ram True True True True False 0
         | CentreGroup \<Rightarrow> make own 0 ram True True True True True 0
         | AwenetUser \<Rightarrow> make 0 0 0 True True True True True 0)"

definition classify_tier :: "ResourceContribution \<Rightarrow> UserTier" where
  "classify_tier r =
     (if rc_server_count r \<ge> 1000000 then CentreGroup
      else if rc_server_count r \<ge> 100000 then DataGroup
      else if rc_server_count r \<ge> 100 then Pro
      else if rc_node_count r \<ge> 2 \<or> rc_server_count r \<ge> 2 then NetUltra
      else if rc_storage_bytes r \<ge> 1000000000000 \<and> rc_cpu_cores r \<ge> 8
              \<and> rc_ram_bytes r \<ge> 16 * 1024 * 1024 * 1024 \<and> rc_gpu_units r \<ge> 1 then NetPro
      else if rc_storage_bytes r \<ge> 100 * 1024 * 1024 * 1024 \<and> rc_cpu_cores r \<ge> 4
              \<and> rc_ram_bytes r \<ge> 8 * 1024 * 1024 * 1024 \<and> rc_bandwidth_bytes r \<ge> 1000000000000 then NetPlus
      else if rc_storage_bytes r > 0 \<or> rc_cpu_cores r > 0 \<or> rc_ram_bytes r > 0 \<or> rc_gpu_units r > 0
              \<or> rc_bandwidth_bytes r > 0 \<or> rc_online_hours r > 0 \<or> rc_node_count r > 0
              \<or> rc_server_count r > 0 \<or> rc_uptime_bps r > 0 \<or> rc_utilization_bps r > 0 then Basic
      else Free)"

section \<open>Policy\<close>

record RewardPolicy =
  rwp_base_basic_atoms :: u128
  rwp_base_net_plus_atoms :: u128
  rwp_atoms_per_score :: u128
  rwp_usage_multiplier_bps :: u64

definition RewardPolicy_default :: RewardPolicy where
  "RewardPolicy_default =
     \<lparr>rwp_base_basic_atoms = 10 * ATOMS_PER_COIN, rwp_base_net_plus_atoms = 45 * ATOMS_PER_COIN,
      rwp_atoms_per_score = 1000000, rwp_usage_multiplier_bps = 10000\<rparr>"

definition RewardPolicy_monthly_minimum :: "RewardPolicy \<Rightarrow> UserTier \<Rightarrow> u128" where
  "RewardPolicy_monthly_minimum self tier =
     (case tier of Basic \<Rightarrow> rwp_base_basic_atoms self | NetPlus \<Rightarrow> rwp_base_net_plus_atoms self | _ \<Rightarrow> 0)"

definition RewardPolicy_reward :: "RewardPolicy \<Rightarrow> UserTier \<Rightarrow> ResourceContribution \<Rightarrow> u16 \<Rightarrow> u128" where
  "RewardPolicy_reward self tier contribution usage_bps =
     (let minimum = RewardPolicy_monthly_minimum self tier;
          score_reward = sat_mul (ResourceContribution_score contribution) (rwp_atoms_per_score self);
          usage = sat_mul score_reward (ucast usage_bps) div 10000
      in sat_add minimum (sat_mul usage (ucast (rwp_usage_multiplier_bps self)) div 10000))"

record OnebankPolicy =
  op_fee_bps :: u16
  op_awenet_user_public_key :: bytes
  op_reward_policy :: RewardPolicy
  op_fiat_reference :: "(string, u64) btree_map"

definition OnebankPolicy_new :: "bytes \<Rightarrow> OnebankPolicy" where
  "OnebankPolicy_new awenet_user_public_key =
     \<lparr>op_fee_bps = 100, op_awenet_user_public_key = awenet_user_public_key,
      op_reward_policy = RewardPolicy_default, op_fiat_reference = [(''USD'', 100)]\<rparr>"

definition OnebankPolicy_set_fee :: "OnebankPolicy \<Rightarrow> u16 \<Rightarrow> unit result \<times> OnebankPolicy" where
  "OnebankPolicy_set_fee self bps =
     (if ucast bps > MAX_FEE_BPS then (Err ''ONEBANK fee cannot exceed 5%'', self)
      else (Ok (), self\<lparr>op_fee_bps := bps\<rparr>))"

definition OnebankPolicy_fee_atoms :: "OnebankPolicy \<Rightarrow> u128 \<Rightarrow> u128" where
  "OnebankPolicy_fee_atoms self amount_atoms = sat_mul amount_atoms (ucast (op_fee_bps self)) div 10000"

definition OnebankPolicy_net_after_fee :: "OnebankPolicy \<Rightarrow> u128 \<Rightarrow> u128" where
  "OnebankPolicy_net_after_fee self amount_atoms = sat_sub amount_atoms (OnebankPolicy_fee_atoms self amount_atoms)"

record WalletBalance =
  wb_awe_id :: AweId
  wb_available_atoms :: u128
  wb_spendable_coins :: u128

definition WalletBalance_from_ledger :: "'a prims_scheme \<Rightarrow> OnecoinLedger \<Rightarrow> AweId \<Rightarrow> WalletBalance" where
  "WalletBalance_from_ledger P ledger awe_id =
     (let atoms = balance_atoms P ledger awe_id in
      \<lparr>wb_awe_id = awe_id, wb_available_atoms = atoms, wb_spendable_coins = atoms div ATOMS_PER_COIN\<rparr>)"

definition WalletBalance_amount :: "WalletBalance \<Rightarrow> OnecoinAmount" where
  "WalletBalance_amount self = OnecoinAmount (wb_available_atoms self)"

section \<open>Offers and orders\<close>

datatype FiatRail = ExternalPayment | BankTransfer | Cash | Other string

datatype ExchangeSide = Buy | Sell

record P2POffer =
  of_id :: bytes
  of_owner :: AweId
  of_side :: ExchangeSide
  of_amount_atoms :: u128
  of_price_minor_per_coin :: u64
  of_fiat_currency :: string
  of_rail :: FiatRail
  of_payment_reference :: "string option"
  of_expires_at_unix :: u64
  of_signature :: bytes

record bank_prims = coin_prims +
  offer_json :: "P2POffer \<Rightarrow> bytes"
  order_json :: "bytes \<times> AweId \<times> AweId \<times> u128 \<times> u64 \<Rightarrow> bytes"

definition offer_signing_bytes :: "'a bank_prims_scheme \<Rightarrow> P2POffer \<Rightarrow> bytes" where
  "offer_signing_bytes P self = offer_json P (self\<lparr>of_signature := zero_sig\<rparr>)"

definition P2POffer_new ::
  "'a bank_prims_scheme \<Rightarrow> Identity \<Rightarrow> ExchangeSide \<Rightarrow> u128 \<Rightarrow> u64 \<Rightarrow> string \<Rightarrow> FiatRail \<Rightarrow> string option
     \<Rightarrow> u64 \<Rightarrow> P2POffer result" where
  "P2POffer_new P owner side amount_atoms price_minor_per_coin fiat_currency rail payment_reference expires_at_unix =
     (if amount_atoms = 0 \<or> price_minor_per_coin = 0 then Err ''amount and price must be positive''
      else
        let offer = \<lparr>of_id = replicate 32 0, of_owner = ip_awe_id (id_public owner), of_side = side,
                     of_amount_atoms = amount_atoms, of_price_minor_per_coin = price_minor_per_coin,
                     of_fiat_currency = fiat_currency, of_rail = rail, of_payment_reference = payment_reference,
                     of_expires_at_unix = expires_at_unix, of_signature = zero_sig\<rparr>;
            offer = offer\<lparr>of_id := blake3 P (offer_json P offer)\<rparr>
        in Ok (offer\<lparr>of_signature := Identity_sign P owner (offer_signing_bytes P offer)\<rparr>))"

definition P2POffer_verify :: "'a bank_prims_scheme \<Rightarrow> P2POffer \<Rightarrow> bytes \<Rightarrow> u64 \<Rightarrow> bool" where
  "P2POffer_verify P self owner_public_key now_unix =
     (of_expires_at_unix self \<ge> now_unix
      \<and> aweid_bytes (of_owner self) = aweid_bytes (AweId_from_public_key P owner_public_key)
      \<and> Identity_verify P owner_public_key (offer_signing_bytes P self) (of_signature self))"

record ExchangeOrder =
  eo_id :: bytes
  eo_offer_id :: bytes
  eo_buyer :: AweId
  eo_seller :: AweId
  eo_amount_atoms :: u128
  eo_fiat_minor :: u128
  eo_onebank_fee_atoms :: u128
  eo_fiat_currency :: string
  eo_rail :: FiatRail
  eo_created_at_unix :: u64

definition ExchangeOrder_from_offer ::
  "'a bank_prims_scheme \<Rightarrow> P2POffer \<Rightarrow> AweId \<Rightarrow> AweId \<Rightarrow> u128 \<Rightarrow> u16 \<Rightarrow> u64 \<Rightarrow> ExchangeOrder result" where
  "ExchangeOrder_from_offer P offer buyer seller amount_atoms fee_bps now_unix =
     (if amount_atoms = 0 \<or> amount_atoms > of_amount_atoms offer then Err ''invalid order amount''
      else
        let coins = amount_atoms div ATOMS_PER_COIN;
            fiat_minor = sat_mul coins (ucast (of_price_minor_per_coin offer));
            fee = sat_mul amount_atoms (ucast fee_bps) div 10000
        in Ok \<lparr>eo_id = blake3 P (order_json P (of_id offer, buyer, seller, amount_atoms, now_unix)),
               eo_offer_id = of_id offer, eo_buyer = buyer, eo_seller = seller,
               eo_amount_atoms = amount_atoms, eo_fiat_minor = fiat_minor, eo_onebank_fee_atoms = fee,
               eo_fiat_currency = of_fiat_currency offer, eo_rail = of_rail offer,
               eo_created_at_unix = now_unix\<rparr>)"

section \<open>The wallet\<close>

record WalletState =
  ws_owner :: "AweId option"
  ws_last_seen_nonce :: u64
  ws_transaction_ids :: "bytes list"

record WalletSnapshot =
  sn_owner :: AweId
  sn_balance_atoms :: u128
  sn_balance_coins :: u128
  sn_nonce :: u64
  sn_tier :: UserTier
  sn_transactions :: "bytes list"

datatype OnecoinWallet = OnecoinWallet (wallet_state: WalletState)

definition OnecoinWallet_open :: "AweId \<Rightarrow> OnecoinWallet" where
  "OnecoinWallet_open owner =
     OnecoinWallet \<lparr>ws_owner = Some owner, ws_last_seen_nonce = 0, ws_transaction_ids = []\<rparr>"

definition OnecoinWallet_snapshot ::
  "'a prims_scheme \<Rightarrow> OnecoinWallet \<Rightarrow> OnecoinLedger \<Rightarrow> UserTier \<Rightarrow> WalletSnapshot result" where
  "OnecoinWallet_snapshot P self ledger tier =
     (case ws_owner (wallet_state self) of
        None \<Rightarrow> Err ''wallet is not initialized''
      | Some owner \<Rightarrow>
          let balance = WalletBalance_from_ledger P ledger owner in
          Ok \<lparr>sn_owner = owner, sn_balance_atoms = wb_available_atoms balance,
              sn_balance_coins = wb_available_atoms balance div ATOMS_PER_COIN,
              sn_nonce = bt_get_or (l_nonces ledger) (AweId_to_hex P (wb_awe_id balance)) 0,
              sn_tier = tier, sn_transactions = ws_transaction_ids (wallet_state self)\<rparr>)"

definition OnecoinWallet_build_transfer ::
  "'a coin_prims_scheme \<Rightarrow> OnecoinWallet \<Rightarrow> Identity \<Rightarrow> OnecoinLedger \<Rightarrow> AweId \<Rightarrow> u128 \<Rightarrow> string option
     \<Rightarrow> OnecoinTransaction result \<times> OnecoinWallet" where
  "OnecoinWallet_build_transfer P self identity ledger recipient amount_atoms memo =
     (case ws_owner (wallet_state self) of
        None \<Rightarrow> (Err ''wallet is not initialized'', self)
      | Some owner \<Rightarrow>
          if owner \<noteq> ip_awe_id (id_public identity) then (Err ''wallet owner does not match identity'', self)
          else if amount_atoms = 0 then (Err ''transfer amount must be positive'', self)
          else if balance_atoms P ledger owner < amount_atoms then (Err ''insufficient ONECOIN balance'', self)
          else
            let nonce = bt_get_or (l_nonces ledger) (AweId_to_hex P owner) 0;
                tx = OnecoinTransaction_new P identity nonce recipient amount_atoms memo
            in (Ok tx, OnecoinWallet ((wallet_state self)\<lparr>ws_last_seen_nonce := nonce,
                  ws_transaction_ids := ws_transaction_ids (wallet_state self) @ [tx_id P tx]\<rparr>)))"

definition OnecoinWallet_build_coin_transfer ::
  "'a coin_prims_scheme \<Rightarrow> OnecoinWallet \<Rightarrow> Identity \<Rightarrow> OnecoinLedger \<Rightarrow> AweId \<Rightarrow> u128 \<Rightarrow> string option
     \<Rightarrow> OnecoinTransaction result \<times> OnecoinWallet" where
  "OnecoinWallet_build_coin_transfer P self identity ledger recipient coins memo =
     OnecoinWallet_build_transfer P self identity ledger recipient (sat_mul coins ATOMS_PER_COIN) memo"

definition OnecoinWallet_apply ::
  "'a coin_prims_scheme \<Rightarrow> OnecoinWallet \<Rightarrow> OnecoinLedger \<Rightarrow> OnecoinTransaction \<Rightarrow> Identity
     \<Rightarrow> bytes result \<times> OnecoinWallet \<times> OnecoinLedger" where
  "OnecoinWallet_apply P self ledger tx identity =
     (case apply_transfer P ledger tx (ip_public_key (id_public identity)) of
        (Inl e, ledger) \<Rightarrow> (Inl e, self, ledger)
      | (Inr i, ledger) \<Rightarrow>
          let ids = ws_transaction_ids (wallet_state self);
              ids = (if i \<notin> set ids then ids @ [i] else ids)
          in (Ok i, OnecoinWallet ((wallet_state self)\<lparr>ws_transaction_ids := ids,
                ws_last_seen_nonce :=
                  bt_get_or (l_nonces ledger) (AweId_to_hex P (ip_awe_id (id_public identity))) 0\<rparr>), ledger))"

definition OnecoinWallet_verify_exchange_offer ::
  "'a bank_prims_scheme \<Rightarrow> OnecoinWallet \<Rightarrow> P2POffer \<Rightarrow> bytes \<Rightarrow> u64 \<Rightarrow> bool" where
  "OnecoinWallet_verify_exchange_offer P self offer owner_public_key now_unix =
     P2POffer_verify P offer owner_public_key now_unix"

definition OnecoinWallet_create_exchange_order ::
  "'a bank_prims_scheme \<Rightarrow> OnecoinWallet \<Rightarrow> P2POffer \<Rightarrow> AweId \<Rightarrow> AweId \<Rightarrow> u128 \<Rightarrow> u16 \<Rightarrow> u64
     \<Rightarrow> ExchangeOrder result" where
  "OnecoinWallet_create_exchange_order P self offer buyer seller amount_atoms fee_bps now_unix =
     ExchangeOrder_from_offer P offer buyer seller amount_atoms fee_bps now_unix"


section \<open>Tiers\<close>

definition contributes_at_most :: "ResourceContribution \<Rightarrow> ResourceContribution \<Rightarrow> bool" where
  "contributes_at_most r s \<longleftrightarrow>
     rc_storage_bytes r \<le> rc_storage_bytes s \<and> rc_cpu_cores r \<le> rc_cpu_cores s \<and> rc_ram_bytes r \<le> rc_ram_bytes s
     \<and> rc_gpu_units r \<le> rc_gpu_units s \<and> rc_bandwidth_bytes r \<le> rc_bandwidth_bytes s
     \<and> rc_online_hours r \<le> rc_online_hours s \<and> rc_node_count r \<le> rc_node_count s
     \<and> rc_server_count r \<le> rc_server_count s \<and> rc_uptime_bps r \<le> rc_uptime_bps s
     \<and> rc_utilization_bps r \<le> rc_utilization_bps s"

text \<open>The chain of tests as one function of its seven conditions, and its monotonicity.\<close>

definition tier_of_conditions :: "bool \<Rightarrow> bool \<Rightarrow> bool \<Rightarrow> bool \<Rightarrow> bool \<Rightarrow> bool \<Rightarrow> bool \<Rightarrow> UserTier" where
  "tier_of_conditions a b c d e f g =
     (if a then CentreGroup else if b then DataGroup else if c then Pro else if d then NetUltra
      else if e then NetPro else if f then NetPlus else if g then Basic else Free)"

lemma tier_of_conditions_mono:
  "(a \<longrightarrow> a') \<Longrightarrow> (b \<longrightarrow> b') \<Longrightarrow> (c \<longrightarrow> c') \<Longrightarrow> (d \<longrightarrow> d') \<Longrightarrow> (e \<longrightarrow> e') \<Longrightarrow> (f \<longrightarrow> f') \<Longrightarrow> (g \<longrightarrow> g') \<Longrightarrow>
     tier_of_conditions a b c d e f g \<le> tier_of_conditions a' b' c' d' e' f' g'"
  by (simp add: tier_of_conditions_def less_eq_UserTier_def)

text \<open>Contributing more never lowers a user's tier: if every resource of one contribution is at
  least that of another, its tier is at least as high.\<close>

theorem classify_tier_monotone:
  assumes "contributes_at_most r s"
  shows "classify_tier r \<le> classify_tier s"
proof -
  note le = assms [unfolded contributes_at_most_def]
  show ?thesis
    unfolding classify_tier_def
    by (rule tier_of_conditions_mono [unfolded tier_of_conditions_def]) (use le in \<open>auto intro: order_trans less_le_trans\<close>)
qed

theorem classify_tier_monotone_witness:
  "classify_tier \<lparr>rc_storage_bytes = 1, rc_cpu_cores = 0, rc_ram_bytes = 0, rc_gpu_units = 0, rc_bandwidth_bytes = 0,
      rc_online_hours = 0, rc_node_count = 0, rc_server_count = 0, rc_uptime_bps = 0, rc_utilization_bps = 0\<rparr>
   \<le> classify_tier \<lparr>rc_storage_bytes = 1, rc_cpu_cores = 0, rc_ram_bytes = 0, rc_gpu_units = 0, rc_bandwidth_bytes = 0,
      rc_online_hours = 0, rc_node_count = 0, rc_server_count = 100, rc_uptime_bps = 0, rc_utilization_bps = 0\<rparr>"
  by (rule classify_tier_monotone) (simp add: contributes_at_most_def)

section \<open>Orders\<close>

text \<open>The price of an exchange order counts whole coins only: the fiat amount is the price times
  the floor of the amount in coins (for orders below \<open>2^64\<close> coins), so an order for less than one coin costs nothing whatever the price
  per coin; the bank's fee is the floor of the amount times the rate, with no upper bound on the rate.\<close>

theorem exchange_order_price:
  assumes "ExchangeOrder_from_offer P offer buyer seller amount fee_bps now = Ok order" "unat amount < 2 ^ 64 * 10 ^ 18"
  shows "unat (eo_fiat_minor order) = (unat amount div 10 ^ 18) * unat (of_price_minor_per_coin offer)
    \<and> (unat amount < 10 ^ 18 \<longrightarrow> eo_fiat_minor order = 0)
    \<and> (unat amount * unat fee_bps < 2 ^ 128 \<longrightarrow> unat (eo_onebank_fee_atoms order) = unat amount * unat fee_bps div 10000)
    \<and> 0 < unat amount \<and> unat amount \<le> unat (of_amount_atoms offer)"
proof -
  have order: "eo_fiat_minor order = sat_mul (amount div ATOMS_PER_COIN) (ucast (of_price_minor_per_coin offer))"
    "eo_onebank_fee_atoms order = sat_mul amount (ucast fee_bps) div 10000"
    and ok: "amount \<noteq> 0" "amount \<le> of_amount_atoms offer"
    using assms(1) by (auto simp: ExchangeOrder_from_offer_def Let_def split: if_splits)
  let ?c = "unat amount div 10 ^ 18" and ?p = "unat (of_price_minor_per_coin offer)"
  have coins: "unat (amount div ATOMS_PER_COIN) = ?c"
    by (simp add: unat_div ATOMS_PER_COIN_def)
  have "?c < 2 ^ 64"
    using assms(2) by (intro div_less_iff_less_mult [THEN iffD2]) simp_all
  moreover have "?p < 2 ^ 64"
    using unat_less_pow [of "of_price_minor_per_coin offer"] by simp
  ultimately have "?c * ?p < 2 ^ 64 * 2 ^ 64"
    by (intro mult_strict_mono) simp_all
  then have fiat: "unat (eo_fiat_minor order) = ?c * ?p"
    unfolding order by (simp add: unat_sat_mul coins unat_ucast_up)
  moreover have "eo_fiat_minor order = 0" if "unat amount < 10 ^ 18"
    using that fiat by (simp add: unat_eq_zero [symmetric] del: unat_eq_zero)
  moreover have "unat (eo_onebank_fee_atoms order) = unat amount * unat fee_bps div 10000"
    if "unat amount * unat fee_bps < 2 ^ 128"
    unfolding order using that by (simp add: unat_div unat_sat_mul unat_ucast_up)
  ultimately show ?thesis
    using ok by (simp add: unat_gt_0 word_le_nat_alt)
qed


definition demo_bank :: bank_prims where
  "demo_bank = coin_prims.extend demo_coin
     \<lparr>offer_json = (\<lambda>f. of_signature f @ of_id f), order_json = (\<lambda>(i, b, s, a, t). i @ to_be_bytes_u64 t)\<rparr>"

definition demo_offer :: P2POffer where
  "demo_offer = \<lparr>of_id = [1], of_owner = AweId [1], of_side = Sell, of_amount_atoms = 1000, of_price_minor_per_coin = 500,
     of_fiat_currency = ''USD'', of_rail = Cash, of_payment_reference = None, of_expires_at_unix = 10, of_signature = []\<rparr>"

theorem exchange_order_price_witness:
  "\<exists>order. ExchangeOrder_from_offer demo_bank demo_offer (AweId [2]) (AweId [1]) 1000 100 5 = Ok order
     \<and> eo_fiat_minor order = 0 \<and> unat (eo_onebank_fee_atoms order) = 10"
proof -
  obtain order where run: "ExchangeOrder_from_offer demo_bank demo_offer (AweId [2]) (AweId [1]) 1000 100 5 = Ok order"
    by (simp add: ExchangeOrder_from_offer_def demo_offer_def Let_def)
  from exchange_order_price [OF run] run show ?thesis
    by simp
qed

section \<open>Wallet and ledger\<close>

lemma tx_new_verifies:
  assumes "ed_correct P" "identity_wf P i" "a \<noteq> 0"
    "case memo of None \<Rightarrow> True | Some m \<Rightarrow> length m \<le> MAX_TRANSACTION_MEMO"
  shows "tx_verify P (OnecoinTransaction_new P i n r a memo) (ip_public_key (id_public i))"
proof -
  let ?u = "\<lparr>tx_version = 1, tx_nonce = n, tx_sender = ip_public_key (id_public i), tx_recipient = aweid_bytes r,
             tx_amount_atoms = a, tx_memo = memo, tx_signature = zero_sig\<rparr>"
  have "tx_signing_bytes P (OnecoinTransaction_new P i n r a memo) = tx_signing_bytes P ?u"
    by (simp add: tx_signing_bytes_def OnecoinTransaction_new_def Let_def)
  moreover have "ed_verify P (ip_public_key (id_public i)) (tx_signing_bytes P ?u) (Identity_sign P i (tx_signing_bytes P ?u))"
    "ed_key_ok P (ip_public_key (id_public i))"
    using assms(1,2) by (simp_all add: ed_correct_def identity_wf_def Identity_sign_def)
  ultimately show ?thesis
    using assms(3,4) by (simp add: tx_verify_def OnecoinTransaction_new_def Let_def split: option.splits)
qed

lemma tx_new_fields [simp]:
  "tx_nonce (OnecoinTransaction_new P i n r a memo) = n" "tx_sender (OnecoinTransaction_new P i n r a memo) = ip_public_key (id_public i)"
  "tx_recipient (OnecoinTransaction_new P i n r a memo) = aweid_bytes r" "tx_amount_atoms (OnecoinTransaction_new P i n r a memo) = a"
  by (simp_all add: OnecoinTransaction_new_def Let_def)

text \<open>What the wallet builds, the ledger takes: a transfer built by the wallet of a member, for a
  member recipient and with a memo of legal length, is accepted by the ledger when it is applied next;
  the ledger then holds the transferred state and the wallet remembers the transaction once and knows
  the next nonce.\<close>

theorem wallet_transfer_accepted:
  assumes "ed_correct P" "identity_wf P i" "case memo of None \<Rightarrow> True | Some m \<Rightarrow> length m \<le> MAX_TRANSACTION_MEMO"
    and "bt_contains (l_members l) (AweId_to_hex P (ip_awe_id (id_public i)))" "bt_contains (l_members l) (AweId_to_hex P r)"
    and "OnecoinWallet_build_transfer P w i l r a memo = (Ok tx, w')"
    and "OnecoinWallet_apply P w' l tx i = (res, w'', l')"
  shows "res = Ok (tx_id P tx) \<and> apply_transfer P l tx (ip_public_key (id_public i)) = (res, l')
    \<and> tx_recipient tx = aweid_bytes r \<and> tx_amount_atoms tx = a
    \<and> tx_id P tx \<in> set (ws_transaction_ids (wallet_state w''))
    \<and> ws_transaction_ids (wallet_state w'') = ws_transaction_ids (wallet_state w')
    \<and> ws_last_seen_nonce (wallet_state w'') = tx_nonce tx + 1"
proof -
  let ?pk = "ip_public_key (id_public i)" and ?k = "AweId_to_hex P (ip_awe_id (id_public i))"
  let ?n = "bt_get_or (l_nonces l) ?k 0"
  have tx: "tx = OnecoinTransaction_new P i ?n r a memo" and a: "a \<noteq> 0" "a \<le> bt_get_or (l_balances l) ?k 0"
    and w': "tx_id P tx \<in> set (ws_transaction_ids (wallet_state w'))"
    using assms(6) by (auto simp: OnecoinWallet_build_transfer_def balance_atoms_def AweId_to_hex_def Let_def not_less
        split: option.splits if_splits)
  have key: "sender_key_of P ?pk = ?k"
    using assms(2) by (simp add: sender_key_of_def identity_wf_def)
  have ready: "transfer_ready P l tx ?pk (tx_amount_atoms tx)"
    using assms(4,5) a tx_new_verifies [OF assms(1,2) a(1) assms(3)]
    by (simp add: transfer_ready_def key tx recipient_key_of_def AweId_to_hex_def)
  note run = apply_transfer_cases(1) [OF ready]
  have "bt_get_or (l_nonces (transferred P l tx ?pk (tx_amount_atoms tx))) ?k 0 = tx_nonce tx + 1"
    by (simp add: transferred_def key)
  then show ?thesis
    using assms(7) run w' by (auto simp: OnecoinWallet_apply_def Let_def tx)
qed

theorem wallet_transfer_accepted_witness:
  "\<exists>tx w w2 l'. OnecoinWallet_build_transfer demo_coin (OnecoinWallet_open (AweId (replicate 32 1)))
       (Identity_from_signing_key demo_coin (Username ''a'') (replicate 32 1)) demo_ledger (AweId (replicate 32 2)) 5 None = (Ok tx, w)
     \<and> OnecoinWallet_apply demo_coin w demo_ledger tx (Identity_from_signing_key demo_coin (Username ''a'') (replicate 32 1))
         = (Ok (tx_id demo_coin tx), w2, l')"
proof -
  let ?i = "Identity_from_signing_key demo_coin (Username ''a'') (replicate 32 1)"
  let ?b = "OnecoinWallet_build_transfer demo_coin (OnecoinWallet_open (AweId (replicate 32 1))) ?i demo_ledger (AweId (replicate 32 2)) 5 None"
  have id: "ip_awe_id (id_public ?i) = AweId (replicate 32 1)" and wf: "identity_wf demo_coin ?i"
    by (simp_all add: Identity_from_signing_key_def Let_def demo_aweid identity_wf_def)
  have ed: "ed_correct demo_coin"
    by (simp add: ed_correct_def)
  obtain tx w where build: "?b = (Ok tx, w)"
    by (simp add: OnecoinWallet_build_transfer_def OnecoinWallet_open_def id balance_atoms_def demo_ledger_def
        bt_get_or_def bt_get_def ATOMS_PER_COIN_def Let_def)
  obtain res w2 l' where app: "OnecoinWallet_apply demo_coin w demo_ledger tx ?i = (res, w2, l')"
    by (cases "OnecoinWallet_apply demo_coin w demo_ledger tx ?i")
  have m: "bt_contains (l_members demo_ledger) (AweId_to_hex demo_coin (ip_awe_id (id_public ?i)))"
    "bt_contains (l_members demo_ledger) (AweId_to_hex demo_coin (AweId (replicate 32 2)))"
    by (simp_all add: id demo_ledger_def AweId_to_hex_def bt_contains_def bt_get_def)
  from wallet_transfer_accepted [OF ed wf _ m build app] build app show ?thesis
    by auto
qed

end
