(* ===== verification/Payment.thy ===== *)
theory Payment
  imports Onebank Consensus
begin

text \<open>
  \<^verbatim>\<open>core/src/onecoin_payment.rs\<close> and \<^verbatim>\<open>core/src/onecoin_governance.rs\<close>: signed payment requests settled
  against the ledger, and the member vote that lowers the price floor. The vote uses the quorum
  interface of \<open>Consensus\<close>. The lemmas show what a settled payment moved, that settling needs an
  identifier that is its own hash, and that the floor is lowered only with a quorum of signed votes.
\<close>

section \<open>Payment requests\<close>

definition PAYMENT_VERSION :: u16 where
  "PAYMENT_VERSION = 1"
definition MAX_MEMO :: nat where
  "MAX_MEMO = 256"

record OnecoinPaymentRequest =
  pr_version :: u16
  pr_invoice_id :: bytes
  pr_seller :: AweId
  pr_buyer :: AweId
  pr_resource_id :: bytes
  pr_amount_atoms :: u128
  pr_expires_at_unix :: u64
  pr_memo :: "string option"
  pr_signature :: bytes

record SignedFloorVote =
  fv_proposal_id :: bytes
  fv_voter :: AweId
  fv_approve :: bool
  fv_signature :: bytes

record pay_prims = coin_prims +
  payment_json :: "OnecoinPaymentRequest \<Rightarrow> bytes"
  floor_vote_json :: "SignedFloorVote \<Rightarrow> bytes"

definition payment_signing_bytes :: "'a pay_prims_scheme \<Rightarrow> OnecoinPaymentRequest \<Rightarrow> bytes" where
  "payment_signing_bytes P self = payment_json P (self\<lparr>pr_signature := zero_sig\<rparr>)"

definition OnecoinPaymentRequest_new ::
  "'a pay_prims_scheme \<Rightarrow> Identity \<Rightarrow> bytes \<Rightarrow> AweId \<Rightarrow> bytes \<Rightarrow> u128 \<Rightarrow> u64 \<Rightarrow> string option
     \<Rightarrow> OnecoinPaymentRequest result" where
  "OnecoinPaymentRequest_new P seller invoice_id buyer resource_id amount_atoms expires_at_unix memo =
     (if amount_atoms = 0 then Err ''payment amount must be positive''
      else if (case memo of None \<Rightarrow> False | Some m \<Rightarrow> length m > MAX_MEMO) then Err ''payment memo too long''
      else
        let request = \<lparr>pr_version = PAYMENT_VERSION, pr_invoice_id = invoice_id,
                       pr_seller = ip_awe_id (id_public seller), pr_buyer = buyer, pr_resource_id = resource_id,
                       pr_amount_atoms = amount_atoms, pr_expires_at_unix = expires_at_unix, pr_memo = memo,
                       pr_signature = zero_sig\<rparr>
        in Ok (request\<lparr>pr_signature := Identity_sign P seller (payment_signing_bytes P request)\<rparr>))"

definition OnecoinPaymentRequest_verify :: "'a pay_prims_scheme \<Rightarrow> OnecoinPaymentRequest \<Rightarrow> bytes \<Rightarrow> u64 \<Rightarrow> bool" where
  "OnecoinPaymentRequest_verify P self seller_public_key now_unix =
     (pr_version self = PAYMENT_VERSION \<and> pr_amount_atoms self > 0 \<and> pr_expires_at_unix self \<ge> now_unix
      \<and> (case pr_memo self of None \<Rightarrow> True | Some m \<Rightarrow> length m \<le> MAX_MEMO)
      \<and> aweid_bytes (pr_seller self) = aweid_bytes (AweId_from_public_key P seller_public_key)
      \<and> Identity_verify P seller_public_key (payment_signing_bytes P self) (pr_signature self))"

definition OnecoinPaymentRequest_payment_transaction ::
  "'a pay_prims_scheme \<Rightarrow> OnecoinPaymentRequest \<Rightarrow> Identity \<Rightarrow> u64 \<Rightarrow> string option \<Rightarrow> OnecoinTransaction result" where
  "OnecoinPaymentRequest_payment_transaction P self buyer nonce memo =
     (if ip_awe_id (id_public buyer) \<noteq> pr_buyer self then Err ''buyer identity does not match invoice''
      else Ok (OnecoinTransaction_new P buyer nonce (pr_seller self) (pr_amount_atoms self)
                 (case memo of None \<Rightarrow> pr_memo self | Some m \<Rightarrow> Some m)))"

definition OnecoinPaymentRequest_settle ::
  "'a pay_prims_scheme \<Rightarrow> OnecoinPaymentRequest \<Rightarrow> OnecoinLedger \<Rightarrow> OnecoinTransaction \<Rightarrow> bytes \<Rightarrow> u64
     \<Rightarrow> bytes result \<times> OnecoinLedger" where
  "OnecoinPaymentRequest_settle P self ledger tx buyer_public_key now_unix =
     (case bt_get (l_members ledger) (AweId_to_hex P (pr_seller self)) of
        None \<Rightarrow> (Err ''seller is not a member'', ledger)
      | Some seller_key \<Rightarrow>
          if \<not> OnecoinPaymentRequest_verify P self seller_key now_unix
          then (Err ''invalid or expired payment request'', ledger)
          else if tx_recipient tx \<noteq> aweid_bytes (pr_seller self) \<or> tx_sender tx \<noteq> aweid_bytes (pr_buyer self)
                  \<or> tx_amount_atoms tx \<noteq> pr_amount_atoms self
          then (Err ''transaction does not match payment request'', ledger)
          else apply_transfer P ledger tx buyer_public_key)"

section \<open>Lowering the price floor\<close>

definition GOVERNANCE_VERSION :: u16 where
  "GOVERNANCE_VERSION = 1"
definition APPROVAL_BPS :: u64 where
  "APPROVAL_BPS = 6666"

record PriceFloorProposal =
  pf_version :: u16
  pf_proposal_id :: bytes
  pf_current_floor_usd_cents :: u64
  pf_proposed_floor_usd_cents :: u64
  pf_created_at_unix :: u64
  pf_expires_at_unix :: u64

definition floor_vote_signing_bytes :: "'a pay_prims_scheme \<Rightarrow> SignedFloorVote \<Rightarrow> bytes" where
  "floor_vote_signing_bytes P self = floor_vote_json P (self\<lparr>fv_signature := zero_sig\<rparr>)"

definition SignedFloorVote_new :: "'a pay_prims_scheme \<Rightarrow> Identity \<Rightarrow> bytes \<Rightarrow> bool \<Rightarrow> SignedFloorVote" where
  "SignedFloorVote_new P identity proposal_id approve =
     (let vote = \<lparr>fv_proposal_id = proposal_id, fv_voter = ip_awe_id (id_public identity), fv_approve = approve,
                  fv_signature = zero_sig\<rparr>
      in vote\<lparr>fv_signature := Identity_sign P identity (floor_vote_signing_bytes P vote)\<rparr>)"

definition floor_vote_verify :: "'a pay_prims_scheme \<Rightarrow> SignedFloorVote \<Rightarrow> bytes \<Rightarrow> bool" where
  "floor_vote_verify P self public_key =
     (aweid_bytes (fv_voter self) = aweid_bytes (AweId_from_public_key P public_key)
      \<and> Identity_verify P public_key (floor_vote_signing_bytes P self) (fv_signature self))"

datatype PriceFloorGovernance = PriceFloorGovernance (gov_votes: "(string, bool) btree_map")

definition count_floor_vote ::
  "'a pay_prims_scheme \<Rightarrow> PriceFloorProposal \<Rightarrow> (string, bytes) btree_map \<Rightarrow> SignedFloorVote
     \<Rightarrow> (string, bool) btree_map \<Rightarrow> (string, bool) btree_map" where
  "count_floor_vote P proposal members vote votes =
     (let key = AweId_to_hex P (fv_voter vote) in
      case bt_get members key of
        None \<Rightarrow> votes
      | Some pk \<Rightarrow>
          if fv_proposal_id vote \<noteq> pf_proposal_id proposal \<or> \<not> floor_vote_verify P vote pk then votes
          else bt_or_insert key (fv_approve vote) votes)"

definition approve_if_quorum ::
  "'a pay_prims_scheme \<Rightarrow> PriceFloorGovernance \<Rightarrow> PriceFloorProposal \<Rightarrow> SignedFloorVote list
     \<Rightarrow> (string, bytes) btree_map \<Rightarrow> u64 \<Rightarrow> bool result \<times> PriceFloorGovernance" where
  "approve_if_quorum P self proposal votes members now_unix =
     (if pf_version proposal \<noteq> GOVERNANCE_VERSION
         \<or> pf_proposed_floor_usd_cents proposal \<ge> pf_current_floor_usd_cents proposal
      then (Err ''proposal must lower the current floor'', self)
      else if now_unix > pf_expires_at_unix proposal then (Err ''proposal expired'', self)
      else
        let counted = fold (count_floor_vote P proposal members) votes [];
            total_members = of_nat (length members) :: u64;
            approvals = of_nat (length (filter id (map snd counted))) :: u64;
            required = div_ceil (sat_mul total_members APPROVAL_BPS) 10000
        in (Ok (total_members > 0 \<and> approvals \<ge> required), PriceFloorGovernance counted))"

section \<open>Settlement\<close>

text \<open>Settling a payment request moves exactly the invoiced amount from the invoice's buyer to its
  seller and only before it expires. But it can succeed only for a seller whose identifier equals its own
  hash: the ledger stores identifiers, not public keys, in its member table, and the check treats the
  stored value as the seller's public key.\<close>

theorem settle_needs_self_hashing_seller:
  assumes "ledger_inv P l" "hex_roundtrip P" "OnecoinPaymentRequest_settle P req l tx pk now = (Ok i, l')"
  shows "hash P (as_bytes ''AWE-ID/v1'') (aweid_bytes (pr_seller req)) = aweid_bytes (pr_seller req)
    \<and> pk = aweid_bytes (pr_buyer req) \<and> now \<le> pr_expires_at_unix req
    \<and> tx_amount_atoms tx = pr_amount_atoms req \<and> tx_recipient tx = aweid_bytes (pr_seller req)
    \<and> apply_transfer P l tx pk = (Ok i, l')"
proof -
  obtain key where key: "bt_get (l_members l) (AweId_to_hex P (pr_seller req)) = Some key"
    and ver: "OnecoinPaymentRequest_verify P req key now"
    and tx: "tx_recipient tx = aweid_bytes (pr_seller req)" "tx_sender tx = aweid_bytes (pr_buyer req)"
      "tx_amount_atoms tx = pr_amount_atoms req"
    and run: "apply_transfer P l tx pk = (Ok i, l')"
    using assms(3) by (auto simp: OnecoinPaymentRequest_settle_def split: option.splits if_splits)
  have "hex_encode P (aweid_bytes (pr_seller req)) = hex_encode P key"
    using assms(1) key by (simp add: ledger_inv_def AweId_to_hex_def)
  then have "key = aweid_bytes (pr_seller req)"
    using hex_inject [OF assms(2)] by metis
  moreover have "tx_sender tx = pk"
    using run by (auto elim: apply_transfer_OkE simp: transfer_ready_def)
  ultimately show ?thesis
    using ver tx run by (simp add: OnecoinPaymentRequest_verify_def AweId_from_public_key_def)
qed

section \<open>Votes on the floor\<close>

text \<open>The members whose first valid vote for the proposal approves it.\<close>

fun first_vote :: "'a pay_prims_scheme \<Rightarrow> PriceFloorProposal \<Rightarrow> (string, bytes) btree_map \<Rightarrow> string
    \<Rightarrow> SignedFloorVote list \<Rightarrow> bool option" where
  "first_vote P p members k [] = None"
| "first_vote P p members k (v # vs) =
     (if AweId_to_hex P (fv_voter v) = k \<and> fv_proposal_id v = pf_proposal_id p
         \<and> (\<exists>pk. bt_get members k = Some pk \<and> floor_vote_verify P v pk)
      then Some (fv_approve v) else first_vote P p members k vs)"

lemma counted_votes:
  "bt_get (fold (count_floor_vote P p members) vs m) k =
     (case bt_get m k of Some b \<Rightarrow> Some b | None \<Rightarrow> first_vote P p members k vs)"
proof (induction vs arbitrary: m)
  case (Cons v vs)
  show ?case
    by (simp add: Cons.IH)
       (auto simp: count_floor_vote_def bt_or_insert_def bt_contains_def Let_def split: option.splits)
qed (simp split: option.split)

lemma counted_inv: "bt_inv m \<Longrightarrow> bt_inv (fold (count_floor_vote P p members) vs m)"
  by (induction vs arbitrary: m) (auto simp: count_floor_vote_def Let_def split: option.split)

definition floor_approvers ::
  "'a pay_prims_scheme \<Rightarrow> PriceFloorProposal \<Rightarrow> (string, bytes) btree_map \<Rightarrow> SignedFloorVote list \<Rightarrow> string set" where
  "floor_approvers P p members vs = {k. first_vote P p members k vs = Some True}"

lemma first_vote_member: "first_vote P p members k vs = Some b \<Longrightarrow> k \<in> dom (bt_get members)"
  by (induction vs) (auto split: if_splits)

lemma approvals_card:
  "length (filter id (map snd (fold (count_floor_vote P p members) vs []))) = card (floor_approvers P p members vs)"
  "length (filter snd (fold (count_floor_vote P p members) vs [])) = card (floor_approvers P p members vs)"
proof -
  let ?m = "fold (count_floor_vote P p members) vs []"
  have inv: "bt_inv ?m"
    by (rule counted_inv) simp
  have dist: "distinct (map fst (filter snd ?m))"
    using bt_distinct [OF inv] by (rule distinct_map_filter)
  have "set (map fst (filter snd ?m)) = floor_approvers P p members vs"
    using bt_get_in [OF inv] by (force simp: floor_approvers_def counted_votes bt_get_def [of "[]"])
  then show "length (filter snd ?m) = card (floor_approvers P p members vs)"
    using distinct_card [OF dist] by (metis length_map)
  then show "length (filter id (map snd ?m)) = card (floor_approvers P p members vs)"
    by (simp add: filter_map comp_def id_def)
qed

definition floor_accepted ::
  "'a pay_prims_scheme \<Rightarrow> PriceFloorProposal \<Rightarrow> (string, bytes) btree_map \<Rightarrow> SignedFloorVote list \<Rightarrow> bool" where
  "floor_accepted P p members vs \<longleftrightarrow> length members * 6666 < 2 ^ 64
     \<and> (\<exists>g now g'. approve_if_quorum P g p vs members now = (Ok True, g'))"

lemma floor_accepted_enough:
  assumes "floor_accepted P p members vs"
  shows "(length members * 6666 + 9999) div 10000 \<le> card (floor_approvers P p members vs)"
proof -
  have n: "length members * 6666 < 2 ^ 64"
    and req: "required_approvals (of_nat (length members)) \<le> (of_nat (card (floor_approvers P p members vs)) :: u64)"
    using assms by (auto simp: floor_accepted_def approve_if_quorum_def Let_def required_approvals_def QUORUM_BPS_def
        APPROVAL_BPS_def approvals_card split: if_splits)
  have "card (floor_approvers P p members vs) \<le> card (dom (bt_get members))"
    by (intro card_mono bt_finite_dom) (auto simp: floor_approvers_def dest: first_vote_member)
  also have "\<dots> \<le> length members"
    by (rule bt_card_dom_le)
  finally have "unat (of_nat (card (floor_approvers P p members vs)) :: u64) = card (floor_approvers P p members vs)"
    using n by (intro unat_of_nat_small) simp
  then show ?thesis
    using req required_exact [OF n] by (simp add: word_le_nat_alt)
qed

interpretation floor: quorum_system "dom (bt_get members)" "(length members * 6666 + 9999) div 10000"
  "floor_accepted P p members" "floor_approvers P p members"
  for P :: "'a pay_prims_scheme" and p members
proof
  show "finite (dom (bt_get members))"
    by (rule bt_finite_dom)
  show "floor_approvers P p members vs \<subseteq> dom (bt_get members)" for vs
    unfolding floor_approvers_def using first_vote_member by blast
qed (rule floor_accepted_enough)

text \<open>The price floor is lowered only by a quorum: when the vote passes, the proposal lowers the
  floor, has not expired, and at least 66.66 percent of all members cast a first valid vote for it that is
  signed by their key and approves; of two vote collections that both pass, at least a third of the
  members approved in both.\<close>

theorem price_floor_needs_quorum:
  assumes "approve_if_quorum P g p vs members now = (Ok True, g')" "length members * 6666 < 2 ^ 64"
    and "approve_if_quorum P h p ws members now' = (Ok True, h')"
  shows "pf_proposed_floor_usd_cents p < pf_current_floor_usd_cents p \<and> now \<le> pf_expires_at_unix p
    \<and> 6666 * length members \<le> 10000 * card (floor_approvers P p members vs)
    \<and> 3332 * length members \<le> 10000 * card (floor_approvers P p members vs \<inter> floor_approvers P p members ws)"
proof -
  have acc: "floor_accepted P p members vs" "floor_accepted P p members ws"
    using assms by (auto simp: floor_accepted_def)
  have "3332 * length members \<le> 10000 * card (floor_approvers P p members vs \<inter> floor_approvers P p members ws)"
    using floor.overlap [OF acc] bt_card_dom_le [of members] by linarith
  moreover have "6666 * length members \<le> 10000 * card (floor_approvers P p members vs)"
    using floor_accepted_enough [OF acc(1)] by linarith
  moreover have "pf_proposed_floor_usd_cents p < pf_current_floor_usd_cents p" "now \<le> pf_expires_at_unix p"
    using assms(1) by (auto simp: approve_if_quorum_def Let_def split: if_splits)
  ultimately show ?thesis by blast
qed


section \<open>Concrete requests and votes\<close>

definition demo_pay :: pay_prims where
  "demo_pay = coin_prims.extend demo_coin
     \<lparr>payment_json = (\<lambda>r. pr_signature r @ pr_invoice_id r), floor_vote_json = (\<lambda>v. fv_signature v @ fv_proposal_id v)\<rparr>"

lemma demo_pay_simps [simp]:
  "sha256 demo_pay = sha256 demo_coin" "blake3 demo_pay = blake3 demo_coin"
  "hex_encode demo_pay = hex_encode demo_coin" "hex_decode demo_pay = hex_decode demo_coin"
  "ed_key_ok demo_pay = ed_key_ok demo_coin" "ed_verify demo_pay = ed_verify demo_coin" "tx_json demo_pay = tx_json demo_coin"
  "payment_json demo_pay r = pr_signature r @ pr_invoice_id r" "floor_vote_json demo_pay v = fv_signature v @ fv_proposal_id v"
  by (simp_all add: demo_pay_def demo_coin_def demo_prims_def coin_prims.defs prims.defs)

lemma demo_pay_aweid: "length pk = 32 \<Longrightarrow> AweId_from_public_key demo_pay pk = AweId (rev pk)"
  using demo_aweid [of pk] by (simp add: AweId_from_public_key_def hash_def)

definition demo_request :: OnecoinPaymentRequest where
  "demo_request = \<lparr>pr_version = 1, pr_invoice_id = [7], pr_seller = AweId (replicate 32 2), pr_buyer = AweId (replicate 32 1),
     pr_resource_id = [9], pr_amount_atoms = 1000, pr_expires_at_unix = 50, pr_memo = None,
     pr_signature = replicate 32 0 @ replicate 32 2\<rparr>"

theorem settle_needs_self_hashing_seller_witness:
  "\<exists>i l'. OnecoinPaymentRequest_settle demo_pay demo_request demo_ledger demo_tx (replicate 32 1) 10 = (Ok i, l')
     \<and> hash demo_pay (as_bytes ''AWE-ID/v1'') (replicate 32 2) = replicate 32 2"
proof -
  have inv: "ledger_inv demo_pay demo_ledger"
    using demo_ledger_inv by (simp add: ledger_inv_def)
  have hex: "hex_roundtrip demo_pay"
    by (simp add: hex_roundtrip_def)
  have key: "bt_get (l_members demo_ledger) (AweId_to_hex demo_pay (pr_seller demo_request)) = Some (replicate 32 2)"
    by (simp add: demo_ledger_def demo_request_def AweId_to_hex_def bt_get_def demo_keys)
  have ver: "OnecoinPaymentRequest_verify demo_pay demo_request (replicate 32 2) 10"
    by (simp add: OnecoinPaymentRequest_verify_def demo_request_def PAYMENT_VERSION_def demo_pay_aweid Identity_verify_def
        payment_signing_bytes_def pad32_def)
  have "transfer_ready demo_pay demo_ledger demo_tx (replicate 32 1) (tx_amount_atoms demo_tx)"
    using demo_ready [of "tx_amount_atoms demo_tx"]
    by (simp add: transfer_ready_def sender_key_of_def recipient_key_of_def demo_pay_aweid demo_aweid AweId_to_hex_def
        tx_verify_def tx_signing_bytes_def demo_tx_def ATOMS_PER_COIN_def pad32_def)
  from apply_transfer_cases(1) [OF this] obtain i l' where run: "OnecoinPaymentRequest_settle demo_pay demo_request demo_ledger demo_tx (replicate 32 1) 10 = (Ok i, l')"
    using key ver by (simp add: OnecoinPaymentRequest_settle_def demo_request_def demo_tx_def)
  from settle_needs_self_hashing_seller [OF inv hex run] run show ?thesis
    by (auto simp: demo_request_def)
qed

definition demo_proposal_floor :: PriceFloorProposal where
  "demo_proposal_floor = \<lparr>pf_version = 1, pf_proposal_id = [3], pf_current_floor_usd_cents = 200,
     pf_proposed_floor_usd_cents = 100, pf_created_at_unix = 0, pf_expires_at_unix = 9\<rparr>"

definition demo_floor_vote :: SignedFloorVote where
  "demo_floor_vote = \<lparr>fv_proposal_id = [3], fv_voter = AweId (replicate 32 1), fv_approve = True,
     fv_signature = replicate 32 0 @ replicate 32 1\<rparr>"

theorem price_floor_needs_quorum_witness:
  "\<exists>g'. approve_if_quorum demo_pay (PriceFloorGovernance []) demo_proposal_floor [demo_floor_vote] demo_validators 5 = (Ok True, g')
     \<and> 6666 * length demo_validators \<le> 10000 * card (floor_approvers demo_pay demo_proposal_floor demo_validators [demo_floor_vote])"
proof -
  have "floor_vote_verify demo_pay demo_floor_vote (replicate 32 1)"
    by (simp add: floor_vote_verify_def demo_floor_vote_def demo_pay_aweid Identity_verify_def floor_vote_signing_bytes_def pad32_def)
  then have "fold (count_floor_vote demo_pay demo_proposal_floor demo_validators) [demo_floor_vote] []
      = [(from_bytes (replicate 32 1), True)]"
    by (simp add: count_floor_vote_def demo_validators_def demo_floor_vote_def demo_proposal_floor_def AweId_to_hex_def
        bt_get_def bt_or_insert_def bt_contains_def)
  then obtain g' where run: "approve_if_quorum demo_pay (PriceFloorGovernance []) demo_proposal_floor [demo_floor_vote] demo_validators 5 = (Ok True, g')"
    by (simp add: approve_if_quorum_def Let_def demo_proposal_floor_def GOVERNANCE_VERSION_def demo_validators_def
        sat_mul_def div_ceil_def APPROVAL_BPS_def)
  have "length demo_validators * 6666 < 2 ^ 64"
    by (simp add: demo_validators_def)
  from price_floor_needs_quorum [OF run this run] run show ?thesis
    by auto
qed

end
