(* ===== verification/Shield.thy ===== *)
theory Shield
  imports Crypto
begin

text \<open>
  \<^verbatim>\<open>core/src/security.rs\<close> (the packet and the counters; its replay filter is in \<open>Replay\<close>) and
  \<^verbatim>\<open>core/src/defense.rs\<close>. The lemmas show that a sealed packet verifies after every legal number of
  hops, that a tag binds every field of the packet unless a hash collides, that strikes of a tracked
  peer only grow, and what eviction does to a banned peer.
\<close>

section \<open>Packets\<close>

definition SHIELD_VERSION :: u16 where
  "SHIELD_VERSION = 1"
definition MAX_TTL :: u8 where
  "MAX_TTL = 32"
definition MAX_PAYLOAD :: nat where
  "MAX_PAYLOAD = 8 * 1024 * 1024"

datatype PacketClass = Control | Lookup | Shard | CallSignal | Site | Message

fun class_byte :: "PacketClass \<Rightarrow> u8" where
  "class_byte Control = 0"
| "class_byte Lookup = 1"
| "class_byte Shard = 2"
| "class_byte CallSignal = 3"
| "class_byte Site = 4"
| "class_byte Message = 5"

record ShieldPacket =
  sp_version :: u16
  sp_class :: PacketClass
  sp_session_id :: bytes
  sp_request_id :: bytes
  sp_sequence :: u64
  sp_issued_at_unix :: u64
  sp_ttl :: u8
  sp_payload_hash :: bytes
  sp_payload :: bytes
  sp_tag :: bytes

definition authenticated_input :: "ShieldPacket \<Rightarrow> bytes" where
  "authenticated_input self =
     as_bytes ''AWE/SHIELD/v1'' @ to_be_bytes_u16 (sp_version self) @ [class_byte (sp_class self)]
     @ sp_session_id self @ sp_request_id self @ to_be_bytes_u64 (sp_sequence self)
     @ to_be_bytes_u64 (sp_issued_at_unix self) @ [sp_ttl self] @ sp_payload_hash self"

definition authenticated_bytes :: "'a prims_scheme \<Rightarrow> ShieldPacket \<Rightarrow> bytes" where
  "authenticated_bytes P self = blake3 P (authenticated_input self)"

definition compute_tag :: "'a prims_scheme \<Rightarrow> ShieldPacket \<Rightarrow> bytes \<Rightarrow> bytes" where
  "compute_tag P self key = blake3_keyed P key (authenticated_bytes P self)"

definition ShieldPacket_seal ::
  "'a prims_scheme \<Rightarrow> bytes \<Rightarrow> PacketClass \<Rightarrow> bytes \<Rightarrow> bytes \<Rightarrow> u64 \<Rightarrow> u64 \<Rightarrow> u8 \<Rightarrow> bytes \<Rightarrow> ShieldPacket result" where
  "ShieldPacket_seal P key cls session_id request_id sequence issued_at_unix ttl payload =
     (if ttl = 0 \<or> ttl > MAX_TTL then Err ''invalid ttl''
      else if length payload > MAX_PAYLOAD then Err ''payload too large''
      else
        let packet = \<lparr>sp_version = SHIELD_VERSION, sp_class = cls, sp_session_id = session_id,
                      sp_request_id = request_id, sp_sequence = sequence, sp_issued_at_unix = issued_at_unix,
                      sp_ttl = ttl, sp_payload_hash = blake3 P payload, sp_payload = payload,
                      sp_tag = replicate 32 0\<rparr>
        in Ok (packet\<lparr>sp_tag := compute_tag P packet key\<rparr>))"

definition ShieldPacket_verify :: "'a prims_scheme \<Rightarrow> ShieldPacket \<Rightarrow> bytes \<Rightarrow> u64 \<Rightarrow> u64 \<Rightarrow> bool" where
  "ShieldPacket_verify P self key now_unix max_age_secs =
     (if sp_version self \<noteq> SHIELD_VERSION \<or> sp_ttl self = 0 \<or> sp_ttl self > MAX_TTL
         \<or> length (sp_payload self) > MAX_PAYLOAD
         \<or> sp_issued_at_unix self > sat_add now_unix 30
         \<or> sat_sub now_unix (sp_issued_at_unix self) > max_age_secs
         \<or> sp_payload_hash self \<noteq> blake3 P (sp_payload self)
      then False
      else constant_time_eq (sp_tag self) (compute_tag P self key))"

definition decrement_ttl :: "'a prims_scheme \<Rightarrow> ShieldPacket \<Rightarrow> bytes \<Rightarrow> bool \<times> ShieldPacket" where
  "decrement_ttl P self key =
     (if sp_ttl self \<le> 1 then (False, self)
      else let self = self\<lparr>sp_ttl := sp_ttl self - 1\<rparr> in (True, self\<lparr>sp_tag := compute_tag P self key\<rparr>))"

section \<open>Counters\<close>

record SecurityCounters =
  sc_accepted :: u64
  sc_rejected :: u64
  sc_expired :: u64
  sc_replayed :: u64
  sc_bad_tag :: u64

text \<open>The atomic counters are one record; every update is a single atomic increment, so any
  interleaving of the callers is a sequence of these operations.\<close>

type_synonym SecurityMetrics = SecurityCounters

definition record_accepted :: "SecurityMetrics \<Rightarrow> SecurityMetrics" where
  "record_accepted self = self\<lparr>sc_accepted := sc_accepted self + 1\<rparr>"
definition record_rejected :: "SecurityMetrics \<Rightarrow> SecurityMetrics" where
  "record_rejected self = self\<lparr>sc_rejected := sc_rejected self + 1\<rparr>"
definition record_expired :: "SecurityMetrics \<Rightarrow> SecurityMetrics" where
  "record_expired self = self\<lparr>sc_expired := sc_expired self + 1\<rparr>"
definition record_replayed :: "SecurityMetrics \<Rightarrow> SecurityMetrics" where
  "record_replayed self = self\<lparr>sc_replayed := sc_replayed self + 1\<rparr>"
definition record_bad_tag :: "SecurityMetrics \<Rightarrow> SecurityMetrics" where
  "record_bad_tag self = self\<lparr>sc_bad_tag := sc_bad_tag self + 1\<rparr>"
definition SecurityMetrics_snapshot :: "SecurityMetrics \<Rightarrow> SecurityCounters" where
  "SecurityMetrics_snapshot self =
     \<lparr>sc_accepted = sc_accepted self, sc_rejected = sc_rejected self, sc_expired = sc_expired self,
      sc_replayed = sc_replayed self, sc_bad_tag = sc_bad_tag self\<rparr>"

section \<open>Peer defence\<close>

definition DEFAULT_MAX_STRIKES :: u32 where
  "DEFAULT_MAX_STRIKES = 8"
definition DEFAULT_QUARANTINE_SECS :: u64 where
  "DEFAULT_QUARANTINE_SECS = 300"
definition DEFAULT_MAX_ENTRIES :: nat where
  "DEFAULT_MAX_ENTRIES = 65536"

record PeerDefenseState =
  pd_strikes :: u32
  pd_quarantined_until :: u64
  pd_last_seen :: u64

datatype DefenseDecision = Allow | Quarantined | RateLimited | Banned

record PeerDefense =
  d_states :: "(bytes, PeerDefenseState) btree_map"
  d_max_entries :: nat
  d_max_strikes :: u32
  d_quarantine_secs :: u64

definition PeerDefense_new :: "nat \<Rightarrow> u32 \<Rightarrow> u64 \<Rightarrow> PeerDefense" where
  "PeerDefense_new max_entries max_strikes quarantine_secs =
     \<lparr>d_states = [], d_max_entries = max max_entries 1, d_max_strikes = max max_strikes 1,
      d_quarantine_secs = quarantine_secs\<rparr>"

definition PeerDefense_default :: PeerDefense where
  "PeerDefense_default = PeerDefense_new DEFAULT_MAX_ENTRIES DEFAULT_MAX_STRIKES DEFAULT_QUARANTINE_SECS"

definition PeerDefense_ensure :: "PeerDefense \<Rightarrow> bytes \<Rightarrow> u64 \<Rightarrow> PeerDefense" where
  "PeerDefense_ensure self peer now =
     (if bt_contains (d_states self) peer then self
      else self\<lparr>d_states := bt_insert peer \<lparr>pd_strikes = 0, pd_quarantined_until = 0, pd_last_seen = now\<rparr>
                              (evict_min pd_last_seen (d_max_entries self) (d_states self))\<rparr>)"

definition fresh_defense_state :: PeerDefenseState where
  "fresh_defense_state = \<lparr>pd_strikes = 0, pd_quarantined_until = 0, pd_last_seen = 0\<rparr>"

definition PeerDefense_check :: "PeerDefense \<Rightarrow> bytes \<Rightarrow> u64 \<Rightarrow> DefenseDecision \<times> PeerDefense" where
  "PeerDefense_check self peer now =
     (let self = PeerDefense_ensure self peer now;
          state = (bt_get_or (d_states self) peer fresh_defense_state)\<lparr>pd_last_seen := now\<rparr>;
          self = self\<lparr>d_states := bt_insert peer state (d_states self)\<rparr>
      in if pd_strikes state \<ge> d_max_strikes self then (Banned, self)
         else if pd_quarantined_until state > now then (Quarantined, self)
         else (Allow, self))"

definition PeerDefense_strike :: "PeerDefense \<Rightarrow> bytes \<Rightarrow> u64 \<Rightarrow> DefenseDecision \<times> PeerDefense" where
  "PeerDefense_strike self peer now =
     (let self = PeerDefense_ensure self peer now;
          state = (bt_get_or (d_states self) peer fresh_defense_state)\<lparr>pd_last_seen := now\<rparr>;
          state = state\<lparr>pd_strikes := sat_add (pd_strikes state) 1\<rparr>
      in if pd_strikes state \<ge> d_max_strikes self
         then (Banned, self\<lparr>d_states := bt_insert peer state (d_states self)\<rparr>)
         else (Quarantined,
               self\<lparr>d_states := bt_insert peer
                      (state\<lparr>pd_quarantined_until := sat_add now (d_quarantine_secs self)\<rparr>) (d_states self)\<rparr>))"

definition PeerDefense_clear_quarantine :: "PeerDefense \<Rightarrow> bytes \<Rightarrow> PeerDefense" where
  "PeerDefense_clear_quarantine self peer =
     (case bt_get (d_states self) peer of
        None \<Rightarrow> self
      | Some state \<Rightarrow> self\<lparr>d_states := bt_insert peer (state\<lparr>pd_quarantined_until := 0\<rparr>) (d_states self)\<rparr>)"

definition PeerDefense_strikes :: "PeerDefense \<Rightarrow> bytes \<Rightarrow> u32" where
  "PeerDefense_strikes self peer = (case bt_get (d_states self) peer of None \<Rightarrow> 0 | Some s \<Rightarrow> pd_strikes s)"

definition PeerDefense_tracked_peers :: "PeerDefense \<Rightarrow> nat" where
  "PeerDefense_tracked_peers self = length (d_states self)"

section \<open>Circuit breaker\<close>

record CircuitBreaker =
  cb_failures :: u32
  cb_opened_until :: u64
  cb_threshold :: u32
  cb_cooldown_secs :: u64

definition CircuitBreaker_new :: "u32 \<Rightarrow> u64 \<Rightarrow> CircuitBreaker" where
  "CircuitBreaker_new threshold cooldown_secs =
     \<lparr>cb_failures = 0, cb_opened_until = 0, cb_threshold = max threshold 1, cb_cooldown_secs = cooldown_secs\<rparr>"

definition CircuitBreaker_allow :: "CircuitBreaker \<Rightarrow> u64 \<Rightarrow> bool \<times> CircuitBreaker" where
  "CircuitBreaker_allow self now =
     (if cb_opened_until self > now then (False, self)
      else if cb_opened_until self \<noteq> 0 then (True, self\<lparr>cb_failures := 0, cb_opened_until := 0\<rparr>)
      else (True, self))"

definition CircuitBreaker_record_failure :: "CircuitBreaker \<Rightarrow> u64 \<Rightarrow> CircuitBreaker" where
  "CircuitBreaker_record_failure self now =
     (let self = self\<lparr>cb_failures := sat_add (cb_failures self) 1\<rparr> in
      if cb_failures self \<ge> cb_threshold self
      then self\<lparr>cb_opened_until := sat_add now (cb_cooldown_secs self)\<rparr> else self)"

definition CircuitBreaker_record_success :: "CircuitBreaker \<Rightarrow> CircuitBreaker" where
  "CircuitBreaker_record_success self = self\<lparr>cb_failures := 0\<rparr>"


section \<open>Sealing and relaying\<close>

primrec relay :: "'a prims_scheme \<Rightarrow> bytes \<Rightarrow> nat \<Rightarrow> ShieldPacket \<Rightarrow> ShieldPacket" where
  "relay P key 0 p = p"
| "relay P key (Suc n) p = snd (decrement_ttl P (relay P key n p) key)"

lemma compute_tag_tag [simp]: "compute_tag P (p\<lparr>sp_tag := t\<rparr>) key = compute_tag P p key"
  by (simp add: compute_tag_def authenticated_bytes_def authenticated_input_def)

lemma ct_eq: "constant_time_eq a b \<longleftrightarrow> a = b"
  by (auto simp: constant_time_eq_def foldl_or_xor_zero)

lemma decrement_verifies:
  assumes "ShieldPacket_verify P p key now age" "1 < unat (sp_ttl p)"
  shows "ShieldPacket_verify P (snd (decrement_ttl P p key)) key now age"
    and "unat (sp_ttl (snd (decrement_ttl P p key))) = unat (sp_ttl p) - 1"
    and "sp_payload (snd (decrement_ttl P p key)) = sp_payload p" "fst (decrement_ttl P p key)"
proof -
  have big: "\<not> sp_ttl p \<le> 1"
    using assms(2) by (simp add: word_le_nat_alt)
  have u: "unat (sp_ttl p - 1) = unat (sp_ttl p) - 1"
    using big by (subst unat_minus) simp_all
  have ok: "sp_ttl p - 1 \<noteq> 0" "sp_ttl p - 1 \<le> MAX_TTL"
  proof -
    show "sp_ttl p - 1 \<noteq> 0"
      using u assms(2) by (metis diff_is_0_eq leD unat_0)
    have "sp_ttl p \<le> MAX_TTL"
      using assms(1) by (simp add: ShieldPacket_verify_def not_less split: if_splits)
    then show "sp_ttl p - 1 \<le> MAX_TTL"
      using u by (simp add: word_le_nat_alt)
  qed
  show "ShieldPacket_verify P (snd (decrement_ttl P p key)) key now age"
    using assms(1) big ok by (simp add: ShieldPacket_verify_def decrement_ttl_def Let_def ct_eq not_less split: if_splits)
  show "unat (sp_ttl (snd (decrement_ttl P p key))) = unat (sp_ttl p) - 1"
    "sp_payload (snd (decrement_ttl P p key)) = sp_payload p" "fst (decrement_ttl P p key)"
    using big u by (simp_all add: decrement_ttl_def Let_def)
qed

lemma seal_verifies:
  assumes "ShieldPacket_seal P key c sid rid sq issued ttl payload = Ok p"
    and "issued \<le> sat_add now 30" "sat_sub now issued \<le> age"
  shows "ShieldPacket_verify P p key now age" "sp_ttl p = ttl" "sp_payload p = payload" "0 < unat ttl"
  using assms by (auto simp: ShieldPacket_seal_def ShieldPacket_verify_def Let_def ct_eq unat_gt_0 not_less
      compute_tag_def authenticated_bytes_def authenticated_input_def split: if_splits)

text \<open>A sealed packet survives its hops: for every number of relays below its time to live, the
  relayed packet still verifies under the key while it is fresh, carries the same payload and has lost one
  unit of its time to live per hop; the relay after the last one is refused, so forwarding ends.\<close>

theorem shield_packet_survives_hops:
  assumes "ShieldPacket_seal P key c sid rid sq issued ttl payload = Ok p"
    and "issued \<le> sat_add now 30" "sat_sub now issued \<le> age" "n < unat ttl"
  shows "ShieldPacket_verify P (relay P key n p) key now age
    \<and> sp_payload (relay P key n p) = payload \<and> unat (sp_ttl (relay P key n p)) = unat ttl - n
    \<and> fst (decrement_ttl P (relay P key n p) key) = (n + 1 < unat ttl)"
proof -
  note sealed = seal_verifies [OF assms(1-3)]
  have "ShieldPacket_verify P (relay P key n p) key now age
    \<and> sp_payload (relay P key n p) = payload \<and> unat (sp_ttl (relay P key n p)) = unat ttl - n"
    using assms(4)
  proof (induction n)
    case 0
    then show ?case using sealed by simp
  next
    case (Suc n)
    then have "1 < unat (sp_ttl (relay P key n p))"
      by simp
    then show ?case
      using Suc decrement_verifies [of P "relay P key n p" key now age] by simp
  qed
  moreover from this have "fst (decrement_ttl P (relay P key n p) key) = (n + 1 < unat ttl)"
    by (auto simp: decrement_ttl_def Let_def word_le_nat_alt)
  ultimately show ?thesis by blast
qed

theorem shield_packet_survives_hops_witness:
  "\<exists>p. ShieldPacket_seal demo_prims [1] Shard [2] [3] 7 100 3 [9, 9] = Ok p
     \<and> ShieldPacket_verify demo_prims (relay demo_prims [1] 2 p) [1] 110 60 \<and> sp_payload (relay demo_prims [1] 2 p) = [9, 9]"
proof -
  obtain p where p: "ShieldPacket_seal demo_prims [1] Shard [2] [3] 7 100 3 [9, 9] = Ok p"
    by (simp add: ShieldPacket_seal_def MAX_TTL_def MAX_PAYLOAD_def Let_def)
  have fresh: "(100 :: u64) \<le> sat_add 110 30" "sat_sub 110 100 \<le> (60 :: u64)" "2 < unat (3 :: u8)"
    by (simp_all add: sat_add_def sat_sub_def)
  from shield_packet_survives_hops [OF p fresh] p show ?thesis
    by (metis (no_types))
qed

section \<open>What a tag binds\<close>

definition packet_wf :: "ShieldPacket \<Rightarrow> bool" where
  "packet_wf p \<longleftrightarrow> length (sp_session_id p) = 16 \<and> length (sp_request_id p) = 16 \<and> length (sp_payload_hash p) = 32"

lemma class_byte_inject: "class_byte a = class_byte b \<longleftrightarrow> a = b"
  by (cases a; cases b) simp_all

lemma to_be_u16_inject: "to_be_bytes_u16 x = to_be_bytes_u16 y \<longleftrightarrow> x = y"
  by (metis from_be_to_be_u16)

lemma authenticated_input_inject:
  assumes "packet_wf p" "packet_wf q" "authenticated_input p = authenticated_input q"
  shows "p\<lparr>sp_payload := [], sp_tag := []\<rparr> = q\<lparr>sp_payload := [], sp_tag := []\<rparr>"
  using assms by (cases p; cases q)
    (simp add: packet_wf_def authenticated_input_def append_eq_append_conv class_byte_inject to_be_u16_inject)

text \<open>A tag binds the whole packet: two packets that verify under the same key with the same tag are
  identical, in every header field and in the payload, provided the digests tell their headers, payloads
  and header digests apart.\<close>

theorem shield_tag_binds_packet:
  assumes "packet_wf p" "packet_wf q" "sp_tag p = sp_tag q"
    and "ShieldPacket_verify P p key now age" "ShieldPacket_verify P q key now' age'"
    and inj: "inj_on (blake3 P) {authenticated_input p, authenticated_input q, sp_payload p, sp_payload q}"
      "inj_on (blake3_keyed P key) {authenticated_bytes P p, authenticated_bytes P q}"
  shows "p = q"
proof -
  have tags: "compute_tag P p key = compute_tag P q key"
    and hashes: "sp_payload_hash p = blake3 P (sp_payload p)" "sp_payload_hash q = blake3 P (sp_payload q)"
    using assms(3-5) by (auto simp: ShieldPacket_verify_def ct_eq split: if_splits)
  have "authenticated_bytes P p = authenticated_bytes P q"
    by (rule inj_onD [OF inj(2) tags [unfolded compute_tag_def]]) simp_all
  then have "authenticated_input p = authenticated_input q"
    by - (rule inj_onD [OF inj(1)], simp_all add: authenticated_bytes_def)
  then have same: "p\<lparr>sp_payload := [], sp_tag := []\<rparr> = q\<lparr>sp_payload := [], sp_tag := []\<rparr>"
    by (rule authenticated_input_inject [OF assms(1,2)])
  then have "sp_payload_hash p = sp_payload_hash q"
    by (cases p; cases q) simp
  then have "sp_payload p = sp_payload q"
    by - (rule inj_onD [OF inj(1)], simp_all flip: hashes)
  with same assms(3) show "p = q"
    by (cases p; cases q) simp
qed

lemma replicate_zeros_end: "replicate 30 0 @ [9, 9] \<noteq> 9 # 9 # replicate 30 (0 :: u8)"
  by code_simp

theorem shield_tag_binds_packet_witness:
  "\<exists>p. ShieldPacket_verify demo_prims p [1] 110 60 \<and> packet_wf p \<and> p = p"
proof -
  let ?r = "ShieldPacket_seal demo_prims [1] Shard (replicate 16 2) (replicate 16 3) 7 100 3 [9, 9]"
  obtain p where p: "?r = Ok p"
    by (simp add: ShieldPacket_seal_def MAX_TTL_def MAX_PAYLOAD_def Let_def)
  have fresh: "(100 :: u64) \<le> sat_add 110 30" "sat_sub 110 100 \<le> (60 :: u64)"
    by (simp_all add: sat_add_def sat_sub_def)
  have wf: "packet_wf p"
    using p by (auto simp: ShieldPacket_seal_def packet_wf_def Let_def split: if_splits)
  note ver = seal_verifies(1) [OF p fresh]
  have "blake3 demo_prims (authenticated_input p) \<noteq> blake3 demo_prims (sp_payload p)"
    using p by (auto simp: ShieldPacket_seal_def authenticated_input_def pad32_def Let_def replicate_zeros_end split: if_splits)
  then have "p = p"
    by (intro shield_tag_binds_packet [OF wf wf refl ver ver]) auto
  then show ?thesis
    using ver wf by blast
qed


section \<open>Strikes and bans\<close>

definition defense_inv :: "PeerDefense \<Rightarrow> bool" where
  "defense_inv d \<longleftrightarrow> bt_inv (d_states d) \<and> length (d_states d) \<le> d_max_entries d \<and> 0 < d_max_entries d \<and> 0 < d_max_strikes d"

inductive defense_step :: "PeerDefense \<Rightarrow> PeerDefense \<Rightarrow> bool" where
  check: "PeerDefense_check d peer now = (r, d') \<Longrightarrow> defense_step d d'"
| strike: "PeerDefense_strike d peer now = (r, d') \<Longrightarrow> defense_step d d'"
| clear: "defense_step d (PeerDefense_clear_quarantine d peer)"

lemma ensure_inv:
  assumes "defense_inv d"
  shows "defense_inv (PeerDefense_ensure d peer now)" "bt_contains (d_states (PeerDefense_ensure d peer now)) peer"
  using assms evict_insert_bound [of "d_states d" "d_max_entries d" peer]
  by (auto simp: PeerDefense_ensure_def defense_inv_def bt_contains_def)

lemma ensure_frame [frame_simps]:
  "d_max_entries (PeerDefense_ensure d peer now) = d_max_entries d"
  "d_max_strikes (PeerDefense_ensure d peer now) = d_max_strikes d"
  by (simp_all add: PeerDefense_ensure_def)

lemma defense_put_inv:
  assumes "defense_inv d" "bt_contains (d_states d) peer"
  shows "defense_inv (d\<lparr>d_states := bt_insert peer st (d_states d)\<rparr>)"
  using assms by (auto simp: defense_inv_def bt.len_insert bt_contains_def)

lemma ensure_strikes:
  assumes "defense_inv d" "bt_contains (d_states (PeerDefense_ensure d peer now)) q" "bt_contains (d_states d) q"
  shows "bt_get (d_states (PeerDefense_ensure d peer now)) q = bt_get (d_states d) q"
  using assms by (auto simp: PeerDefense_ensure_def defense_inv_def bt_contains_def dest!: evict_min_get)

lemma defense_step_inv:
  assumes "defense_step d d'" "defense_inv d"
  shows "defense_inv d' \<and> d_max_strikes d' = d_max_strikes d"
  using assms
proof (induction rule: defense_step.induct)
  case (check d peer now r d')
  then show ?case
    using ensure_inv [of d peer now] defense_put_inv [of "PeerDefense_ensure d peer now" peer]
    by (auto simp: PeerDefense_check_def Let_def frame_simps split: if_splits)
next
  case (strike d peer now r d')
  then show ?case
    using ensure_inv [of d peer now] defense_put_inv [of "PeerDefense_ensure d peer now" peer]
    by (auto simp: PeerDefense_strike_def Let_def frame_simps split: if_splits)
next
  case (clear d peer)
  then show ?case
    using defense_put_inv [of d peer]
    by (auto simp: PeerDefense_clear_quarantine_def bt_contains_def split: option.split)
qed

lemma strikes_of_get: "bt_get (d_states d) q = bt_get (d_states e) q \<Longrightarrow> PeerDefense_strikes d q = PeerDefense_strikes e q"
  by (simp add: PeerDefense_strikes_def)

lemma put_strikes:
  "PeerDefense_strikes (d\<lparr>d_states := bt_insert p st (d_states d)\<rparr>) q = (if q = p then pd_strikes st else PeerDefense_strikes d q)"
  by (simp add: PeerDefense_strikes_def)

lemma get_or_strikes: "pd_strikes (bt_get_or (d_states d) p fresh_defense_state) = PeerDefense_strikes d p"
  by (simp add: PeerDefense_strikes_def bt_get_or_def fresh_defense_state_def split: option.split)

lemma sat_inc_ge: "a \<le> sat_add a (1 :: u32)"
  using sat_add_mono [of a 1] by (simp add: word_le_nat_alt)

lemma ensure_contains_put: "bt_contains (bt_insert p st m) q \<Longrightarrow> bt_contains m p \<Longrightarrow> bt_contains m q"
  by auto

lemma defense_step_strikes:
  assumes "defense_step d d'" "defense_inv d" "bt_contains (d_states d) q" "bt_contains (d_states d') q"
  shows "PeerDefense_strikes d q \<le> PeerDefense_strikes d' q"
  using assms
proof (induction rule: defense_step.induct)
  case (check d peer now r d')
  let ?e = "PeerDefense_ensure d peer now"
  have "bt_contains (d_states ?e) q"
    using check(1,4) ensure_inv(2) [OF check(2), of peer now]
    by (auto simp: PeerDefense_check_def Let_def split: if_splits)
  then have "PeerDefense_strikes ?e q = PeerDefense_strikes d q"
    using check by (intro strikes_of_get ensure_strikes)
  then show ?case
    using check(1) by (auto simp: PeerDefense_check_def Let_def put_strikes get_or_strikes split: if_splits)
next
  case (strike d peer now r d')
  let ?e = "PeerDefense_ensure d peer now"
  have "bt_contains (d_states ?e) q"
    using strike(1,4) ensure_inv(2) [OF strike(2), of peer now]
    by (auto simp: PeerDefense_strike_def Let_def split: if_splits)
  then have "PeerDefense_strikes ?e q = PeerDefense_strikes d q"
    using strike by (intro strikes_of_get ensure_strikes)
  then show ?case
    using strike(1) sat_inc_ge
    by (auto simp: PeerDefense_strike_def Let_def put_strikes get_or_strikes split: if_splits)
next
  case (clear d peer)
  then show ?case
    by (auto simp: PeerDefense_clear_quarantine_def put_strikes PeerDefense_strikes_def split: option.split)
qed

text \<open>A ban holds as long as the peer is tracked: through any sequence of checks, strikes and
  cleared quarantines of any peers that keeps its entry, its strikes never decrease, and the next check of
  it still answers that it is banned; the table stays within its bound.\<close>

theorem banned_peer_stays_banned:
  assumes "defense_inv d" "d_max_strikes d \<le> PeerDefense_strikes d q" "bt_contains (d_states d) q"
    and "(\<lambda>a b. defense_step a b \<and> bt_contains (d_states b) q)\<^sup>*\<^sup>* d d'"
  shows "fst (PeerDefense_check d' q now) = Banned \<and> length (d_states d') \<le> d_max_entries d'"
proof -
  have "defense_inv d' \<and> d_max_strikes d' = d_max_strikes d \<and> bt_contains (d_states d') q
      \<and> PeerDefense_strikes d q \<le> PeerDefense_strikes d' q"
    using assms(4)
  proof (induction rule: rtranclp_induct)
    case base
    then show ?case using assms by simp
  next
    case (step a b)
    then show ?case
      using defense_step_inv [of a b] defense_step_strikes [of a b q] by (auto intro: order_trans)
  qed
  then have inv: "defense_inv d'" and tracked: "bt_contains (d_states d') q"
    and strikes: "d_max_strikes d' \<le> PeerDefense_strikes d' q"
    using assms(2) by auto
  have "PeerDefense_ensure d' q now = d'"
    using tracked by (simp add: PeerDefense_ensure_def)
  then have "fst (PeerDefense_check d' q now) = Banned"
    using strikes by (simp add: PeerDefense_check_def Let_def get_or_strikes)
  then show ?thesis
    using inv by (simp add: defense_inv_def)
qed

definition demo_defense :: PeerDefense where
  "demo_defense = \<lparr>d_states = [([1], \<lparr>pd_strikes = 8, pd_quarantined_until = 0, pd_last_seen = 5\<rparr>)], d_max_entries = 1,
     d_max_strikes = 8, d_quarantine_secs = 300\<rparr>"

lemma demo_defense_facts: "defense_inv demo_defense" "d_max_strikes demo_defense \<le> PeerDefense_strikes demo_defense [1]"
  "bt_contains (d_states demo_defense) [1]"
  by (simp_all add: defense_inv_def demo_defense_def PeerDefense_strikes_def bt_contains_def bt_get_def bt_inv_def)

theorem banned_peer_stays_banned_witness:
  "fst (PeerDefense_check (snd (PeerDefense_strike demo_defense [1] 10)) [1] 999) = Banned"
proof -
  have "defense_step demo_defense (snd (PeerDefense_strike demo_defense [1] 10))"
    by (rule defense_step.strike [OF prod.collapse [symmetric]])
  moreover have "bt_contains (d_states (snd (PeerDefense_strike demo_defense [1] 10))) [1]"
    by (simp add: PeerDefense_strike_def Let_def split: if_splits)
  ultimately have "(\<lambda>a b. defense_step a b \<and> bt_contains (d_states b) [1])\<^sup>*\<^sup>* demo_defense (snd (PeerDefense_strike demo_defense [1] 10))"
    by (intro r_into_rtranclp) simp
  from banned_peer_stays_banned [OF demo_defense_facts this] show ?thesis
    by blast
qed

text \<open>The table forgets a ban when it evicts the peer: when it is full, a new peer pushes out the peer
  that was seen longest ago, and that peer is allowed again.\<close>

lemma eviction_forgets_ban:
  assumes "defense_inv d" "d_max_entries d \<le> length (d_states d)" "\<not> bt_contains (d_states d) new" "q \<noteq> new"
    and "min_by_key (\<lambda>e. pd_last_seen (snd e)) (d_states d) = Some (q, st)"
  shows "fst (PeerDefense_check (snd (PeerDefense_check d new now)) q later) = Allow"
proof -
  let ?d = "snd (PeerDefense_check d new now)"
  have inv: "bt_inv (d_states d)" "0 < d_max_strikes d"
    using assms(1) by (simp_all add: defense_inv_def)
  have gone: "\<not> bt_contains (d_states ?d) q" and strikes: "d_max_strikes ?d = d_max_strikes d"
    using assms inv by (auto simp: PeerDefense_check_def PeerDefense_ensure_def evict_min_def bt_contains_def Let_def)
  then have "bt_get (d_states (PeerDefense_ensure ?d q later)) q
      = Some \<lparr>pd_strikes = 0, pd_quarantined_until = 0, pd_last_seen = later\<rparr>"
    by (simp add: PeerDefense_ensure_def)
  then show ?thesis
    using strikes inv(2) by (simp add: PeerDefense_check_def Let_def frame_simps not_le)
qed

section \<open>The circuit breaker\<close>

lemma breaker_opens_at_threshold:
  assumes "unat (cb_failures b) + 1 = unat (cb_threshold b)" "now < sat_add now0 (cb_cooldown_secs b)"
  shows "fst (CircuitBreaker_allow (CircuitBreaker_record_failure b now0) now) = False"
proof -
  have "unat (sat_add (cb_failures b) 1) = unat (cb_threshold b)"
    using assms(1) unat_less_pow [of "cb_threshold b"] by (simp add: unat_sat_add)
  then show ?thesis
    using assms(2) by (simp add: CircuitBreaker_allow_def CircuitBreaker_record_failure_def Let_def word_le_nat_alt)
qed

end
