(* ===== verification/Registry.thy ===== *)
theory Registry
  imports Identity Rust_Text
begin

text \<open>
  \<^verbatim>\<open>core/src/registry.rs\<close>, \<^verbatim>\<open>core/src/namespace.rs\<close> and \<^verbatim>\<open>core/src/governance.rs\<close>: signed name records, the
  registry that keeps the newest one per name, the browser's address parser and the rules for domains.
  The lemmas show that the registry never goes back in sequence, protects the administrative namespace
  and lets any key replace the record of an existing name.
\<close>

section \<open>Records\<close>

datatype RegistryObjectType = Tld | Domain | UserTld | DelegatedOperator

datatype TldKind = Otld | ThreeOtld | Ctld | Oatld | Octld | Vtld | Autl | Atld

datatype RegistryStatus = Active | Warning | Suspended | Quarantined | Revoked

record RegistryRecord =
  rr_object_type :: RegistryObjectType
  rr_kind :: "TldKind option"
  rr_name :: string
  rr_owner_public_key :: bytes
  rr_parent :: "string option"
  rr_status :: RegistryStatus
  rr_sequence :: u64
  rr_content_hash :: bytes
  rr_signature :: bytes

record registry_prims = prims +
  record_json :: "RegistryRecord \<Rightarrow> bytes"

definition canonical_bytes :: "'a registry_prims_scheme \<Rightarrow> RegistryRecord \<Rightarrow> bytes" where
  "canonical_bytes P self = record_json P self"

definition signable_bytes :: "'a registry_prims_scheme \<Rightarrow> RegistryRecord \<Rightarrow> bytes" where
  "signable_bytes P self = record_json P (self\<lparr>rr_signature := []\<rparr>)"

definition hashable_bytes :: "'a registry_prims_scheme \<Rightarrow> RegistryRecord \<Rightarrow> bytes" where
  "hashable_bytes P self = record_json P (self\<lparr>rr_content_hash := replicate 32 0, rr_signature := []\<rparr>)"

definition calculate_content_hash :: "'a registry_prims_scheme \<Rightarrow> RegistryRecord \<Rightarrow> bytes" where
  "calculate_content_hash P self = sha256 P (as_bytes ''AWE-REGISTRY-V1'' @ [0] @ hashable_bytes P self)"

definition verify_signature :: "'a registry_prims_scheme \<Rightarrow> RegistryRecord \<Rightarrow> bool" where
  "verify_signature P self =
     (if length (rr_owner_public_key self) \<noteq> 32 then False
      else if length (rr_signature self) \<noteq> 64 then False
      else if \<not> ed_key_ok P (rr_owner_public_key self) then False
      else rr_content_hash self = calculate_content_hash P self
           \<and> ed_verify P (rr_owner_public_key self) (signable_bytes P self) (rr_signature self))"

section \<open>The registry\<close>

datatype Registry = Registry (reg_records: "(string, RegistryRecord) btree_map")

definition Registry_insert :: "Registry \<Rightarrow> RegistryRecord \<Rightarrow> unit result \<times> Registry" where
  "Registry_insert self entry =
     (if rr_name entry = [] \<or> rr_sequence entry = 0 then (Err ''invalid registry record'', self)
      else if ends_with (rr_name entry) ''.awea'' \<and> rr_kind entry \<noteq> Some Atld
      then (Err ''protected administrative namespace'', self)
      else if (case bt_get (reg_records self) (rr_name entry) of None \<Rightarrow> False
               | Some old \<Rightarrow> rr_sequence entry \<le> rr_sequence old)
      then (Err ''stale registry sequence'', self)
      else (Ok (), Registry (bt_insert (rr_name entry) entry (reg_records self))))"

definition Registry_insert_verified ::
  "'a registry_prims_scheme \<Rightarrow> Registry \<Rightarrow> RegistryRecord \<Rightarrow> unit result \<times> Registry" where
  "Registry_insert_verified P self entry =
     (if \<not> verify_signature P entry then (Err ''invalid registry record signature'', self)
      else Registry_insert self entry)"

definition Registry_resolve :: "Registry \<Rightarrow> string \<Rightarrow> RegistryRecord option" where
  "Registry_resolve self name = bt_get (reg_records self) name"

definition Registry_snapshot :: "Registry \<Rightarrow> RegistryRecord list" where
  "Registry_snapshot self = map snd (reg_records self)"

definition valid_label :: "string \<Rightarrow> bool" where
  "valid_label label = (label \<noteq> [] \<and> length label \<le> 63 \<and> \<not> starts_with label ''-'' \<and> \<not> ends_with label ''-''
     \<and> list_all (\<lambda>c. is_ascii_alphanumeric c \<or> c = CHR ''-'') label)"

definition valid_name :: "string \<Rightarrow> bool" where
  "valid_name name = (name \<noteq> [] \<and> length name \<le> 253 \<and> list_all valid_label (split_on (CHR ''.'') name))"

section \<open>Names and addresses\<close>

definition ADMIN_NAMESPACE :: string where
  "ADMIN_NAMESPACE = ''.awea''"

datatype UnifiedEntityUri =
    PublicFile string | SecretFile string | SiteId string | UserIdentity string | Channel string
  | Group string | App string | Node string | DomainOrService string | SearchQuery string

definition parse_and_resolve :: "string \<Rightarrow> UnifiedEntityUri" where
  "parse_and_resolve input =
     (let trimmed = trim_str input; lower = to_ascii_lowercase trimmed in
      if starts_with lower ''fid-'' then PublicFile trimmed
      else if starts_with lower ''sfid-'' then SecretFile trimmed
      else if starts_with lower ''sid-'' then SiteId trimmed
      else if starts_with lower ''uid-'' then UserIdentity trimmed
      else if starts_with lower ''chid-'' \<or> starts_with lower ''cid-'' then Channel trimmed
      else if starts_with lower ''gid-'' then Group trimmed
      else if starts_with lower ''aid-'' then App trimmed
      else if starts_with lower ''nid-'' then Node trimmed
      else if ends_with lower ''.awe'' \<or> starts_with lower ''a2p2://'' \<or> starts_with lower ''awe://''
      then DomainOrService trimmed
      else SearchQuery trimmed)"

definition namespace_resolve :: "Registry \<Rightarrow> string \<Rightarrow> RegistryRecord option" where
  "namespace_resolve registry name = (if \<not> valid_name name then None else Registry_resolve registry name)"

definition can_register_domain :: "RegistryRecord \<Rightarrow> string \<Rightarrow> bool" where
  "can_register_domain parent requested =
     (rr_status parent = Active \<and> valid_name requested \<and> ends_with requested (''.'' @ rr_name parent))"

fun kind_name :: "TldKind \<Rightarrow> string" where
  "kind_name Otld = ''otld''"
| "kind_name ThreeOtld = ''3otld''"
| "kind_name Ctld = ''ctld''"
| "kind_name Oatld = ''oatld''"
| "kind_name Octld = ''octld''"
| "kind_name Vtld = ''vtld''"
| "kind_name Autl = ''autl''"
| "kind_name Atld = ''atld''"

section \<open>Governance\<close>

definition DEFAULT_OTLD_MAX_DOMAINS :: u32 where
  "DEFAULT_OTLD_MAX_DOMAINS = 10"
definition PROTECTED_ADMIN_NAMESPACE :: string where
  "PROTECTED_ADMIN_NAMESPACE = ''.awea''"

record GovernanceCapability =
  gc_issuer :: bytes
  gc_holder :: bytes
  gc_scope :: string
  gc_kind :: TldKind
  gc_max_domains :: "u32 option"
  gc_expires_at :: u64
  gc_signature :: bytes

record GovernanceAuditRecord =
  ga_timestamp :: u64
  ga_actor_public_key :: bytes
  ga_action :: string
  ga_target :: string
  ga_details :: string

definition validate_domain_registration :: "RegistryRecord \<Rightarrow> u32 \<Rightarrow> unit result" where
  "validate_domain_registration tld_record user_domain_count =
     (case rr_kind tld_record of
        None \<Rightarrow> Err ''missing TLD kind''
      | Some kind \<Rightarrow>
          (case kind of
             Otld \<Rightarrow> if user_domain_count \<ge> DEFAULT_OTLD_MAX_DOMAINS
                     then Err ''OTLD domain quota exceeded (max 10 domains)'' else Ok ()
           | _ \<Rightarrow> Ok ()))"

definition is_protected_namespace :: "string \<Rightarrow> bool" where
  "is_protected_namespace name = (name = ''awea'' \<or> ends_with name PROTECTED_ADMIN_NAMESPACE)"

definition authorize_action :: "GovernanceCapability \<Rightarrow> string \<Rightarrow> u64 \<Rightarrow> unit result" where
  "authorize_action cap target now =
     (if gc_expires_at cap > 0 \<and> now \<ge> gc_expires_at cap then Err ''governance capability expired''
      else if \<not> ends_with target (gc_scope cap) \<and> target \<noteq> gc_scope cap then Err ''action out of capability scope''
      else Ok ())"

section \<open>Invariant\<close>

definition registry_inv :: "Registry \<Rightarrow> bool" where
  "registry_inv r \<longleftrightarrow> bt_inv (reg_records r)
     \<and> (\<forall>n e. bt_get (reg_records r) n = Some e \<longrightarrow>
          rr_name e = n \<and> n \<noteq> [] \<and> 0 < rr_sequence e \<and> (ends_with n ''.awea'' \<longrightarrow> rr_kind e = Some Atld))"

inductive registry_step :: "registry_prims \<Rightarrow> Registry \<Rightarrow> Registry \<Rightarrow> bool" for P where
  insert: "Registry_insert r e = (x, r') \<Longrightarrow> registry_step P r r'"
| verified: "Registry_insert_verified P r e = (x, r') \<Longrightarrow> registry_step P r r'"

lemma insert_step:
  assumes "Registry_insert r e = (x, r')" "registry_inv r"
  shows "registry_inv r'
    \<and> (\<forall>n old. Registry_resolve r n = Some old \<longrightarrow>
         (\<exists>new. Registry_resolve r' n = Some new \<and> (new = old \<or> rr_sequence old < rr_sequence new)))"
proof (cases x)
  case (Inl err)
  then have "r' = r"
    using assms(1) by (auto simp: Registry_insert_def split: if_splits)
  then show ?thesis
    using assms(2) by blast
next
  case (Inr u)
  then have r': "r' = Registry (bt_insert (rr_name e) e (reg_records r))"
    and e: "rr_name e \<noteq> []" "0 < rr_sequence e" "ends_with (rr_name e) ''.awea'' \<longrightarrow> rr_kind e = Some Atld"
    and old: "bt_get (reg_records r) (rr_name e) = Some old \<Longrightarrow> rr_sequence old < rr_sequence e" for old
    using assms(1) by (auto simp: Registry_insert_def word_gt_0 not_le split: if_splits)
  have "registry_inv r'"
    using assms(2) e by (simp add: registry_inv_def r')
  moreover have "\<exists>new. Registry_resolve r' n = Some new \<and> (new = o1 \<or> rr_sequence o1 < rr_sequence new)"
    if "Registry_resolve r n = Some o1" for n o1
    using that old by (auto simp: Registry_resolve_def r')
  ultimately show ?thesis by blast
qed

lemma registry_step_inv:
  assumes "registry_step P r r'" "registry_inv r"
  shows "registry_inv r'
    \<and> (\<forall>n old. Registry_resolve r n = Some old \<longrightarrow>
         (\<exists>new. Registry_resolve r' n = Some new \<and> (new = old \<or> rr_sequence old < rr_sequence new)))"
  using assms
proof (cases rule: registry_step.cases)
  case (insert e x)
  then show ?thesis
    using insert_step assms(2) by blast
next
  case (verified e x)
  then show ?thesis
    using insert_step [of r e x r'] assms(2)
    by (cases "verify_signature P e") (auto simp: Registry_insert_verified_def)
qed

text \<open>C32. The registry never goes back: through any sequence of insertions, failed ones included, a
  registered name stays registered, its record is either the same or one with a larger sequence number,
  every record is stored under its own name, and names below the administrative namespace only ever have
  administrative records.\<close>

theorem registry_never_goes_back:
  assumes "(registry_step P)\<^sup>*\<^sup>* (Registry []) r" "(registry_step P)\<^sup>*\<^sup>* r r'" "Registry_resolve r n = Some old"
  shows "(\<exists>new. Registry_resolve r' n = Some new \<and> (new = old \<or> rr_sequence old < rr_sequence new)
            \<and> rr_name new = n \<and> (ends_with n ''.awea'' \<longrightarrow> rr_kind new = Some Atld))"
proof -
  have start: "registry_inv (Registry [])"
    by (simp add: registry_inv_def bt_get_def)
  have inv: "registry_inv r"
    using assms(1) start by (induction rule: rtranclp_induct) (auto dest: registry_step_inv)
  have "registry_inv r' \<and> (\<exists>new. Registry_resolve r' n = Some new \<and> (new = old \<or> rr_sequence old < rr_sequence new))"
    using assms(2)
  proof (induction rule: rtranclp_induct)
    case base
    then show ?case using inv assms(3) by simp
  next
    case (step a b)
    then show ?case
      using registry_step_inv [of P a b] by (metis order_less_trans)
  qed
  then show ?thesis
    by (auto simp: registry_inv_def Registry_resolve_def)
qed

definition demo_record :: "bytes \<Rightarrow> u64 \<Rightarrow> RegistryRecord" where
  "demo_record owner n = \<lparr>rr_object_type = Domain, rr_kind = Some Otld, rr_name = ''site.awe'', rr_owner_public_key = owner,
     rr_parent = None, rr_status = Active, rr_sequence = n, rr_content_hash = replicate 32 5,
     rr_signature = replicate 32 6 @ owner\<rparr>"

definition demo_registry :: registry_prims where
  "demo_registry = prims.extend (demo_prims\<lparr>sha256 := (\<lambda>_. replicate 32 5)\<rparr>) \<lparr>record_json = (\<lambda>_. replicate 32 6)\<rparr>"

lemma demo_record_verifies: "length owner = 32 \<Longrightarrow> verify_signature demo_registry (demo_record owner n)"
  by (simp add: verify_signature_def demo_registry_def demo_record_def calculate_content_hash_def signable_bytes_def
      demo_prims_def prims.defs pad32_def)

theorem registry_never_goes_back_witness:
  "\<exists>r r' old new. (registry_step demo_registry)\<^sup>*\<^sup>* (Registry []) r \<and> (registry_step demo_registry)\<^sup>*\<^sup>* r r'
     \<and> Registry_resolve r ''site.awe'' = Some old \<and> Registry_resolve r' ''site.awe'' = Some new \<and> rr_name new = ''site.awe''"
proof -
  let ?r = "snd (Registry_insert (Registry []) (demo_record (replicate 32 1) 1))"
  let ?s = "snd (Registry_insert ?r (demo_record (replicate 32 1) 2))"
  have "registry_step demo_registry (Registry []) ?r" "registry_step demo_registry ?r ?s"
    by (rule registry_step.insert [OF prod.collapse [symmetric]])+
  then have run: "(registry_step demo_registry)\<^sup>*\<^sup>* (Registry []) ?r" "(registry_step demo_registry)\<^sup>*\<^sup>* ?r ?s"
    by blast+
  have "Registry_resolve ?r ''site.awe'' = Some (demo_record (replicate 32 1) 1)"
    by (simp add: Registry_insert_def demo_record_def Registry_resolve_def ends_with_def bt_get_def)
  from registry_never_goes_back [OF run this] run this show ?thesis
    by blast
qed

text \<open>The registry checks no ownership: a record that any other key has signed for a name that is
  already registered replaces the owner's record as soon as its sequence number is larger.\<close>

theorem registry_name_can_be_taken_over:
  assumes "Registry_resolve r n = Some old" "rr_name e = n" "rr_owner_public_key e \<noteq> rr_owner_public_key old"
    and "verify_signature P e" "rr_sequence old < rr_sequence e" "n \<noteq> []" "ends_with n ''.awea'' \<longrightarrow> rr_kind e = Some Atld"
  shows "\<exists>r'. Registry_insert_verified P r e = (Ok (), r') \<and> Registry_resolve r' n = Some e"
proof -
  have "rr_sequence e \<noteq> 0"
    using assms(5) by auto
  then show ?thesis
    using assms by (simp add: Registry_insert_verified_def Registry_insert_def Registry_resolve_def not_le)
qed

theorem registry_name_can_be_taken_over_witness:
  "\<exists>r r'. Registry_resolve r ''site.awe'' = Some (demo_record (replicate 32 1) 1)
     \<and> Registry_insert_verified demo_registry r (demo_record (replicate 32 2) 2) = (Ok (), r')
     \<and> Registry_resolve r' ''site.awe'' = Some (demo_record (replicate 32 2) 2)"
proof -
  let ?r = "Registry [(''site.awe'', demo_record (replicate 32 1) 1)]"
  have "Registry_resolve ?r ''site.awe'' = Some (demo_record (replicate 32 1) 1)"
    by (simp add: Registry_resolve_def bt_get_def)
  moreover have "\<exists>r'. Registry_insert_verified demo_registry ?r (demo_record (replicate 32 2) 2) = (Ok (), r')
      \<and> Registry_resolve r' ''site.awe'' = Some (demo_record (replicate 32 2) 2)"
    by (rule registry_name_can_be_taken_over [where old = "demo_record (replicate 32 1) 1"])
       (use demo_record_verifies in \<open>simp_all add: Registry_resolve_def bt_get_def demo_record_def ends_with_def\<close>)
  ultimately show ?thesis by blast
qed

section \<open>Domains\<close>

lemma registered_domain_labels:
  assumes "can_register_domain parent requested"
  shows "\<exists>sub. requested = sub @ ''.'' @ rr_name parent \<and> list_all valid_label (split_on (CHR ''.'') sub)"
proof -
  obtain sub where sub: "requested = sub @ ''.'' @ rr_name parent"
    using assms by (auto simp: can_register_domain_def ends_with_iff)
  then have "split_on (CHR ''.'') requested = split_on (CHR ''.'') sub @ split_on (CHR ''.'') (rr_name parent)"
    using split_on_append [of "CHR ''.''" sub "rr_name parent"] by simp
  then show ?thesis
    using assms sub by (auto simp: can_register_domain_def valid_name_def)
qed

text \<open>A capability's scope is compared as a plain suffix, so it also covers names that merely end in the
  same letters; and the registry accepts the bare administrative name, which governance calls
  protected.\<close>

lemma scope_is_a_suffix:
  "gc_expires_at cap = 0 \<Longrightarrow> is_ok (authorize_action cap (pre @ gc_scope cap) now)"
  by (simp add: authorize_action_def ends_with_iff)

lemma bare_admin_name_is_open:
  "is_protected_namespace ''awea''"
  "is_ok (fst (Registry_insert (Registry []) ((demo_record owner 1)\<lparr>rr_name := ''awea''\<rparr>)))"
  by (simp_all add: is_protected_namespace_def Registry_insert_def demo_record_def ends_with_def bt_get_def)

end
