(* ===== verification/Data_Plane.thy ===== *)
theory Data_Plane
  imports Identity
begin

text \<open>
  \<^verbatim>\<open>core/src/access.rs\<close>, \<^verbatim>\<open>core/src/data_plane.rs\<close>, \<^verbatim>\<open>core/src/policy.rs\<close>, \<^verbatim>\<open>core/src/permissions.rs\<close> and
  \<^verbatim>\<open>core/src/calls.rs\<close>: capabilities for secret resources, the shard and manifest messages with their
  checks, the runtime policy, capability sets and call sessions. The lemmas show that a secret resource
  opens exactly for a capability with its commitment, that a verified transfer carries the shard
  the manifest names, and what the policy file operations return.
\<close>

section \<open>Access maps\<close>

datatype AccessMode = Open | Secret

record AccessMap =
  am_version :: u16
  am_resource_id :: bytes
  am_mode :: AccessMode
  am_capability :: bytes
  am_commitment :: bytes

definition AccessMap_VERSION :: u16 where
  "AccessMap_VERSION = 1"

definition AccessMap_commitment :: "'a prims_scheme \<Rightarrow> bytes \<Rightarrow> bytes \<Rightarrow> bytes" where
  "AccessMap_commitment P resource_id capability =
     blake3 P (concat [as_bytes ''AWE/ACCESS-MAP/v1'', resource_id, capability])"

text \<open>The random capability is an argument.\<close>

definition AccessMap_generate :: "'a prims_scheme \<Rightarrow> bytes \<Rightarrow> bytes \<Rightarrow> AccessMode \<Rightarrow> AccessMap" where
  "AccessMap_generate P random resource_id mode =
     \<lparr>am_version = AccessMap_VERSION, am_resource_id = resource_id, am_mode = mode, am_capability = random,
      am_commitment = AccessMap_commitment P resource_id random\<rparr>"

definition AccessMap_for_node :: "'a prims_scheme \<Rightarrow> bytes \<Rightarrow> bytes \<Rightarrow> AccessMode \<Rightarrow> AccessMap" where
  "AccessMap_for_node P random node_id mode = AccessMap_generate P random node_id mode"

definition AccessMap_for_site :: "'a prims_scheme \<Rightarrow> bytes \<Rightarrow> bytes \<Rightarrow> AccessMode \<Rightarrow> AccessMap" where
  "AccessMap_for_site P random site_id mode = AccessMap_generate P random site_id mode"

definition AccessMap_verify :: "'a prims_scheme \<Rightarrow> AccessMap \<Rightarrow> bytes \<Rightarrow> bytes \<Rightarrow> bool" where
  "AccessMap_verify P self resource_id published_commitment =
     (am_version self = AccessMap_VERSION \<and> am_resource_id self = resource_id \<and> am_mode self = Secret
      \<and> AccessMap_commitment P resource_id (am_capability self) = published_commitment
      \<and> am_commitment self = published_commitment)"

definition AccessMap_allows_open_id :: "AccessMode \<Rightarrow> AccessMap option \<Rightarrow> bool" where
  "AccessMap_allows_open_id mode supplied_map = (case mode of Open \<Rightarrow> True | Secret \<Rightarrow> supplied_map \<noteq> None)"

record AccessDescriptor =
  ad_mode :: AccessMode
  ad_commitment :: "bytes option"

definition AccessDescriptor_open :: AccessDescriptor where
  "AccessDescriptor_open = \<lparr>ad_mode = Open, ad_commitment = None\<rparr>"

definition AccessDescriptor_secret :: "AccessMap \<Rightarrow> AccessDescriptor" where
  "AccessDescriptor_secret m = \<lparr>ad_mode = Secret, ad_commitment = Some (am_commitment m)\<rparr>"

definition AccessDescriptor_authorize :: "'a prims_scheme \<Rightarrow> AccessDescriptor \<Rightarrow> AccessMap option \<Rightarrow> bytes \<Rightarrow> bool" where
  "AccessDescriptor_authorize P self supplied resource_id =
     (case ad_mode self of
        Open \<Rightarrow> True
      | Secret \<Rightarrow>
          (case (ad_commitment self, supplied) of
             (Some commitment, Some m) \<Rightarrow> AccessMap_verify P m resource_id commitment
           | _ \<Rightarrow> False))"

section \<open>Shards and manifests\<close>

record ShardRequest =
  sq_request_id :: bytes
  sq_file_id :: bytes
  sq_shard_index :: u16
  sq_total_shards :: u16
  sq_expected_hash :: bytes
  sq_max_bytes :: u32

record ShardResponse =
  ss_request_id :: bytes
  ss_file_id :: bytes
  ss_shard_index :: u16
  ss_payload :: bytes
  ss_payload_hash :: bytes

definition ShardResponse_new :: "'a prims_scheme \<Rightarrow> bytes \<Rightarrow> bytes \<Rightarrow> u16 \<Rightarrow> bytes \<Rightarrow> ShardResponse" where
  "ShardResponse_new P request_id file_id shard_index payload =
     \<lparr>ss_request_id = request_id, ss_file_id = file_id, ss_shard_index = shard_index, ss_payload = payload,
      ss_payload_hash = blake3 P payload\<rparr>"

definition ShardResponse_verify :: "'a prims_scheme \<Rightarrow> ShardResponse \<Rightarrow> bytes \<Rightarrow> bool" where
  "ShardResponse_verify P self expected_hash =
     (ss_payload_hash self = blake3 P (ss_payload self) \<and> ss_payload_hash self = expected_hash)"

record FileManifest =
  fm_file_id :: bytes
  fm_filename :: string
  fm_original_size :: u64
  fm_shard_count :: u16
  fm_replica_count :: u8
  fm_shard_hashes :: "bytes list"

definition FileManifest_validate :: "FileManifest \<Rightarrow> unit result" where
  "FileManifest_validate self =
     (if fm_shard_count self \<noteq> 1000 then Err ''AWEP2P file manifests require exactly 1000 shards''
      else if fm_replica_count self \<noteq> 3 then Err ''AWEP2P file manifests require exactly 3 replicas per shard''
      else if length (fm_shard_hashes self) \<noteq> 1000 then Err ''manifest must contain 1000 shard hashes''
      else if fm_filename self = [] then Err ''filename must not be empty''
      else Ok ())"

record SiteManifest =
  sm_site_id :: bytes
  sm_hostname :: string
  sm_files :: "FileManifest list"
  sm_version :: u64
  sm_access :: AccessDescriptor

definition default_site_access :: AccessDescriptor where
  "default_site_access = AccessDescriptor_open"

fun validate_files :: "FileManifest list \<Rightarrow> unit result" where
  "validate_files [] = Ok ()"
| "validate_files (file # rest) = (case FileManifest_validate file of Inl e \<Rightarrow> Inl e | Inr _ \<Rightarrow> validate_files rest)"

definition SiteManifest_validate :: "SiteManifest \<Rightarrow> unit result" where
  "SiteManifest_validate self =
     (if sm_hostname self = [] \<or> length (sm_hostname self) > 253 then Err ''invalid site hostname''
      else if sm_files self = [] then Err ''site must contain at least one file''
      else validate_files (sm_files self))"

record RepairTask =
  rt_file_id :: bytes
  rt_shard_index :: u16
  rt_missing_replicas :: u8
  rt_preferred_nodes :: "string list"

definition STORAGE_STREAM :: u32 where
  "STORAGE_STREAM = 200"
definition STORAGE_PROTOCOL_VERSION :: u16 where
  "STORAGE_PROTOCOL_VERSION = 1"

record StorageShardRequest =
  sr_version :: u16
  sr_request_id :: bytes
  sr_requester :: bytes
  sr_file_id :: bytes
  sr_shard_index :: u16
  sr_total_shards :: u16
  sr_expected_hash :: bytes
  sr_original_size :: u64
  sr_max_bytes :: u32

definition StorageShardRequest_new ::
  "bytes \<Rightarrow> bytes \<Rightarrow> bytes \<Rightarrow> u16 \<Rightarrow> u16 \<Rightarrow> bytes \<Rightarrow> u64 \<Rightarrow> u32 \<Rightarrow> StorageShardRequest" where
  "StorageShardRequest_new request_id requester file_id shard_index total_shards expected_hash original_size max_bytes =
     \<lparr>sr_version = STORAGE_PROTOCOL_VERSION, sr_request_id = request_id, sr_requester = requester,
      sr_file_id = file_id, sr_shard_index = shard_index, sr_total_shards = total_shards,
      sr_expected_hash = expected_hash, sr_original_size = original_size, sr_max_bytes = max_bytes\<rparr>"

definition StorageShardRequest_verify :: "StorageShardRequest \<Rightarrow> unit result" where
  "StorageShardRequest_verify self =
     (if sr_version self \<noteq> STORAGE_PROTOCOL_VERSION then Err ''unsupported storage request version''
      else if sr_total_shards self < 12 \<or> sr_total_shards self > 1000
      then Err ''storage request shard count out of range''
      else if sr_shard_index self \<ge> sr_total_shards self then Err ''storage shard index out of range''
      else if sr_max_bytes self = 0 then Err ''storage request max_bytes must be non-zero''
      else Ok ())"

record StorageShardTransfer =
  st_version :: u16
  st_request_id :: bytes
  st_sender :: bytes
  st_file_id :: bytes
  st_shard_index :: u16
  st_total_shards :: u16
  st_original_size :: u64
  st_payload :: bytes
  st_payload_hash :: bytes

definition StorageShardTransfer_new ::
  "'a prims_scheme \<Rightarrow> bytes \<Rightarrow> bytes \<Rightarrow> bytes \<Rightarrow> u16 \<Rightarrow> u16 \<Rightarrow> u64 \<Rightarrow> bytes \<Rightarrow> StorageShardTransfer" where
  "StorageShardTransfer_new P request_id sender file_id shard_index total_shards original_size payload =
     \<lparr>st_version = STORAGE_PROTOCOL_VERSION, st_request_id = request_id, st_sender = sender,
      st_file_id = file_id, st_shard_index = shard_index, st_total_shards = total_shards,
      st_original_size = original_size, st_payload = payload, st_payload_hash = blake3 P payload\<rparr>"

definition StorageShardTransfer_verify :: "'a prims_scheme \<Rightarrow> StorageShardTransfer \<Rightarrow> unit result" where
  "StorageShardTransfer_verify P self =
     (if st_version self \<noteq> STORAGE_PROTOCOL_VERSION then Err ''unsupported storage transfer version''
      else if st_total_shards self < 12 \<or> st_total_shards self > 1000
      then Err ''storage transfer shard count out of range''
      else if unat (st_shard_index self) \<ge> unat (st_total_shards self) then Err ''storage shard index out of range''
      else if st_payload_hash self \<noteq> blake3 P (st_payload self) then Err ''storage shard integrity check failed''
      else Ok ())"

record StorageShardAck =
  sa_version :: u16
  sa_request_id :: bytes
  sa_file_id :: bytes
  sa_shard_index :: u16
  sa_stored_object_id :: bytes

definition StorageShardAck_new :: "bytes \<Rightarrow> bytes \<Rightarrow> u16 \<Rightarrow> bytes \<Rightarrow> StorageShardAck" where
  "StorageShardAck_new request_id file_id shard_index stored_object_id =
     \<lparr>sa_version = STORAGE_PROTOCOL_VERSION, sa_request_id = request_id, sa_file_id = file_id,
      sa_shard_index = shard_index, sa_stored_object_id = stored_object_id\<rparr>"

section \<open>Policy\<close>

definition POLICY_VERSION :: u16 where
  "POLICY_VERSION = 1"
definition MESSENGER_STREAM :: u32 where
  "MESSENGER_STREAM = 100"
definition ONECOIN_TRANSFER_STREAM :: u32 where
  "ONECOIN_TRANSFER_STREAM = 201"

record NetworkPolicy =
  np_format :: string
  np_version :: u16
  np_enabled :: bool
  np_require_authenticated_peers :: bool
  np_max_upload_bytes :: u64
  np_max_message_bytes :: nat
  np_max_shard_bytes :: nat
  np_max_bootstrap_peers :: nat
  np_allowed_streams :: "u32 list"

definition NetworkPolicy_default :: NetworkPolicy where
  "NetworkPolicy_default =
     \<lparr>np_format = ''awenet-policy'', np_version = POLICY_VERSION, np_enabled = True,
      np_require_authenticated_peers = True, np_max_upload_bytes = 4 * 1024 * 1024 * 1024,
      np_max_message_bytes = 64 * 1024, np_max_shard_bytes = 4 * 1024 * 1024, np_max_bootstrap_peers = 64,
      np_allowed_streams = [MESSENGER_STREAM, STORAGE_STREAM, ONECOIN_TRANSFER_STREAM]\<rparr>"

definition NetworkPolicy_validate :: "NetworkPolicy \<Rightarrow> unit result" where
  "NetworkPolicy_validate self =
     (if np_format self \<noteq> ''awenet-policy'' \<or> np_version self \<noteq> POLICY_VERSION
      then Err ''unsupported AWENET policy format/version''
      else if np_max_upload_bytes self = 0 \<or> np_max_message_bytes self = 0 \<or> np_max_shard_bytes self = 0
      then Err ''policy limits must be non-zero''
      else if np_max_bootstrap_peers self = 0 then Err ''max_bootstrap_peers must be non-zero''
      else if np_require_authenticated_peers self \<and> np_allowed_streams self = []
      then Err ''authenticated policy must declare allowed streams''
      else Ok ())"

definition NetworkPolicy_allows_stream :: "NetworkPolicy \<Rightarrow> u32 \<Rightarrow> bool" where
  "NetworkPolicy_allows_stream self stream = (np_enabled self \<and> stream \<in> set (np_allowed_streams self))"

definition NetworkPolicy_allows_upload :: "NetworkPolicy \<Rightarrow> nat \<Rightarrow> bool" where
  "NetworkPolicy_allows_upload self n = (np_enabled self \<and> of_nat n \<le> np_max_upload_bytes self)"

definition NetworkPolicy_allows_message :: "NetworkPolicy \<Rightarrow> nat \<Rightarrow> bool" where
  "NetworkPolicy_allows_message self n = (np_enabled self \<and> n \<le> np_max_message_bytes self)"

definition NetworkPolicy_allows_shard :: "NetworkPolicy \<Rightarrow> nat \<Rightarrow> bool" where
  "NetworkPolicy_allows_shard self n = (np_enabled self \<and> n \<le> np_max_shard_bytes self)"

text \<open>The policy file: \<open>file\<close> is its content if it exists, \<open>write_ok\<close> whether the operating system lets
  the directory and the file be written; the JSON codec is an argument.\<close>

definition policy_save ::
  "(NetworkPolicy \<Rightarrow> bytes) \<Rightarrow> bool \<Rightarrow> bytes option \<Rightarrow> NetworkPolicy \<Rightarrow> unit result \<times> bytes option" where
  "policy_save to_vec_pretty write_ok file policy =
     (case NetworkPolicy_validate policy of Inl e \<Rightarrow> (Inl e, file) | Inr _ \<Rightarrow>
      if \<not> write_ok then (Err ''os error'', file)
      else (Ok (), Some (to_vec_pretty policy)))"

definition policy_read :: "(bytes \<Rightarrow> NetworkPolicy option) \<Rightarrow> bool \<Rightarrow> bytes \<Rightarrow> NetworkPolicy result" where
  "policy_read from_slice read_ok content =
     (if \<not> read_ok then Err ''os error''
      else case from_slice content of
        None \<Rightarrow> Err ''invalid JSON''
      | Some policy \<Rightarrow> (case NetworkPolicy_validate policy of Inl e \<Rightarrow> Inl e | Inr _ \<Rightarrow> Ok policy))"

definition load_or_create ::
  "(NetworkPolicy \<Rightarrow> bytes) \<Rightarrow> (bytes \<Rightarrow> NetworkPolicy option) \<Rightarrow> bool \<Rightarrow> bool \<Rightarrow> bytes option
     \<Rightarrow> NetworkPolicy result \<times> bytes option" where
  "load_or_create to_vec_pretty from_slice read_ok write_ok file =
     (case file of
        Some content \<Rightarrow> (policy_read from_slice read_ok content, file)
      | None \<Rightarrow>
          (case policy_save to_vec_pretty write_ok file NetworkPolicy_default of
             (Inl e, file) \<Rightarrow> (Inl e, file)
           | (Inr _, file) \<Rightarrow> (Ok NetworkPolicy_default, file)))"

definition load_if_changed ::
  "(bytes \<Rightarrow> NetworkPolicy option) \<Rightarrow> bool \<Rightarrow> bytes option \<Rightarrow> NetworkPolicy \<Rightarrow> NetworkPolicy result" where
  "load_if_changed from_slice read_ok file previous =
     (case file of None \<Rightarrow> Ok previous | Some content \<Rightarrow> policy_read from_slice read_ok content)"

section \<open>Capability sets and calls\<close>

datatype AppCapability =
    IdentityRead | IdentityExport | NetworkConnect | NetworkListen | StorageRead | StorageWrite
  | HostPublish | StoreInstall | DeviceMedia

datatype CapabilitySet = CapabilitySet (granted: "AppCapability set")

definition CapabilitySet_grant :: "CapabilitySet \<Rightarrow> AppCapability \<Rightarrow> CapabilitySet" where
  "CapabilitySet_grant self capability = CapabilitySet (insert capability (granted self))"

definition CapabilitySet_revoke :: "CapabilitySet \<Rightarrow> AppCapability \<Rightarrow> CapabilitySet" where
  "CapabilitySet_revoke self capability = CapabilitySet (granted self - {capability})"

definition CapabilitySet_allows :: "CapabilitySet \<Rightarrow> AppCapability \<Rightarrow> bool" where
  "CapabilitySet_allows self capability = (capability \<in> granted self)"

datatype CallKind = Voice | Video

datatype CallMode = Direct | GroupCall string

record CallInvite =
  ci_call_id :: bytes
  ci_from :: bytes
  ci_participants :: "bytes list"
  ci_kind :: CallKind
  ci_mode :: CallMode

record CallSession =
  cs_call_id :: bytes
  cs_participants :: "bytes set"
  cs_kind :: CallKind
  cs_mode :: CallMode
  cs_established :: bool

definition CallSession_accept :: "CallInvite \<Rightarrow> CallSession result" where
  "CallSession_accept invite =
     (if ci_participants invite = [] then Err ''call must have at least one participant''
      else if ci_mode invite = GroupCall [] then Err ''group call coordinator must not be empty''
      else Ok \<lparr>cs_call_id = ci_call_id invite,
               cs_participants = insert (ci_from invite) (set (ci_participants invite)),
               cs_kind = ci_kind invite, cs_mode = ci_mode invite, cs_established = False\<rparr>)"

definition CallSession_establish :: "CallSession \<Rightarrow> CallSession" where
  "CallSession_establish self = self\<lparr>cs_established := True\<rparr>"

section \<open>Lemmas\<close>

text \<open>A secret resource opens for the map generated for it and for no other: a map that is
  authorised names the resource and holds a capability with the published commitment; an open resource
  needs no map.\<close>

theorem secret_access_needs_capability:
  assumes m_def: "m = AccessMap_generate P cap rid Secret"
  shows "AccessDescriptor_authorize P (AccessDescriptor_secret m) (Some m) rid
    \<and> (AccessDescriptor_authorize P (AccessDescriptor_secret m) supplied rid \<longrightarrow>
         (\<exists>s. supplied = Some s \<and> am_resource_id s = rid \<and>
            AccessMap_commitment P rid (am_capability s) = AccessMap_commitment P rid cap))
    \<and> AccessDescriptor_authorize P AccessDescriptor_open supplied rid"
proof -
  have "\<exists>s. supplied = Some s \<and> am_resource_id s = rid \<and>
            AccessMap_commitment P rid (am_capability s) = AccessMap_commitment P rid cap"
    if auth: "AccessDescriptor_authorize P (AccessDescriptor_secret m) supplied rid"
  proof -
    obtain s where s: "supplied = Some s" "AccessMap_verify P s rid (AccessMap_commitment P rid cap)"
      using auth by (auto simp: AccessDescriptor_authorize_def AccessDescriptor_secret_def m_def AccessMap_generate_def
          split: option.splits)
    then show ?thesis
      by (auto simp: AccessMap_verify_def)
  qed
  moreover have "AccessDescriptor_authorize P (AccessDescriptor_secret m) (Some m) rid"
    by (simp add: AccessDescriptor_authorize_def AccessDescriptor_secret_def m_def AccessMap_generate_def AccessMap_verify_def)
  ultimately show ?thesis
    by (simp add: AccessDescriptor_authorize_def AccessDescriptor_open_def)
qed

theorem secret_access_needs_capability_witness:
  "AccessDescriptor_authorize demo_prims
     (AccessDescriptor_secret (AccessMap_generate demo_prims [7] (replicate 32 1) Secret))
     (Some (AccessMap_generate demo_prims [7] (replicate 32 1) Secret)) (replicate 32 1)"
  using secret_access_needs_capability [OF refl, of demo_prims "[7]" "replicate 32 1" None] by simp

lemma validate_files_iff: "is_ok (validate_files fs) \<longleftrightarrow> (\<forall>f \<in> set fs. is_ok (FileManifest_validate f))"
  by (induction fs) (auto split: sum.splits)

lemma shard_response_is_the_shard:
  assumes "ShardResponse_verify P r (blake3 P shard)"
  shows "blake3 P (ss_payload r) = blake3 P shard"
  using assms unfolding ShardResponse_verify_def by metis

lemma default_policy_valid: "NetworkPolicy_validate NetworkPolicy_default = Ok ()"
  by (simp add: NetworkPolicy_validate_def NetworkPolicy_default_def)

lemma policy_reload:
  assumes "\<And>p. from_slice (to_vec p) = Some p" "load_or_create to_vec from_slice r True None = (Ok p, file)"
  shows "load_if_changed from_slice True file other = Ok p"
  using assms default_policy_valid
  by (auto simp: load_or_create_def policy_save_def load_if_changed_def policy_read_def)

text \<open>The default policy lists the stream shared by storage and consensus, and the transfer stream.\<close>

lemma default_streams: "NetworkPolicy_allows_stream NetworkPolicy_default s \<longleftrightarrow> s \<in> {100, 200, 201}"
  by (simp add: NetworkPolicy_allows_stream_def NetworkPolicy_default_def MESSENGER_STREAM_def STORAGE_STREAM_def
      ONECOIN_TRANSFER_STREAM_def)

end
