(* ===== verification/Node_Health.thy ===== *)
theory Node_Health
  imports Prelude
begin

text \<open>
  Node reputation (core/src/reputation.rs) and the peer supervisor (core/src/supervisor.rs).

  The reputation score is computed with machine arithmetic: the counters wrap, the products are
  taken at the width of the counter and only then widened to \<^verbatim>\<open>i64\<close>, and the signed total is clamped.
  The supervisor runs one worker per endpoint, all sharing one set of atomic counters; a worker is
  a small state machine driven by the outcomes of connection attempts and of heartbeats, and the
  supervisor is the interleaving of its workers.
\<close>

section \<open>Reputation\<close>

record NodeReputation =
  nr_node_id :: bytes
  nr_score :: u32
  nr_uptime_events :: u64
  nr_successful_transfers :: u64
  nr_failed_transfers :: u64
  nr_abuse_penalties :: u32

definition NodeReputation_new :: "bytes \<Rightarrow> NodeReputation" where
  "NodeReputation_new node_id = \<lparr> nr_node_id = node_id, nr_score = 500, nr_uptime_events = 0,
     nr_successful_transfers = 0, nr_failed_transfers = 0, nr_abuse_penalties = 0 \<rparr>"

text \<open>An \<^verbatim>\<open>i64\<close> is a 64-bit word read through \<^const>\<open>sint\<close>; \<^verbatim>\<open>as i64\<close> keeps the bits.\<close>

definition clamp_i64 :: "64 word \<Rightarrow> 64 word \<Rightarrow> 64 word \<Rightarrow> 64 word" where
  "clamp_i64 x lo hi = (if sint x < sint lo then lo else if sint x > sint hi then hi else x)"

definition reputation_total :: "NodeReputation \<Rightarrow> 64 word" where
  "reputation_total r =
     (let base = 500;
          uptime_bonus = nr_uptime_events r div 10;
          success_bonus = nr_successful_transfers r div 5;
          failure_penalty = nr_failed_transfers r * 10;
          abuse_penalty = ucast (nr_abuse_penalties r * 50)
      in base + uptime_bonus + success_bonus - failure_penalty - abuse_penalty)"

definition recalculate :: "NodeReputation \<Rightarrow> NodeReputation" where
  "recalculate r = r\<lparr>nr_score := ucast (clamp_i64 (reputation_total r) 0 1000)\<rparr>"

definition record_transfer_success :: "NodeReputation \<Rightarrow> NodeReputation" where
  "record_transfer_success r = recalculate (r\<lparr>nr_successful_transfers := nr_successful_transfers r + 1\<rparr>)"

definition record_transfer_failure :: "NodeReputation \<Rightarrow> NodeReputation" where
  "record_transfer_failure r = recalculate (r\<lparr>nr_failed_transfers := nr_failed_transfers r + 1\<rparr>)"

definition record_uptime_heartbeat :: "NodeReputation \<Rightarrow> NodeReputation" where
  "record_uptime_heartbeat r = recalculate (r\<lparr>nr_uptime_events := nr_uptime_events r + 1\<rparr>)"

definition apply_abuse_penalty :: "NodeReputation \<Rightarrow> u32 \<Rightarrow> NodeReputation" where
  "apply_abuse_penalty r penalty = recalculate (r\<lparr>nr_abuse_penalties := nr_abuse_penalties r + penalty\<rparr>)"

definition is_trusted_peer :: "NodeReputation \<Rightarrow> bool" where
  "is_trusted_peer r \<longleftrightarrow> nr_score r \<ge> 700"

section \<open>Supervisor configuration and backoff\<close>

record SupervisorConfig =
  sc_heartbeat_interval_secs :: u64
  sc_initial_backoff_secs :: u64
  sc_max_backoff_secs :: u64
  sc_max_attempts_before_cap :: u32

definition SupervisorConfig_default :: SupervisorConfig where
  "SupervisorConfig_default = \<lparr> sc_heartbeat_interval_secs = 20, sc_initial_backoff_secs = 1,
     sc_max_backoff_secs = 60, sc_max_attempts_before_cap = 8 \<rparr>"

definition heartbeat :: "SupervisorConfig \<Rightarrow> u64" where
  "heartbeat c = max (sc_heartbeat_interval_secs c) 1"

definition backoff :: "SupervisorConfig \<Rightarrow> u32 \<Rightarrow> u64" where
  "backoff c failures =
     (let initial = max (sc_initial_backoff_secs c) 1;
          mx = max (sc_max_backoff_secs c) initial;
          shift = min (sat_sub failures 1) (max (sc_max_attempts_before_cap c) 1);
          seconds = sat_mul initial (push_bit (unat (min shift 20)) 1)
      in min seconds mx)"

section \<open>Supervision\<close>

record Counters =
  ct_connection_attempts :: u64
  ct_successful_sessions :: u64
  ct_reconnects :: u64
  ct_heartbeat_failures :: u64

text \<open>
  The points at which a worker waits: before an attempt, inside \<^verbatim>\<open>connect\<close>, inside a session (the
  heartbeat sleep or the ping), and in the backoff sleep, whose length is recorded.
\<close>

datatype worker_phase = LoopTop | Connecting | InSession | Backoff u64

record worker =
  wk_endpoint :: string
  wk_failures :: u32
  wk_sequence :: u64
  wk_phase :: worker_phase

record PeerSupervisor =
  ps_workers :: "worker list"
  ps_config :: SupervisorConfig
  ps_counters :: Counters

definition PeerSupervisor_new :: "string list \<Rightarrow> SupervisorConfig \<Rightarrow> PeerSupervisor result" where
  "PeerSupervisor_new endpoints config =
     (if endpoints = [] then Err ''peer supervisor requires at least one endpoint''
      else Ok \<lparr> ps_workers = map (\<lambda>e. \<lparr> wk_endpoint = e, wk_failures = 0, wk_sequence = 0, wk_phase = LoopTop \<rparr>) endpoints,
                ps_config = config,
                ps_counters = \<lparr> ct_connection_attempts = 0, ct_successful_sessions = 0, ct_reconnects = 0,
                  ct_heartbeat_failures = 0 \<rparr> \<rparr>)"

text \<open>What the network answers: whether the awaited call succeeded (ignored where nothing can fail).\<close>

fun supervise_endpoint :: "SupervisorConfig \<Rightarrow> bool \<Rightarrow> worker \<Rightarrow> Counters \<Rightarrow> worker \<times> Counters" where
  "supervise_endpoint cfg ok w c =
     (case wk_phase w of
        LoopTop \<Rightarrow>
          (w\<lparr>wk_phase := Connecting\<rparr>, c\<lparr>ct_connection_attempts := ct_connection_attempts c + 1\<rparr>)
      | Connecting \<Rightarrow>
          (if ok then (w\<lparr>wk_failures := 0, wk_phase := InSession\<rparr>,
                       c\<lparr>ct_successful_sessions := ct_successful_sessions c + 1\<rparr>)
           else (let failures = sat_add (wk_failures w) 1 in
                 (w\<lparr>wk_failures := failures, wk_phase := Backoff (backoff cfg failures)\<rparr>,
                  c\<lparr>ct_reconnects := ct_reconnects c + 1\<rparr>)))
      | InSession \<Rightarrow>
          (if ok then (w\<lparr>wk_sequence := wk_sequence w + 1\<rparr>, c)
           else (w\<lparr>wk_phase := Backoff (backoff cfg (wk_failures w))\<rparr>,
                 c\<lparr>ct_heartbeat_failures := ct_heartbeat_failures c + 1, ct_reconnects := ct_reconnects c + 1\<rparr>))
      | Backoff _ \<Rightarrow> (w\<lparr>wk_phase := LoopTop\<rparr>, c))"

definition supervisor_step :: "PeerSupervisor \<Rightarrow> nat \<Rightarrow> bool \<Rightarrow> PeerSupervisor" where
  "supervisor_step s i ok =
     (let (w, c) = supervise_endpoint (ps_config s) ok (ps_workers s ! i) (ps_counters s)
      in s\<lparr>ps_workers := (ps_workers s)[i := w], ps_counters := c\<rparr>)"

inductive supervises :: "PeerSupervisor \<Rightarrow> PeerSupervisor \<Rightarrow> bool" where
  here: "supervises s s"
| turn: "supervises s t \<Longrightarrow> i < length (ps_workers t) \<Longrightarrow> supervises s (supervisor_step t i ok)"

section \<open>Reputation: the score stays in range\<close>

lemma clamp_range: "sint lo \<le> sint hi \<Longrightarrow> sint lo \<le> sint (clamp_i64 x lo hi) \<and> sint (clamp_i64 x lo hi) \<le> sint hi"
  by (simp add: clamp_i64_def)

lemma sint_small_unat:
  fixes x :: "64 word"
  assumes "0 \<le> sint x"
  shows "int (unat x) = sint x"
proof -
  have "uint x = sint x mod 2 ^ 64"
    using uint_sint [of x] by (simp add: take_bit_eq_mod)
  moreover have "sint x < 2 ^ 63"
    using sint_less [of x] by simp
  ultimately show ?thesis
    using assms by simp
qed

lemma score_of_total: "unat (nr_score (recalculate r)) = nat (min (max (sint (reputation_total r)) 0) 1000)"
proof -
  define x where "x = clamp_i64 (reputation_total r) 0 1000"
  have s: "sint x = min (max (sint (reputation_total r)) 0) 1000"
    by (simp add: x_def clamp_i64_def)
  then have "int (unat x) = min (max (sint (reputation_total r)) 0) 1000"
    using sint_small_unat [of x] by simp
  then have u: "unat x = nat (min (max (sint (reputation_total r)) 0) 1000)"
    by linarith
  then have "unat x < 2 ^ 32"
    by auto
  then have "unat (ucast x :: u32) = unat x"
    by (simp add: unsigned_ucast_eq take_bit_nat_eq_self)
  then show ?thesis
    using u by (simp add: recalculate_def x_def)
qed

definition reputation_ok :: "NodeReputation \<Rightarrow> bool" where
  "reputation_ok r \<longleftrightarrow> unat (nr_score r) \<le> 1000"

lemma recalculate_ok [simp]: "reputation_ok (recalculate r)"
  by (simp add: reputation_ok_def score_of_total)

lemma reputation_ops_ok:
  "reputation_ok (NodeReputation_new i)" "reputation_ok (record_transfer_success r)"
  "reputation_ok (record_transfer_failure r)" "reputation_ok (record_uptime_heartbeat r)"
  "reputation_ok (apply_abuse_penalty r p)"
  by (simp_all add: record_transfer_success_def record_transfer_failure_def record_uptime_heartbeat_def
      apply_abuse_penalty_def) (simp add: reputation_ok_def NodeReputation_new_def)

text \<open>Below the wrap-around of the products, the total is the integer the names suggest.\<close>

lemma reputation_total_exact:
  assumes "unat (nr_failed_transfers r) * 10 < 2 ^ 60" "unat (nr_abuse_penalties r) * 50 < 2 ^ 32"
    and "unat (nr_uptime_events r) < 2 ^ 60" "unat (nr_successful_transfers r) < 2 ^ 60"
  shows "sint (reputation_total r) =
    500 + int (unat (nr_uptime_events r) div 10) + int (unat (nr_successful_transfers r) div 5)
      - int (unat (nr_failed_transfers r)) * 10 - int (unat (nr_abuse_penalties r)) * 50"
proof -
  define U S F A where "U = unat (nr_uptime_events r) div 10" and "S = unat (nr_successful_transfers r) div 5"
    and "F = unat (nr_failed_transfers r) * 10" and "A = unat (nr_abuse_penalties r) * 50"
  define v where "v = 500 + int U + int S - int F - int A"
  have bounds: "U < 2 ^ 60" "S < 2 ^ 60" "F < 2 ^ 60" "A < 2 ^ 32"
    using assms by (simp_all add: U_def S_def F_def A_def)
  have "unat (nr_abuse_penalties r * 50) = A"
    using assms by (simp add: A_def unat_word_ariths)
  then have "A = unat (ucast (nr_abuse_penalties r * 50) :: 64 word)"
    by (simp add: unat_ucast_up)
  then have a: "ucast (nr_abuse_penalties r * 50) = (word_of_int (int A) :: 64 word)"
    by simp
  have f: "nr_failed_transfers r * 10 = (word_of_int (int F) :: 64 word)"
    by (simp add: F_def)
  have u: "nr_uptime_events r div 10 = (word_of_int (int U) :: 64 word)"
    by (simp add: U_def word_arith_nat_div)
  have s: "nr_successful_transfers r div 5 = (word_of_int (int S) :: 64 word)"
    by (simp add: S_def word_arith_nat_div)
  have "reputation_total r = word_of_int v"
    unfolding reputation_total_def Let_def a f u s v_def by simp
  moreover have "- (2 ^ 63) \<le> v" "v < 2 ^ 63"
    using bounds by (simp_all add: v_def)
  ultimately have "sint (reputation_total r) = v"
    by (simp add: sint_sbintrunc' signed_take_bit_int_eq_self)
  then show ?thesis
    by (simp add: v_def U_def S_def F_def A_def)
qed

lemma reputation_score_exact:
  assumes "unat (nr_failed_transfers r) * 10 < 2 ^ 60" "unat (nr_abuse_penalties r) * 50 < 2 ^ 32"
    and "unat (nr_uptime_events r) < 2 ^ 60" "unat (nr_successful_transfers r) < 2 ^ 60"
  shows "int (unat (nr_score (recalculate r))) = min 1000 (max 0 (500
      + int (unat (nr_uptime_events r) div 10) + int (unat (nr_successful_transfers r) div 5)
      - int (unat (nr_failed_transfers r)) * 10 - int (unat (nr_abuse_penalties r)) * 50))"
  unfolding score_of_total reputation_total_exact [OF assms] by (simp add: min.commute max.commute)

text \<open>
  An abuse penalty below the wrap-around (and counters below \<open>2 ^ 60\<close>) never raises the score a
  node had when it was last recalculated, the score stays within 0 to 1000, and twenty points
  of penalty from a neutral node remove every trust; but the product is taken at 32 bits, so a
  penalty of 85899346 costs four points.
\<close>

theorem abuse_penalty_lowers_score:
  assumes "unat (nr_failed_transfers r) * 10 < 2 ^ 60"
    and "unat (nr_uptime_events r) < 2 ^ 60" "unat (nr_successful_transfers r) < 2 ^ 60"
    and nowrap: "(unat (nr_abuse_penalties r) + unat p) * 50 < 2 ^ 32"
  shows "unat (nr_score (apply_abuse_penalty (recalculate r) p)) \<le> unat (nr_score (recalculate r))
    \<and> unat (nr_score (apply_abuse_penalty (recalculate r) p)) \<le> 1000
    \<and> nr_score (apply_abuse_penalty (NodeReputation_new i) 10) = 0
    \<and> nr_score (apply_abuse_penalty (NodeReputation_new i) 85899346) = 496"
proof -
  have sum: "unat (nr_abuse_penalties r + p) = unat (nr_abuse_penalties r) + unat p"
    using nowrap by (simp add: unat_word_ariths)
  define r' where "r' = r\<lparr>nr_abuse_penalties := nr_abuse_penalties r + p\<rparr>"
  have eq: "nr_score (apply_abuse_penalty (recalculate r) p) = nr_score (recalculate r')"
    by (simp add: r'_def apply_abuse_penalty_def recalculate_def reputation_total_def)
  have same: "nr_failed_transfers r' = nr_failed_transfers r" "nr_uptime_events r' = nr_uptime_events r"
    "nr_successful_transfers r' = nr_successful_transfers r"
    "unat (nr_abuse_penalties r') = unat (nr_abuse_penalties r) + unat p"
    by (simp_all add: r'_def sum)
  have "int (unat (nr_score (recalculate r'))) \<le> int (unat (nr_score (recalculate r)))"
  proof (subst (1 2) reputation_score_exact)
    show "min 1000 (max 0 (500 + int (unat (nr_uptime_events r') div 10) + int (unat (nr_successful_transfers r') div 5)
        - int (unat (nr_failed_transfers r')) * 10 - int (unat (nr_abuse_penalties r')) * 50))
      \<le> min 1000 (max 0 (500 + int (unat (nr_uptime_events r) div 10) + int (unat (nr_successful_transfers r) div 5)
        - int (unat (nr_failed_transfers r)) * 10 - int (unat (nr_abuse_penalties r)) * 50))"
      unfolding same by (intro min.mono max.mono order.refl) simp
  qed (use assms same in auto)
  moreover have "unat (nr_score (recalculate r')) \<le> 1000"
    using recalculate_ok [of r'] by (simp add: reputation_ok_def)
  moreover have "nr_score (apply_abuse_penalty (NodeReputation_new i) 10) = 0"
    "nr_score (apply_abuse_penalty (NodeReputation_new i) 85899346) = 496"
    by (simp_all add: apply_abuse_penalty_def NodeReputation_new_def recalculate_def reputation_total_def clamp_i64_def)
  ultimately show ?thesis
    unfolding eq by (simp only: of_nat_le_iff simp_thms)
qed

theorem abuse_penalty_lowers_score_witness:
  "nr_score (apply_abuse_penalty (recalculate (NodeReputation_new [1])) 3) \<le> nr_score (recalculate (NodeReputation_new [1]))"
  using abuse_penalty_lowers_score [of "NodeReputation_new [1]" 3 "[1]"]
  by (simp add: NodeReputation_new_def word_le_nat_alt)

section \<open>Backoff: bounded, monotone, exponential\<close>

definition backoff_shift :: "SupervisorConfig \<Rightarrow> u32 \<Rightarrow> nat" where
  "backoff_shift c failures =
     min (min (unat failures - 1) (max (unat (sc_max_attempts_before_cap c)) 1)) 20"

lemma unat_backoff:
  "unat (backoff c failures) =
     min (min (max (unat (sc_initial_backoff_secs c)) 1 * 2 ^ backoff_shift c failures) (2 ^ 64 - 1))
         (max (unat (sc_max_backoff_secs c)) (max (unat (sc_initial_backoff_secs c)) 1))"
proof -
  have "unat (min (min (sat_sub failures 1) (max (sc_max_attempts_before_cap c) 1)) 20) = backoff_shift c failures"
    by (simp add: backoff_shift_def unat_min unat_max unat_simps)
  moreover have "unat (push_bit (backoff_shift c failures) 1 :: u64) = 2 ^ backoff_shift c failures"
  proof -
    have "(2 :: nat) ^ backoff_shift c failures \<le> 2 ^ 20"
      by (rule power_increasing) (simp_all add: backoff_shift_def)
    then have "(2 :: nat) ^ backoff_shift c failures < 2 ^ 64"
      by (rule le_less_trans) simp
    then have "unat (of_nat (2 ^ backoff_shift c failures) :: u64) = 2 ^ backoff_shift c failures"
      by (intro unat_of_nat_small) simp
    then show ?thesis
      by (simp add: push_bit_eq_mult)
  qed
  ultimately show ?thesis
    by (simp add: backoff_def Let_def unat_min unat_max unat_sat_mul)
qed

text \<open>
  The reconnect delay of the supervisor: never shorter than the initial delay and never longer
  than the configured maximum (each read as at least one second), growing with the number of
  consecutive failures, doubling at each failure until a cap is met, for every configuration.
\<close>

theorem backoff_bounded_and_monotone:
  assumes "f \<le> g"
  shows "max (unat (sc_initial_backoff_secs c)) 1 \<le> unat (backoff c f)
    \<and> unat (backoff c f) \<le> unat (backoff c g)
    \<and> unat (backoff c g) \<le> max (unat (sc_max_backoff_secs c)) (max (unat (sc_initial_backoff_secs c)) 1)
    \<and> backoff SupervisorConfig_default 4 = 8 \<and> backoff SupervisorConfig_default 12 = 60"
proof -
  have le: "unat (sc_initial_backoff_secs c) \<le> 2 ^ 64 - 1"
    using unat_less_pow [of "sc_initial_backoff_secs c"] by simp
  have pow: "(1::nat) \<le> 2 ^ backoff_shift c f" "(2::nat) ^ backoff_shift c f \<le> 2 ^ backoff_shift c g"
    using assms by (auto intro!: power_increasing simp: backoff_shift_def word_le_nat_alt)
  define I where "I = max (unat (sc_initial_backoff_secs c)) 1"
  have I: "I \<le> 2 ^ 64 - 1" "I \<le> I * 2 ^ backoff_shift c f" "I * 2 ^ backoff_shift c f \<le> I * 2 ^ backoff_shift c g"
    using le pow mult_le_mono2 [of 1 "2 ^ backoff_shift c f" I] by (simp_all add: I_def)
  have "I \<le> unat (backoff c f)" "unat (backoff c f) \<le> unat (backoff c g)"
    "unat (backoff c g) \<le> max (unat (sc_max_backoff_secs c)) I"
    using I unfolding unat_backoff I_def [symmetric]
    by (simp, intro min.mono order.refl, simp, simp)
  moreover have "backoff SupervisorConfig_default 4 = 8" "backoff SupervisorConfig_default 12 = 60"
    by (simp_all add: backoff_def SupervisorConfig_default_def sat_sub_def sat_mul_def min_def max_def push_bit_eq_mult word_le_nat_alt)
  ultimately show ?thesis
    by (simp add: I_def)
qed

theorem backoff_bounded_and_monotone_witness:
  "unat (backoff SupervisorConfig_default 2) \<le> unat (backoff SupervisorConfig_default 3)"
  using backoff_bounded_and_monotone [of 2 3 SupervisorConfig_default] by simp

section \<open>Supervision: the shared counters account for every worker\<close>

definition awaiting :: "worker \<Rightarrow> bool" where
  "awaiting w \<longleftrightarrow> wk_phase w \<in> {Connecting, InSession}"

definition in_session :: "worker \<Rightarrow> bool" where
  "in_session w \<longleftrightarrow> wk_phase w = InSession"

fun worker_ok :: "SupervisorConfig \<Rightarrow> worker \<Rightarrow> bool" where
  "worker_ok cfg w \<longleftrightarrow>
     (wk_phase w = InSession \<longrightarrow> wk_failures w = 0) \<and>
     (\<forall>d. wk_phase w = Backoff d \<longrightarrow> d = backoff cfg (wk_failures w))"

definition supervisor_inv :: "PeerSupervisor \<Rightarrow> bool" where
  "supervisor_inv s \<longleftrightarrow>
     ct_connection_attempts (ps_counters s) =
       ct_reconnects (ps_counters s) + of_nat (length (filter awaiting (ps_workers s)))
   \<and> ct_successful_sessions (ps_counters s) =
       ct_heartbeat_failures (ps_counters s) + of_nat (length (filter in_session (ps_workers s)))
   \<and> (\<forall>w \<in> set (ps_workers s). worker_ok (ps_config s) w)"

lemma filter_update_count:
  assumes "i < length ws"
  shows "(of_nat (length (filter Q (ws[i := w]))) :: 'a::len word) + (if Q (ws ! i) then 1 else 0)
       = of_nat (length (filter Q ws)) + (if Q w then 1 else 0)"
proof -
  have "length (filter Q (ws[i := w])) + of_bool (Q (ws ! i)) = length (filter Q ws) + of_bool (Q w)"
    using assms
  proof (induction ws arbitrary: i)
    case (Cons x ws)
    then show ?case
      by (cases i) (auto split: if_splits)
  qed simp
  from arg_cong [OF this, of "of_nat :: nat \<Rightarrow> 'a word"] show ?thesis
    by (cases "Q w"; cases "Q (ws ! i)"; simp add: add.commute)
qed

lemma counter_balance:
  fixes a :: "'a::ab_group_add"
  assumes "a' + r + x = a + r' + x'" "n' + x = n + x'" "a = r + n"
  shows "a' = r' + n'"
proof -
  have "a' + r + x = r + r' + (n + x')"
    unfolding assms(1,3) by (simp only: ac_simps)
  also have "\<dots> = (r' + n') + r + x"
    unfolding assms(2) [symmetric] by (simp only: ac_simps)
  finally show ?thesis by simp
qed

lemma supervisor_step_frame [simp]:
  "ps_config (supervisor_step s i ok) = ps_config s"
  "length (ps_workers (supervisor_step s i ok)) = length (ps_workers s)"
  by (simp_all add: supervisor_step_def split: prod.splits)

lemma supervise_endpoint_counts:
  assumes "supervise_endpoint cfg ok w c = (w', c')" "worker_ok cfg w"
  shows "worker_ok cfg w'"
    and "ct_connection_attempts c' + ct_reconnects c + (if awaiting w then 1 else 0)
       = ct_connection_attempts c + ct_reconnects c' + (if awaiting w' then 1 else 0)"
    and "ct_successful_sessions c' + ct_heartbeat_failures c + (if in_session w then 1 else 0)
       = ct_successful_sessions c + ct_heartbeat_failures c' + (if in_session w' then 1 else 0)"
  using assms
  by (auto simp: awaiting_def in_session_def Let_def algebra_simps split: worker_phase.splits if_splits)

lemma supervisor_step_inv:
  assumes inv: "supervisor_inv s" and i: "i < length (ps_workers s)"
  shows "supervisor_inv (supervisor_step s i ok)"
proof -
  let ?ws = "ps_workers s" and ?c = "ps_counters s"
  obtain w' c' where st: "supervise_endpoint (ps_config s) ok (?ws ! i) ?c = (w', c')"
    by fastforce
  have ok: "worker_ok (ps_config s) (?ws ! i)"
    using inv i by (simp add: supervisor_inv_def)
  note cnt = supervise_endpoint_counts [OF st ok]
  note upd = filter_update_count [OF i, where w = w']
  have s': "supervisor_step s i ok = s\<lparr>ps_workers := ?ws[i := w'], ps_counters := c'\<rparr>"
    using st by (simp add: supervisor_step_def)
  have "ct_connection_attempts c' = ct_reconnects c' + of_nat (length (filter awaiting (?ws[i := w'])))"
    using counter_balance [OF cnt(2) upd [of awaiting]] inv by (simp add: supervisor_inv_def)
  moreover have "ct_successful_sessions c' = ct_heartbeat_failures c' + of_nat (length (filter in_session (?ws[i := w'])))"
    using counter_balance [OF cnt(3) upd [of in_session]] inv by (simp add: supervisor_inv_def)
  moreover have "\<forall>w \<in> set (?ws[i := w']). worker_ok (ps_config s) w"
    using inv cnt(1) set_update_subset_insert [of ?ws i w'] unfolding supervisor_inv_def by blast
  ultimately show ?thesis
    unfolding s' supervisor_inv_def by simp
qed

lemma new_supervisor_inv: "PeerSupervisor_new es cfg = Ok s \<Longrightarrow> supervisor_inv s"
  by (auto simp: PeerSupervisor_new_def supervisor_inv_def awaiting_def in_session_def split: if_splits)

lemma supervises_inv: "supervises s t \<Longrightarrow> supervisor_inv s \<Longrightarrow> supervisor_inv t"
  by (induction rule: supervises.induct) (simp_all add: supervisor_step_inv)

text \<open>C34. 
  However the turns of the workers interleave and whatever the network answers, the connection
  attempts are the reconnects plus the workers waiting in a connect or a session, the sessions
  opened are the failed heartbeats plus the sessions that are open (both modulo \<open>2 ^ 64\<close>), a worker
  in a session has forgotten its failures, and a sleeping one waits for the backoff of its failures.
\<close>

theorem supervisor_counters_account:
  assumes "PeerSupervisor_new es cfg = Ok s" and "supervises s t"
  shows "ct_connection_attempts (ps_counters t) =
           ct_reconnects (ps_counters t) + of_nat (length (filter awaiting (ps_workers t)))
       \<and> ct_successful_sessions (ps_counters t) =
           ct_heartbeat_failures (ps_counters t) + of_nat (length (filter in_session (ps_workers t)))
       \<and> (\<forall>w \<in> set (ps_workers t). worker_ok (ps_config t) w)"
  using supervises_inv [OF assms(2) new_supervisor_inv [OF assms(1)]] by (simp add: supervisor_inv_def)

definition demo_supervisor :: PeerSupervisor where
  "demo_supervisor = (case PeerSupervisor_new [''10.0.0.1:7000''] SupervisorConfig_default of Inr s \<Rightarrow> s)"

theorem supervisor_counters_account_witness:
  "ct_connection_attempts (ps_counters (supervisor_step demo_supervisor 0 True)) = 1"
proof -
  have new: "PeerSupervisor_new [''10.0.0.1:7000''] SupervisorConfig_default = Ok demo_supervisor"
    by (simp add: demo_supervisor_def PeerSupervisor_new_def)
  have "supervises demo_supervisor (supervisor_step demo_supervisor 0 True)"
    by (rule supervises.turn [OF supervises.here]) (simp add: demo_supervisor_def PeerSupervisor_new_def)
  from supervisor_counters_account [OF new this] show ?thesis
    by (simp add: demo_supervisor_def PeerSupervisor_new_def supervisor_step_def awaiting_def)
qed

end
