(* ===== verification/Replication.thy ===== *)
theory Replication
  imports Crypto "HOL-Library.Multiset"
begin

text \<open>
  Replica placement, health and repair (core/src/replication.rs, core/src/repair.rs).

  A file is cut into shards and every shard goes to three distinct nodes. The plain planner ranks
  the candidate nodes of each shard by a digest; the capacity-limited planner takes the three least
  loaded nodes, at most 100 shards on each. A \<^verbatim>\<open>BTreeSet<String>\<close> is its sorted element list; \<^verbatim>\<open>usize\<close> is
  \<^typ>\<open>nat\<close> and a shard index is stored as \<^verbatim>\<open>u16\<close>.
  The lemmas show that a plan never invents nodes, that the greedy balancing keeps the loads within
  one of each other and therefore always succeeds with thirty nodes, and that the planned repairs
  bring a damaged shard back to three distinct online replicas.
\<close>

section \<open>Planning\<close>

definition REQUIRED_SHARDS :: nat where
  "REQUIRED_SHARDS = 1000"
definition REQUIRED_REPLICAS :: nat where
  "REQUIRED_REPLICAS = 3"
definition MAX_SHARDS_PER_NODE :: nat where
  "MAX_SHARDS_PER_NODE = 100"
definition MIN_NODES_FOR_CAPACITY_LIMIT :: nat where
  "MIN_NODES_FOR_CAPACITY_LIMIT =
     (REQUIRED_SHARDS * REQUIRED_REPLICAS + MAX_SHARDS_PER_NODE - 1) div MAX_SHARDS_PER_NODE"

record ReplicaPlacement =
  rp_shard_index :: u16
  rp_nodes :: "string list"

record PlacementPlan =
  pp_file_id :: bytes
  pp_shards :: nat
  pp_replicas_per_shard :: nat
  pp_placements :: "ReplicaPlacement list"

record ReplicaHealth =
  rh_shard_index :: u16
  rh_available_nodes :: "string list"
  rh_missing_replicas :: nat
  rh_healthy :: bool

text \<open>\<^verbatim>\<open>sort\<close> followed by \<^verbatim>\<open>dedup\<close>.\<close>

definition sort_dedup :: "'a::linorder list \<Rightarrow> 'a list" where
  "sort_dedup xs = remdups_adj (sort xs)"

definition replica_seed :: "bytes \<Rightarrow> nat \<Rightarrow> string \<Rightarrow> bytes" where
  "replica_seed file_id shard_index node =
     file_id @ to_be_bytes_u64 (of_nat shard_index) @ as_bytes node"

definition select_replicas :: "'a prims_scheme \<Rightarrow> bytes \<Rightarrow> nat \<Rightarrow> string list \<Rightarrow> string list" where
  "select_replicas P file_id shard_index nodes =
     (let candidates = sort_dedup (filter (\<lambda>n. n \<noteq> []) nodes)
      in if length candidates \<le> REQUIRED_REPLICAS then candidates
         else take REQUIRED_REPLICAS (sort_key (\<lambda>n. blake3 P (replica_seed file_id shard_index n)) candidates))"

definition clamp_nat :: "nat \<Rightarrow> nat \<Rightarrow> nat \<Rightarrow> nat" where
  "clamp_nat x lo hi = (if x < lo then lo else if hi < x then hi else x)"

definition build_plan_for_shards ::
  "'a prims_scheme \<Rightarrow> bytes \<Rightarrow> string list \<Rightarrow> nat \<Rightarrow> PlacementPlan result" where
  "build_plan_for_shards P file_id nodes shard_count =
     (let unique = fold (\<lambda>n u. if n \<noteq> [] then insort_insert n u else u) nodes []
      in if length unique < REQUIRED_REPLICAS
         then Err ''at least three distinct storage nodes are required''
         else let shard_count = clamp_nat shard_count 12 REQUIRED_SHARDS;
                  placements = map (\<lambda>i. \<lparr> rp_shard_index = of_nat i,
                                          rp_nodes = select_replicas P file_id i unique \<rparr>) [0..<shard_count]
              in Ok \<lparr> pp_file_id = file_id, pp_shards = shard_count,
                      pp_replicas_per_shard = REQUIRED_REPLICAS, pp_placements = placements \<rparr>)"

definition build_plan :: "'a prims_scheme \<Rightarrow> bytes \<Rightarrow> string list \<Rightarrow> PlacementPlan result" where
  "build_plan P file_id nodes = build_plan_for_shards P file_id nodes REQUIRED_SHARDS"

definition assess :: "PlacementPlan \<Rightarrow> string list \<Rightarrow> ReplicaHealth list" where
  "assess plan online_nodes =
     map (\<lambda>p. let available_nodes = filter (\<lambda>n. n \<in> set online_nodes) (rp_nodes p);
                  missing_replicas = REQUIRED_REPLICAS - length available_nodes
              in \<lparr> rh_shard_index = rp_shard_index p, rh_available_nodes = available_nodes,
                   rh_missing_replicas = missing_replicas, rh_healthy = (missing_replicas = 0) \<rparr>)
       (pp_placements plan)"

section \<open>Capacity-limited planning\<close>

definition placement_seed :: "bytes \<Rightarrow> nat \<Rightarrow> string \<Rightarrow> bytes" where
  "placement_seed file_id shard_index node =
     as_bytes ''AWE/PLACEMENT/v1'' @ file_id @ to_be_bytes_u64 (of_nat shard_index) @ as_bytes node"

definition rank_nodes ::
  "'a prims_scheme \<Rightarrow> bytes \<Rightarrow> string list \<Rightarrow> nat list \<Rightarrow> nat \<Rightarrow> (nat \<times> bytes) list" where
  "rank_nodes P file_id unique loads shard_index =
     sort_key (\<lambda>(i, score). (loads ! i, score, unique ! i))
       (filter (\<lambda>(i, score). loads ! i < MAX_SHARDS_PER_NODE)
         (map (\<lambda>(i, node). (i, blake3 P (placement_seed file_id shard_index node))) (enumerate 0 unique)))"

definition add_loads :: "nat list \<Rightarrow> nat list \<Rightarrow> nat list" where
  "add_loads is loads = fold (\<lambda>i l. l[i := l ! i + 1]) is loads"

fun place_shards ::
  "'a prims_scheme \<Rightarrow> bytes \<Rightarrow> string list \<Rightarrow> nat list \<Rightarrow> nat \<Rightarrow> nat \<Rightarrow> ReplicaPlacement list result" where
  "place_shards P file_id unique loads shard_index 0 = Ok []"
| "place_shards P file_id unique loads shard_index (Suc n) =
     (let ranked = rank_nodes P file_id unique loads shard_index
      in if length ranked < REQUIRED_REPLICAS then Err ''capacity exhausted while placing shard''
         else let chosen = map fst (take REQUIRED_REPLICAS ranked)
              in case place_shards P file_id unique (add_loads chosen loads) (shard_index + 1) n of
                   Inl e \<Rightarrow> Inl e
                 | Inr ps \<Rightarrow> Ok (\<lparr> rp_shard_index = of_nat shard_index, rp_nodes = map ((!) unique) chosen \<rparr> # ps))"

definition build_capacity_limited_plan ::
  "'a prims_scheme \<Rightarrow> bytes \<Rightarrow> string list \<Rightarrow> PlacementPlan result" where
  "build_capacity_limited_plan P file_id nodes =
     (let unique = sort_dedup (filter (\<lambda>n. n \<noteq> []) nodes)
      in if length unique < MIN_NODES_FOR_CAPACITY_LIMIT
         then Err ''at least 30 distinct storage nodes are required''
         else case place_shards P file_id unique (replicate (length unique) 0) 0 REQUIRED_SHARDS of
                Inl e \<Rightarrow> Inl e
              | Inr placements \<Rightarrow> Ok \<lparr> pp_file_id = file_id, pp_shards = REQUIRED_SHARDS,
                  pp_replicas_per_shard = REQUIRED_REPLICAS, pp_placements = placements \<rparr>)"

section \<open>Repair\<close>

definition repair_for :: "PlacementPlan \<Rightarrow> string list \<Rightarrow> ReplicaHealth \<Rightarrow> (u16 \<times> string list) option" where
  "repair_for plan online_nodes h =
     (case find (\<lambda>p. rp_shard_index p = rh_shard_index h) (pp_placements plan) of
        None \<Rightarrow> None
      | Some p \<Rightarrow>
          let candidates = sort (filter (\<lambda>n. n \<notin> set (rp_nodes p)) online_nodes);
              needed = REQUIRED_REPLICAS - length (rh_available_nodes h);
              chosen = take needed candidates
          in if length chosen = needed then Some (rh_shard_index h, chosen) else None)"

definition plan_repairs :: "PlacementPlan \<Rightarrow> ReplicaHealth list \<Rightarrow> string list \<Rightarrow> (u16 \<times> string list) list" where
  "plan_repairs plan health online_nodes =
     List.map_filter (repair_for plan online_nodes) (filter (\<lambda>h. rh_missing_replicas h > 0) health)"

section \<open>Selection\<close>

lemma sort_dedup_simps [simp]:
  "set (sort_dedup xs) = set xs" "distinct (sort_dedup xs)" "sorted (sort_dedup xs)"
  by (simp_all add: sort_dedup_def sorted_remdups_adj remdups_adj_distinct_sorted)

lemma length_sort_dedup: "length (sort_dedup xs) = card (set xs)"
  by (metis distinct_card sort_dedup_simps(1,2))

lemma REQUIRED_simps [simp]: "REQUIRED_SHARDS = 1000" "REQUIRED_REPLICAS = 3" "MAX_SHARDS_PER_NODE = 100"
  "MIN_NODES_FOR_CAPACITY_LIMIT = 30"
  by (simp_all add: REQUIRED_SHARDS_def REQUIRED_REPLICAS_def MAX_SHARDS_PER_NODE_def MIN_NODES_FOR_CAPACITY_LIMIT_def)

lemma select_replicas_sound:
  "distinct (select_replicas P f i ns)" "set (select_replicas P f i ns) \<subseteq> set ns - {[]}"
  "length (select_replicas P f i ns) = min 3 (card (set ns - {[]}))"
proof -
  let ?c = "sort_dedup (filter (\<lambda>n. n \<noteq> []) ns)"
  have eq: "{x \<in> set ns. x \<noteq> []} = set ns - {[]}" by auto
  then have c: "set ?c = set ns - {[]}" "length ?c = card (set ns - {[]})"
    by (simp_all add: length_sort_dedup)
  show "distinct (select_replicas P f i ns)"
    by (simp add: select_replicas_def Let_def)
  show "set (select_replicas P f i ns) \<subseteq> set ns - {[]}"
    using c(1) set_take_subset [of 3 "sort_key (\<lambda>n. blake3 P (replica_seed f i n)) ?c"]
    by (simp add: select_replicas_def Let_def)
  show "length (select_replicas P f i ns) = min 3 (card (set ns - {[]}))"
    using c(2) by (simp add: select_replicas_def Let_def)
qed

lemma insort_insert_loop:
  assumes "sorted u" "distinct u"
  shows "sorted (fold (\<lambda>n u. if n \<noteq> [] then insort_insert n u else u) ns u)"
    and "distinct (fold (\<lambda>n u. if n \<noteq> [] then insort_insert n u else u) ns u)"
    and "set (fold (\<lambda>n u. if n \<noteq> [] then insort_insert n u else u) ns u) = (set ns - {[]}) \<union> set u"
  using assms
  by (induction ns arbitrary: u) (auto simp: sorted_insort_insert distinct_insort_insert set_insort_insert)

section \<open>Greedy balancing\<close>

definition balanced :: "nat list \<Rightarrow> bool" where
  "balanced loads \<longleftrightarrow> (\<forall>i < length loads. \<forall>j < length loads. loads ! i \<le> loads ! j + 1)"

lemma length_add_loads [simp]: "length (add_loads is loads) = length loads"
  by (induction "is" arbitrary: loads) (simp_all add: add_loads_def)

lemma nth_add_loads:
  assumes "distinct is" "j < length loads"
  shows "add_loads is loads ! j = loads ! j + (if j \<in> set is then 1 else 0)"
  using assms
proof (induction "is" arbitrary: loads)
  case (Cons i "is")
  have "add_loads (i # is) loads = add_loads is (loads[i := loads ! i + 1])"
    by (simp add: add_loads_def)
  then show ?case
    using Cons by (cases "i = j") auto
qed (simp add: add_loads_def)

lemma sum_add_loads:
  assumes "\<forall>i \<in> set is. i < length loads"
  shows "sum_list (add_loads is loads) = sum_list loads + length is"
  using assms
proof (induction "is" arbitrary: loads)
  case (Cons i "is")
  have "add_loads (i # is) loads = add_loads is (loads[i := loads ! i + 1])"
    by (simp add: add_loads_def)
  moreover have "sum_list (loads[i := loads ! i + 1]) = sum_list loads + 1"
    using sum_list_map_update [of i loads "\<lambda>x. x" "loads ! i + 1"] Cons.prems by simp
  ultimately show ?case
    using Cons by simp
qed (simp add: add_loads_def)

lemma rank_nodes_facts:
  shows "distinct (map fst (rank_nodes P f u l s))"
    and "set (map fst (rank_nodes P f u l s)) = {i. i < length u \<and> l ! i < 100}"
    and "sorted (map ((!) l) (map fst (rank_nodes P f u l s)))"
proof -
  let ?score = "\<lambda>(i, node). (i, blake3 P (placement_seed f s node))"
  let ?xs = "filter (\<lambda>(i, score). l ! i < 100) (map ?score (enumerate 0 u))"
  let ?key = "\<lambda>(i, score). (l ! i, score, u ! i)"
  have r: "rank_nodes P f u l s = sort_key ?key ?xs"
    by (simp add: rank_nodes_def)
  have fst_eq: "map fst ?xs = filter (\<lambda>i. l ! i < 100) [0..<length u]"
    using filter_map [of "\<lambda>i. l ! i < 100" fst "enumerate 0 u"]
    by (simp add: filter_map comp_def split_def)
  have "mset (map fst (sort_key ?key ?xs)) = mset (map fst ?xs)"
    by (simp only: mset_map mset_sort)
  then have perm: "mset (map fst (rank_nodes P f u l s)) = mset (filter (\<lambda>i. l ! i < 100) [0..<length u])"
    unfolding r fst_eq .
  have "distinct (filter (\<lambda>i. l ! i < 100) [0..<length u])"
    by simp
  then show "distinct (map fst (rank_nodes P f u l s))"
    using mset_eq_imp_distinct_iff [OF perm] by blast
  from perm
  show "set (map fst (rank_nodes P f u l s)) = {i. i < length u \<and> l ! i < 100}"
    using mset_eq_setD by fastforce
  have "sorted (map ?key (rank_nodes P f u l s))"
    unfolding r by (rule sorted_sort_key)
  then show "sorted (map ((!) l) (map fst (rank_nodes P f u l s)))"
    unfolding sorted_map map_map by (rule sorted_wrt_mono_rel [rotated]) (auto simp: less_eq_prod_def)
qed

text \<open>The three chosen nodes are the least loaded ones, so one step keeps the loads balanced.\<close>

definition chosen_nodes :: "'a prims_scheme \<Rightarrow> bytes \<Rightarrow> string list \<Rightarrow> nat list \<Rightarrow> nat \<Rightarrow> nat list" where
  "chosen_nodes P f u l s = map fst (take 3 (rank_nodes P f u l s))"

lemma chosen_facts:
  assumes "length l = length u"
  shows "distinct (chosen_nodes P f u l s)"
    and "i \<in> set (chosen_nodes P f u l s) \<Longrightarrow> i < length u \<and> l ! i < 100"
    and "i \<in> set (chosen_nodes P f u l s) \<Longrightarrow> j < length u \<Longrightarrow> j \<notin> set (chosen_nodes P f u l s) \<Longrightarrow> l ! i \<le> l ! j"
proof -
  let ?r = "map fst (rank_nodes P f u l s)"
  have c: "chosen_nodes P f u l s = take 3 ?r"
    by (simp add: chosen_nodes_def take_map)
  note facts = rank_nodes_facts [where P = P and f = f and u = u and l = l and s = s]
  show "distinct (chosen_nodes P f u l s)"
    unfolding c using facts(1) by (rule distinct_take)
  show mem: "i < length u \<and> l ! i < 100" if "i \<in> set (chosen_nodes P f u l s)" for i
  proof -
    have "i \<in> set ?r"
      using that unfolding c by (rule in_set_takeD)
    then show ?thesis
      unfolding facts(2) by blast
  qed
  show "l ! i \<le> l ! j"
    if i: "i \<in> set (chosen_nodes P f u l s)" and j: "j < length u" "j \<notin> set (chosen_nodes P f u l s)"
  proof (cases "l ! j < 100")
    case True
    then have "j \<in> set ?r"
      using facts(2) j(1) by blast
    moreover have "set ?r = set (take 3 ?r) \<union> set (drop 3 ?r)"
      by (metis append_take_drop_id set_append)
    ultimately have "j \<in> set (drop 3 ?r)"
      using j(2) c by auto
    moreover have "sorted (map ((!) l) (take 3 ?r) @ map ((!) l) (drop 3 ?r))"
      using facts(3) by (metis append_take_drop_id map_append)
    ultimately show ?thesis
      using i c by (auto simp: sorted_append)
  next
    case False
    then show ?thesis
      using mem [OF i] by simp
  qed
qed

lemma balanced_step:
  assumes len: "length l = length u" and "balanced l"
  shows "balanced (add_loads (chosen_nodes P f u l s) l)"
  unfolding balanced_def
proof (intro allI impI)
  fix i j
  assume ij: "i < length (add_loads (chosen_nodes P f u l s) l)" "j < length (add_loads (chosen_nodes P f u l s) l)"
  note c = chosen_facts [OF len, where P = P and f = f and s = s]
  have "l ! i \<le> l ! j + 1"
    using assms(2) ij by (simp add: balanced_def)
  then show "add_loads (chosen_nodes P f u l s) l ! i \<le> add_loads (chosen_nodes P f u l s) l ! j + 1"
    using ij c(3) [of i j] len by (simp add: nth_add_loads [OF c(1)])
qed

lemma room_for_three:
  assumes len: "length l = length u" "30 \<le> length u" and bal: "balanced l"
    and cap: "\<forall>i < length l. l ! i \<le> 100" and sum: "sum_list l \<le> 2997"
  shows "3 \<le> length (rank_nodes P f u l s)"
proof -
  let ?free = "{i. i < length u \<and> l ! i < 100}"
  have card: "length (rank_nodes P f u l s) = card ?free"
    using distinct_card [OF rank_nodes_facts(1) [of P f u l s]]
    unfolding rank_nodes_facts(2) length_map by (rule sym)
  show ?thesis
  proof (cases "\<exists>i < length u. l ! i = 100")
    case False
    then have "?free = {..<length u}"
      using cap len by (auto simp: order.order_iff_strict)
    then show ?thesis
      using card len by simp
  next
    case True
    then obtain m where m: "m < length u" "l ! m = 100" by blast
    have lo: "99 \<le> l ! i" if "i < length u" for i
      using bal m that len by (force simp: balanced_def)
    have "100 \<le> l ! i + (if l ! i < 100 then 1 else 0)" if "i < length u" for i
      using lo [OF that] by simp
    then have "(\<Sum>i<length u. 100) \<le> (\<Sum>i<length u. l ! i + (if l ! i < 100 then 1 else 0))"
      by (intro sum_mono) simp
    also have "\<dots> = sum_list l + card ?free"
      using len(1) by (simp add: sum.distrib sum_list_sum_nth atLeast0LessThan sum.If_cases Int_def flip: lessThan_iff)
    finally show ?thesis
      using card len(2) sum by simp
  qed
qed

text \<open>The invariant of the planning loop after \<open>k\<close> shards.\<close>

definition loads_ok :: "string list \<Rightarrow> nat list \<Rightarrow> nat \<Rightarrow> bool" where
  "loads_ok u l k \<longleftrightarrow> length l = length u \<and> 30 \<le> length u \<and> distinct u \<and> balanced l
     \<and> (\<forall>i < length l. l ! i \<le> 100) \<and> sum_list l = 3 * k"

lemma loads_ok_step:
  assumes ok: "loads_ok u l k" and k: "k < 1000"
  shows "3 \<le> length (rank_nodes P f u l s)"
    and "length (chosen_nodes P f u l s) = 3"
    and "loads_ok u (add_loads (chosen_nodes P f u l s) l) (k + 1)"
proof -
  have len: "length l = length u"
    using ok by (simp add: loads_ok_def)
  show three: "3 \<le> length (rank_nodes P f u l s)"
    using ok k by (intro room_for_three) (auto simp: loads_ok_def)
  then show n: "length (chosen_nodes P f u l s) = 3"
    by (simp add: chosen_nodes_def)
  note c = chosen_facts [OF len, where P = P and f = f and s = s]
  have "sum_list (add_loads (chosen_nodes P f u l s) l) = sum_list l + 3"
    using c(2) len n by (simp add: sum_add_loads)
  moreover have "\<forall>i < length l. add_loads (chosen_nodes P f u l s) l ! i \<le> 100"
    using c(2) ok by (auto simp: nth_add_loads [OF c(1)] loads_ok_def Suc_le_eq)
  moreover have "balanced (add_loads (chosen_nodes P f u l s) l)"
    using ok len by (intro balanced_step) (simp_all add: loads_ok_def)
  ultimately show "loads_ok u (add_loads (chosen_nodes P f u l s) l) (k + 1)"
    using ok by (simp add: loads_ok_def)
qed

lemma place_shards_Suc:
  "place_shards P f u l s (Suc n) =
     (if length (rank_nodes P f u l s) < 3 then Err ''capacity exhausted while placing shard''
      else case place_shards P f u (add_loads (chosen_nodes P f u l s) l) (s + 1) n of
             Inl e \<Rightarrow> Inl e
           | Inr ps \<Rightarrow> Ok (\<lparr> rp_shard_index = of_nat s, rp_nodes = map ((!) u) (chosen_nodes P f u l s) \<rparr> # ps))"
  unfolding place_shards.simps chosen_nodes_def Let_def REQUIRED_simps by (rule refl)

definition hosted :: "string \<Rightarrow> ReplicaPlacement list \<Rightarrow> nat" where
  "hosted n ps = length (filter (\<lambda>p. n \<in> set (rp_nodes p)) ps)"

text \<open>What the loop returns: an entry per shard, three distinct nodes in each, and no node above 100.\<close>

definition placements_ok :: "string list \<Rightarrow> nat list \<Rightarrow> nat \<Rightarrow> nat \<Rightarrow> ReplicaPlacement list \<Rightarrow> bool" where
  "placements_ok u l s n ps \<longleftrightarrow> map rp_shard_index ps = map of_nat [s..<s + n]
     \<and> (\<forall>p \<in> set ps. length (rp_nodes p) = 3 \<and> distinct (rp_nodes p) \<and> set (rp_nodes p) \<subseteq> set u)
     \<and> (\<forall>i < length u. l ! i + hosted (u ! i) ps \<le> 100)"

lemma place_shards_ok:
  assumes "loads_ok u l k" "k + n \<le> 1000"
  shows "\<exists>ps. place_shards P f u l s n = Ok ps \<and> placements_ok u l s n ps"
  using assms
proof (induction n arbitrary: l k s)
  case 0
  then show ?case
    by (auto simp: placements_ok_def hosted_def loads_ok_def)
next
  case (Suc n)
  let ?c = "chosen_nodes P f u l s"
  have len: "length l = length u" and "distinct u"
    using Suc.prems by (simp_all add: loads_ok_def)
  have k: "k < 1000" using Suc.prems by simp
  note step = loads_ok_step [OF Suc.prems(1) k, of P f s]
  note c = chosen_facts [OF len, where P = P and f = f and s = s]
  obtain ps where ps: "place_shards P f u (add_loads ?c l) (s + 1) n = Ok ps"
    "placements_ok u (add_loads ?c l) (s + 1) n ps"
    using Suc.IH [OF step(3), of "s + 1"] Suc.prems by auto
  let ?p = "\<lparr> rp_shard_index = of_nat s, rp_nodes = map ((!) u) ?c \<rparr>"
  have inj: "inj_on ((!) u) (set ?c)"
    using c(2) \<open>distinct u\<close> by (auto simp: inj_on_def nth_eq_iff_index_eq)
  have in_p: "u ! i \<in> set (rp_nodes ?p) \<longleftrightarrow> i \<in> set ?c" if "i < length u" for i
    using that c(2) \<open>distinct u\<close> by (force simp: nth_eq_iff_index_eq image_iff)
  have nodes: "length (rp_nodes ?p) = 3" "distinct (rp_nodes ?p)" "set (rp_nodes ?p) \<subseteq> set u"
    using step(2) c(1,2) inj by (auto simp: distinct_map)
  have load: "l ! i + hosted (u ! i) (?p # ps) \<le> 100" if "i < length u" for i
  proof -
    have "add_loads ?c l ! i + hosted (u ! i) ps \<le> 100"
      using ps(2) that by (simp add: placements_ok_def)
    then show ?thesis
      using that len in_p [OF that] by (auto simp: nth_add_loads [OF c(1)] hosted_def)
  qed
  have "[s..<s + Suc n] = s # [s + 1..<s + 1 + n]"
    by (subst upt_conv_Cons) simp_all
  then have "map rp_shard_index (?p # ps) = map of_nat [s..<s + Suc n]"
    using ps(2) unfolding placements_ok_def by simp
  then have "placements_ok u l s (Suc n) (?p # ps)"
    using nodes load ps(2) by (simp add: placements_ok_def)
  then show ?case
    unfolding place_shards_Suc using step(1) ps(1) by simp
qed

lemma loads_ok_start: "30 \<le> length u \<Longrightarrow> distinct u \<Longrightarrow> loads_ok u (replicate (length u) 0) 0"
  by (simp add: loads_ok_def balanced_def)

text \<open>C29. 
  The capacity-limited planner succeeds exactly when thirty distinct non-empty node names are
  known: then every one of the 1000 shards is placed on three distinct known nodes, and no node
  holds more than 100 shards.
\<close>

theorem capacity_plan_always_fits:
  "(card (set nodes - {[]}) < 30 \<longrightarrow>
      build_capacity_limited_plan P file_id nodes = Err ''at least 30 distinct storage nodes are required'')
   \<and> (30 \<le> card (set nodes - {[]}) \<longrightarrow>
      (\<exists>plan. build_capacity_limited_plan P file_id nodes = Ok plan
         \<and> pp_shards plan = 1000 \<and> map rp_shard_index (pp_placements plan) = map of_nat [0..<1000]
         \<and> (\<forall>p \<in> set (pp_placements plan). length (rp_nodes p) = 3 \<and> distinct (rp_nodes p)
              \<and> set (rp_nodes p) \<subseteq> set nodes - {[]})
         \<and> (\<forall>n. hosted n (pp_placements plan) \<le> 100)))"
proof -
  let ?u = "sort_dedup (filter (\<lambda>n. n \<noteq> []) nodes)"
  have "{x \<in> set nodes. x \<noteq> []} = set nodes - {[]}" by auto
  then have u: "set ?u = set nodes - {[]}" "length ?u = card (set nodes - {[]})" "distinct ?u"
    by (simp_all add: length_sort_dedup)
  have "\<exists>plan. build_capacity_limited_plan P file_id nodes = Ok plan
         \<and> pp_shards plan = 1000 \<and> map rp_shard_index (pp_placements plan) = map of_nat [0..<1000]
         \<and> (\<forall>p \<in> set (pp_placements plan). length (rp_nodes p) = 3 \<and> distinct (rp_nodes p)
              \<and> set (rp_nodes p) \<subseteq> set nodes - {[]})
         \<and> (\<forall>n. hosted n (pp_placements plan) \<le> 100)"
    if enough: "30 \<le> card (set nodes - {[]})"
  proof -
    obtain ps where ps: "place_shards P file_id ?u (replicate (length ?u) 0) 0 1000 = Ok ps"
      "placements_ok ?u (replicate (length ?u) 0) 0 1000 ps"
      using place_shards_ok [OF loads_ok_start, of ?u 1000 P file_id 0] u(2,3) enough by auto
    have "hosted n ps \<le> 100" for n
    proof (cases "n \<in> set ?u")
      case True
      then obtain i where "i < length ?u" "n = ?u ! i"
        by (metis in_set_conv_nth)
      then show ?thesis
        using ps(2) by (auto simp: placements_ok_def)
    next
      case False
      then have "filter (\<lambda>p. n \<in> set (rp_nodes p)) ps = []"
        using ps(2) by (auto simp: placements_ok_def filter_empty_conv)
      then show ?thesis
        by (simp add: hosted_def)
    qed
    then show ?thesis
      using ps u enough unfolding build_capacity_limited_plan_def Let_def placements_ok_def REQUIRED_simps by simp
  qed
  moreover have "build_capacity_limited_plan P file_id nodes = Err ''at least 30 distinct storage nodes are required''"
    if "card (set nodes - {[]}) < 30"
    using that u(2) by (simp add: build_capacity_limited_plan_def Let_def)
  ultimately show ?thesis by blast
qed

definition demo_nodes :: "nat \<Rightarrow> string list" where
  "demo_nodes k = map (\<lambda>i. replicate (Suc i) CHR ''n'') [0..<k]"

lemma demo_nodes_facts: "card (set (demo_nodes k) - {[]}) = k"
proof -
  have "distinct (demo_nodes k)"
    by (auto simp: demo_nodes_def distinct_map inj_on_def dest: map_eq_imp_length_eq arg_cong [where f = length])
  moreover have "[] \<notin> set (demo_nodes k)" "length (demo_nodes k) = k"
    by (auto simp: demo_nodes_def)
  ultimately show ?thesis
    by (metis Diff_empty Diff_insert0 distinct_card)
qed

theorem capacity_plan_always_fits_witness:
  "\<exists>plan. build_capacity_limited_plan demo_prims [7] (demo_nodes 30) = Ok plan
     \<and> (\<forall>n. hosted n (pp_placements plan) \<le> 100)"
  using capacity_plan_always_fits [of "demo_nodes 30" demo_prims "[7]"] by (auto simp: demo_nodes_facts)

section \<open>Plans and repairs\<close>

lemma build_plan_sound:
  assumes "build_plan_for_shards P f nodes n = Ok plan"
  shows "3 \<le> card (set nodes - {[]})" "pp_shards plan = clamp_nat n 12 1000"
    and "map rp_shard_index (pp_placements plan) = map of_nat [0..<clamp_nat n 12 1000]"
    and "\<And>p. p \<in> set (pp_placements plan) \<Longrightarrow>
      distinct (rp_nodes p) \<and> length (rp_nodes p) = 3 \<and> set (rp_nodes p) \<subseteq> set nodes - {[]}"
proof -
  let ?u = "fold (\<lambda>n u. if n \<noteq> [] then insort_insert n u else u) nodes []"
  note u = insort_insert_loop [of "[]" nodes, simplified]
  have len: "length ?u = card (set nodes - {[]})"
    using u(2,3) distinct_card by force
  have nil: "set ?u - {[]} = set nodes - {[]}"
    using u(3) by auto
  have plan: "3 \<le> length ?u" "plan = \<lparr> pp_file_id = f, pp_shards = clamp_nat n 12 1000, pp_replicas_per_shard = 3,
      pp_placements = map (\<lambda>i. \<lparr> rp_shard_index = of_nat i, rp_nodes = select_replicas P f i ?u \<rparr>)
        [0..<clamp_nat n 12 1000] \<rparr>"
    using assms by (auto simp: build_plan_for_shards_def Let_def split: if_splits)
  then show "3 \<le> card (set nodes - {[]})" "pp_shards plan = clamp_nat n 12 1000"
    "map rp_shard_index (pp_placements plan) = map of_nat [0..<clamp_nat n 12 1000]"
    using len by (simp_all add: comp_def)
  show "distinct (rp_nodes p) \<and> length (rp_nodes p) = 3 \<and> set (rp_nodes p) \<subseteq> set nodes - {[]}"
    if pin: "p \<in> set (pp_placements plan)" for p
  proof -
    obtain i where p: "rp_nodes p = select_replicas P f i ?u"
      using pin plan(2) by auto
    show ?thesis
      using select_replicas_sound [where P = P and f = f and i = i and ns = ?u] plan(1) len
      unfolding p nil by simp
  qed
qed

lemma distinct_shard_indexes: "n \<le> 1000 \<Longrightarrow> distinct (map (of_nat :: nat \<Rightarrow> u16) [0..<n])"
proof -
  assume n: "n \<le> 1000"
  have "inj_on (of_nat :: nat \<Rightarrow> u16) (set [0..<n])"
  proof (rule inj_onI)
    fix i j
    assume "i \<in> set [0..<n]" "j \<in> set [0..<n]" and eq: "(of_nat i :: u16) = of_nat j"
    then have "i < 2 ^ 16" "j < 2 ^ 16" using n by auto
    then have "unat (of_nat i :: u16) = i" "unat (of_nat j :: u16) = j"
      by (simp_all add: unat_of_nat_small)
    then show "i = j" using eq by metis
  qed
  then show ?thesis by (simp add: distinct_map)
qed

lemma find_unique:
  assumes "distinct (map g xs)" "x \<in> set xs"
  shows "find (\<lambda>y. g y = g x) xs = Some x"
  using assms by (induction xs) (auto simp: rev_image_eqI)

lemma clamp_plan_le: "clamp_nat n 12 1000 \<le> 1000"
  by (simp add: clamp_nat_def)

definition shard_health :: "string list \<Rightarrow> ReplicaPlacement \<Rightarrow> ReplicaHealth" where
  "shard_health online p =
     (let a = filter (\<lambda>n. n \<in> set online) (rp_nodes p)
      in \<lparr> rh_shard_index = rp_shard_index p, rh_available_nodes = a,
           rh_missing_replicas = 3 - length a, rh_healthy = (3 - length a = 0) \<rparr>)"

lemma assess_eq: "assess plan online = map (shard_health online) (pp_placements plan)"
  by (simp add: assess_def shard_health_def Let_def)

lemma repair_for_shard:
  assumes "distinct (map rp_shard_index (pp_placements plan))" "p \<in> set (pp_placements plan)"
  shows "repair_for plan online (shard_health online p) =
    (let a = filter (\<lambda>n. n \<in> set online) (rp_nodes p);
         chosen = take (3 - length a) (sort (filter (\<lambda>n. n \<notin> set (rp_nodes p)) online))
     in if length chosen = 3 - length a then Some (rp_shard_index p, chosen) else None)"
  using find_unique [OF assms] by (simp add: repair_for_def shard_health_def Let_def)

lemma in_map_filter: "y \<in> set (List.map_filter g xs) \<longleftrightarrow> (\<exists>x \<in> set xs. g x = Some y)"
  by (force simp: map_filter_def)

lemma planned_indexes_distinct:
  "build_plan_for_shards P f nodes n = Ok plan \<Longrightarrow> distinct (map rp_shard_index (pp_placements plan))"
  by (simp add: build_plan_sound(3) distinct_shard_indexes clamp_plan_le)

lemma repair_sound:
  assumes plan: "build_plan_for_shards P f nodes n = Ok plan" and online: "distinct online"
    and rep: "(i, new) \<in> set (plan_repairs plan (assess plan online) online)"
  shows "\<exists>p \<in> set (pp_placements plan). rp_shard_index p = i
    \<and> set new \<subseteq> set online - set (rp_nodes p)
    \<and> distinct (filter (\<lambda>n. n \<in> set online) (rp_nodes p) @ new)
    \<and> length (filter (\<lambda>n. n \<in> set online) (rp_nodes p) @ new) = 3"
proof -
  obtain p where p: "p \<in> set (pp_placements plan)" "repair_for plan online (shard_health online p) = Some (i, new)"
    using rep by (auto simp: plan_repairs_def in_map_filter assess_eq)
  let ?a = "filter (\<lambda>n. n \<in> set online) (rp_nodes p)"
  let ?c = "sort (filter (\<lambda>n. n \<notin> set (rp_nodes p)) online)"
  have new: "rp_shard_index p = i" "new = take (3 - length ?a) ?c" "length new = 3 - length ?a"
    using p repair_for_shard [OF planned_indexes_distinct [OF plan] p(1), of online]
    by (auto simp: Let_def split: if_splits)
  have "set new \<subseteq> set online - set (rp_nodes p)"
    using set_take_subset [of "3 - length ?a" ?c] new(2) by auto
  moreover have "distinct new"
    using online new(2) by simp
  moreover have "length ?a \<le> 3"
    using build_plan_sound(4) [OF plan p(1)] length_filter_le [of "\<lambda>n. n \<in> set online" "rp_nodes p"] by simp
  ultimately show ?thesis
    using p(1) new build_plan_sound(4) [OF plan p(1)] by (intro bexI [of _ p]) auto
qed

lemma repair_complete:
  assumes plan: "build_plan_for_shards P f nodes n = Ok plan" and online: "distinct online"
    and p: "p \<in> set (pp_placements plan)"
    and lost: "\<not> set (rp_nodes p) \<subseteq> set online" and spare: "3 \<le> card (set online - set (rp_nodes p))"
  shows "\<exists>new. (rp_shard_index p, new) \<in> set (plan_repairs plan (assess plan online) online)"
proof -
  let ?a = "filter (\<lambda>n. n \<in> set online) (rp_nodes p)"
  let ?c = "filter (\<lambda>n. n \<notin> set (rp_nodes p)) online"
  have "length ?a < length (rp_nodes p)"
    using lost by (metis length_filter_less subsetI)
  then have few: "length ?a < 3"
    using build_plan_sound(4) [OF plan p] by simp
  have "length ?c = card (set online - set (rp_nodes p))"
    using online distinct_card [of ?c] by (simp add: set_diff_eq)
  then have "length (take (3 - length ?a) (sort ?c)) = 3 - length ?a"
    using spare by simp
  then have "repair_for plan online (shard_health online p) = Some (rp_shard_index p, take (3 - length ?a) (sort ?c))"
    unfolding repair_for_shard [OF planned_indexes_distinct [OF plan] p] Let_def by (simp only: if_True simp_thms)
  moreover have "rh_missing_replicas (shard_health online p) > 0"
    using few by (simp add: shard_health_def Let_def)
  ultimately show ?thesis
    using p by (force simp: plan_repairs_def in_map_filter assess_eq)
qed

text \<open>
  Repairs of a built plan, for the set of nodes online (given in order): every planned repair
  brings its shard back to exactly three distinct online replicas, the surviving ones and new
  ones that did not hold the shard; and a shard with a lost replica is repaired whenever three
  other nodes are online.
\<close>

theorem repairs_restore_three_replicas:
  assumes plan: "build_plan_for_shards P f nodes n = Ok plan" and online: "sorted_wrt (<) online"
  shows "(\<forall>i new. (i, new) \<in> set (plan_repairs plan (assess plan online) online) \<longrightarrow>
            (\<exists>p \<in> set (pp_placements plan). rp_shard_index p = i
               \<and> set new \<subseteq> set online - set (rp_nodes p)
               \<and> distinct (filter (\<lambda>n. n \<in> set online) (rp_nodes p) @ new)
               \<and> length (filter (\<lambda>n. n \<in> set online) (rp_nodes p) @ new) = 3))
       \<and> (\<forall>p \<in> set (pp_placements plan).
            \<not> set (rp_nodes p) \<subseteq> set online \<and> 3 \<le> card (set online - set (rp_nodes p)) \<longrightarrow>
            (\<exists>new. (rp_shard_index p, new) \<in> set (plan_repairs plan (assess plan online) online)))"
proof -
  have don: "distinct online"
    using online by (simp add: strict_sorted_iff)
  show ?thesis
    using repair_sound [OF plan don] repair_complete [OF plan don] by blast
qed

theorem repairs_restore_three_replicas_witness:
  "\<exists>plan. build_plan_for_shards demo_prims [7] [''a'', ''b'', ''c''] 12 = Ok plan
     \<and> (\<exists>new. (0, new) \<in> set (plan_repairs plan (assess plan [''b'', ''c'', ''x'', ''y'', ''z'']) [''b'', ''c'', ''x'', ''y'', ''z'']))"
proof -
  let ?online = "[''b'', ''c'', ''x'', ''y'', ''z'']"
  obtain plan where plan: "build_plan_for_shards demo_prims [7] [''a'', ''b'', ''c''] 12 = Ok plan"
    by (simp add: build_plan_for_shards_def insort_insert_key_def Let_def)
  have "3 \<le> card (set [''a'', ''b'', ''c''] - {[]})" by simp
  have "map rp_shard_index (pp_placements plan) = 0 # map of_nat [1..<12]"
    using build_plan_sound(3) [OF plan] by (simp add: clamp_nat_def upt_rec)
  then obtain p ps where p: "pp_placements plan = p # ps" "rp_shard_index p = 0"
    by (cases "pp_placements plan") auto
  have "distinct (rp_nodes p) \<and> length (rp_nodes p) = 3 \<and> set (rp_nodes p) \<subseteq> {''a'', ''b'', ''c''}"
    using build_plan_sound(4) [OF plan, of p] p by auto
  then have nodes: "set (rp_nodes p) = {''a'', ''b'', ''c''}"
    by (intro card_seteq) (auto simp: distinct_card)
  have "set ?online - set (rp_nodes p) = {''x'', ''y'', ''z''}"
    unfolding nodes by auto
  then have "\<not> set (rp_nodes p) \<subseteq> set ?online \<and> 3 \<le> card (set ?online - set (rp_nodes p))"
    by (simp add: nodes)
  moreover have "sorted_wrt (<) ?online"
    by simp
  ultimately show ?thesis
    using repairs_restore_three_replicas [OF plan, of ?online] plan p by auto
qed

end
