(* ===== verification/Storage.thy ===== *)
theory Storage
  imports Replication
begin

text \<open>
  AWE Drive storage (core/src/storage.rs) and its recovery engine (core/src/recovery.rs).

  Erasure policies, the shard map of a file, the daily upload quota, sealing of files, cutting
  a file into Reed-Solomon shards and putting it together again, and the content-addressed store of
  a node, whose \<^verbatim>\<open>objects\<close> directory is a map from file names to contents. The cipher and the
  Reed-Solomon code are third-party: they are fields of \<open>storage_prims\<close>. The faults of the disk are
  an argument. \<^verbatim>\<open>usize\<close> is \<^typ>\<open>nat\<close>, saturating at \<open>2 ^ 64 - 1\<close> where the code saturates.
\<close>

section \<open>Policies\<close>

record ChunkRef =
  cr_index :: u32
  cr_hash :: bytes
  cr_size :: u32

record StoragePolicy =
  sp_data_shards :: nat
  sp_parity_shards :: nat
  sp_max_chunk_size :: nat
  sp_replica_count :: nat

definition hyper_sovereign :: StoragePolicy where
  "hyper_sovereign = \<lparr> sp_data_shards = 450, sp_parity_shards = 550, sp_max_chunk_size = 4 * 1024 * 1024,
     sp_replica_count = 3 \<rparr>"

definition total_shards :: "StoragePolicy \<Rightarrow> nat" where
  "total_shards p = sp_data_shards p + sp_parity_shards p"

text \<open>
  \<^verbatim>\<open>total as f64 * 0.45\<close>: the product of two binary64 numbers, rounded to 53 significant bits, ties to
  even. The literal is \<open>8106479329266893 / 2 ^ 54\<close> and \<^verbatim>\<open>total\<close> converts exactly, so the product is
  kept as a numerator over \<open>2 ^ 54\<close>; \<^verbatim>\<open>as usize\<close> truncates.
\<close>

fun bit_len :: "nat \<Rightarrow> nat" where
  "bit_len n = (if n = 0 then 0 else Suc (bit_len (n div 2)))"

declare bit_len.simps [simp del]

definition f64_round :: "nat \<Rightarrow> nat" where
  "f64_round n =
     (let s = bit_len n - 53
      in if s = 0 then n
         else let q = n div 2 ^ s; r = n mod 2 ^ s; half = 2 ^ (s - 1)
              in (if half < r \<or> (r = half \<and> odd q) then q + 1 else q) * 2 ^ s)"

definition custom_scaled :: "nat \<Rightarrow> StoragePolicy" where
  "custom_scaled shards =
     (let t = clamp_nat shards 12 100000000;
          data = f64_round (t * 8106479329266893) div 2 ^ 54;
          parity = t - data
      in \<lparr> sp_data_shards = data, sp_parity_shards = parity, sp_max_chunk_size = 4 * 1024 * 1024,
           sp_replica_count = 3 \<rparr>)"

definition for_file_size :: "nat \<Rightarrow> StoragePolicy" where
  "for_file_size nbytes =
     (let t = if nbytes = 0 then 12
              else let chunk_groups = min (nbytes + (4 * 1024 * 1024 - 1)) (2 ^ 64 - 1) div (4 * 1024 * 1024)
                   in clamp_nat (min (chunk_groups * 12) (2 ^ 64 - 1)) 12 1000
      in custom_scaled t)"

definition StoragePolicy_default :: StoragePolicy where
  "StoragePolicy_default = custom_scaled 12"

section \<open>Manifests and the shard map\<close>

record PrivateManifest =
  pm_file_id :: bytes
  pm_original_size :: u64
  pm_chunks :: "ChunkRef list"
  pm_policy :: StoragePolicy

record PublicManifest =
  um_file_id :: bytes
  um_original_size :: u64
  um_chunks :: "ChunkRef list"
  um_policy :: StoragePolicy

record AsMap =
  as_file_id :: bytes
  as_site_id :: "string option"
  as_filename :: string
  as_total_shards :: nat
  as_data_shards :: nat
  as_parity_shards :: nat
  as_shard_nodes :: "string list list"

definition AsMap_new :: "bytes \<Rightarrow> string \<Rightarrow> string option \<Rightarrow> AsMap" where
  "AsMap_new file_id filename site_id =
     (let policy = hyper_sovereign; n = sp_data_shards policy + sp_parity_shards policy
      in \<lparr> as_file_id = file_id, as_site_id = site_id, as_filename = filename, as_total_shards = n,
           as_data_shards = sp_data_shards policy, as_parity_shards = sp_parity_shards policy,
           as_shard_nodes = replicate n [] \<rparr>)"

definition assign_replicas :: "AsMap \<Rightarrow> nat \<Rightarrow> string list \<Rightarrow> unit result \<times> AsMap" where
  "assign_replicas m shard_index node_ids =
     (if shard_index \<ge> as_total_shards m then (Err ''shard index out of range'', m)
      else if length node_ids \<noteq> 3 then (Err ''exactly three replica nodes are required'', m)
      else let unique = sort_dedup node_ids
           in if length unique \<noteq> 3 \<or> (\<exists>i \<in> set unique. i = [])
              then (Err ''replica node IDs must be three distinct non-empty IDs'', m)
              else if length (as_shard_nodes m) \<le> shard_index then (Inl (Panic ''index out of bounds''), m)
              else (Ok (), m\<lparr>as_shard_nodes := (as_shard_nodes m)[shard_index := unique]\<rparr>))"

fun assign_from :: "'a prims_scheme \<Rightarrow> string list \<Rightarrow> nat list \<Rightarrow> AsMap \<Rightarrow> unit result \<times> AsMap" where
  "assign_from P node_ids [] m = (Ok (), m)"
| "assign_from P node_ids (index # rest) m =
     (let replicas = select_replicas P (as_file_id m) index node_ids
      in if length replicas \<noteq> REQUIRED_REPLICAS then (Err ''unable to place shard on three nodes'', m)
         else case assign_replicas m index replicas of
                (Inl e, m') \<Rightarrow> (Inl e, m')
              | (Inr _, m') \<Rightarrow> assign_from P node_ids rest m')"

definition assign_all_replicas :: "'a prims_scheme \<Rightarrow> AsMap \<Rightarrow> string list \<Rightarrow> unit result \<times> AsMap" where
  "assign_all_replicas P m node_ids =
     (if as_total_shards m \<noteq> REQUIRED_SHARDS
      then (Err ''AWEP2P storage policy must contain exactly 1000 shards'', m)
      else if length node_ids < REQUIRED_REPLICAS
      then (Err ''at least three distinct nodes are required'', m)
      else assign_from P node_ids [0..<as_total_shards m] m)"

fun validate_shards :: "string list list \<Rightarrow> unit result" where
  "validate_shards [] = Ok ()"
| "validate_shards (replicas # rest) =
     (if length replicas \<noteq> REQUIRED_REPLICAS then Err ''shard does not have exactly three replicas''
      else let unique = sort_dedup replicas
           in if length unique \<noteq> REQUIRED_REPLICAS \<or> (\<exists>i \<in> set unique. i = [])
              then Err ''shard has invalid replica IDs''
              else validate_shards rest)"

definition validate_complete_placement :: "AsMap \<Rightarrow> unit result" where
  "validate_complete_placement m =
     (if as_total_shards m \<noteq> REQUIRED_SHARDS \<or> length (as_shard_nodes m) \<noteq> REQUIRED_SHARDS
      then Err ''manifest does not contain exactly 1000 shard entries''
      else validate_shards (as_shard_nodes m))"

section \<open>The daily quota\<close>

definition DAILY_UPLOAD_LIMIT_BYTES :: u64 where
  "DAILY_UPLOAD_LIMIT_BYTES = 50 * 1024 * 1024 * 1024"

record DailyQuotaTracker =
  dq_uploaded_today :: u64
  dq_last_reset_timestamp :: u64

definition DailyQuotaTracker_default :: "u64 \<Rightarrow> DailyQuotaTracker" where
  "DailyQuotaTracker_default now = \<lparr> dq_uploaded_today = 0, dq_last_reset_timestamp = now \<rparr>"

definition check_and_add :: "DailyQuotaTracker \<Rightarrow> u64 \<Rightarrow> u64 \<Rightarrow> unit result \<times> DailyQuotaTracker" where
  "check_and_add q now nbytes =
     (let q = (if sat_sub now (dq_last_reset_timestamp q) \<ge> 86400
               then q\<lparr>dq_uploaded_today := 0, dq_last_reset_timestamp := now\<rparr> else q)
      in if sat_add (dq_uploaded_today q) nbytes > DAILY_UPLOAD_LIMIT_BYTES
         then (Err ''AWEDrive 50GB/day limit exceeded'', q)
         else (Ok (), q\<lparr>dq_uploaded_today := dq_uploaded_today q + nbytes\<rparr>))"

section \<open>Sealing files\<close>

record storage_prims = prims +
  chacha_encrypt :: "bytes \<Rightarrow> bytes \<Rightarrow> bytes \<Rightarrow> bytes option"
  chacha_decrypt :: "bytes \<Rightarrow> bytes \<Rightarrow> bytes \<Rightarrow> bytes option"
  rs_new :: "nat \<Rightarrow> nat \<Rightarrow> bool"
  rs_encode :: "nat \<Rightarrow> nat \<Rightarrow> bytes list \<Rightarrow> bytes list option"
  rs_reconstruct :: "nat \<Rightarrow> nat \<Rightarrow> bytes option list \<Rightarrow> bytes option list option"

definition MAGIC :: bytes where
  "MAGIC = as_bytes ''AWE-DRIVE-V1''"

definition NONCE_LEN :: nat where
  "NONCE_LEN = 12"

definition content_id :: "'a prims_scheme \<Rightarrow> bytes \<Rightarrow> bytes" where
  "content_id P data = blake3 P data"

definition choose_chunk_size :: "u64 \<Rightarrow> nat \<Rightarrow> nat" where
  "choose_chunk_size file_size max_chunk_size =
     (let target = if file_size < 16 * 1024 * 1024 then 256 * 1024
                   else if file_size < 1024 * 1024 * 1024 then 1024 * 1024
                   else 4 * 1024 * 1024
      in min target (max max_chunk_size (64 * 1024)))"

definition encrypt_file :: "'a storage_prims_scheme \<Rightarrow> bytes \<Rightarrow> bytes \<Rightarrow> bytes \<Rightarrow> bytes result" where
  "encrypt_file P nonce data key =
     (case chacha_encrypt P key nonce data of
        None \<Rightarrow> Inl (Io PermissionDenied ''encryption failed'')
      | Some ciphertext \<Rightarrow> Ok (MAGIC @ nonce @ ciphertext))"

definition decrypt_file :: "'a storage_prims_scheme \<Rightarrow> bytes \<Rightarrow> bytes \<Rightarrow> bytes result" where
  "decrypt_file P blob key =
     (if length blob < length MAGIC + NONCE_LEN \<or> take (length MAGIC) blob \<noteq> MAGIC
      then Inl (Io InvalidData ''invalid AWE Drive object'')
      else case chacha_decrypt P key (take NONCE_LEN (drop (length MAGIC) blob)) (drop (length MAGIC + NONCE_LEN) blob) of
             None \<Rightarrow> Inl (Io PermissionDenied ''authentication failed'')
           | Some m \<Rightarrow> Ok m)"

record SecretFilePackage =
  sf_sfid :: string
  sf_filename :: string
  sf_salt :: bytes
  sf_encrypted_payload :: bytes

definition SecretFilePackage_create ::
  "'a storage_prims_scheme \<Rightarrow> bytes \<Rightarrow> bytes \<Rightarrow> string \<Rightarrow> bytes \<Rightarrow> string \<Rightarrow> SecretFilePackage result" where
  "SecretFilePackage_create P salt nonce filename plain_data password =
     (let key = hash P (as_bytes password) salt
      in case encrypt_file P nonce plain_data key of
           Inl e \<Rightarrow> Inl e
         | Inr encrypted_payload \<Rightarrow>
             Ok \<lparr> sf_sfid = ''sfid-'' @ take 16 (hex_encode P (hash P (as_bytes ''AWE-SFID'') salt)),
                  sf_filename = filename, sf_salt = salt, sf_encrypted_payload = encrypted_payload \<rparr>)"

definition unlock_and_decrypt :: "'a storage_prims_scheme \<Rightarrow> SecretFilePackage \<Rightarrow> string \<Rightarrow> bytes result" where
  "unlock_and_decrypt P s password =
     decrypt_file P (sf_encrypted_payload s) (hash P (as_bytes password) (sf_salt s))"

section \<open>Erasure coding\<close>

definition fill_shards :: "nat \<Rightarrow> bytes \<Rightarrow> bytes list \<Rightarrow> bytes list" where
  "fill_shards shard_len data shards =
     fold (\<lambda>(i, b) sh. sh[i div shard_len := (sh ! (i div shard_len))[i mod shard_len := b]])
       (enumerate 0 data) shards"

definition encode_shards :: "'a storage_prims_scheme \<Rightarrow> bytes \<Rightarrow> StoragePolicy \<Rightarrow> bytes list result" where
  "encode_shards P data policy =
     (let d = sp_data_shards policy; p = sp_parity_shards policy
      in if d = 0 \<or> p = 0 then Inl (Io InvalidInput ''invalid erasure policy'')
         else if data = [] then Ok (replicate (d + p) [0])
         else let shard_len = (length data + d - 1) div d;
                  shards = fill_shards shard_len data (replicate (d + p) (replicate shard_len 0))
              in if \<not> rs_new P d p then Inl (Io InvalidInput ''invalid Reed-Solomon policy'')
                 else case rs_encode P d p shards of
                        None \<Rightarrow> Inl (Io InvalidData ''erasure encoding failed'')
                      | Some out \<Rightarrow> Ok out)"

fun collect_shards :: "bytes option list \<Rightarrow> bytes result" where
  "collect_shards [] = Ok []"
| "collect_shards (s # rest) =
     (case s of
        None \<Rightarrow> Inl (Io InvalidData ''missing data shard'')
      | Some b \<Rightarrow> (case collect_shards rest of Inl e \<Rightarrow> Inl e | Inr bs \<Rightarrow> Ok (b @ bs)))"

definition recover_shards :: "'a storage_prims_scheme \<Rightarrow> bytes option list \<Rightarrow> StoragePolicy \<Rightarrow> bytes result" where
  "recover_shards P shards policy =
     (let d = sp_data_shards policy; p = sp_parity_shards policy
      in if \<not> rs_new P d p then Inl (Io InvalidInput ''invalid Reed-Solomon policy'')
         else case rs_reconstruct P d p shards of
                None \<Rightarrow> Inl (Io InvalidData ''insufficient shards'')
              | Some full \<Rightarrow> collect_shards (take d full))"

section \<open>The store of a node\<close>

text \<open>
  The \<^verbatim>\<open>objects\<close> directory: file name to contents. A fault is the listing, the write (which may leave
  the first bytes of a partial file behind) or the rename failing.
\<close>

type_synonym dir = "(string, bytes) btree_map"

datatype disk_fault = NoFault | ListFails | WriteFails "nat option" | RenameFails

record LocalNodeStore =
  ln_quota :: u64

record NodeStorageStats =
  st_capacity :: u64
  st_used :: u64
  st_objects :: u64
  st_healthy_replicas :: u64
  st_repaired_chunks :: u64

definition stats :: "LocalNodeStore \<Rightarrow> dir \<Rightarrow> NodeStorageStats" where
  "stats s d =
     fold (\<lambda>(name, content) t. t\<lparr>st_used := st_used t + of_nat (length content), st_objects := st_objects t + 1\<rparr>) d
       \<lparr> st_capacity = ln_quota s, st_used = 0, st_objects = 0, st_healthy_replicas = 0, st_repaired_chunks = 0 \<rparr>"

definition object_path :: "'a prims_scheme \<Rightarrow> bytes \<Rightarrow> string" where
  "object_path P i = hex_encode P i"

definition put :: "'a prims_scheme \<Rightarrow> LocalNodeStore \<Rightarrow> disk_fault \<Rightarrow> dir \<Rightarrow> bytes \<Rightarrow> bytes result \<times> dir" where
  "put P s fault d data =
     (let i = content_id P data; p = object_path P i; tmp = p @ ''.part''
      in if bt_contains d p then (Ok i, d)
         else if fault = ListFails then (Inl (Io OtherIo ''read_dir''), d)
         else if sat_add (st_used (stats s d)) (of_nat (length data)) > ln_quota s
         then (Inl (Io StorageFull ''AWE node storage quota exceeded''), d)
         else case fault of
                WriteFails None \<Rightarrow> (Inl (Io OtherIo ''write''), d)
              | WriteFails (Some k) \<Rightarrow> (Inl (Io OtherIo ''write''), bt_insert tmp (take k data) d)
              | RenameFails \<Rightarrow> (Inl (Io OtherIo ''rename''), bt_insert tmp data d)
              | _ \<Rightarrow> (Ok i, bt_insert p data (bt_remove tmp d)))"

definition get_object :: "'a prims_scheme \<Rightarrow> dir \<Rightarrow> bytes \<Rightarrow> bytes result" where
  "get_object P d i =
     (case bt_get d (object_path P i) of
        None \<Rightarrow> Inl (Io NotFound ''read'')
      | Some data \<Rightarrow> if content_id P data \<noteq> i then Inl (Io InvalidData ''object integrity failure'') else Ok data)"

definition remove_object :: "'a prims_scheme \<Rightarrow> dir \<Rightarrow> bytes \<Rightarrow> unit result \<times> dir" where
  "remove_object P d i = (Ok (), bt_remove (object_path P i) d)"

text \<open>\<^verbatim>\<open>gc\<close> walks the listing; \<open>removable\<close> says which removals the file system performs.\<close>

definition is_garbage :: "'a prims_scheme \<Rightarrow> bytes list \<Rightarrow> string \<Rightarrow> bool" where
  "is_garbage P live name =
     (case hex_decode P name of
        None \<Rightarrow> False
      | Some bs \<Rightarrow> length bs = 32 \<and> bs \<notin> set live)"

fun gc_entries :: "'a prims_scheme \<Rightarrow> (string \<Rightarrow> bool) \<Rightarrow> bytes list \<Rightarrow> string list \<Rightarrow> u64 \<Rightarrow> dir \<Rightarrow> u64 result \<times> dir" where
  "gc_entries P removable live [] removed d = (Ok removed, d)"
| "gc_entries P removable live (name # rest) removed d =
     (if is_garbage P live name then
        (if removable name then gc_entries P removable live rest (removed + 1) (bt_remove name d)
         else (Inl (Io OtherIo ''remove_file''), d))
      else gc_entries P removable live rest removed d)"

definition gc :: "'a prims_scheme \<Rightarrow> (string \<Rightarrow> bool) \<Rightarrow> bytes list \<Rightarrow> dir \<Rightarrow> u64 result \<times> dir" where
  "gc P removable live d = gc_entries P removable live (map fst d) 0 d"

section \<open>Recovery\<close>

record RecoveryManifest =
  rm_file_id :: bytes
  rm_total_chunks :: nat
  rm_missing_chunks :: "nat list"
  rm_surviving_nodes :: "bytes list"

definition inspect_private_health :: "PrivateManifest \<Rightarrow> nat list \<Rightarrow> RecoveryManifest" where
  "inspect_private_health manifest available_chunks =
     \<lparr> rm_file_id = pm_file_id manifest, rm_total_chunks = length (pm_chunks manifest),
       rm_missing_chunks = filter (\<lambda>i. i \<notin> set available_chunks) (map fst (enumerate 0 (pm_chunks manifest))),
       rm_surviving_nodes = [] \<rparr>"

definition inspect_public_health :: "PublicManifest \<Rightarrow> nat list \<Rightarrow> RecoveryManifest" where
  "inspect_public_health manifest available_chunks =
     \<lparr> rm_file_id = um_file_id manifest, rm_total_chunks = length (um_chunks manifest),
       rm_missing_chunks = filter (\<lambda>i. i \<notin> set available_chunks) (map fst (enumerate 0 (um_chunks manifest))),
       rm_surviving_nodes = [] \<rparr>"

definition repair_chunk_data ::
  "'a prims_scheme \<Rightarrow> LocalNodeStore \<Rightarrow> disk_fault \<Rightarrow> dir \<Rightarrow> ChunkRef \<Rightarrow> bytes \<Rightarrow> bytes result \<times> dir" where
  "repair_chunk_data P s fault d expected_ref data =
     (if blake3 P data \<noteq> cr_hash expected_ref then (Inl (Io InvalidData ''repaired chunk hash mismatch''), d)
      else put P s fault d data)"

section \<open>Policies: the rounded share is the exact one\<close>

lemma bit_len_le: "n < 2 ^ k \<Longrightarrow> bit_len n \<le> k"
proof (induction n arbitrary: k rule: bit_len.induct)
  case (1 n)
  show ?case
  proof (cases "n = 0")
    case False
    then obtain j where k: "k = Suc j"
      using 1(2) by (cases k) auto
    then have "bit_len (n div 2) \<le> j"
      using 1 False by (simp add: less_mult_imp_div_less mult.commute)
    then show ?thesis
      using False k by (subst bit_len.simps) simp
  qed (simp add: bit_len.simps)
qed

lemma f64_round_bounds:
  assumes "n < 2 ^ 81"
  shows "\<exists>s \<le> 28. n div 2 ^ s * 2 ^ s \<le> f64_round n \<and> f64_round n \<le> n + 2 ^ s"
proof -
  define s where "s = bit_len n - 53"
  have s: "s \<le> 28"
    using bit_len_le [OF assms] by (simp add: s_def)
  have "n div 2 ^ s * 2 ^ s \<le> n" "n div 2 ^ s * 2 ^ s \<le> n + 2 ^ s"
    by (simp, rule trans_le_add1, simp)
  then have "n div 2 ^ s * 2 ^ s \<le> f64_round n \<and> f64_round n \<le> n + 2 ^ s"
    by (auto simp: f64_round_def Let_def s_def [symmetric])
  then show ?thesis
    using s by blast
qed

lemma share_exact:
  assumes "t \<le> 100000000"
  shows "f64_round (t * 8106479329266893) div 2 ^ 54 = 9 * t div 20"
proof -
  define n q r where "n = t * 8106479329266893" and "q = 9 * t div 20" and "r = 9 * t mod 20"
  have qr: "9 * t = 20 * q + r" "r \<le> 19"
    by (simp_all add: q_def r_def)
  have n20: "20 * n = 20 * (q * 2 ^ 54) + r * 2 ^ 54 + 4 * t"
    using qr(1) by (simp add: n_def)
  have "n < 2 ^ 81"
    using assms by (simp add: n_def)
  then obtain s where s: "s \<le> 28" "n div 2 ^ s * 2 ^ s \<le> f64_round n" "f64_round n \<le> n + 2 ^ s"
    using f64_round_bounds by blast
  have "(2::nat) ^ s \<le> 2 ^ 28"
    using s(1) by (intro power_increasing) auto
  then have "f64_round n < (q + 1) * 2 ^ 54"
    using s(3) n20 qr(2) assms by simp
  moreover have "q * 2 ^ 54 \<le> f64_round n"
  proof -
    have "(2::nat) ^ 54 = 2 ^ (54 - s) * 2 ^ s"
      using s(1) by (simp flip: power_add)
    then have eq: "q * 2 ^ 54 = (q * 2 ^ (54 - s)) * 2 ^ s"
      by (simp only: mult.assoc)
    have "q * 2 ^ 54 \<le> n"
      using n20 by simp
    then have "q * 2 ^ (54 - s) \<le> n div 2 ^ s"
      unfolding eq by (simp only: less_eq_div_iff_mult_less_eq zero_less_power zero_less_numeral)
    then have "q * 2 ^ (54 - s) * 2 ^ s \<le> n div 2 ^ s * 2 ^ s"
      by (rule mult_le_mono1)
    then show ?thesis
      unfolding eq using s(2) by (rule order_trans)
  qed
  ultimately have "f64_round n div 2 ^ 54 = q"
    by (intro div_nat_eqI) (simp_all add: mult.commute)
  then show ?thesis
    by (simp add: n_def q_def)
qed

lemma custom_scaled_eq:
  "custom_scaled k =
     (let t = clamp_nat k 12 100000000
      in \<lparr> sp_data_shards = 9 * t div 20, sp_parity_shards = t - 9 * t div 20,
           sp_max_chunk_size = 4194304, sp_replica_count = 3 \<rparr>)"
proof -
  have "clamp_nat k 12 100000000 \<le> 100000000"
    by (simp add: clamp_nat_def)
  then show ?thesis
    unfolding custom_scaled_def Let_def by (simp only: share_exact) simp
qed

lemma custom_scaled_shares:
  "total_shards (custom_scaled k) = clamp_nat k 12 100000000"
  "0 < sp_data_shards (custom_scaled k)" "0 < sp_parity_shards (custom_scaled k)"
  "20 * sp_data_shards (custom_scaled k) \<le> 9 * total_shards (custom_scaled k)"
  "9 * total_shards (custom_scaled k) < 20 * sp_data_shards (custom_scaled k) + 20"
proof -
  define t where "t = clamp_nat k 12 100000000"
  have t: "12 \<le> t"
    by (simp add: t_def clamp_nat_def)
  have c: "sp_data_shards (custom_scaled k) = 9 * t div 20" "sp_parity_shards (custom_scaled k) = t - 9 * t div 20"
    by (simp_all add: custom_scaled_eq t_def Let_def)
  have "9 * t div 20 \<le> t" "0 < 9 * t div 20" "9 * t div 20 < t"
    using t by (simp_all add: div_greater_zero_iff div_less_iff_less_mult)
  moreover have "20 * (9 * t div 20) \<le> 9 * t" "9 * t < 20 * (9 * t div 20) + 20"
    using mod_less_divisor [of 20 "9 * t"] mult_div_mod_eq [of 20 "9 * t"] by linarith+
  ultimately show "total_shards (custom_scaled k) = clamp_nat k 12 100000000"
    "0 < sp_data_shards (custom_scaled k)" "0 < sp_parity_shards (custom_scaled k)"
    "20 * sp_data_shards (custom_scaled k) \<le> 9 * total_shards (custom_scaled k)"
    "9 * total_shards (custom_scaled k) < 20 * sp_data_shards (custom_scaled k) + 20"
    by (simp_all add: c total_shards_def t_def)
qed

definition file_groups :: "nat \<Rightarrow> nat" where
  "file_groups nbytes = (nbytes + 4194303) div 4194304"

lemma for_file_size_total:
  assumes "nbytes < 2 ^ 63"
  shows "total_shards (for_file_size nbytes) = clamp_nat (12 * file_groups nbytes) 12 1000"
proof -
  have g: "file_groups nbytes * 12 \<le> 2 ^ 64 - 1 \<or> 1000 < file_groups nbytes * 12"
    by auto
  have "min (nbytes + 4194303) (2 ^ 64 - 1) = nbytes + 4194303"
    using assms by simp
  then have "total_shards (for_file_size nbytes) =
      clamp_nat (clamp_nat (min (file_groups nbytes * 12) (2 ^ 64 - 1)) 12 1000) 12 100000000"
    by (cases "nbytes = 0") (simp_all add: for_file_size_def custom_scaled_shares file_groups_def Let_def clamp_nat_def)
  then show ?thesis
    using g by (auto simp: clamp_nat_def mult.commute)
qed

section \<open>Erasure coding\<close>

text \<open>
  Documented behaviour of the \<^verbatim>\<open>galois_8\<close> code of the \<^verbatim>\<open>reed-solomon-erasure\<close> crate. Its field has 256
  elements and a code of more shards is refused; the code is systematic; the shards that are left
  after losing at most as many as there are parity shards determine all of them.
\<close>

definition rs_limit :: "'a storage_prims_scheme \<Rightarrow> bool" where
  "rs_limit P \<longleftrightarrow> (\<forall>d p. rs_new P d p \<longrightarrow> d + p \<le> 256)"

definition rs_corrects :: "'a storage_prims_scheme \<Rightarrow> nat \<Rightarrow> nat \<Rightarrow> bool" where
  "rs_corrects P d p \<longleftrightarrow>
     (\<forall>shards out. rs_encode P d p shards = Some out \<longrightarrow>
        length out = d + p \<and> take d out = take d shards \<and>
        (\<forall>kept. length kept = d + p \<longrightarrow> (\<forall>i < d + p. kept ! i = None \<or> kept ! i = Some (out ! i)) \<longrightarrow>
           length (filter (\<lambda>k. k = None) kept) \<le> p \<longrightarrow>
           rs_reconstruct P d p kept = Some (map Some out)))"

text \<open>The byte loop of \<^verbatim>\<open>encode_shards\<close> writes the file, then zeros, into the rows read in order.\<close>

lemma concat_update:
  assumes "\<forall>r \<in> set rows. length r = w" "0 < w" "i < length rows * w"
  shows "concat (rows[i div w := (rows ! (i div w))[i mod w := b]]) = (concat rows)[i := b]"
  using assms
proof (induction rows arbitrary: i)
  case (Cons r rows)
  show ?case
  proof (cases "i < w")
    case True
    then show ?thesis
      using Cons.prems by (simp add: list_update_append)
  next
    case False
    define j where "j = i - w"
    then have i: "i = w + j" using False by simp
    have "j < length rows * w" "i div w = Suc (j div w)" "i mod w = j mod w"
      using Cons.prems i div_add_self1 [of w j] by simp_all
    then show ?thesis
      using Cons i by (simp add: list_update_append)
  qed
qed simp

lemma fill_prefix:
  assumes "\<forall>r \<in> set rows. length r = w" "0 < w" "k + length data \<le> length rows * w"
  defines "res \<equiv> fold (\<lambda>(i, b) sh. sh[i div w := (sh ! (i div w))[i mod w := b]]) (enumerate k data) rows"
  shows "(\<forall>r \<in> set res. length r = w) \<and> length res = length rows
    \<and> concat res = take k (concat rows) @ data @ drop (k + length data) (concat rows)"
  using assms(1-3) unfolding res_def
proof (induction data arbitrary: k rows)
  case (Cons b data)
  let ?rows = "rows[k div w := (rows ! (k div w))[k mod w := b]]"
  have k: "k < length rows * w" using Cons.prems by simp
  have div: "k div w < length rows"
    using k Cons.prems(2) by (simp add: less_mult_imp_div_less)
  have rows: "\<forall>r \<in> set ?rows. length r = w"
    using Cons.prems(1) div set_update_subset_insert [of rows "k div w"] by fastforce
  have cat: "concat ?rows = (concat rows)[k := b]"
    using Cons.prems k by (intro concat_update) auto
  have len: "length (concat rows) = length rows * w"
    using Cons.prems(1) by (induction rows) auto
  have "take (Suc k) ((concat rows)[k := b]) = take k (concat rows) @ [b]"
    using k len by (simp add: take_Suc_conv_app_nth)
  then show ?case
    using Cons.IH [OF rows Cons.prems(2), of "Suc k"] Cons.prems(3) by (simp add: cat)
qed (simp add: append_take_drop_id)

lemma length_concat_rows: "\<forall>r \<in> set rows. length r = w \<Longrightarrow> length (concat rows) = length rows * w"
  by (induction rows) auto

lemma concat_take_rows:
  assumes "\<forall>r \<in> set rows. length r = w" "d \<le> length rows"
  shows "concat (take d rows) = take (d * w) (concat rows)"
proof -
  have "length (concat (take d rows)) = d * w"
    using assms by (subst length_concat_rows [of _ w]) (auto dest: in_set_takeD)
  moreover have "concat rows = concat (take d rows) @ concat (drop d rows)"
    by (metis append_take_drop_id concat_append)
  ultimately show ?thesis by simp
qed

lemma concat_replicate_rows: "concat (replicate n (replicate w x)) = replicate (n * w) x"
  by (induction n) (simp_all add: replicate_add)

lemma fill_shards_rows:
  assumes "0 < w" "length data \<le> d * w"
  shows "concat (take d (fill_shards w data (replicate (d + p) (replicate w 0)))) =
           data @ replicate (d * w - length data) 0"
proof -
  let ?rows = "replicate (d + p) (replicate w (0 :: u8))"
  let ?res = "fill_shards w data ?rows"
  have cat: "concat ?rows = replicate ((d + p) * w) 0"
    by (rule concat_replicate_rows)
  have f: "(\<forall>r \<in> set ?res. length r = w) \<and> length ?res = d + p
      \<and> concat ?res = data @ drop (length data) (concat ?rows)"
    using fill_prefix [of ?rows w 0 data] assms by (simp add: fill_shards_def add_mult_distrib)
  then have "concat (take d ?res) = take (d * w) (concat ?res)"
    by (intro concat_take_rows) auto
  also have "\<dots> = data @ replicate (d * w - length data) 0"
    using f assms by (simp add: cat add_mult_distrib)
  finally show ?thesis .
qed

lemma collect_shards_some: "collect_shards (map Some xs) = Ok (concat xs)"
  by (induction xs) simp_all

lemma shard_len_fits:
  fixes d n :: nat
  assumes "0 < d"
  shows "n \<le> d * ((n + d - 1) div d)"
proof -
  have "n + d - 1 < d * ((n + d - 1) div d) + d"
    using assms mod_less_divisor [of d "n + d - 1"] mult_div_mod_eq [of d "n + d - 1"] by linarith
  then show ?thesis by simp
qed

text \<open>The shards that are left give the rows that were encoded, so the file and its padding.\<close>

lemma erasure_recovers:
  assumes rs: "rs_corrects P (sp_data_shards policy) (sp_parity_shards policy)"
    and enc: "encode_shards P data policy = Ok shards" and "data \<noteq> []"
    and kept: "length kept = length shards" "\<forall>i < length shards. kept ! i = None \<or> kept ! i = Some (shards ! i)"
      "length (filter (\<lambda>k. k = None) kept) \<le> sp_parity_shards policy"
  defines "w \<equiv> (length data + sp_data_shards policy - 1) div sp_data_shards policy"
  shows "recover_shards P kept policy = Ok (data @ replicate (sp_data_shards policy * w - length data) 0)"
    and "0 < sp_data_shards policy" and "length shards = total_shards policy"
proof -
  let ?d = "sp_data_shards policy" and ?p = "sp_parity_shards policy"
  let ?rows = "fill_shards w data (replicate (?d + ?p) (replicate w 0))"
  have e: "0 < ?d" "rs_new P ?d ?p" "rs_encode P ?d ?p ?rows = Some shards"
    using enc \<open>data \<noteq> []\<close> by (auto simp: encode_shards_def Let_def w_def split: if_splits option.splits)
  then have out: "length shards = ?d + ?p" "take ?d shards = take ?d ?rows"
    using rs unfolding rs_corrects_def by blast+
  have "rs_reconstruct P ?d ?p kept = Some (map Some shards)"
    using rs e(3) kept unfolding rs_corrects_def out(1) by blast
  then have "recover_shards P kept policy = Ok (concat (take ?d ?rows))"
    using e(2) out(2) by (simp add: recover_shards_def Let_def take_map collect_shards_some)
  moreover have "length data \<le> ?d * w" "0 < w"
    using shard_len_fits [OF e(1), of "length data"] \<open>data \<noteq> []\<close> by (auto simp: w_def intro!: Nat.gr0I)
  ultimately show "recover_shards P kept policy = Ok (data @ replicate (?d * w - length data) 0)"
    by (simp add: fill_shards_rows)
  show "0 < ?d" "length shards = total_shards policy"
    using e(1) out(1) by (simp_all add: total_shards_def)
qed

text \<open>C12. 
  Erasure coding: whenever a non-empty file was encoded, any set of shards that misses at most as
  many as the policy has parity shards gives the file back, followed by zero padding up to a whole
  number of shards.
\<close>

theorem erasure_roundtrip:
  assumes rs: "rs_corrects P (sp_data_shards policy) (sp_parity_shards policy)"
    and enc: "encode_shards P data policy = Ok shards" and "data \<noteq> []"
    and kept: "length kept = length shards" "\<forall>i < length shards. kept ! i = None \<or> kept ! i = Some (shards ! i)"
      "length (filter (\<lambda>k. k = None) kept) \<le> sp_parity_shards policy"
  shows "\<exists>pad. recover_shards P kept policy = Ok (data @ replicate pad 0) \<and> pad < sp_data_shards policy"
proof -
  note r = erasure_recovers [OF assms]
  have "sp_data_shards policy * ((length data + sp_data_shards policy - 1) div sp_data_shards policy)
      \<le> length data + sp_data_shards policy - 1"
    by (rule times_div_less_eq_dividend)
  then show ?thesis
    by - (rule exI, rule conjI, rule r(1), use r(2) in linarith)
qed

text \<open>A concrete instance: one data shard, repeated; the cipher appends a tag that names the key.\<close>

definition demo_storage :: storage_prims where
  "demo_storage = prims.extend demo_prims
     \<lparr> chacha_encrypt = (\<lambda>k n m. Some (m @ k)),
       chacha_decrypt = (\<lambda>k n c. if drop (length c - length k) c = k then Some (take (length c - length k) c) else None),
       rs_new = (\<lambda>d p. 0 < d \<and> 0 < p \<and> d + p \<le> 256),
       rs_encode = (\<lambda>d p shards. if d = 1 \<and> shards \<noteq> [] then Some (replicate (1 + p) (hd shards)) else None),
       rs_reconstruct = (\<lambda>d p kept. case List.find (\<lambda>k. k \<noteq> None) kept of
          Some (Some b) \<Rightarrow> Some (replicate (1 + p) (Some b)) | _ \<Rightarrow> None) \<rparr>"

lemma demo_storage_prims [simp]:
  "sha256 demo_storage = sha256 demo_prims" "blake3 demo_storage = blake3 demo_prims"
  "hex_encode demo_storage = hex_encode demo_prims" "hex_decode demo_storage = hex_decode demo_prims"
  by (simp_all add: demo_storage_def prims.defs demo_prims_def)

lemma demo_rs_corrects: "rs_corrects demo_storage 1 p"
  unfolding rs_corrects_def
proof (intro allI impI)
  fix shards out
  assume enc: "rs_encode demo_storage 1 p shards = Some out"
  then have out: "out = replicate (1 + p) (hd shards)" "shards \<noteq> []"
    by (auto simp: demo_storage_def prims.defs split: if_splits)
  have "rs_reconstruct demo_storage 1 p kept = Some (map Some out)"
    if len: "length kept = 1 + p" and ok: "\<forall>i < 1 + p. kept ! i = None \<or> kept ! i = Some (out ! i)"
      and few: "length (filter (\<lambda>k. k = None) kept) \<le> p" for kept
  proof -
    have all: "k = None \<or> k = Some (hd shards)" if "k \<in> set kept" for k
      using that ok len unfolding in_set_conv_nth out(1) by (metis nth_replicate)
    have "filter (\<lambda>k. k = None) kept \<noteq> kept"
      using few len by auto
    then obtain k where "k \<in> set kept" "k \<noteq> None"
      by (metis (mono_tags, lifting) filter_id_conv)
    then have "List.find (\<lambda>k. k \<noteq> None) kept = Some (Some (hd shards))"
      using all by (induction kept) auto
    then show ?thesis
      by (simp add: demo_storage_def prims.defs out(1))
  qed
  then show "length out = 1 + p \<and> take 1 out = take 1 shards \<and>
        (\<forall>kept. length kept = 1 + p \<longrightarrow> (\<forall>i < 1 + p. kept ! i = None \<or> kept ! i = Some (out ! i)) \<longrightarrow>
           length (filter (\<lambda>k. k = None) kept) \<le> p \<longrightarrow>
           rs_reconstruct demo_storage 1 p kept = Some (map Some out))"
    using out by (cases shards) auto
qed

definition demo_policy :: StoragePolicy where
  "demo_policy = \<lparr> sp_data_shards = 1, sp_parity_shards = 2, sp_max_chunk_size = 4, sp_replica_count = 3 \<rparr>"

theorem erasure_roundtrip_witness:
  "\<exists>pad. recover_shards demo_storage [None, Some [5, 6], None] demo_policy = Ok ([5, 6] @ replicate pad 0)"
proof -
  have enc: "encode_shards demo_storage [5, 6] demo_policy = Ok [[5, 6], [5, 6], [5, 6]]"
    by code_simp
  show ?thesis
    using erasure_roundtrip [of demo_storage demo_policy "[5, 6]" "[[5, 6], [5, 6], [5, 6]]" "[None, Some [5, 6], None]"]
      enc demo_rs_corrects [of 2]
    by (auto simp: demo_policy_def less_Suc_eq eval_nat_numeral)
qed

text \<open>
  The policy chosen for a file always has data and parity shards, between 12 and 1000 in total,
  45 percent of them data (rounded down). Every file above 21 chunk groups of 4 MiB gets more
  than the 256 shards the code's field allows, so its encoding is refused.
\<close>

theorem large_files_are_not_encodable:
  assumes limit: "rs_limit P" and size: "length data < 2 ^ 63" "21 * 4194304 < length data"
  shows "encode_shards P data (for_file_size (length data)) = Inl (Io InvalidInput ''invalid Reed-Solomon policy'')
    \<and> 256 < total_shards (for_file_size (length data)) \<and> total_shards (for_file_size (length data)) \<le> 1000"
proof -
  let ?p = "for_file_size (length data)"
  have "22 \<le> file_groups (length data)"
    using size(2) by (simp add: file_groups_def)
  then have t: "256 < total_shards ?p" "total_shards ?p \<le> 1000"
    using for_file_size_total [OF size(1)] by (auto simp: clamp_nat_def)
  have "0 < sp_data_shards ?p" "0 < sp_parity_shards ?p"
    by (simp_all add: for_file_size_def Let_def custom_scaled_shares)
  moreover have "\<not> rs_new P (sp_data_shards ?p) (sp_parity_shards ?p)"
    using limit t(1) unfolding rs_limit_def total_shards_def by (meson not_less)
  moreover have "data \<noteq> []"
    using size(2) by auto
  ultimately show ?thesis
    using t by (simp add: encode_shards_def Let_def)
qed

theorem large_files_are_not_encodable_witness:
  "encode_shards demo_storage (replicate 90000000 0) (for_file_size 90000000) =
     Inl (Io InvalidInput ''invalid Reed-Solomon policy'')"
proof -
  have "rs_limit demo_storage"
    by (simp add: rs_limit_def demo_storage_def prims.defs)
  then show ?thesis
    using large_files_are_not_encodable [of demo_storage "replicate 90000000 0"] by simp
qed

section \<open>The shard map\<close>

lemma replica_triple_ok:
  assumes "length ids = 3" "distinct ids" "[] \<notin> set ids"
  shows "length (sort_dedup ids) = 3" "distinct (sort_dedup ids)" "[] \<notin> set (sort_dedup ids)"
  using assms by (simp_all add: length_sort_dedup distinct_card)

lemma validate_shards_iff:
  "validate_shards rs = Ok () \<longleftrightarrow> (\<forall>r \<in> set rs. length r = 3 \<and> distinct r \<and> [] \<notin> set r)"
  by (induction rs) (auto simp: Let_def length_sort_dedup card_distinct distinct_card)

lemma assign_from_ok:
  assumes "3 \<le> card (set ids - {[]})" "as_total_shards m = 1000" "length (as_shard_nodes m) = 1000"
    and "\<forall>i \<in> set ks. i < 1000"
  shows "\<exists>nodes. assign_from P ids ks m = (Ok (), m\<lparr>as_shard_nodes := nodes\<rparr>) \<and> length nodes = 1000
    \<and> (\<forall>i < 1000. if i \<in> set ks then nodes ! i = sort_dedup (select_replicas P (as_file_id m) i ids)
                  else nodes ! i = as_shard_nodes m ! i)"
  using assms
proof (induction ks arbitrary: m)
  case Nil
  then show ?case
    by (intro exI [of _ "as_shard_nodes m"]) simp
next
  case (Cons k ks)
  let ?s = "select_replicas P (as_file_id m) k ids"
  let ?m = "m\<lparr>as_shard_nodes := (as_shard_nodes m)[k := sort_dedup ?s]\<rparr>"
  note sound = select_replicas_sound [where P = P and f = "as_file_id m" and i = k and ns = ids]
  have s: "length ?s = 3" "distinct ?s" "[] \<notin> set ?s"
    using sound Cons.prems(1) by auto
  have "assign_replicas m k ?s = (Ok (), ?m)"
    using replica_triple_ok [OF s] s Cons.prems by (auto simp: assign_replicas_def Let_def)
  then have step: "assign_from P ids (k # ks) m = assign_from P ids ks ?m"
    using s(1) by (simp add: Let_def)
  obtain nodes where "assign_from P ids ks ?m = (Ok (), ?m\<lparr>as_shard_nodes := nodes\<rparr>)" "length nodes = 1000"
    "\<forall>i < 1000. if i \<in> set ks then nodes ! i = sort_dedup (select_replicas P (as_file_id ?m) i ids)
                  else nodes ! i = as_shard_nodes ?m ! i"
    using Cons.IH [of ?m] Cons.prems by auto
  then show ?case
    unfolding step using Cons.prems by (intro exI [of _ nodes]) (auto simp: nth_list_update split: if_splits)
qed

text \<open>
  The shard map of a new file: with three distinct non-empty node identities all thousand shards
  are assigned and the map validates; with fewer, even when the list is long enough, the assignment
  reports an error.
\<close>

theorem shard_map_assignment:
  "(3 \<le> card (set ids - {[]}) \<longrightarrow>
      (\<exists>m. assign_all_replicas P (AsMap_new f name site) ids = (Ok (), m) \<and> validate_complete_placement m = Ok ()
         \<and> (\<forall>i < 1000. set (as_shard_nodes m ! i) = set (select_replicas P f i ids))))
   \<and> (card (set ids - {[]}) < 3 \<longrightarrow> \<not> is_ok (fst (assign_all_replicas P (AsMap_new f name site) ids)))"
proof -
  let ?m = "AsMap_new f name site"
  have new: "as_total_shards ?m = 1000" "length (as_shard_nodes ?m) = 1000" "as_file_id ?m = f"
    by (simp_all add: AsMap_new_def hyper_sovereign_def Let_def)
  have "\<exists>m. assign_all_replicas P ?m ids = (Ok (), m) \<and> validate_complete_placement m = Ok ()
         \<and> (\<forall>i < 1000. set (as_shard_nodes m ! i) = set (select_replicas P f i ids))"
    if enough: "3 \<le> card (set ids - {[]})"
  proof -
    have "3 \<le> length ids"
      using enough card_length [of ids] card_mono [of "set ids" "set ids - {[]}"] by auto
    obtain nodes where n: "assign_from P ids [0..<1000] ?m = (Ok (), ?m\<lparr>as_shard_nodes := nodes\<rparr>)"
      "length nodes = 1000" "\<forall>i < 1000. nodes ! i = sort_dedup (select_replicas P f i ids)"
      using assign_from_ok [OF enough new(1,2), of "[0..<1000]" P] new(3) by auto
    have "length r = 3 \<and> distinct r \<and> [] \<notin> set r" if r: "r \<in> set nodes" for r
    proof -
      obtain i where "r = sort_dedup (select_replicas P f i ids)"
        using r n(2,3) by (metis in_set_conv_nth)
      then show ?thesis
        using select_replicas_sound [where P = P and f = f and i = i and ns = ids] enough replica_triple_ok by auto
    qed
    then have "validate_complete_placement (?m\<lparr>as_shard_nodes := nodes\<rparr>) = Ok ()"
      using new n(2) by (simp add: validate_complete_placement_def validate_shards_iff)
    then show ?thesis
      using n new \<open>3 \<le> length ids\<close> by (auto simp: assign_all_replicas_def)
  qed
  moreover have "\<not> is_ok (fst (assign_all_replicas P ?m ids))" if few: "card (set ids - {[]}) < 3"
    using few new select_replicas_sound(3) [of P f 0 ids]
    by (simp add: assign_all_replicas_def upt_rec [of 0] Let_def)
  ultimately show ?thesis by blast
qed

theorem shard_map_assignment_witness:
  "\<exists>m. assign_all_replicas demo_prims (AsMap_new [7] ''f'' None) [''a'', ''b'', ''c''] = (Ok (), m)
     \<and> validate_complete_placement m = Ok ()"
  using shard_map_assignment [of "[''a'', ''b'', ''c'']" demo_prims "[7]" "''f''" None] by auto

section \<open>The daily quota\<close>

fun quota_run :: "DailyQuotaTracker \<Rightarrow> (u64 \<times> u64) list \<Rightarrow> nat" where
  "quota_run q [] = 0"
| "quota_run q ((now, n) # rest) =
     (case check_and_add q now n of (r, q') \<Rightarrow> (if is_ok r then unat n else 0) + quota_run q' rest)"

lemma check_and_add_exact:
  assumes "unat (dq_uploaded_today q) \<le> 53687091200" "check_and_add q now n = (r, q')"
    and "unat now < unat (dq_last_reset_timestamp q) + 86400"
  shows "unat (dq_uploaded_today q') = unat (dq_uploaded_today q) + (if is_ok r then unat n else 0)
    \<and> unat (dq_uploaded_today q') \<le> 53687091200 \<and> dq_last_reset_timestamp q' = dq_last_reset_timestamp q"
proof -
  have "\<not> sat_sub now (dq_last_reset_timestamp q) \<ge> 86400"
    using assms(3) by (simp add: word_le_nat_alt unat_simps)
  then have r: "(r, q') = (if sat_add (dq_uploaded_today q) n > 53687091200
      then (Err ''AWEDrive 50GB/day limit exceeded'', q) else (Ok (), q\<lparr>dq_uploaded_today := dq_uploaded_today q + n\<rparr>))"
    using assms(2) by (simp add: check_and_add_def DAILY_UPLOAD_LIMIT_BYTES_def)
  show ?thesis
  proof (cases "sat_add (dq_uploaded_today q) n > 53687091200")
    case False
    then have le: "min (unat (dq_uploaded_today q) + unat n) (2 ^ 64 - 1) \<le> 53687091200"
      by (simp add: word_less_nat_alt unat_simps not_less)
    then have le': "unat (dq_uploaded_today q) + unat n \<le> 53687091200"
      by (simp add: min_le_iff_disj)
    then have "unat (dq_uploaded_today q + n) = unat (dq_uploaded_today q) + unat n"
      by (simp add: unat_word_ariths)
    then show ?thesis
      using r False le' by simp
  qed (use r assms(1) in simp)
qed

text \<open>
  Within one day of a reset, whatever the sequence of requests, the uploads that are granted add up
  to at most 50 GiB.
\<close>

theorem daily_quota_respected:
  assumes "unat (dq_uploaded_today q) \<le> 53687091200"
    and "\<forall>(now, n) \<in> set reqs. unat now < unat (dq_last_reset_timestamp q) + 86400"
  shows "unat (dq_uploaded_today q) + quota_run q reqs \<le> 53687091200"
  using assms
proof (induction reqs arbitrary: q)
  case (Cons req reqs)
  obtain now n where req: "req = (now, n)" by fastforce
  obtain r q' where st: "check_and_add q now n = (r, q')" by fastforce
  have "unat now < unat (dq_last_reset_timestamp q) + 86400"
    using Cons.prems(2) req by simp
  from check_and_add_exact [OF Cons.prems(1) st this]
  show ?case
    using Cons.IH [of q'] Cons.prems(2) st req by auto
qed simp

theorem daily_quota_respected_witness:
  "quota_run (DailyQuotaTracker_default 5) [(6, 40000000000), (7, 40000000000)] \<le> 53687091200"
  using daily_quota_respected [of "DailyQuotaTracker_default 5" "[(6, 40000000000), (7, 40000000000)]"]
  by (simp add: DailyQuotaTracker_default_def)

section \<open>Sealed files\<close>

definition chacha_correct :: "'a storage_prims_scheme \<Rightarrow> bool" where
  "chacha_correct P \<longleftrightarrow> (\<forall>k n m c. chacha_encrypt P k n m = Some c \<longrightarrow> chacha_decrypt P k n c = Some m)"

lemma decrypt_encrypt:
  assumes "chacha_correct P" "length nonce = 12" "encrypt_file P nonce data key = Ok blob"
  shows "decrypt_file P blob key = Ok data"
  using assms
  by (auto simp: encrypt_file_def decrypt_file_def NONCE_LEN_def chacha_correct_def split: option.splits)

text \<open>
  A secret file package opens with its password and gives back the sealed bytes; a blob that does
  not start with the magic or is too short is reported as invalid without touching the cipher.
\<close>

theorem secret_file_roundtrip:
  assumes "chacha_correct P" "length nonce = 12"
    and "SecretFilePackage_create P salt nonce filename plain password = Ok s"
  shows "unlock_and_decrypt P s password = Ok plain
    \<and> (length blob < 24 \<longrightarrow> decrypt_file P blob key = Inl (Io InvalidData ''invalid AWE Drive object''))"
proof -
  obtain c where "encrypt_file P nonce plain (hash P (as_bytes password) salt) = Ok c"
    "sf_encrypted_payload s = c" "sf_salt s = salt"
    using assms(3) by (auto simp: SecretFilePackage_create_def Let_def split: sum.splits)
  then have "unlock_and_decrypt P s password = Ok plain"
    using decrypt_encrypt [OF assms(1,2)] by (simp add: unlock_and_decrypt_def)
  moreover have "length MAGIC + NONCE_LEN = 24"
    by (simp add: NONCE_LEN_def MAGIC_def)
  ultimately show ?thesis
    by (simp add: decrypt_file_def)
qed

lemma demo_chacha_correct: "chacha_correct demo_storage"
  by (auto simp: chacha_correct_def demo_storage_def prims.defs)

theorem secret_file_roundtrip_witness:
  "\<exists>s. SecretFilePackage_create demo_storage [1] (replicate 12 3) ''doc'' [4, 5] ''pw'' = Ok s
     \<and> unlock_and_decrypt demo_storage s ''pw'' = Ok [4, 5]"
proof -
  obtain s where s: "SecretFilePackage_create demo_storage [1] (replicate 12 3) ''doc'' [4, 5] ''pw'' = Ok s"
    by (simp add: SecretFilePackage_create_def encrypt_file_def demo_storage_def prims.defs Let_def)
  show ?thesis
    using secret_file_roundtrip [OF demo_chacha_correct _ s] s by simp
qed

section \<open>The store\<close>

definition dir_bytes :: "dir \<Rightarrow> nat" where
  "dir_bytes d = bt_sum length d"

lemma stats_used: "st_used (stats s d) = of_nat (dir_bytes d)"
proof -
  have "st_used (fold (\<lambda>(name, content) t. t\<lparr>st_used := st_used t + of_nat (length content), st_objects := st_objects t + 1\<rparr>) d t)
      = st_used t + of_nat (bt_sum length d)" for t :: NodeStorageStats
    by (induction d arbitrary: t) (auto simp: bt_sum_def)
  then show ?thesis
    by (simp add: stats_def dir_bytes_def)
qed

lemma bt_sum_remove_le: "bt_sum f (bt_remove k m) \<le> bt_sum f m"
  by (induction k m rule: bt_remove.induct) (auto simp: bt_sum_def)

lemma bt_sum_insert_le: "bt_inv m \<Longrightarrow> bt_sum f (bt_insert k v m) \<le> bt_sum f m + f v"
  using bt_sum_insert [of m f k v] by linarith

text \<open>Every object file holds the bytes its name is the digest of, and the directory fits the quota.\<close>

definition store_inv :: "'a prims_scheme \<Rightarrow> LocalNodeStore \<Rightarrow> dir \<Rightarrow> bool" where
  "store_inv P s d \<longleftrightarrow> bt_inv d \<and> dir_bytes d \<le> unat (ln_quota s)
     \<and> (\<forall>i data. bt_get d (object_path P i) = Some data \<longrightarrow> content_id P data = i)"

text \<open>Documented behaviour of hexadecimal names: decoding inverts encoding and there is no dot.\<close>

definition hex_names :: "'a prims_scheme \<Rightarrow> bool" where
  "hex_names P \<longleftrightarrow> hex_roundtrip P \<and> (\<forall>b. CHR ''.'' \<notin> set (hex_encode P b))"

lemma part_not_object: "hex_names P \<Longrightarrow> object_path P i \<noteq> object_path P j @ ''.part''"
  unfolding hex_names_def object_path_def by (metis in_set_conv_decomp append_Cons append_Nil)

lemma path_inject: "hex_names P \<Longrightarrow> object_path P i = object_path P j \<longleftrightarrow> i = j"
  by (simp add: hex_names_def object_path_def hex_inject)

lemma put_within_quota:
  assumes "dir_bytes d \<le> unat (ln_quota s)" "length data < 2 ^ 64"
    and "\<not> sat_add (st_used (stats s d)) (of_nat (length data)) > ln_quota s" "ln_quota s \<noteq> - 1"
  shows "dir_bytes d + length data \<le> unat (ln_quota s)"
proof -
  have "unat (st_used (stats s d)) = dir_bytes d" "unat (of_nat (length data) :: u64) = length data"
    using assms(1,2) unat_less_pow [of "ln_quota s"] by (simp_all add: stats_used unat_of_nat)
  then have "min (dir_bytes d + length data) (2 ^ 64 - 1) \<le> unat (ln_quota s)"
    using assms(3) by (simp add: word_less_nat_alt unat_simps not_less min_le_iff_disj)
  then show ?thesis
    using unat_not_max [OF assms(4)] by (auto simp: min_le_iff_disj)
qed

lemma put_outcomes:
  fixes P :: "'a prims_scheme"
  defines "p \<equiv> \<lambda>P :: 'a prims_scheme. \<lambda>data. object_path P (content_id P data)"
  shows "snd (put P s fault d data) = d \<or> (\<not> sat_add (st_used (stats s d)) (of_nat (length data)) > ln_quota s \<and>
      ((\<exists>v. length v \<le> length data \<and> snd (put P s fault d data) = bt_insert (p P data @ ''.part'') v d) \<or>
       snd (put P s fault d data) = bt_insert (p P data) data (bt_remove (p P data @ ''.part'') d)))"
proof (cases fault)
  case (WriteFails k)
  have "\<exists>v. length v \<le> length data \<and> bt_insert x (take n data) d = bt_insert x v d" for n x
    by (rule exI [of _ "take n data"]) simp
  with WriteFails show ?thesis
    by (cases k) (simp_all add: put_def Let_def p_def)
next
  case RenameFails
  then show ?thesis
    by (simp add: put_def Let_def p_def) blast
qed (simp_all add: put_def Let_def p_def)

lemma store_inv_put:
  assumes hex: "hex_names P" and inv: "store_inv P s d" and "length data < 2 ^ 64" "ln_quota s \<noteq> - 1"
  shows "store_inv P s (snd (put P s fault d data))"
proof -
  let ?i = "content_id P data" and ?tmp = "object_path P (content_id P data) @ ''.part''"
  have d: "bt_inv d" "dir_bytes d \<le> unat (ln_quota s)"
    "\<And>i v. bt_get d (object_path P i) = Some v \<Longrightarrow> content_id P v = i"
    using inv by (auto simp: store_inv_def)
  have tmp: "store_inv P s (bt_insert ?tmp v d)"
    if fits: "dir_bytes d + length data \<le> unat (ln_quota s)" and v: "length v \<le> length data" for v
    using bt_sum_insert_le [OF d(1), of length ?tmp v] fits v d part_not_object [OF hex]
    by (auto simp: store_inv_def dir_bytes_def split: if_splits)
  have obj: "store_inv P s (bt_insert (object_path P ?i) data (bt_remove ?tmp d))"
    if fits: "dir_bytes d + length data \<le> unat (ln_quota s)"
    using bt_sum_insert_le [OF bt_inv_remove [OF d(1)], of length "object_path P ?i" data ?tmp]
      bt_sum_remove_le [of length ?tmp d] fits d
    by (auto simp: store_inv_def dir_bytes_def path_inject [OF hex] split: if_splits)
  note fits = put_within_quota [OF d(2) assms(3) _ assms(4)]
  consider (same) "snd (put P s fault d data) = d"
    | (part) v where "\<not> sat_add (st_used (stats s d)) (of_nat (length data)) > ln_quota s"
        "length v \<le> length data" "snd (put P s fault d data) = bt_insert ?tmp v d"
    | (stored) "\<not> sat_add (st_used (stats s d)) (of_nat (length data)) > ln_quota s"
        "snd (put P s fault d data) = bt_insert (object_path P ?i) data (bt_remove ?tmp d)"
    using put_outcomes [of P s fault d data] by blast
  then show ?thesis
  proof cases
    case same
    show ?thesis unfolding same by (rule inv)
  next
    case part
    show ?thesis unfolding part(3) by (rule tmp [OF fits [OF part(1)] part(2)])
  next
    case stored
    show ?thesis unfolding stored(2) by (rule obj [OF fits [OF stored(1)]])
  qed
qed

lemma put_then_get:
  assumes "store_inv P s d" "put P s fault d data = (Ok i, d')"
  shows "i = content_id P data \<and> get_object P d' i = Ok data \<or>
    (\<exists>x. bt_get d (object_path P (content_id P data)) = Some x \<and> x \<noteq> data \<and> blake3 P x = blake3 P data)"
proof (cases "bt_get d (object_path P (content_id P data))")
  case None
  have "i = content_id P data \<and> bt_get d' (object_path P i) = Some data"
    using None assms(2)
    by (cases fault) (auto simp: put_def Let_def bt_contains_def split: if_splits option.splits)
  then have "i = content_id P data" "bt_get d' (object_path P i) = Some data"
    by blast+
  then show ?thesis
    by (simp add: get_object_def)
next
  case (Some x)
  then have "content_id P x = content_id P data" "i = content_id P data" "d' = d"
    using assms by (auto simp: store_inv_def put_def Let_def bt_contains_def)
  then show ?thesis
    using Some by (cases "x = data") (auto simp: get_object_def content_id_def)
qed

text \<open>C22. 
  The store of a node with a quota below the largest 64-bit value: every put, whatever the disk does
  (a failed listing, a partial write, a failed rename), keeps the directory within the quota and
  every object equal to the bytes its name is the digest of; a put that reports success can be
  read back under the identity it returns, unless the store already held a different content with the
  same digest.
\<close>

theorem store_put_safe:
  assumes hex: "hex_names P" and inv: "store_inv P s d" and "length data < 2 ^ 64" "ln_quota s \<noteq> - 1"
  shows "store_inv P s (snd (put P s fault d data))
    \<and> (\<forall>i. fst (put P s fault d data) = Ok i \<longrightarrow>
         i = content_id P data \<and> get_object P (snd (put P s fault d data)) i = Ok data
         \<or> (\<exists>x. bt_get d (object_path P (content_id P data)) = Some x \<and> x \<noteq> data \<and> blake3 P x = blake3 P data))"
proof -
  have "i = content_id P data \<and> get_object P (snd (put P s fault d data)) i = Ok data
         \<or> (\<exists>x. bt_get d (object_path P (content_id P data)) = Some x \<and> x \<noteq> data \<and> blake3 P x = blake3 P data)" if ok: "fst (put P s fault d data) = Ok i" for i
    using put_then_get [OF inv, of fault data i "snd (put P s fault d data)"] ok by (metis prod.collapse)
  then show ?thesis
    using store_inv_put [OF assms] by blast
qed

text \<open>Names in unary: a concrete encoding with the two documented properties.\<close>

fun unary_decode :: "nat \<Rightarrow> string \<Rightarrow> bytes" where
  "unary_decode n [] = []"
| "unary_decode n (c # cs) = (if c = CHR ''b'' then of_nat n # unary_decode 0 cs else unary_decode (Suc n) cs)"

definition demo_names :: prims where
  "demo_names = demo_prims\<lparr>hex_encode := (\<lambda>bs. concat (map (\<lambda>b. replicate (unat b) CHR ''a'' @ ''b'') bs)),
     hex_decode := (\<lambda>s. Some (unary_decode 0 s))\<rparr>"

lemma unary_decode_run: "unary_decode k (replicate n CHR ''a'' @ ''b'' @ r) = of_nat (k + n) # unary_decode 0 r"
  by (induction n arbitrary: k) simp_all

lemma demo_names_ok: "hex_names demo_names"
proof -
  have "unary_decode 0 (concat (map (\<lambda>b. replicate (unat b) CHR ''a'' @ ''b'') bs)) = bs" for bs :: bytes
    by (induction bs) (use unary_decode_run [of 0] in \<open>simp_all\<close>)
  then show ?thesis
    by (auto simp: hex_names_def hex_roundtrip_def demo_names_def)
qed

theorem store_put_safe_witness:
  "store_inv demo_names \<lparr>ln_quota = 100\<rparr> (snd (put demo_names \<lparr>ln_quota = 100\<rparr> RenameFails [] [1, 2]))"
  using store_put_safe [of demo_names "\<lparr>ln_quota = 100\<rparr>" "[]" "[1, 2]" RenameFails] demo_names_ok
  by (simp add: store_inv_def dir_bytes_def bt_get_def)

text \<open>
  Repairing a chunk: data with another digest is refused and changes nothing. When the file of
  the chunk is present but damaged, the repair reports success and leaves the damaged file as it is,
  so the chunk still cannot be read.
\<close>

theorem repair_skips_damaged_objects:
  assumes damaged: "bt_get d (object_path P (cr_hash c)) = Some bad" "content_id P bad \<noteq> cr_hash c"
  shows "(content_id P data \<noteq> cr_hash c \<longrightarrow>
            repair_chunk_data P s fault d c data = (Inl (Io InvalidData ''repaired chunk hash mismatch''), d))
       \<and> (content_id P data = cr_hash c \<longrightarrow> repair_chunk_data P s fault d c data = (Ok (cr_hash c), d)
            \<and> get_object P (snd (repair_chunk_data P s fault d c data)) (cr_hash c)
                = Inl (Io InvalidData ''object integrity failure''))"
  using damaged
  by (auto simp: repair_chunk_data_def put_def get_object_def content_id_def bt_contains_def Let_def)

theorem repair_skips_damaged_objects_witness:
  "repair_chunk_data demo_prims \<lparr>ln_quota = 100\<rparr> NoFault [(from_bytes (pad32 [2]), [9])]
     \<lparr>cr_index = 0, cr_hash = pad32 [2], cr_size = 1\<rparr> [2]
   = (Ok (pad32 [2]), [(from_bytes (pad32 [2]), [9])])"
  using repair_skips_damaged_objects [of "[(from_bytes (pad32 [2]), [9])]" demo_prims
      "\<lparr>cr_index = 0, cr_hash = pad32 [2], cr_size = 1\<rparr>" "[9]" "[2]" "\<lparr>ln_quota = 100\<rparr>" NoFault]
  by (simp add: bt_get_def object_path_def content_id_def pad32_def)

section \<open>Garbage collection\<close>

lemma gc_entries_keeps:
  assumes "bt_inv d" "gc_entries P removable live names removed d = (r, d')"
  shows "bt_inv d' \<and> (\<forall>k. \<not> is_garbage P live k \<longrightarrow> bt_get d' k = bt_get d k)
    \<and> (\<forall>k v. bt_get d' k = Some v \<longrightarrow> bt_get d k = Some v)
    \<and> (\<forall>x. r = Ok x \<longrightarrow> (\<forall>k \<in> set names. is_garbage P live k \<longrightarrow> bt_get d' k = None))"
  using assms
proof (induction P removable live names removed d rule: gc_entries.induct)
  case (2 P removable live name rest removed d)
  note inv = 2(3) and run = 2(4)
  show ?case
  proof (cases "is_garbage P live name \<and> removable name")
    case True
    then have "gc_entries P removable live rest (removed + 1) (bt_remove name d) = (r, d')" "bt_inv (bt_remove name d)"
      using run inv by simp_all
    note IH = 2(1) [OF conjunct1 [OF True] conjunct2 [OF True] this(2,1)]
    have gone: "bt_get d' name = None"
    proof (cases "bt_get d' name")
      case (Some v)
      then have "bt_get (bt_remove name d) name = Some v"
        using IH by blast
      then show ?thesis
        using inv by simp
    qed
    have same: "bt_get d' k = bt_get d k" if k: "\<not> is_garbage P live k" for k
    proof -
      have "k \<noteq> name" "bt_get d' k = bt_get (bt_remove name d) k"
        using k True IH by blast+
      then show ?thesis
        using inv by simp
    qed
    have old: "bt_get d k = Some v" if v: "bt_get d' k = Some v" for k v
    proof -
      have "bt_get (bt_remove name d) k = Some v"
        using v IH by blast
      then show ?thesis
        using inv by (simp split: if_splits)
    qed
    show ?thesis
    proof (intro conjI allI impI ballI)
      fix x k
      assume "r = Ok x" "k \<in> set (name # rest)" "is_garbage P live k"
      then show "bt_get d' k = None"
        using IH gone by (cases "k = name") auto
    qed (use IH same old in blast)+
  next
    case False
    show ?thesis
    proof (cases "is_garbage P live name")
      case True
      with False have "r = Inl (Io OtherIo ''remove_file'')" "d' = d"
        using run by auto
      then show ?thesis
        using inv by simp
    next
      case False
      then have "gc_entries P removable live rest removed d = (r, d')"
        using run by simp
      note IH = 2(2) [OF False inv this]
      show ?thesis
      proof (intro conjI allI impI ballI)
        fix x k
        assume k: "r = Ok x" "k \<in> set (name # rest)" "is_garbage P live k"
        then have "k \<in> set rest"
          using False by (cases "k = name") simp_all
        then show "bt_get d' k = None"
          using IH k by blast
      qed (use IH in blast)+
    qed
  qed
qed simp

lemma gc_sound:
  assumes "bt_inv d" "gc P removable live d = (Ok n, d')"
  shows "bt_get d' k = (if is_garbage P live k then None else bt_get d k)"
proof (cases "is_garbage P live k")
  case True
  note keeps = gc_entries_keeps [OF assms(1) assms(2) [unfolded gc_def]]
  have "bt_get d' k = None"
  proof (cases "k \<in> set (map fst d)")
    case False
    then show ?thesis
      using keeps bt_get_notin [of k d] by (cases "bt_get d' k") auto
  qed (use keeps True in blast)
  then show ?thesis
    using True by simp
next
  case False
  then have "bt_get d' k = bt_get d k"
    using gc_entries_keeps [OF assms(1) assms(2) [unfolded gc_def]] by blast
  then show ?thesis
    using False by simp
qed

end
