(* ===== verification/Topology.thy ===== *)
theory Topology
  imports Ordered_Map
begin

text \<open>
  The overlay of data centres (core/src/network_topology.rs): nodes with measured peers, centres
  linked through full meshes or relays, groups of centres, failover of a relay and route search.

  \<^verbatim>\<open>HashMap\<close> and \<^verbatim>\<open>HashSet\<close> iterate in an unspecified order; the model fixes the order of the keys, and
  no theorem depends on it. A \<^verbatim>\<open>HashSet<String>\<close> is its sorted element list. An \<^verbatim>\<open>unwrap\<close> or an index
  that fails is a \<open>Panic\<close>. The breadth-first search is a recursive function with a termination proof, and
  the walk back along the predecessors a partial function that is proved to return.
\<close>

section \<open>Data\<close>

datatype CentreLinkMode = FullMesh | Relay string

record PeerMetrics =
  mt_rtt_ms :: u32
  mt_throughput_kbps :: u64
  mt_load_percent :: u8
  mt_reliability_percent :: u8
  mt_last_seen_unix :: u64

definition PeerMetrics_default :: PeerMetrics where
  "PeerMetrics_default = \<lparr> mt_rtt_ms = 0, mt_throughput_kbps = 0, mt_load_percent = 0,
     mt_reliability_percent = 0, mt_last_seen_unix = 0 \<rparr>"

definition PeerMetrics_score :: "PeerMetrics \<Rightarrow> u64" where
  "PeerMetrics_score m =
     (let rtt = ucast (max (mt_rtt_ms m) 1);
          load = ucast (min (mt_load_percent m) 100);
          reliability = ucast (min (mt_reliability_percent m) 100)
      in sat_mul rtt 4 + sat_mul load 10 + sat_mul (100 - reliability) 20)"

definition PeerMetrics_is_healthy :: "PeerMetrics \<Rightarrow> u64 \<Rightarrow> u64 \<Rightarrow> bool" where
  "PeerMetrics_is_healthy m now_unix max_age \<longleftrightarrow>
     mt_last_seen_unix m > 0 \<and> sat_sub now_unix (mt_last_seen_unix m) \<le> max_age \<and> mt_reliability_percent m \<ge> 50"

record topo_node =
  tn_id :: string
  tn_peers :: "string list"
  tn_alive :: bool
  tn_metrics :: PeerMetrics

definition Node_new :: "string \<Rightarrow> topo_node" where
  "Node_new i = \<lparr> tn_id = i, tn_peers = [], tn_alive = True, tn_metrics = PeerMetrics_default \<rparr>"

definition Node_set_health :: "topo_node \<Rightarrow> bool \<Rightarrow> topo_node" where
  "Node_set_health n alive = n\<lparr>tn_alive := alive\<rparr>"

definition Node_update_metrics :: "topo_node \<Rightarrow> PeerMetrics \<Rightarrow> topo_node" where
  "Node_update_metrics n metrics = n\<lparr>tn_metrics := metrics\<rparr>"

record CentreLink =
  cl_mode :: CentreLinkMode
  cl_relays :: "string list"
  cl_healthy :: bool

record DataCentre =
  dc_id :: string
  dc_nodes :: "(string, topo_node) btree_map"
  dc_links :: "string list"
  dc_link_state :: "(string, CentreLink) btree_map"

record DataGroup =
  dg_id :: string
  dg_centres :: "string list"

record CentreGroup =
  cg_id :: string
  cg_groups :: "string list"

record AweNet =
  an_centres :: "(string, DataCentre) btree_map"
  an_data_groups :: "(string, DataGroup) btree_map"
  an_centre_groups :: "(string, CentreGroup) btree_map"

text \<open>\<^verbatim>\<open>get_mut(k).map(f)\<close>: change the value of a present key.\<close>

definition bt_update :: "'k \<Rightarrow> ('v \<Rightarrow> 'v) \<Rightarrow> ('k, 'v) btree_map \<Rightarrow> ('k, 'v) btree_map" where
  "bt_update k f m = map (\<lambda>(j, v). (j, if j = k then f v else v)) m"

definition add_peer :: "string \<Rightarrow> topo_node \<Rightarrow> topo_node" where
  "add_peer p n = n\<lparr>tn_peers := insort_insert p (tn_peers n)\<rparr>"

section \<open>A data centre\<close>

definition DataCentre_new :: "string \<Rightarrow> DataCentre" where
  "DataCentre_new i = \<lparr> dc_id = i, dc_nodes = [], dc_links = [], dc_link_state = [] \<rparr>"

definition nearest :: "DataCentre \<Rightarrow> string \<Rightarrow> string option" where
  "nearest d from =
     map_option tn_id
       (min_by_key (\<lambda>n. (PeerMetrics_score (tn_metrics n), length (tn_peers n), tn_id n))
         (filter (\<lambda>n. tn_alive n \<and> tn_id n \<noteq> from) (map snd (dc_nodes d))))"

definition add_node :: "DataCentre \<Rightarrow> topo_node \<Rightarrow> DataCentre" where
  "add_node d n =
     (let d = (if tn_alive n then
                 (case nearest d (tn_id n) of
                    None \<Rightarrow> d
                  | Some peer \<Rightarrow> d\<lparr>dc_nodes := bt_update peer (add_peer (tn_id n)) (dc_nodes d)\<rparr>)
               else d)
      in d\<lparr>dc_nodes := bt_insert (tn_id n) n (dc_nodes d)\<rparr>)"

definition live_ids :: "DataCentre \<Rightarrow> string list" where
  "live_ids d = map tn_id (filter tn_alive (map snd (dc_nodes d)))"

definition mesh_step :: "(string, topo_node) btree_map \<Rightarrow> string \<times> string \<Rightarrow> (string, topo_node) btree_map" where
  "mesh_step m ab = (case ab of (a, b) \<Rightarrow> if a \<noteq> b then bt_update a (add_peer b) m else m)"

definition full_mesh :: "DataCentre \<Rightarrow> DataCentre" where
  "full_mesh d =
     (let ids = live_ids d
      in d\<lparr>dc_nodes := foldl mesh_step (dc_nodes d) (List.product ids ids)\<rparr>)"

definition mark_node :: "DataCentre \<Rightarrow> string \<Rightarrow> bool \<Rightarrow> unit result \<times> DataCentre" where
  "mark_node d i alive =
     (if bt_contains (dc_nodes d) i
      then (Ok (), d\<lparr>dc_nodes := bt_update i (\<lambda>n. n\<lparr>tn_alive := alive\<rparr>) (dc_nodes d)\<rparr>)
      else (Err ''node not found'', d))"

definition healthy_nodes :: "DataCentre \<Rightarrow> u64 \<Rightarrow> u64 \<Rightarrow> string list" where
  "healthy_nodes d now_unix max_age =
     map tn_id (filter (\<lambda>n. tn_alive n \<and>
         (mt_last_seen_unix (tn_metrics n) = 0 \<or> PeerMetrics_is_healthy (tn_metrics n) now_unix max_age))
       (map snd (dc_nodes d)))"

section \<open>Groups\<close>

definition DataGroup_new :: "string \<Rightarrow> string list \<Rightarrow> DataGroup result" where
  "DataGroup_new i centres =
     (if length centres < 3 then Err ''DataGroup requires at least 3 data centres''
      else Ok \<lparr> dg_id = i, dg_centres = fold insort_insert centres [] \<rparr>)"

definition CentreGroup_new :: "string \<Rightarrow> string list \<Rightarrow> CentreGroup result" where
  "CentreGroup_new i groups =
     (if length groups < 2 then Err ''CentreGroup requires at least 2 data groups''
      else Ok \<lparr> cg_id = i, cg_groups = fold insort_insert groups [] \<rparr>)"

section \<open>The network\<close>

definition add_centre :: "AweNet \<Rightarrow> DataCentre \<Rightarrow> unit result \<times> AweNet" where
  "add_centre net d =
     (if \<exists>existing \<in> set (map snd (an_centres net)). \<exists>i \<in> set (map fst (dc_nodes d)). bt_contains (dc_nodes existing) i
      then (Err ''node IDs must be globally unique across data centres'', net)
      else (Ok (), net\<lparr>an_centres := bt_insert (dc_id d) d (an_centres net)\<rparr>))"

definition add_data_group :: "AweNet \<Rightarrow> DataGroup \<Rightarrow> unit result \<times> AweNet" where
  "add_data_group net g =
     (if \<not> (\<forall>i \<in> set (dg_centres g). bt_contains (an_centres net) i)
      then (Err ''data group references an unknown centre'', net)
      else (Ok (), net\<lparr>an_data_groups := bt_insert (dg_id g) g (an_data_groups net)\<rparr>))"

definition add_centre_group :: "AweNet \<Rightarrow> CentreGroup \<Rightarrow> unit result \<times> AweNet" where
  "add_centre_group net g =
     (if \<not> (\<forall>i \<in> set (cg_groups g). bt_contains (an_data_groups net) i)
      then (Err ''centre group references an unknown data group'', net)
      else (Ok (), net\<lparr>an_centre_groups := bt_insert (cg_id g) g (an_centre_groups net)\<rparr>))"

definition insert_peer :: "string \<Rightarrow> string \<Rightarrow> string \<Rightarrow> (string, DataCentre) btree_map \<Rightarrow> (string, DataCentre) btree_map" where
  "insert_peer c n p cs = bt_update c (\<lambda>d. d\<lparr>dc_nodes := bt_update n (add_peer p) (dc_nodes d)\<rparr>) cs"

definition link_pair :: "string \<Rightarrow> string \<Rightarrow> (string, DataCentre) btree_map \<Rightarrow> string \<times> string \<Rightarrow> (string, DataCentre) btree_map" where
  "link_pair a b cs xy = (case xy of (x, y) \<Rightarrow> insert_peer b y x (insert_peer a x y cs))"

definition set_link :: "string \<Rightarrow> string \<Rightarrow> CentreLink \<Rightarrow> (string, DataCentre) btree_map \<Rightarrow> (string, DataCentre) btree_map" where
  "set_link a b l cs =
     bt_update a (\<lambda>d. d\<lparr>dc_links := insort_insert b (dc_links d), dc_link_state := bt_insert b l (dc_link_state d)\<rparr>) cs"

definition node_score :: "DataCentre \<Rightarrow> string \<Rightarrow> u64" where
  "node_score d i = (case bt_get (dc_nodes d) i of None \<Rightarrow> 0 | Some n \<Rightarrow> PeerMetrics_score (tn_metrics n))"

text \<open>The lists \<open>left\<close> and \<open>right\<close> hold the identifiers of the nodes, not their keys: a node stored under another
  key panics where the code looks it up, in full mesh every node of both sides, with a relay the relay and
  every node of the right side, whose scores are compared.\<close>

definition connect_centres :: "AweNet \<Rightarrow> string \<Rightarrow> string \<Rightarrow> CentreLinkMode \<Rightarrow> unit result \<times> AweNet" where
  "connect_centres net a b mode =
     (case (bt_get (an_centres net) a, bt_get (an_centres net) b) of
        (Some da, Some db) \<Rightarrow>
          if a = b then (Err ''invalid data-centre pair'', net)
          else let left = live_ids da; right = live_ids db
          in if left = [] \<or> right = [] then (Err ''both centres must contain live nodes'', net)
          else (case mode of
                  FullMesh \<Rightarrow>
                    if (\<exists>x \<in> set left. \<not> bt_contains (dc_nodes da) x) \<or> (\<exists>y \<in> set right. \<not> bt_contains (dc_nodes db) y)
                    then (Inl (Panic ''called Option::unwrap on a None value''), net)
                    else let cs = foldl (link_pair a b) (an_centres net) (List.product left right);
                        l = \<lparr> cl_mode = FullMesh, cl_relays = left, cl_healthy = True \<rparr>
                    in (Ok (), net\<lparr>an_centres := set_link b a l (set_link a b l cs)\<rparr>)
                | Relay relay_node \<Rightarrow>
                    if relay_node \<notin> set left then (Err ''relay node missing or offline'', net)
                    else if \<exists>y \<in> set right. \<not> bt_contains (dc_nodes db) y
                    then (Inl (Panic ''no entry found for key''), net)
                    else if \<not> bt_contains (dc_nodes da) relay_node
                    then (Inl (Panic ''called Option::unwrap on a None value''), net)
                    else (case min_by_key (node_score db) right of
                            None \<Rightarrow> (Inl (Panic ''called Option::unwrap on a None value''), net)
                          | Some target \<Rightarrow>
                              let cs = link_pair a b (an_centres net) (relay_node, target);
                                  l = \<lparr> cl_mode = Relay relay_node, cl_relays = [relay_node], cl_healthy = True \<rparr>
                              in (Ok (), net\<lparr>an_centres := set_link b a l (set_link a b l cs)\<rparr>)))
      | _ \<Rightarrow> (Err ''invalid data-centre pair'', net))"

definition push_relay :: "string \<Rightarrow> string \<Rightarrow> string \<Rightarrow> (string, DataCentre) btree_map \<Rightarrow> (string, DataCentre) btree_map" where
  "push_relay a b r cs =
     bt_update a (\<lambda>d. d\<lparr>dc_link_state := bt_update b (\<lambda>l. l\<lparr>cl_relays := cl_relays l @ [r]\<rparr>) (dc_link_state d)\<rparr>) cs"

definition failover_relay :: "AweNet \<Rightarrow> string \<Rightarrow> string \<Rightarrow> string result \<times> AweNet" where
  "failover_relay net a b =
     (case Option.bind (bt_get (an_centres net) a) (\<lambda>c. bt_get (dc_link_state c) b) of
        None \<Rightarrow> (Err ''link not found'', net)
      | Some state \<Rightarrow>
        (case bt_get (an_centres net) a of
           None \<Rightarrow> (Err ''link not found'', net)
         | Some da \<Rightarrow>
           (case min_by_key (\<lambda>n. PeerMetrics_score (tn_metrics n))
                   (filter (\<lambda>n. tn_alive n \<and> tn_id n \<notin> set (cl_relays state)) (map snd (dc_nodes da))) of
              None \<Rightarrow> (Err ''no healthy relay available'', net)
            | Some candidate \<Rightarrow>
              (case bt_get (an_centres net) b of
                 None \<Rightarrow> (Inl (Panic ''no entry found for key''), net)
               | Some db \<Rightarrow>
                 (case min_by_key (\<lambda>n. PeerMetrics_score (tn_metrics n)) (filter tn_alive (map snd (dc_nodes db))) of
                    None \<Rightarrow> (Err ''target centre has no live nodes'', net)
                  | Some target \<Rightarrow>
                    if \<not> bt_contains (dc_nodes da) (tn_id candidate) \<or> \<not> bt_contains (dc_nodes db) (tn_id target)
                       \<or> \<not> bt_contains (dc_link_state db) a
                    then (Inl (Panic ''called Option::unwrap on a None value''), net)
                    else let cs = link_pair a b (an_centres net) (tn_id candidate, tn_id target);
                             cs = push_relay b a (tn_id candidate) (push_relay a b (tn_id candidate) cs)
                         in (Ok (tn_id candidate), net\<lparr>an_centres := cs\<rparr>))))))"

definition knows_node :: "AweNet \<Rightarrow> string \<Rightarrow> bool" where
  "knows_node net p \<longleftrightarrow> (\<exists>d \<in> set (map snd (an_centres net)). bt_contains (dc_nodes d) p)"

definition AweNet_validate :: "AweNet \<Rightarrow> unit result" where
  "AweNet_validate net =
     (if \<exists>d \<in> set (map snd (an_centres net)). \<exists>n \<in> set (map snd (dc_nodes d)). \<exists>p \<in> set (tn_peers n). \<not> knows_node net p
      then Err ''node references unknown peer''
      else if \<exists>g \<in> set (map snd (an_data_groups net)).
                length (dg_centres g) < 3 \<or> \<not> (\<forall>i \<in> set (dg_centres g). bt_contains (an_centres net) i)
      then Err ''invalid data group''
      else if \<exists>g \<in> set (map snd (an_centre_groups net)).
                length (cg_groups g) < 2 \<or> \<not> (\<forall>i \<in> set (cg_groups g). bt_contains (an_data_groups net) i)
      then Err ''invalid centre group''
      else Ok ())"

section \<open>Route search\<close>

definition alive_somewhere :: "AweNet \<Rightarrow> string \<Rightarrow> bool" where
  "alive_somewhere net p \<longleftrightarrow>
     (\<exists>d \<in> set (map snd (an_centres net)). case bt_get (dc_nodes d) p of None \<Rightarrow> False | Some x \<Rightarrow> tn_alive x)"

type_synonym adjacency = "(string, string list) btree_map"

definition extend_entry :: "AweNet \<Rightarrow> adjacency \<Rightarrow> topo_node \<Rightarrow> adjacency" where
  "extend_entry net adj n =
     bt_insert (tn_id n) (bt_get_or adj (tn_id n) [] @ filter (alive_somewhere net) (tn_peers n)) adj"

definition live_nodes :: "AweNet \<Rightarrow> topo_node list" where
  "live_nodes net = filter tn_alive (concat (map (\<lambda>d. map snd (dc_nodes d)) (map snd (an_centres net))))"

definition build_adjacency :: "AweNet \<Rightarrow> adjacency" where
  "build_adjacency net = foldl (extend_entry net) [] (live_nodes net)"

type_synonym predecessors = "(string, string option) btree_map"

fun visit :: "string \<Rightarrow> string list \<Rightarrow> predecessors \<Rightarrow> string list \<Rightarrow> predecessors \<times> string list" where
  "visit x [] prev q = (prev, q)"
| "visit x (p # ps) prev q =
     (if bt_contains prev p then visit x ps prev q
      else visit x ps (bt_insert p (Some x) prev) (q @ [p]))"

definition unvisited :: "adjacency \<Rightarrow> predecessors \<Rightarrow> nat" where
  "unvisited adj prev = card (set (concat (map snd adj)) - dom (bt_get prev))"

lemma visit_measure:
  assumes "set ps \<subseteq> set (concat (map snd adj))" "visit x ps prev q = (prev', q')"
  shows "unvisited adj prev' + length q' = unvisited adj prev + length q \<and> unvisited adj prev' \<le> unvisited adj prev"
  using assms
proof (induction x ps prev q rule: visit.induct)
  case (2 x p ps prev q)
  let ?U = "set (concat (map snd adj))"
  have "unvisited adj (bt_insert p (Some x) prev) + 1 = unvisited adj prev" if "\<not> bt_contains prev p"
  proof -
    have "dom (bt_get (bt_insert p (Some x) prev)) = insert p (dom (bt_get prev))"
      by auto
    then have "?U - dom (bt_get prev) = insert p (?U - dom (bt_get (bt_insert p (Some x) prev)))"
      using that 2(3) by (auto simp: bt_contains_def)
    moreover have "p \<notin> ?U - dom (bt_get (bt_insert p (Some x) prev))"
      by auto
    ultimately show ?thesis
      by (simp add: unvisited_def)
  qed
  then show ?case
    using 2 by (force split: if_splits)
qed simp

lemma adjacency_in_range: "set (bt_get_or adj x []) \<subseteq> set (concat (map snd adj))"
  by (cases "bt_get adj x") (auto simp: bt_get_def dest!: map_of_SomeD intro!: bexI)

function bfs :: "adjacency \<Rightarrow> string \<Rightarrow> string list \<Rightarrow> predecessors \<Rightarrow> predecessors" where
  "bfs adj dst [] prev = prev"
| "bfs adj dst (x # q) prev =
     (if x = dst then prev
      else case visit x (bt_get_or adj x []) prev q of (prev', q') \<Rightarrow> bfs adj dst q' prev')"
  by pat_completeness auto

termination
proof (relation "measure (\<lambda>(adj, dst, q, prev). 2 * unvisited adj prev + length q)")
  fix adj dst x q prev prev' q'
  assume v: "(prev', q') = visit x (bt_get_or adj x []) prev q"
  show "((adj, dst, q', prev'), adj, dst, x # q, prev)
      \<in> measure (\<lambda>(adj, dst, q, prev). 2 * unvisited adj prev + length q)"
    using visit_measure [OF adjacency_in_range v [symmetric]] by simp
qed simp

partial_function (option) trace_back :: "predecessors \<Rightarrow> string \<Rightarrow> string list \<Rightarrow> string list option" where
  "trace_back prev x out =
     (case bt_get prev x of
        None \<Rightarrow> None
      | Some r \<Rightarrow> (case r of None \<Rightarrow> Some (x # out) | Some p \<Rightarrow> trace_back prev p (x # out)))"

definition route :: "AweNet \<Rightarrow> string \<Rightarrow> string \<Rightarrow> string list option" where
  "route net src dst =
     (if src = dst then Some [src]
      else let prev = bfs (build_adjacency net) dst [src] [(src, None)]
           in if \<not> bt_contains prev dst then None else trace_back prev dst [])"

section \<open>The search finds a path exactly when there is one\<close>

definition edge :: "adjacency \<Rightarrow> string \<Rightarrow> string \<Rightarrow> bool" where
  "edge adj x y \<longleftrightarrow> y \<in> set (bt_get_or adj x [])"

text \<open>The chain of predecessors from a node back to the source, in travelling order.\<close>

inductive chain :: "predecessors \<Rightarrow> string \<Rightarrow> string list \<Rightarrow> bool" where
  source: "bt_get prev x = Some None \<Longrightarrow> chain prev x [x]"
| hop: "chain prev p path \<Longrightarrow> bt_get prev x = Some (Some p) \<Longrightarrow> chain prev x (path @ [x])"

lemma chain_mono:
  assumes "chain prev x path" "\<And>k v. bt_get prev k = Some v \<Longrightarrow> bt_get prev' k = Some v"
  shows "chain prev' x path"
  using assms by (induction rule: chain.induct) (auto intro: chain.intros)

lemma chain_traces: "chain prev x path \<Longrightarrow> trace_back prev x out = Some (path @ out)"
proof (induction arbitrary: out rule: chain.induct)
  case (source prev x)
  then show ?case by (subst trace_back.simps) simp
next
  case (hop prev p path x)
  then show ?case by (subst trace_back.simps) simp
qed

definition good_path :: "adjacency \<Rightarrow> string \<Rightarrow> string \<Rightarrow> string list \<Rightarrow> bool" where
  "good_path adj src dst path \<longleftrightarrow>
     path \<noteq> [] \<and> hd path = src \<and> last path = dst \<and> successively (edge adj) path"

definition search_inv :: "adjacency \<Rightarrow> string \<Rightarrow> predecessors \<Rightarrow> bool" where
  "search_inv adj src prev \<longleftrightarrow> bt_contains prev src
     \<and> (\<forall>y. bt_contains prev y \<longrightarrow> (\<exists>path. chain prev y path \<and> good_path adj src y path))"

lemma search_inv_insert:
  assumes inv: "search_inv adj src prev" and x: "bt_contains prev x" and "edge adj x p" "\<not> bt_contains prev p"
  shows "search_inv adj src (bt_insert p (Some x) prev)"
proof -
  let ?prev = "bt_insert p (Some x) prev"
  have mono: "bt_get prev k = Some v \<Longrightarrow> bt_get ?prev k = Some v" for k v
    using assms(4) by (auto simp: bt_contains_def)
  obtain path where "chain prev x path" "good_path adj src x path"
    using inv x unfolding search_inv_def by blast
  then have ch: "chain ?prev x path" and path: "good_path adj src x path"
    using chain_mono [OF _ mono] by blast+
  have "chain ?prev p (path @ [p])"
    by (rule chain.hop [OF ch]) simp
  moreover have "good_path adj src p (path @ [p])"
    using assms(3) path by (auto simp: good_path_def successively_append_iff)
  moreover have "\<exists>path. chain ?prev y path \<and> good_path adj src y path" if "bt_contains prev y" for y
    using inv that chain_mono [OF _ mono] unfolding search_inv_def by blast
  ultimately show ?thesis
    using inv unfolding search_inv_def by auto
qed

lemma visit_spec:
  assumes "search_inv adj src prev" "bt_contains prev x" "\<forall>p \<in> set ps. edge adj x p"
    "visit x ps prev q = (prev', q')"
  shows "search_inv adj src prev'"
    and "\<And>y. bt_contains prev y \<Longrightarrow> bt_contains prev' y" "\<And>p. p \<in> set ps \<Longrightarrow> bt_contains prev' p"
    and "\<And>y. bt_contains prev' y \<Longrightarrow> bt_contains prev y \<or> y \<in> set q'" "set q \<subseteq> set q'"
    and "\<And>y. y \<in> set q' \<Longrightarrow> y \<in> set q \<or> bt_contains prev' y"
proof -
  have "search_inv adj src prev' \<and> (\<forall>y. bt_contains prev y \<longrightarrow> bt_contains prev' y)
      \<and> (\<forall>p \<in> set ps. bt_contains prev' p) \<and> (\<forall>y. bt_contains prev' y \<longrightarrow> bt_contains prev y \<or> y \<in> set q')
      \<and> set q \<subseteq> set q' \<and> (\<forall>y \<in> set q'. y \<in> set q \<or> bt_contains prev' y)"
    using assms
  proof (induction x ps prev q rule: visit.induct)
    case (2 x p ps prev q)
    show ?case
    proof (cases "bt_contains prev p")
      case True
      then have "search_inv adj src prev' \<and> (\<forall>y. bt_contains prev y \<longrightarrow> bt_contains prev' y)
      \<and> (\<forall>p \<in> set ps. bt_contains prev' p) \<and> (\<forall>y. bt_contains prev' y \<longrightarrow> bt_contains prev y \<or> y \<in> set q')
      \<and> set q \<subseteq> set q' \<and> (\<forall>y \<in> set q'. y \<in> set q \<or> bt_contains prev' y)"
        using 2 by simp
      with True show ?thesis by simp
    next
      case False
      then have "search_inv adj src (bt_insert p (Some x) prev)"
        using 2(3-6) by (intro search_inv_insert) simp_all
      then have "search_inv adj src prev' \<and> (\<forall>y. bt_contains (bt_insert p (Some x) prev) y \<longrightarrow> bt_contains prev' y)
      \<and> (\<forall>p \<in> set ps. bt_contains prev' p)
      \<and> (\<forall>y. bt_contains prev' y \<longrightarrow> bt_contains (bt_insert p (Some x) prev) y \<or> y \<in> set q')
      \<and> set (q @ [p]) \<subseteq> set q' \<and> (\<forall>y \<in> set q'. y \<in> set (q @ [p]) \<or> bt_contains prev' y)"
        using 2(2) 2(4-6) False by simp
      then show ?thesis by auto
    qed
  qed simp
  then show "search_inv adj src prev'"
    "\<And>y. bt_contains prev y \<Longrightarrow> bt_contains prev' y" "\<And>p. p \<in> set ps \<Longrightarrow> bt_contains prev' p"
    "\<And>y. bt_contains prev' y \<Longrightarrow> bt_contains prev y \<or> y \<in> set q'" "set q \<subseteq> set q'"
    "\<And>y. y \<in> set q' \<Longrightarrow> y \<in> set q \<or> bt_contains prev' y"
    by blast+
qed

lemma bfs_spec:
  assumes "search_inv adj src prev" "set q \<subseteq> dom (bt_get prev)"
    and "\<forall>x y. bt_contains prev x \<longrightarrow> x \<notin> set q \<longrightarrow> edge adj x y \<longrightarrow> bt_contains prev y"
  shows "search_inv adj src (bfs adj dst q prev)
    \<and> (bt_contains (bfs adj dst q prev) dst \<or>
       (\<forall>x y. bt_contains (bfs adj dst q prev) x \<longrightarrow> edge adj x y \<longrightarrow> bt_contains (bfs adj dst q prev) y))"
  using assms
proof (induction adj dst q prev rule: bfs.induct)
  case (2 adj dst x q prev)
  have x: "bt_contains prev x"
    using 2(3) by (auto simp: bt_contains_def)
  show ?case
  proof (cases "x = dst")
    case True
    then show ?thesis
      using 2(2) x by simp
  next
    case False
    obtain prev' q' where v: "visit x (bt_get_or adj x []) prev q = (prev', q')" by fastforce
    have "\<forall>p \<in> set (bt_get_or adj x []). edge adj x p"
      by (simp add: edge_def)
    note sp = visit_spec [OF 2(2) x this v]
    have "set q' \<subseteq> dom (bt_get prev')"
    proof
      fix y assume "y \<in> set q'"
      then have "y \<in> set q \<or> bt_contains prev' y" by (rule sp(6))
      moreover have "bt_contains prev y" if "y \<in> set q"
        using that 2(3) by (auto simp: bt_contains_def)
      ultimately have "bt_contains prev' y"
        using sp(2) by blast
      then show "y \<in> dom (bt_get prev')" by (auto simp: bt_contains_def)
    qed
    moreover have "bt_contains prev' z" if "bt_contains prev' y" "y \<notin> set q'" "edge adj y z" for y z
    proof (cases "y = x")
      case True
      then show ?thesis
        using that(3) sp(3) by (simp add: edge_def)
    next
      case False
      then have "bt_contains prev y" "y \<notin> set (x # q)"
        using that(1,2) sp(4,5) by auto
      then show ?thesis
        using 2(4) that(3) sp(2) by blast
    qed
    ultimately show ?thesis
      using 2(1) [OF False v [symmetric] sp(1)] False v by simp
  qed
qed auto

lemma build_adjacency_edges:
  "edge (build_adjacency net) x y \<longleftrightarrow>
     alive_somewhere net y \<and> (\<exists>n \<in> set (live_nodes net). tn_id n = x \<and> y \<in> set (tn_peers n))"
proof -
  have fold: "set (bt_get_or (foldl (extend_entry net) adj ns) x []) =
      set (bt_get_or adj x []) \<union> {y. alive_somewhere net y \<and> (\<exists>n \<in> set ns. tn_id n = x \<and> y \<in> set (tn_peers n))}"
    for adj ns
    by (induction ns arbitrary: adj) (auto simp: extend_entry_def)
  have "bt_get_or ([] :: adjacency) x [] = []"
    by (simp add: bt_get_or_def bt_get_def)
  then show ?thesis
    unfolding edge_def build_adjacency_def fold by simp
qed

definition live_edge :: "AweNet \<Rightarrow> string \<Rightarrow> string \<Rightarrow> bool" where
  "live_edge net x y \<longleftrightarrow> alive_somewhere net y \<and> (\<exists>n \<in> set (live_nodes net). tn_id n = x \<and> y \<in> set (tn_peers n))"

lemma edge_build_adjacency: "edge (build_adjacency net) = live_edge net"
  by (intro ext) (simp add: live_edge_def build_adjacency_edges)

lemma closed_reach:
  assumes "(live_edge net)\<^sup>*\<^sup>* src y" "bt_contains prev src"
    "\<forall>x y. bt_contains prev x \<longrightarrow> live_edge net x y \<longrightarrow> bt_contains prev y"
  shows "bt_contains prev y"
  using assms(1) by (induction rule: rtranclp_induct) (use assms in blast)+

lemma good_path_reach:
  assumes "good_path adj src dst path"
  shows "(edge adj)\<^sup>*\<^sup>* src dst"
proof -
  have "(edge adj)\<^sup>*\<^sup>* (hd path) (last path)" if "path \<noteq> []" "successively (edge adj) path" for path
    using that
  proof (induction path rule: induct_list012)
    case (3 x y zs)
    then have "edge adj x y" "(edge adj)\<^sup>*\<^sup>* y (last (y # zs))"
      by simp_all
    then show ?case
      by (simp add: converse_rtranclp_into_rtranclp)
  qed simp_all
  then show ?thesis
    using assms by (auto simp: good_path_def)
qed

text \<open>C14. 
  Route search always returns. It answers with a route exactly when the destination can be reached
  from the source along the recorded peers of live nodes, and the route it gives starts at
  the source, ends at the destination, and follows such a peer at every hop.
\<close>

theorem route_finds_live_paths:
  "(route net src dst \<noteq> None \<longleftrightarrow> (live_edge net)\<^sup>*\<^sup>* src dst)
   \<and> (\<forall>path. route net src dst = Some path \<longrightarrow>
        path \<noteq> [] \<and> hd path = src \<and> last path = dst \<and> successively (live_edge net) path)"
proof (cases "src = dst")
  case True
  then show ?thesis by (auto simp: route_def)
next
  case False
  let ?adj = "build_adjacency net"
  define prev where "prev = bfs ?adj dst [src] [(src, None)]"
  have "search_inv ?adj src [(src, None)]"
  proof -
    have "chain [(src, None)] src [src]"
      by (rule chain.source) (simp add: bt_get_def)
    then show ?thesis
      by (auto simp: search_inv_def bt_contains_def bt_get_def good_path_def split: if_splits)
  qed
  moreover have start: "set [src] \<subseteq> dom (bt_get [(src, None)])"
    "\<forall>x y. bt_contains [(src, None)] x \<longrightarrow> x \<notin> set [src] \<longrightarrow> edge ?adj x y \<longrightarrow> bt_contains [(src, None)] y"
    by (auto simp: bt_contains_def bt_get_def)
  ultimately have spec: "search_inv ?adj src prev" "bt_contains prev dst \<or>
      (\<forall>x y. bt_contains prev x \<longrightarrow> live_edge net x y \<longrightarrow> bt_contains prev y)"
    using bfs_spec [of ?adj src "[(src, None)]" "[src]" dst] start unfolding prev_def edge_build_adjacency
    by blast+
  have reach: "bt_contains prev dst" if "(live_edge net)\<^sup>*\<^sup>* src dst"
    using spec closed_reach [OF that] unfolding search_inv_def by blast
  show ?thesis
  proof (cases "bt_contains prev dst")
    case True
    then obtain path where path: "chain prev dst path" "good_path ?adj src dst path"
      using spec(1) unfolding search_inv_def by blast
    then have "route net src dst = Some path"
      using False True chain_traces [OF path(1), of "[]"] by (simp add: route_def prev_def)
    then show ?thesis
      using path(2) good_path_reach [OF path(2)] by (auto simp: good_path_def edge_build_adjacency)
  next
    case no: False
    then have "route net src dst = None"
      using False by (simp add: route_def prev_def)
    then show ?thesis
      using no reach by auto
  qed
qed

theorem route_finds_live_paths_witness:
  "\<exists>net path. route net ''a'' ''b'' = Some path \<and> hd path = ''a'' \<and> last path = ''b''"
proof -
  define d where "d = (DataCentre_new ''dc'')\<lparr>dc_nodes :=
    [(''a'', (Node_new ''a'')\<lparr>tn_peers := [''b'']\<rparr>), (''b'', (Node_new ''b'')\<lparr>tn_peers := [''a'']\<rparr>)]\<rparr>"
  define net where "net = \<lparr> an_centres = [(''dc'', d)], an_data_groups = [], an_centre_groups = [] \<rparr>"
  have d: "dc_nodes d = [(''a'', (Node_new ''a'')\<lparr>tn_peers := [''b'']\<rparr>), (''b'', (Node_new ''b'')\<lparr>tn_peers := [''a'']\<rparr>)]"
    by (simp add: d_def)
  have edges: "live_edge net x y \<longleftrightarrow> (x, y) \<in> {(''a'', ''b''), (''b'', ''a'')}" for x y
    by (auto simp: live_edge_def live_nodes_def alive_somewhere_def net_def d bt_get_def Node_new_def)
  obtain path where path: "route net ''a'' ''b'' = Some path"
    using route_finds_live_paths [of net "''a''" "''b''"] r_into_rtranclp [of "live_edge net" "''a''" "''b''"]
    by (simp add: edges) blast
  then have "hd path = ''a'' \<and> last path = ''b''"
    using route_finds_live_paths [of net "''a''" "''b''"] by blast
  then show ?thesis
    using path by blast
qed

section \<open>Connecting centres keeps the network valid\<close>

lemma bt_get_update: "bt_get (bt_update k f m) j = (if j = k then map_option f (bt_get m j) else bt_get m j)"
  by (induction m) (auto simp: bt_update_def bt_get_def)

lemma bt_update_keys [simp]: "map fst (bt_update k f m) = map fst m"
  by (induction m) (auto simp: bt_update_def)

lemma bt_contains_update [simp]: "bt_contains (bt_update k f m) j \<longleftrightarrow> bt_contains m j"
  by (simp add: bt_contains_def bt_get_update)

lemma bt_update_values: "v \<in> set (map snd (bt_update k f m)) \<Longrightarrow> v \<in> set (map snd m) \<or> (\<exists>w \<in> set (map snd m). v = f w)"
  by (auto simp: bt_update_def split: if_splits) force+

definition known :: "(string, DataCentre) btree_map \<Rightarrow> string \<Rightarrow> bool" where
  "known cs p \<longleftrightarrow> (\<exists>d \<in> set (map snd cs). bt_contains (dc_nodes d) p)"

definition peers_known :: "(string, DataCentre) btree_map \<Rightarrow> bool" where
  "peers_known cs \<longleftrightarrow> (\<forall>d \<in> set (map snd cs). \<forall>n \<in> set (map snd (dc_nodes d)). \<forall>p \<in> set (tn_peers n). known cs p)"

lemma known_update:
  assumes "\<And>d p. bt_contains (dc_nodes (f d)) p \<longleftrightarrow> bt_contains (dc_nodes d) p"
  shows "known (bt_update c f cs) p \<longleftrightarrow> known cs p"
  by (induction cs) (auto simp: known_def bt_update_def assms split: if_splits)

lemma peers_known_update:
  assumes "peers_known cs" "\<And>d p. bt_contains (dc_nodes (f d)) p \<longleftrightarrow> bt_contains (dc_nodes d) p"
    and "\<And>d n p. n \<in> set (map snd (dc_nodes (f d))) \<Longrightarrow> p \<in> set (tn_peers n) \<Longrightarrow>
      known cs p \<or> (\<exists>m \<in> set (map snd (dc_nodes d)). p \<in> set (tn_peers m))"
  shows "peers_known (bt_update c f cs)"
  unfolding peers_known_def
proof (intro ballI)
  fix d n p
  assume d: "d \<in> set (map snd (bt_update c f cs))" and n: "n \<in> set (map snd (dc_nodes d))" and p: "p \<in> set (tn_peers n)"
  from bt_update_values [OF d] have "known cs p"
  proof
    assume "d \<in> set (map snd cs)"
    then show ?thesis
      using assms(1) n p unfolding peers_known_def by blast
  next
    assume "\<exists>e \<in> set (map snd cs). d = f e"
    then obtain e where "e \<in> set (map snd cs)" "d = f e" by blast
    then show ?thesis
      using assms(1) assms(3) [of n e p] n p unfolding peers_known_def by blast
  qed
  then show "known (bt_update c f cs) p"
    using known_update [of f c cs p] assms(2) by blast
qed

lemma insert_peer_known:
  assumes "peers_known cs" "known cs p"
  shows "peers_known (insert_peer c n p cs)" "known (insert_peer c n p cs) q \<longleftrightarrow> known cs q"
proof -
  show "known (insert_peer c n p cs) q \<longleftrightarrow> known cs q"
    unfolding insert_peer_def by (rule known_update) simp
  show "peers_known (insert_peer c n p cs)"
    unfolding insert_peer_def
  proof (rule peers_known_update [OF assms(1)])
    fix d m q
    assume m: "m \<in> set (map snd (dc_nodes (d\<lparr>dc_nodes := bt_update n (add_peer p) (dc_nodes d)\<rparr>)))" and q: "q \<in> set (tn_peers m)"
    have "m \<in> set (map snd (dc_nodes d)) \<or> (\<exists>w \<in> set (map snd (dc_nodes d)). m = add_peer p w)"
      using bt_update_values [of m n "add_peer p" "dc_nodes d"] m by simp
    then show "known cs q \<or> (\<exists>m \<in> set (map snd (dc_nodes d)). q \<in> set (tn_peers m))"
      using q assms(2) by (fastforce simp: add_peer_def set_insort_insert)
  qed simp
qed

lemma link_pair_known:
  assumes "peers_known cs" "known cs x" "known cs y"
  shows "peers_known (link_pair a b cs (x, y))" "known (link_pair a b cs (x, y)) q \<longleftrightarrow> known cs q"
proof -
  note one = insert_peer_known [OF assms(1,3), of a x]
  have "known (insert_peer a x y cs) x"
    using one(2) assms(2) by simp
  note two = insert_peer_known [OF one(1) this, of b y]
  show "peers_known (link_pair a b cs (x, y))" "known (link_pair a b cs (x, y)) q \<longleftrightarrow> known cs q"
    using one(2) two by (simp_all add: link_pair_def)
qed

lemma foldl_link_known:
  assumes "peers_known cs" "\<forall>(x, y) \<in> set xys. known cs x \<and> known cs y"
  shows "peers_known (foldl (link_pair a b) cs xys) \<and> (\<forall>q. known (foldl (link_pair a b) cs xys) q \<longleftrightarrow> known cs q)"
  using assms
proof (induction xys arbitrary: cs)
  case (Cons xy xys)
  obtain x y where xy: "xy = (x, y)" by fastforce
  then have k: "known cs x" "known cs y" using Cons.prems(2) by auto
  note lp = link_pair_known [OF Cons.prems(1) k, of a b]
  show ?case
    using Cons.IH [of "link_pair a b cs (x, y)"] Cons.prems(2) lp by (auto simp: xy)
qed simp

lemma set_link_known:
  assumes "peers_known cs"
  shows "peers_known (set_link a b l cs)" "known (set_link a b l cs) q \<longleftrightarrow> known cs q"
proof -
  show "known (set_link a b l cs) q \<longleftrightarrow> known cs q"
    unfolding set_link_def by (rule known_update) simp
  show "peers_known (set_link a b l cs)"
    unfolding set_link_def by (rule peers_known_update [OF assms]) auto
qed

lemma link_frame [simp]:
  "map fst (insert_peer c n p cs) = map fst cs" "map fst (link_pair a b cs xy) = map fst cs"
  "map fst (set_link a b l cs) = map fst cs"
  by (simp_all add: insert_peer_def link_pair_def set_link_def split: prod.split)

lemma foldl_link_frame [simp]: "map fst (foldl (link_pair a b) cs xys) = map fst cs"
  by (induction xys arbitrary: cs) simp_all

text \<open>A successful connection: the nodes linked are known, and the centres of the result are these.\<close>

lemma connect_centres_ok:
  assumes "connect_centres net a b mode = (Ok (), net')"
  shows "a \<noteq> b" "bt_contains (an_centres net) a" "bt_contains (an_centres net) b"
    and "\<exists>xys l. net' = net\<lparr>an_centres := set_link b a l (set_link a b l (foldl (link_pair a b) (an_centres net) xys))\<rparr>
      \<and> (\<forall>(x, y) \<in> set xys. known (an_centres net) x \<and> known (an_centres net) y)"
proof -
  obtain da db where c: "bt_get (an_centres net) a = Some da" "bt_get (an_centres net) b = Some db"
    using assms by (auto simp: connect_centres_def split: option.splits)
  then show "bt_contains (an_centres net) a" "bt_contains (an_centres net) b" "a \<noteq> b"
    using assms by (auto simp: bt_contains_def connect_centres_def)
  let ?left = "live_ids da" and ?right = "live_ids db"
  have "da \<in> set (map snd (an_centres net))" "db \<in> set (map snd (an_centres net))"
    using c by (force simp: bt_get_def dest: map_of_SomeD)+
  then have kn: "known (an_centres net) x" if "bt_contains (dc_nodes da) x \<or> bt_contains (dc_nodes db) x" for x
    using that unfolding known_def by blast
  show "\<exists>xys l. net' = net\<lparr>an_centres := set_link b a l (set_link a b l (foldl (link_pair a b) (an_centres net) xys))\<rparr>
      \<and> (\<forall>(x, y) \<in> set xys. known (an_centres net) x \<and> known (an_centres net) y)"
  proof (cases mode)
    case FullMesh
    then show ?thesis
      using assms c kn
      by (intro exI [of _ "List.product ?left ?right"] exI [of _ "\<lparr> cl_mode = FullMesh, cl_relays = ?left, cl_healthy = True \<rparr>"])
        (auto simp: connect_centres_def Let_def split: if_splits)
  next
    case (Relay r)
    then obtain t where t: "min_by_key (node_score db) ?right = Some t" "bt_contains (dc_nodes da) r"
      "\<forall>y \<in> set ?right. bt_contains (dc_nodes db) y"
      using assms c by (auto simp: connect_centres_def Let_def split: if_splits option.splits)
    then have "known (an_centres net) r \<and> known (an_centres net) t"
      using kn min_by_key_mem [OF t(1)] by blast
    then show ?thesis
      using assms c Relay t
      by (intro exI [of _ "[(r, t)]"] exI [of _ "\<lparr> cl_mode = Relay r, cl_relays = [r], cl_healthy = True \<rparr>"])
        (auto simp: connect_centres_def Let_def split: if_splits)
  qed
qed

lemma contains_same_keys: "map fst m = map fst m' \<Longrightarrow> bt_contains m k \<longleftrightarrow> bt_contains m' k"
  unfolding bt_contains_def by (metis bt_dom domIff)

lemma validate_iff:
  "AweNet_validate net = Ok () \<longleftrightarrow> peers_known (an_centres net)
     \<and> (\<forall>g \<in> set (map snd (an_data_groups net)). 3 \<le> length (dg_centres g) \<and> (\<forall>i \<in> set (dg_centres g). bt_contains (an_centres net) i))
     \<and> (\<forall>g \<in> set (map snd (an_centre_groups net)). 2 \<le> length (cg_groups g) \<and> (\<forall>i \<in> set (cg_groups g). bt_contains (an_data_groups net) i))"
  unfolding AweNet_validate_def peers_known_def known_def knows_node_def not_less [symmetric]
  by (cases "\<exists>g \<in> set (map snd (an_data_groups net)). length (dg_centres g) < 3 \<or> \<not> (\<forall>i \<in> set (dg_centres g). bt_contains (an_centres net) i)";
      cases "\<exists>g \<in> set (map snd (an_centre_groups net)). length (cg_groups g) < 2 \<or> \<not> (\<forall>i \<in> set (cg_groups g). bt_contains (an_data_groups net) i)";
      simp; blast)

text \<open>C35. 
  Connecting two centres of a valid network gives a valid network, changes neither the centres nor
  the nodes there are, and records one and the same link state on both sides.
\<close>

theorem connect_keeps_network_valid:
  assumes valid: "AweNet_validate net = Ok ()" and conn: "connect_centres net a b mode = (Ok (), net')"
  shows "AweNet_validate net' = Ok () \<and> map fst (an_centres net') = map fst (an_centres net)
    \<and> (\<exists>da db l. bt_get (an_centres net') a = Some da \<and> bt_get (an_centres net') b = Some db
        \<and> b \<in> set (dc_links da) \<and> a \<in> set (dc_links db)
        \<and> bt_get (dc_link_state da) b = Some l \<and> bt_get (dc_link_state db) a = Some l)"
proof -
  note ok = connect_centres_ok [OF conn]
  obtain xys l where net': "net' = net\<lparr>an_centres := set_link b a l (set_link a b l (foldl (link_pair a b) (an_centres net) xys))\<rparr>"
    and xys: "\<forall>(x, y) \<in> set xys. known (an_centres net) x \<and> known (an_centres net) y"
    using ok(4) by blast
  have keys: "map fst (an_centres net') = map fst (an_centres net)"
    by (simp add: net')
  have "peers_known (foldl (link_pair a b) (an_centres net) xys)"
    using foldl_link_known [of "an_centres net" xys a b] valid xys unfolding validate_iff by blast
  then have "peers_known (an_centres net')"
    unfolding net' by (simp add: set_link_known)
  moreover have "an_data_groups net' = an_data_groups net" "an_centre_groups net' = an_centre_groups net"
    by (simp_all add: net')
  ultimately have "AweNet_validate net' = Ok ()"
    using valid unfolding validate_iff contains_same_keys [OF keys] by simp
  moreover have "bt_contains (foldl (link_pair a b) (an_centres net) xys) a"
    "bt_contains (foldl (link_pair a b) (an_centres net) xys) b"
    using ok(2,3) contains_same_keys [OF foldl_link_frame, of a b "an_centres net" xys] by simp_all
  ultimately show ?thesis
    using keys ok(1) unfolding net' bt_contains_def by (auto simp: set_link_def bt_get_update set_insort_insert)
qed

text \<open>A witness: two centres of one node each.\<close>

definition demo_net :: AweNet where
  "demo_net = \<lparr> an_centres = [(''c1'', (DataCentre_new ''c1'')\<lparr>dc_nodes := [(''a'', Node_new ''a'')]\<rparr>),
       (''c2'', (DataCentre_new ''c2'')\<lparr>dc_nodes := [(''b'', Node_new ''b'')]\<rparr>)],
     an_data_groups = [], an_centre_groups = [] \<rparr>"

theorem connect_keeps_network_valid_witness:
  "\<exists>net'. connect_centres demo_net ''c1'' ''c2'' FullMesh = (Ok (), net') \<and> AweNet_validate net' = Ok ()"
proof -
  have valid: "AweNet_validate demo_net = Ok ()"
    by (simp add: demo_net_def AweNet_validate_def Node_new_def)
  obtain net' where "connect_centres demo_net ''c1'' ''c2'' FullMesh = (Ok (), net')"
    by (simp add: demo_net_def connect_centres_def bt_get_def bt_contains_def live_ids_def Node_new_def Let_def)
  then show ?thesis
    using connect_keeps_network_valid [OF valid] by blast
qed

text \<open>
  Failover answers with a live node of the first centre that was not yet a relay of the link, and
  appends it to the relays recorded on both sides; every error leaves the network as it was.
\<close>

theorem failover_picks_fresh_relay:
  "(\<forall>r. fst (failover_relay net a b) = Ok r \<longrightarrow>
      (\<exists>da l. bt_get (an_centres net) a = Some da \<and> bt_get (dc_link_state da) b = Some l
         \<and> r \<in> set (live_ids da) \<and> r \<notin> set (cl_relays l)
         \<and> (\<exists>da'. bt_get (an_centres (snd (failover_relay net a b))) a = Some da'
              \<and> (a \<noteq> b \<longrightarrow> bt_get (dc_link_state da') b = Some (l\<lparr>cl_relays := cl_relays l @ [r]\<rparr>)))))
   \<and> (\<not> is_ok (fst (failover_relay net a b)) \<longrightarrow> snd (failover_relay net a b) = net)"
proof (cases "Option.bind (bt_get (an_centres net) a) (\<lambda>c. bt_get (dc_link_state c) b)")
  case None
  then show ?thesis by (simp add: failover_relay_def)
next
  case (Some l)
  then obtain da where da: "bt_get (an_centres net) a = Some da" "bt_get (dc_link_state da) b = Some l"
    by (cases "bt_get (an_centres net) a") auto
  let ?cands = "filter (\<lambda>n. tn_alive n \<and> tn_id n \<notin> set (cl_relays l)) (map snd (dc_nodes da))"
  show ?thesis
  proof (cases "min_by_key (\<lambda>n. PeerMetrics_score (tn_metrics n)) ?cands")
    case None
    then show ?thesis using Some da by (simp add: failover_relay_def)
  next
    case (Some c)
    then have c: "tn_id c \<in> set (live_ids da)" "tn_id c \<notin> set (cl_relays l)"
      using min_by_key_mem [OF Some] by (auto simp: live_ids_def)
    show ?thesis
      using \<open>Option.bind _ _ = Some l\<close> da c Some
      by (auto simp: failover_relay_def Let_def link_pair_def insert_peer_def push_relay_def bt_get_update
          split: option.splits if_splits)
  qed
qed

theorem failover_picks_fresh_relay_witness:
  "fst (failover_relay demo_net ''c1'' ''c2'') = Err ''link not found''
   \<and> snd (failover_relay demo_net ''c1'' ''c2'') = demo_net"
proof -
  have "fst (failover_relay demo_net ''c1'' ''c2'') = Err ''link not found''"
    by (simp add: failover_relay_def demo_net_def bt_get_def DataCentre_new_def)
  then show ?thesis
    using failover_picks_fresh_relay [of demo_net "''c1''" "''c2''"] by simp
qed

end
