(* ===== verification/App_Store.thy ===== *)
theory App_Store
  imports Data_Plane Identity Rust_Text
begin

text \<open>
  The application store (core/src/store.rs) and the WebAssembly sandbox (core/src/sandbox.rs): signed
  packages, their checks, the walk over the sections of a WebAssembly module, and the store's package
  and installation directories, which are maps from file names to contents. JSON encoding is a
  third-party service: the codecs are fields of \<open>app_prims\<close>. Disk faults of a write or a rename are an
  argument.
\<close>

section \<open>Packages\<close>

datatype AppKind = Wasm | Windows | Linux | Android

datatype StoreCapability = CapNetwork | CapStorage | CapIdentity | CapMedia | CapHost | CapProcess

record Dependency =
  dp_id :: string
  dp_min_version :: string
  dp_max_version :: "string option"

record AppManifest =
  mf_id :: string
  mf_name :: string
  mf_version :: string
  mf_kind :: AppKind
  mf_developer_awe_id :: bytes
  mf_developer_public_key :: bytes
  mf_entry :: string
  mf_dependencies :: "Dependency list"
  mf_permissions :: "StoreCapability list"
  mf_payload_hash :: bytes
  mf_size :: u64
  mf_protocol_version :: u16
  mf_price_onecoin_atoms :: "u128 option"

record SignedManifest =
  sm_manifest :: AppManifest
  sm_signature :: bytes

record AWEPackage =
  pk_magic :: bytes
  pk_manifest :: SignedManifest
  pk_files :: "(string, bytes) btree_map"

record InstalledApp =
  ia_id :: string
  ia_version :: string
  ia_package_hash :: bytes
  ia_permissions :: "StoreCapability list"

record app_prims = prims +
  manifest_json :: "AppManifest \<Rightarrow> bytes"
  package_json :: "AWEPackage \<Rightarrow> bytes"
  package_parse :: "bytes \<Rightarrow> AWEPackage option"
  installed_json :: "InstalledApp \<Rightarrow> bytes"
  installed_parse :: "bytes \<Rightarrow> InstalledApp option"

definition APP_MAGIC :: bytes where
  "APP_MAGIC = as_bytes ''AWEAPP/1'' @ [0]"

definition MAX_PACKAGE :: nat where
  "MAX_PACKAGE = 512 * 1024 * 1024"

definition file_bytes :: "string \<times> bytes \<Rightarrow> bytes" where
  "file_bytes e = (case e of (p, b) \<Rightarrow>
     to_be_bytes_u64 (of_nat (length p)) @ as_bytes p @ to_be_bytes_u64 (of_nat (length b)) @ b)"

definition payload_hash :: "'a prims_scheme \<Rightarrow> (string, bytes) btree_map \<Rightarrow> bytes" where
  "payload_hash P files = blake3 P (concat (map file_bytes files))"

definition package_hash :: "'a app_prims_scheme \<Rightarrow> AWEPackage \<Rightarrow> bytes" where
  "package_hash P p = blake3 P (package_json P p)"

definition validate_path :: "string \<Rightarrow> bool" where
  "validate_path p \<longleftrightarrow> p \<noteq> [] \<and> starts_with p ''/'' \<and> CHR 0x5C \<notin> set p \<and> ''..'' \<notin> set (split_on CHR ''/'' p)"

definition valid_version :: "string \<Rightarrow> bool" where
  "valid_version v \<longleftrightarrow> v \<noteq> [] \<and> length v \<le> 64
     \<and> list_all (\<lambda>c. is_ascii_alphanumeric c \<or> c = CHR ''.'' \<or> c = CHR ''-'' \<or> c = CHR ''+'') v"

fun has_dotdot :: "string \<Rightarrow> bool" where
  "has_dotdot (a # b # r) = ((a = CHR ''.'' \<and> b = CHR ''.'') \<or> has_dotdot (b # r))"
| "has_dotdot _ = False"

definition valid_app_id :: "string \<Rightarrow> bool" where
  "valid_app_id v \<longleftrightarrow> v \<noteq> [] \<and> length v \<le> 128
     \<and> list_all (\<lambda>c. is_ascii_alphanumeric c \<or> c = CHR ''.'' \<or> c = CHR ''-'' \<or> c = CHR ''_'') v
     \<and> \<not> starts_with v ''/'' \<and> \<not> has_dotdot v"

section \<open>WebAssembly modules\<close>

text \<open>\<^verbatim>\<open>read_leb\<close>: at most ten bytes, seven bits each; bits shifted past the word are lost.\<close>

fun leb_loop :: "bytes \<Rightarrow> nat \<Rightarrow> u64 \<Rightarrow> nat \<Rightarrow> (u64 \<times> nat) result" where
  "leb_loop [] i x s = Err ''invalid leb128''"
| "leb_loop (c # cs) i x s =
     (let x = x OR push_bit s (ucast (c AND 0x7f))
      in if c AND 0x80 = 0 then Ok (x, i + 1) else leb_loop cs (i + 1) x (s + 7))"

definition read_leb :: "bytes \<Rightarrow> (u64 \<times> nat) result" where
  "read_leb b = leb_loop (take 10 b) 0 0 0"

lemma leb_loop_count: "leb_loop cs i x s = Ok (v, n) \<Longrightarrow> i < n \<and> n \<le> i + length cs"
  by (induction cs i x s rule: leb_loop.induct) (force simp: Let_def split: if_splits)+

lemma read_leb_count: "read_leb b = Ok (v, n) \<Longrightarrow> 0 < n \<and> n \<le> length b"
  unfolding read_leb_def by (drule leb_loop_count) simp

function wasm_sections :: "bytes \<Rightarrow> nat \<Rightarrow> unit result" where
  "wasm_sections bs i =
     (if length bs \<le> i then Ok ()
      else case read_leb (drop (i + 1) bs) of
             Inl e \<Rightarrow> Inl e
           | Inr (len, n) \<Rightarrow>
               (let e = i + 1 + n + unat len
                in if 2 ^ 64 \<le> e then Err ''invalid wasm section''
                   else if length bs < e then Err ''truncated wasm section''
                   else if bs ! i = 2 then Err ''WASM host imports are forbidden; use declared capabilities''
                   else wasm_sections bs e))"
  by pat_completeness auto

termination by (relation "measure (\<lambda>(bs, i). length bs - i)") auto

declare wasm_sections.simps [simp del]

definition WASM_HEADER :: bytes where
  "WASM_HEADER = [0, 0x61, 0x73, 0x6d, 1, 0, 0, 0]"

definition validate_wasm :: "bytes \<Rightarrow> unit result" where
  "validate_wasm bs =
     (if length bs < 8 \<or> take 4 bs \<noteq> take 4 WASM_HEADER \<or> take 4 (drop 4 bs) \<noteq> drop 4 WASM_HEADER
      then Err ''invalid WebAssembly module''
      else wasm_sections bs 8)"

section \<open>Checks\<close>

definition AppManifest_verify :: "AppManifest \<Rightarrow> unit result" where
  "AppManifest_verify m =
     (if \<not> valid_app_id (mf_id m) \<or> \<not> valid_version (mf_version m) \<or> mf_protocol_version m \<noteq> 1
      then Err ''invalid manifest''
      else if mf_entry m = [] \<or> \<not> validate_path (mf_entry m) then Err ''invalid entry path''
      else if unat (mf_size m) > MAX_PACKAGE then Err ''package too large''
      else Ok ())"

definition SignedManifest_verify :: "'a app_prims_scheme \<Rightarrow> SignedManifest \<Rightarrow> unit result" where
  "SignedManifest_verify P s =
     (case AppManifest_verify (sm_manifest s) of
        Inl e \<Rightarrow> Inl e
      | Inr _ \<Rightarrow>
          if length (sm_signature s) \<noteq> 64 then Err ''invalid signature length''
          else if aweid_bytes (AweId_from_public_key P (mf_developer_public_key (sm_manifest s)))
                    \<noteq> mf_developer_awe_id (sm_manifest s)
          then Err ''developer AWEID does not match public key''
          else if \<not> Identity_verify P (mf_developer_public_key (sm_manifest s))
                      (manifest_json P (sm_manifest s)) (sm_signature s)
          then Err ''invalid developer signature''
          else Ok ())"

definition files_size :: "(string, bytes) btree_map \<Rightarrow> nat" where
  "files_size files = sum_list (map (\<lambda>e. length (snd e)) files)"

definition check_entry :: "string \<Rightarrow> AppKind \<Rightarrow> (string, bytes) btree_map \<Rightarrow> string \<Rightarrow> unit result" where
  "check_entry missing kind files entry =
     (if kind = Wasm then (case bt_get files entry of None \<Rightarrow> Err missing | Some b \<Rightarrow> validate_wasm b) else Ok ())"

definition AWEPackage_verify :: "'a app_prims_scheme \<Rightarrow> AWEPackage \<Rightarrow> unit result" where
  "AWEPackage_verify P p =
     (if pk_magic p \<noteq> APP_MAGIC then Err ''invalid AWE package magic''
      else case SignedManifest_verify P (pk_manifest p) of
             Inl e \<Rightarrow> Inl e
           | Inr _ \<Rightarrow>
               (let m = sm_manifest (pk_manifest p)
                in if payload_hash P (pk_files p) \<noteq> mf_payload_hash m then Err ''package integrity failure''
                   else if mf_size m \<noteq> of_nat (files_size (pk_files p)) then Err ''package size mismatch''
                   else check_entry ''missing WASM entry'' (mf_kind m) (pk_files p) (mf_entry m)))"

definition AWEPackage_new ::
  "'a app_prims_scheme \<Rightarrow> Identity \<Rightarrow> string \<Rightarrow> string \<Rightarrow> string \<Rightarrow> AppKind \<Rightarrow> string \<Rightarrow>
     (string, bytes) btree_map \<Rightarrow> StoreCapability list \<Rightarrow> Dependency list \<Rightarrow> AWEPackage result" where
  "AWEPackage_new P identity i name version kind entry files permissions dependencies =
     (if files_size files > MAX_PACKAGE then Err ''package too large''
      else if \<not> list_all (\<lambda>e. validate_path (fst e)) files then Err ''invalid package path''
      else case check_entry ''missing entry'' kind files entry of
             Inl e \<Rightarrow> Inl e
           | Inr _ \<Rightarrow>
               (let m = \<lparr> mf_id = i, mf_name = name, mf_version = version, mf_kind = kind,
                          mf_developer_awe_id = aweid_bytes (ip_awe_id (id_public identity)),
                          mf_developer_public_key = ip_public_key (id_public identity), mf_entry = entry,
                          mf_dependencies = dependencies, mf_permissions = permissions,
                          mf_payload_hash = payload_hash P files, mf_size = of_nat (files_size files),
                          mf_protocol_version = 1, mf_price_onecoin_atoms = None \<rparr>
                in Ok \<lparr> pk_magic = APP_MAGIC,
                        pk_manifest = \<lparr> sm_manifest = m, sm_signature = Identity_sign P identity (manifest_json P m) \<rparr>,
                        pk_files = files \<rparr>))"

definition set_price_onecoin ::
  "'a app_prims_scheme \<Rightarrow> AWEPackage \<Rightarrow> Identity \<Rightarrow> u128 option \<Rightarrow> unit result \<times> AWEPackage" where
  "set_price_onecoin P p identity price_atoms =
     (let s = pk_manifest p; m = sm_manifest s
      in if aweid_bytes (ip_awe_id (id_public identity)) \<noteq> mf_developer_awe_id m
            \<or> ip_public_key (id_public identity) \<noteq> mf_developer_public_key m
         then (Err ''only the app developer can change its price'', p)
         else if price_atoms = Some 0 then (Err ''ONECOIN price must be positive or omitted'', p)
         else let m' = m\<lparr>mf_price_onecoin_atoms := price_atoms\<rparr>
              in (Ok (), p\<lparr>pk_manifest := \<lparr> sm_manifest = m', sm_signature = Identity_sign P identity (manifest_json P m') \<rparr>\<rparr>))"

definition AWEPackage_bytes :: "'a app_prims_scheme \<Rightarrow> AWEPackage \<Rightarrow> bytes result" where
  "AWEPackage_bytes P p =
     (case AWEPackage_verify P p of
        Inl (Msg e) \<Rightarrow> Inl (Io InvalidData e)
      | Inl e \<Rightarrow> Inl e
      | Inr _ \<Rightarrow> Ok (package_json P p))"

definition AWEPackage_from_bytes :: "'a app_prims_scheme \<Rightarrow> bytes \<Rightarrow> AWEPackage result" where
  "AWEPackage_from_bytes P b =
     (if length b > MAX_PACKAGE then Inl (Io InvalidData ''package too large'')
      else case package_parse P b of
             None \<Rightarrow> Inl (Io InvalidData ''invalid package'')
           | Some p \<Rightarrow> (case AWEPackage_verify P p of
                 Inl (Msg e) \<Rightarrow> Inl (Io InvalidData e)
               | Inl e \<Rightarrow> Inl e
               | Inr _ \<Rightarrow> Ok p))"

section \<open>The store\<close>

record Store =
  so_packages :: "(string, bytes) btree_map"
  so_installed :: "(string, bytes) btree_map"

text \<open>How the file operations of one call end: a copy or a write may fail before the target is opened (\<open>None\<close>)
  or after it was replaced by a part of the bytes (\<open>Some\<close> the part), and a rename may fail.\<close>

datatype store_fault = FaultFree | CopyFault "bytes option" | WriteFault "bytes option" | RenameFault

definition left_behind :: "string \<Rightarrow> bytes option \<Rightarrow> (string, bytes) btree_map \<Rightarrow> (string, bytes) btree_map" where
  "left_behind name part d = (case part of None \<Rightarrow> d | Some b \<Rightarrow> bt_insert name b d)"

text \<open>\<^verbatim>\<open>create_dir_all\<close>: a directory that is there is kept with what it holds. The directories of the store
  are the entries of \<open>root\<close>; \<open>mkdir\<close> says whether a missing one can be made.\<close>

definition create_dir_all ::
  "(string \<Rightarrow> bool) \<Rightarrow> string \<Rightarrow> (string, (string, bytes) btree_map) btree_map
     \<Rightarrow> (string, (string, bytes) btree_map) btree_map result" where
  "create_dir_all mkdir name root =
     (if bt_contains root name then Ok root
      else if mkdir name then Ok (bt_insert name [] root)
      else Inl (Io OtherIo ''create_dir_all''))"

definition Store_open ::
  "(string \<Rightarrow> bool) \<Rightarrow> (string, (string, bytes) btree_map) btree_map
     \<Rightarrow> Store result \<times> (string, (string, bytes) btree_map) btree_map" where
  "Store_open mkdir root =
     (case create_dir_all mkdir ''packages'' root of
        Inl e \<Rightarrow> (Inl e, root)
      | Inr root \<Rightarrow>
          (case create_dir_all mkdir ''installed'' root of
             Inl e \<Rightarrow> (Inl e, root)
           | Inr root \<Rightarrow>
               (case create_dir_all mkdir ''cache'' root of
                  Inl e \<Rightarrow> (Inl e, root)
                | Inr root \<Rightarrow>
                    (Ok \<lparr> so_packages = the (bt_get root ''packages''), so_installed = the (bt_get root ''installed'') \<rparr>, root))))"

definition Store_pkg :: "'a prims_scheme \<Rightarrow> bytes \<Rightarrow> string" where
  "Store_pkg P h = hex_encode P h"

definition Store_active :: "string \<Rightarrow> string" where
  "Store_active i = i @ ''.json''"

definition rollback_name :: "string \<Rightarrow> string" where
  "rollback_name i = i @ ''.rollback.json''"

definition manifest_le :: "AppManifest \<Rightarrow> string \<times> string" where
  "manifest_le m = (mf_id m, mf_version m)"

definition Store_catalog :: "'a app_prims_scheme \<Rightarrow> Store \<Rightarrow> AppManifest list" where
  "Store_catalog P s =
     sort_key manifest_le
       (List.map_filter
         (\<lambda>(name, b). case AWEPackage_from_bytes P b of Inl _ \<Rightarrow> None | Inr p \<Rightarrow> Some (sm_manifest (pk_manifest p)))
         (so_packages s))"

definition Store_publish :: "'a app_prims_scheme \<Rightarrow> store_fault \<Rightarrow> Store \<Rightarrow> AWEPackage \<Rightarrow> bytes result \<times> Store" where
  "Store_publish P fault s p =
     (case AWEPackage_bytes P p of
        Inl e \<Rightarrow> (Inl e, s)
      | Inr b \<Rightarrow>
          (let h = package_hash P p; name = Store_pkg P h; tmp = name @ ''.part''
           in case fault of
                WriteFault part \<Rightarrow> (Inl (Io OtherIo ''write''), s\<lparr>so_packages := left_behind tmp part (so_packages s)\<rparr>)
              | RenameFault \<Rightarrow> (Inl (Io OtherIo ''rename''), s\<lparr>so_packages := bt_insert tmp b (so_packages s)\<rparr>)
              | _ \<Rightarrow> (Ok h, s\<lparr>so_packages := bt_insert name b (bt_remove tmp (so_packages s))\<rparr>)))"

definition Store_fetch_cached :: "'a app_prims_scheme \<Rightarrow> Store \<Rightarrow> bytes \<Rightarrow> AWEPackage result" where
  "Store_fetch_cached P s h =
     (case bt_get (so_packages s) (Store_pkg P h) of
        None \<Rightarrow> Inl (Io NotFound ''read'')
      | Some b \<Rightarrow> AWEPackage_from_bytes P b)"

text \<open>The copy of the active record that \<^verbatim>\<open>install\<close> keeps, if there is one: whether the call goes on, and the directory.\<close>

definition keep_rollback :: "store_fault \<Rightarrow> string \<Rightarrow> (string, bytes) btree_map \<Rightarrow> bool \<times> (string, bytes) btree_map" where
  "keep_rollback fault i d =
     (case bt_get d (Store_active i) of
        None \<Rightarrow> (True, d)
      | Some b \<Rightarrow>
          (case fault of
             CopyFault part \<Rightarrow> (False, left_behind (rollback_name i) part d)
           | _ \<Rightarrow> (True, bt_insert (rollback_name i) b d)))"

definition Store_install ::
  "'a app_prims_scheme \<Rightarrow> store_fault \<Rightarrow> Store \<Rightarrow> bytes \<Rightarrow> StoreCapability list \<Rightarrow> InstalledApp result \<times> Store" where
  "Store_install P fault s h granted_caps =
     (case Store_fetch_cached P s h of
        Inl e \<Rightarrow> (Inl e, s)
      | Inr p \<Rightarrow>
          (let m = sm_manifest (pk_manifest p)
           in if \<not> set (mf_permissions m) \<subseteq> set granted_caps
              then (Inl (Io PermissionDenied ''required capability not granted''), s)
              else case keep_rollback fault (mf_id m) (so_installed s) of
                (False, inst) \<Rightarrow> (Inl (Io OtherIo ''copy''), s\<lparr>so_installed := inst\<rparr>)
              | (True, inst) \<Rightarrow>
                   let old = Store_active (mf_id m);
                       app = \<lparr> ia_id = mf_id m, ia_version = mf_version m, ia_package_hash = h,
                               ia_permissions = mf_permissions m \<rparr>;
                       tmp = mf_id m @ ''.part''
                   in case fault of
                        WriteFault part \<Rightarrow> (Inl (Io OtherIo ''write''), s\<lparr>so_installed := left_behind tmp part inst\<rparr>)
                      | RenameFault \<Rightarrow> (Inl (Io OtherIo ''rename''), s\<lparr>so_installed := bt_insert tmp (installed_json P app) inst\<rparr>)
                      | _ \<Rightarrow> (Ok app, s\<lparr>so_installed := bt_insert old (installed_json P app) (bt_remove tmp inst)\<rparr>)))"

definition Store_installed :: "'a app_prims_scheme \<Rightarrow> Store \<Rightarrow> string \<Rightarrow> InstalledApp result" where
  "Store_installed P s i =
     (case bt_get (so_installed s) (Store_active i) of
        None \<Rightarrow> Inl (Io NotFound ''read'')
      | Some b \<Rightarrow> (case installed_parse P b of
            None \<Rightarrow> Inl (Io InvalidData ''invalid installed record'')
          | Some r \<Rightarrow> Ok r))"

text \<open>The result of removing the record is dropped: the call answers \<open>Ok\<close> when it could not be removed too.\<close>

definition Store_uninstall :: "bool \<Rightarrow> Store \<Rightarrow> string \<Rightarrow> unit result \<times> Store" where
  "Store_uninstall removed s i =
     (Ok (), if removed then s\<lparr>so_installed := bt_remove (Store_active i) (so_installed s)\<rparr> else s)"

definition Store_rollback :: "'a app_prims_scheme \<Rightarrow> store_fault \<Rightarrow> Store \<Rightarrow> string \<Rightarrow> InstalledApp result \<times> Store" where
  "Store_rollback P fault s i =
     (case bt_get (so_installed s) (rollback_name i) of
        None \<Rightarrow> (Inl (Io NotFound ''no rollback version''), s)
      | Some b \<Rightarrow>
          (case fault of
             CopyFault part \<Rightarrow>
               (Inl (Io OtherIo ''copy''), s\<lparr>so_installed := left_behind (Store_active i) part (so_installed s)\<rparr>)
           | _ \<Rightarrow>
               (let s' = s\<lparr>so_installed := bt_insert (Store_active i) b (so_installed s)\<rparr>
                in (Store_installed P s' i, s'))))"

definition Store_update ::
  "'a app_prims_scheme \<Rightarrow> store_fault \<Rightarrow> Store \<Rightarrow> bytes \<Rightarrow> StoreCapability list \<Rightarrow> InstalledApp result \<times> Store" where
  "Store_update P fault s h granted_caps = Store_install P fault s h granted_caps"

section \<open>The sandbox\<close>

record SandboxConfig =
  sb_max_memory_bytes :: nat
  sb_max_instruction_count :: u64

definition SandboxConfig_default :: SandboxConfig where
  "SandboxConfig_default = \<lparr> sb_max_memory_bytes = 64 * 1024 * 1024, sb_max_instruction_count = 1000000 \<rparr>"

record WasmSandbox =
  ws_config :: SandboxConfig
  ws_capabilities :: CapabilitySet

definition validate_module :: "WasmSandbox \<Rightarrow> bytes \<Rightarrow> unit result" where
  "validate_module w bs =
     (if length bs < 8 \<or> take 4 bs \<noteq> take 4 WASM_HEADER then Err ''invalid WebAssembly binary header''
      else if length bs > sb_max_memory_bytes (ws_config w) then Err ''WASM module exceeds memory quota''
      else validate_wasm bs)"

text \<open>Decimal digits, as \<^verbatim>\<open>format!\<close> prints a \<^verbatim>\<open>usize\<close>.\<close>

fun show_nat :: "nat \<Rightarrow> string" where
  "show_nat n = (if n < 10 then [char_of (48 + n)] else show_nat (n div 10) @ [char_of (48 + n mod 10)])"

declare show_nat.simps [simp del]

definition execute_module :: "WasmSandbox \<Rightarrow> bytes \<Rightarrow> bytes result" where
  "execute_module w bs =
     (case validate_module w bs of
        Inl e \<Rightarrow> Inl e
      | Inr _ \<Rightarrow> Ok (as_bytes (''Ephemeral execution succeeded in memory ('' @ show_nat (length bs)
                   @ '' bytes execution frame)'')))"

section \<open>Accepted modules\<close>

text \<open>
  The section structure of a module body, as a specification. A length is an unsigned LEB128 number of
  at most ten bytes: every byte but the last has its top bit set, and the low seven bits of the bytes are
  the digits of the number to base 128, the least significant first. Ten digits hold 70 bits; the code
  keeps 64 of them.
\<close>

primrec base128 :: "bytes \<Rightarrow> nat" where
  "base128 [] = 0"
| "base128 (c # cs) = unat c mod 128 + 128 * base128 cs"

primrec leb_ended :: "bytes \<Rightarrow> bool" where
  "leb_ended [] = False"
| "leb_ended (c # cs) = (if unat c < 128 then cs = [] else leb_ended cs)"

definition leb128 :: "bytes \<Rightarrow> nat \<Rightarrow> bool" where
  "leb128 l len \<longleftrightarrow> leb_ended l \<and> length l \<le> 10 \<and> len = base128 l mod 2 ^ 64"

inductive wasm_body :: "bytes \<Rightarrow> (u8 \<times> bytes) list \<Rightarrow> bool" where
  empty: "wasm_body [] []"
| sect: "leb128 l (length content) \<Longrightarrow> wasm_body r ss \<Longrightarrow> wasm_body (i # l @ content @ r) ((i, content) # ss)"

lemma bit_odd_unat: "bit w n \<longleftrightarrow> odd (unat w div 2 ^ n)" for w :: "'a::len word"
proof -
  have "bit w n \<longleftrightarrow> bit (unat w) n"
    by (simp add: bit_unsigned_iff bit_imp_possible_bit)
  then show ?thesis by (simp add: bit_nat_iff bit_iff_odd)
qed

lemma leb_byte:
  fixes c :: u8
  shows "unat (c AND 0x7f) = unat c mod 128" and "c AND 0x80 = 0 \<longleftrightarrow> unat c < 128"
proof -
  have "c AND 0x7f = take_bit 7 c"
    by (simp add: take_bit_eq_mask mask_eq_exp_minus_1)
  moreover have "unat (take_bit 7 c) = take_bit 7 (unat c)"
    by (simp add: unsigned_take_bit_eq)
  ultimately show "unat (c AND 0x7f) = unat c mod 128"
    by (simp add: take_bit_eq_mod)
  have c: "unat c < 256"
    using unat_less_pow [of c] by simp
  have "c AND 0x80 = 0 \<longleftrightarrow> even (unat c div 128)"
    using and_exp_eq_0_iff_not_bit [of c 7] by (simp add: bit_odd_unat)
  moreover have "unat c div 128 = (if unat c < 128 then 0 else 1)"
    using c by (auto intro: div_nat_eqI)
  ultimately show "c AND 0x80 = 0 \<longleftrightarrow> unat c < 128"
    by simp
qed

lemma leb_accumulate:
  fixes x :: u64 and c :: u8
  assumes "unat x < 2 ^ s"
  shows "unat (x OR push_bit s (ucast (c AND 0x7f))) = (unat x + 2 ^ s * (unat c mod 128)) mod 2 ^ 64" (is "unat ?y = _")
    and "unat (x OR push_bit s (ucast (c AND 0x7f))) < 2 ^ (s + 7)"
proof -
  let ?d = "ucast (c AND 0x7f) :: u64"
  have "\<not> bit x n" if "s \<le> n" for n
    using assms that by (simp add: bit_odd_unat less_le_trans [OF _ power_increasing [of s n "2::nat"]])
  then have "\<not> bit x n \<or> \<not> bit (push_bit s ?d) n" for n
    by (cases "n < s") (auto simp: bit_push_bit_iff)
  then have "?y = x + push_bit s ?d"
    by (simp add: disjunctive_add)
  also have "\<dots> = of_nat (unat x) + of_nat (unat c mod 128) * 2 ^ s"
    unfolding leb_byte(1) [symmetric] by (simp add: push_bit_eq_mult)
  also have "\<dots> = of_nat (unat x + 2 ^ s * (unat c mod 128))"
    by (simp add: mult.commute)
  finally show x: "unat ?y = (unat x + 2 ^ s * (unat c mod 128)) mod 2 ^ 64"
    by (simp only: unat_of_nat) simp
  have "unat ?y \<le> unat x + 2 ^ s * (unat c mod 128)"
    by (simp add: x)
  also have "\<dots> < 2 ^ s + 2 ^ s * 127"
    using assms by (intro add_less_le_mono mult_le_mono2) (simp_all add: less_Suc_eq_le [symmetric])
  finally show "unat ?y < 2 ^ (s + 7)"
    by (simp add: power_add)
qed

lemma leb_prefix_Cons:
  "(\<exists>l r. c # cs = l @ r \<and> leb_ended l \<and> Q l) \<longleftrightarrow> (\<exists>l r. cs = l @ r \<and> leb_ended (c # l) \<and> Q (c # l))"
proof
  assume "\<exists>l r. c # cs = l @ r \<and> leb_ended l \<and> Q l"
  then obtain l r where l: "c # cs = l @ r" "leb_ended l" "Q l" by blast
  then obtain l' where "l = c # l'" by (cases l) auto
  with l have "cs = l' @ r \<and> leb_ended (c # l') \<and> Q (c # l')" by simp
  then show "\<exists>l r. cs = l @ r \<and> leb_ended (c # l) \<and> Q (c # l)" by blast
qed (metis append_Cons)

lemma leb_loop_iff:
  assumes "7 * length cs + s \<le> 70" "unat x < 2 ^ s"
  shows "leb_loop cs i x s = Ok (v, n) \<longleftrightarrow>
    (\<exists>l r. cs = l @ r \<and> leb_ended l \<and> n = i + length l \<and> unat v = (unat x + 2 ^ s * base128 l) mod 2 ^ 64)"
  using assms
proof (induction cs i x s rule: leb_loop.induct)
  case (2 c cs i x s)
  let ?x = "x OR push_bit s (ucast (c AND 0x7f))"
  note x = leb_accumulate [OF 2(3), of c]
  let ?Q = "\<lambda>l. n = i + length l \<and> unat v = (unat x + 2 ^ s * base128 l) mod 2 ^ 64"
  have "(\<exists>l r. c # cs = l @ r \<and> leb_ended l \<and> ?Q l) \<longleftrightarrow> (\<exists>l r. cs = l @ r \<and> leb_ended (c # l) \<and> ?Q (c # l))"
    by (rule leb_prefix_Cons)
  also have "\<dots> \<longleftrightarrow> leb_loop (c # cs) i x s = Ok (v, n)"
  proof (cases "unat c < 128")
    case True
    have "leb_loop (c # cs) i x s = Ok (v, n) \<longleftrightarrow> n = i + 1 \<and> v = ?x"
      using True by (auto simp: leb_byte(2) Let_def)
    then have "leb_loop (c # cs) i x s = Ok (v, n) \<longleftrightarrow> n = i + 1 \<and> unat v = unat ?x"
      by (simp only: word_unat_eq_iff)
    then show ?thesis
      using True x(1) by auto
  next
    case False
    have "unat x + 2 ^ s * base128 (c # l) = unat x + 2 ^ s * (unat c mod 128) + 2 ^ (s + 7) * base128 l" for l
      by (simp add: power_add algebra_simps)
    then have digits: "(unat ?x + 2 ^ (s + 7) * base128 l) mod 2 ^ 64 = (unat x + 2 ^ s * base128 (c # l)) mod 2 ^ 64" for l
      by (simp only: x(1) mod_add_left_eq)
    have "leb_loop (c # cs) i x s = leb_loop cs (i + 1) ?x (s + 7)"
      using False by (simp add: leb_byte(2) Let_def)
    also have "\<dots> = Ok (v, n) \<longleftrightarrow> (\<exists>l r. cs = l @ r \<and> leb_ended l \<and> n = i + 1 + length l
         \<and> unat v = (unat ?x + 2 ^ (s + 7) * base128 l) mod 2 ^ 64)"
      using 2(1) [OF refl] False 2(2) x(2) by (simp add: leb_byte(2))
    finally show ?thesis
      unfolding digits using False by simp
  qed
  finally show ?case by blast
qed simp

lemma read_leb_iff:
  "read_leb b = Ok (v, n) \<longleftrightarrow> (\<exists>l r. b = l @ r \<and> n = length l \<and> leb128 l (unat v))"
proof -
  have "read_leb b = Ok (v, n) \<longleftrightarrow>
      (\<exists>l r. take 10 b = l @ r \<and> leb_ended l \<and> n = length l \<and> unat v = base128 l mod 2 ^ 64)"
    unfolding read_leb_def using leb_loop_iff [of "take 10 b" 0 0 0 v n] by simp
  also have "\<dots> \<longleftrightarrow> (\<exists>l r. b = l @ r \<and> n = length l \<and> leb128 l (unat v))" (is "?L \<longleftrightarrow> ?R")
  proof
    assume ?L
    then obtain l r where l: "take 10 b = l @ r" "leb_ended l" "n = length l" "unat v = base128 l mod 2 ^ 64" by blast
    then have "b = l @ r @ drop 10 b" "length l \<le> 10"
      by (metis append.assoc append_take_drop_id, metis append_take_drop_id length_append length_take le_add1 min.cobounded2 order.trans)
    with l show ?R by (auto simp: leb128_def)
  next
    assume ?R
    then obtain l r where "b = l @ r" "n = length l" "leb128 l (unat v)" by blast
    then show ?L
      by (intro exI [of _ l] exI [of _ "take (10 - length l) r"]) (simp add: leb128_def)
  qed
  finally show ?thesis .
qed

inductive_cases wasm_body_ConsE: "wasm_body (i # b) ss"

lemma wasm_sections_sound:
  assumes "wasm_sections bs i = Ok ()" "i \<le> length bs"
  shows "\<exists>ss. wasm_body (drop i bs) ss \<and> (\<forall>s \<in> set ss. fst s \<noteq> 2)"
  using assms
proof (induction bs i rule: wasm_sections.induct)
  case (1 bs i)
  show ?case
  proof (cases "length bs \<le> i")
    case True
    then show ?thesis
      by (auto intro: wasm_body.empty exI [of _ "[]"])
  next
    case False
    let ?x = "drop (i + 1) bs"
    obtain len n where leb: "read_leb ?x = Ok (len, n)"
      using 1(2) False by (subst (asm) wasm_sections.simps) (auto split: sum.splits)
    define e where "e = i + 1 + n + unat len"
    have e: "\<not> 2 ^ 64 \<le> e" "\<not> length bs < e" "bs ! i \<noteq> 2" "wasm_sections bs e = Ok ()"
      using 1(2) False leb by (auto simp: wasm_sections.simps [of bs i] Let_def e_def split: if_splits)
    obtain ss where ss: "wasm_body (drop e bs) ss" "\<forall>s \<in> set ss. fst s \<noteq> 2"
      using 1(1) [OF False leb refl, of e] e by (auto simp: e_def)
    let ?l = "take n ?x" and ?c = "take (unat len) (drop n ?x)"
    have "drop e bs = drop (unat len) (drop n ?x)"
      by (simp add: e_def ac_simps)
    then have split: "?x = ?l @ ?c @ drop e bs"
      by (simp only: append_take_drop_id)
    have "length ?l = n" "length ?c = unat len"
      using read_leb_count [OF leb] e(2) by (auto simp: e_def)
    moreover have "leb128 ?l (unat len)"
      using leb by (auto simp: read_leb_iff)
    ultimately have "wasm_body (bs ! i # ?l @ ?c @ drop e bs) ((bs ! i, ?c) # ss)"
      using ss(1) by (intro wasm_body.sect) simp
    moreover have "drop i bs = bs ! i # ?l @ ?c @ drop e bs"
      using False split by (metis Cons_nth_drop_Suc Suc_eq_plus1 not_le)
    ultimately show ?thesis
      using ss(2) e(3) by (metis fst_conv set_ConsD)
  qed
qed

lemma wasm_sections_complete:
  assumes "wasm_body (drop i bs) ss" "\<forall>s \<in> set ss. fst s \<noteq> 2" "length bs < 2 ^ 64"
  shows "wasm_sections bs i = Ok ()"
  using assms
proof (induction bs i arbitrary: ss rule: wasm_sections.induct)
  case (1 bs i)
  show ?case
  proof (cases "length bs \<le> i")
    case True
    then show ?thesis by (simp add: wasm_sections.simps)
  next
    case False
    then have "drop i bs = bs ! i # drop (i + 1) bs"
      by (simp add: Cons_nth_drop_Suc)
    with 1(2) have body: "wasm_body (bs ! i # drop (i + 1) bs) ss" by simp
    then obtain l c r ss' where b: "drop (i + 1) bs = l @ c @ r" "leb128 l (length c)" "wasm_body r ss'" "ss = (bs ! i, c) # ss'"
      by (rule wasm_body_ConsE) blast
    define len :: u64 where "len = of_nat (length c)"
    have "length c < 2 ^ 64"
      using b(2) by (simp add: leb128_def)
    then have "unat len = length c"
      by (simp add: len_def unat_of_nat)
    with b have d: "drop (i + 1) bs = l @ c @ r" "read_leb (l @ c @ r) = Ok (len, length l)"
      "unat len = length c" "wasm_body r ss'" "ss = (bs ! i, c) # ss'"
      by (auto simp: read_leb_iff)
    define e where "e = i + 1 + length l + unat len"
    have "length (drop (i + 1) bs) = length l + length c + length r"
      using d(1) by simp
    then have le: "e \<le> length bs"
      using False d(3) by (simp add: e_def)
    have "drop e bs = drop (length l + length c) (drop (i + 1) bs)"
      using d(3) by (simp add: e_def add.commute add.left_commute)
    then have "drop e bs = r"
      unfolding d(1) by simp
    then have "wasm_sections bs e = Ok ()"
      using 1(1) [OF False, of "(len, length l)" len "length l" e ss'] 1(3,4) le d by (auto simp: e_def)
    then show ?thesis
      using False d 1(3,4) le by (subst wasm_sections.simps) (simp add: Let_def e_def)
  qed
qed

text \<open>C28. 
  A module is accepted exactly when it is the version-1 header followed by a sequence of sections
  whose LEB128 lengths match their contents and none of which is an import section; the walk over
  the sections always ends.
\<close>

theorem validate_wasm_iff:
  assumes "length bs < 2 ^ 64"
  shows "validate_wasm bs = Ok () \<longleftrightarrow>
    (\<exists>body ss. bs = WASM_HEADER @ body \<and> wasm_body body ss \<and> (\<forall>s \<in> set ss. fst s \<noteq> 2))"
proof -
  have hdr: "(\<not> (length bs < 8 \<or> take 4 bs \<noteq> take 4 WASM_HEADER \<or> take 4 (drop 4 bs) \<noteq> drop 4 WASM_HEADER))
      \<longleftrightarrow> bs = WASM_HEADER @ drop 8 bs"
  proof
    assume h: "\<not> (length bs < 8 \<or> take 4 bs \<noteq> take 4 WASM_HEADER \<or> take 4 (drop 4 bs) \<noteq> drop 4 WASM_HEADER)"
    then have "take 8 bs = take 4 WASM_HEADER @ drop 4 WASM_HEADER"
      using take_add [of 4 4 bs] by simp
    then show "bs = WASM_HEADER @ drop 8 bs"
      by (metis append_take_drop_id)
  next
    assume b: "bs = WASM_HEADER @ drop 8 bs"
    have "length WASM_HEADER = 8"
      by (simp add: WASM_HEADER_def)
    then show "\<not> (length bs < 8 \<or> take 4 bs \<noteq> take 4 WASM_HEADER \<or> take 4 (drop 4 bs) \<noteq> drop 4 WASM_HEADER)"
      by (subst (1 2 3) b) simp
  qed
  show ?thesis
  proof (cases "bs = WASM_HEADER @ drop 8 bs")
    case True
    have "length WASM_HEADER = 8"
      by (simp add: WASM_HEADER_def)
    then have "8 \<le> length bs"
      using True by (metis le_add1 length_append)
    moreover have "validate_wasm bs = wasm_sections bs 8"
      using True hdr by (simp add: validate_wasm_def)
    ultimately show ?thesis
      using wasm_sections_sound [of bs 8] wasm_sections_complete [of 8 bs] assms True
      by (metis append_same_eq same_append_eq)
  next
    case False
    have "length WASM_HEADER = 8"
      by (simp add: WASM_HEADER_def)
    then have "\<nexists>body. bs = WASM_HEADER @ body"
      using False by (metis append_eq_conv_conj)
    moreover have "validate_wasm bs \<noteq> Ok ()"
      using False hdr by (auto simp: validate_wasm_def)
    ultimately show ?thesis by blast
  qed
qed

text \<open>A module whose only section has 200 bytes, its length in two LEB128 bytes.\<close>

theorem validate_wasm_iff_witness:
  "validate_wasm (WASM_HEADER @ 1 # [0xC8, 1] @ replicate 200 7 @ []) = Ok ()"
proof -
  let ?body = "1 # [0xC8, 1] @ replicate 200 7 @ []"
  have "leb128 [0xC8, 1] (length (replicate 200 (7 :: u8)))"
    by (simp add: leb128_def)
  then have "wasm_body ?body [(1, replicate 200 7)]"
    by (intro wasm_body.sect wasm_body.empty)
  then have "\<exists>body ss. WASM_HEADER @ ?body = WASM_HEADER @ body \<and> wasm_body body ss \<and> (\<forall>s \<in> set ss. fst s \<noteq> 2)"
    by (intro exI [of _ ?body] exI [of _ "[(1, replicate 200 7)]"]) simp
  moreover have "length (WASM_HEADER @ ?body) < 2 ^ 64"
    by (simp add: WASM_HEADER_def)
  ultimately show ?thesis
    using validate_wasm_iff [of "WASM_HEADER @ ?body"] by blast
qed

section \<open>Installation\<close>

text \<open>What the store relies on of the JSON codec of its records: reading inverts writing.\<close>

definition installed_json_ok :: "'a app_prims_scheme \<Rightarrow> bool" where
  "installed_json_ok P \<longleftrightarrow> (\<forall>r. installed_parse P (installed_json P r) = Some r)"

lemma from_bytes_verified: "AWEPackage_from_bytes P b = Ok p \<Longrightarrow> AWEPackage_verify P p = Ok ()"
  by (auto simp: AWEPackage_from_bytes_def split: if_splits option.splits sum.splits rust_error.splits)

lemma bytes_verified: "AWEPackage_bytes P p = Ok b \<Longrightarrow> AWEPackage_verify P p = Ok () \<and> b = package_json P p"
  by (auto simp: AWEPackage_bytes_def split: sum.splits rust_error.splits)

lemma verified_facts:
  assumes "AWEPackage_verify P p = Ok ()"
  defines "m \<equiv> \<lambda>p :: AWEPackage. sm_manifest (pk_manifest p)"
  shows "valid_app_id (mf_id (m p))"
    and "Identity_verify P (mf_developer_public_key (m p)) (manifest_json P (m p)) (sm_signature (pk_manifest p))"
    and "aweid_bytes (AweId_from_public_key P (mf_developer_public_key (m p))) = mf_developer_awe_id (m p)"
    and "payload_hash P (pk_files p) = mf_payload_hash (m p)"
    and "mf_kind (m p) = Wasm \<Longrightarrow> \<exists>b. bt_get (pk_files p) (mf_entry (m p)) = Some b \<and> validate_wasm b = Ok ()"
  using assms(1) unfolding m_def
  by (auto simp: AWEPackage_verify_def SignedManifest_verify_def AppManifest_verify_def check_entry_def Let_def
      split: if_splits sum.splits option.splits)

text \<open>C33. 
  An installation that succeeds is of a package whose developer signature verifies, whose files
  have the signed digest, all of whose declared capabilities were granted, and whose WebAssembly
  entry, if it is such an application, was accepted; the record is then the one read back. Missing
  capabilities and unreadable packages leave the installed applications as they were.
\<close>

theorem install_checks_package:
  assumes json: "installed_json_ok P"
    and inst: "Store_install P fault s h granted_caps = (Ok app, s')"
  shows "\<exists>p. Store_fetch_cached P s h = Ok p
     \<and> Identity_verify P (mf_developer_public_key (sm_manifest (pk_manifest p)))
         (manifest_json P (sm_manifest (pk_manifest p))) (sm_signature (pk_manifest p))
     \<and> payload_hash P (pk_files p) = mf_payload_hash (sm_manifest (pk_manifest p))
     \<and> set (ia_permissions app) \<subseteq> set granted_caps
     \<and> ia_permissions app = mf_permissions (sm_manifest (pk_manifest p))
     \<and> (mf_kind (sm_manifest (pk_manifest p)) = Wasm \<longrightarrow>
          (\<exists>b. bt_get (pk_files p) (mf_entry (sm_manifest (pk_manifest p))) = Some b \<and> validate_wasm b = Ok ()))
     \<and> ia_id app = mf_id (sm_manifest (pk_manifest p)) \<and> Store_installed P s' (ia_id app) = Ok app"
proof -
  obtain p where p: "Store_fetch_cached P s h = Ok p"
    using inst by (auto simp: Store_install_def split: sum.splits)
  then have "AWEPackage_verify P p = Ok ()"
    by (auto simp: Store_fetch_cached_def from_bytes_verified split: option.splits)
  note v = verified_facts [OF this]
  have a: "set (mf_permissions (sm_manifest (pk_manifest p))) \<subseteq> set granted_caps"
    "app = \<lparr> ia_id = mf_id (sm_manifest (pk_manifest p)), ia_version = mf_version (sm_manifest (pk_manifest p)),
        ia_package_hash = h, ia_permissions = mf_permissions (sm_manifest (pk_manifest p)) \<rparr>"
    "bt_get (so_installed s') (Store_active (mf_id (sm_manifest (pk_manifest p)))) = Some (installed_json P app)"
    using inst p by (auto simp: Store_install_def Let_def split: if_splits prod.splits bool.splits store_fault.splits)
  then have "Store_installed P s' (ia_id app) = Ok app"
    using json by (simp add: Store_installed_def installed_json_ok_def)
  then show ?thesis
    using p v a by auto
qed

text \<open>Whatever fails, an installation that does not succeed leaves the active record of its application as it
  was; a failed roll-back need not.\<close>

lemma active_not_part [simp]:
  "Store_active i \<noteq> rollback_name i" "Store_active i \<noteq> i @ ''.part''" "rollback_name i \<noteq> Store_active i" "i @ ''.part'' \<noteq> Store_active i"
  by (simp_all add: Store_active_def rollback_name_def)

lemma keep_rollback_active:
  "bt_get (snd (keep_rollback fault i d)) (Store_active i) = bt_get d (Store_active i)"
  by (auto simp: keep_rollback_def left_behind_def split: option.split store_fault.split)

lemma failed_install_keeps_active:
  assumes "Store_install P fault s h granted_caps = (Inl e, s')" "Store_fetch_cached P s h = Ok p"
  defines "i \<equiv> mf_id (sm_manifest (pk_manifest p))"
  shows "Store_installed P s' i = Store_installed P s i"
proof -
  have "bt_get (so_installed s') (Store_active i) = bt_get (so_installed s) (Store_active i)"
    using assms(1,2) keep_rollback_active [of fault i "so_installed s"]
    by (auto simp: Store_install_def i_def Let_def left_behind_def
        split: if_splits prod.splits bool.splits store_fault.splits option.splits)
  then show ?thesis
    by (simp add: Store_installed_def)
qed

text \<open>Opening a store again finds the packages and the installations that are there.\<close>

lemma open_keeps_directories:
  assumes "bt_get root ''packages'' = Some pk" "bt_get root ''installed'' = Some inst" "bt_contains root ''cache''"
  shows "Store_open mkdir root = (Ok \<lparr>so_packages = pk, so_installed = inst\<rparr>, root)"
  using assms by (simp add: Store_open_def create_dir_all_def bt_contains_def)

lemma open_new:
  assumes "\<And>n. mkdir n"
  shows "fst (Store_open mkdir []) = Ok \<lparr>so_packages = [], so_installed = []\<rparr>"
  using assms by (simp add: Store_open_def create_dir_all_def bt_contains_def bt_get_def)

text \<open>The same of the packages.\<close>

definition package_json_ok :: "'a app_prims_scheme \<Rightarrow> bool" where
  "package_json_ok P \<longleftrightarrow> (\<forall>p. package_parse P (package_json P p) = Some p)"

lemma publish_then_fetch:
  assumes "package_json_ok P" "Store_publish P FaultFree s p = (Ok h, s')" "length (package_json P p) \<le> MAX_PACKAGE"
  shows "h = package_hash P p \<and> Store_fetch_cached P s' h = Ok p"
proof -
  obtain b where b: "AWEPackage_bytes P p = Ok b"
    using assms(2) by (auto simp: Store_publish_def split: sum.splits)
  then have "AWEPackage_verify P p = Ok ()" "b = package_json P p"
    using bytes_verified by blast+
  then show ?thesis
    using b assms by (auto simp: Store_publish_def Store_fetch_cached_def AWEPackage_from_bytes_def package_json_ok_def Let_def)
qed

text \<open>
  Two packages that verify under the same manifest carry the same files, unless two inputs of
  the digest with the same value are known: the signed digest covers paths and contents with
  their lengths.
\<close>

lemma file_bytes_inject:
  assumes "file_bytes (p, b) @ r = file_bytes (p', b') @ r'"
    "length p < 2 ^ 64" "length b < 2 ^ 64" "length p' < 2 ^ 64" "length b' < 2 ^ 64"
  shows "p = p' \<and> b = b' \<and> r = r'"
proof -
  have "to_be_bytes_u64 (of_nat (length (as_bytes p))) @ as_bytes p @ to_be_bytes_u64 (of_nat (length b)) @ b @ r
      = to_be_bytes_u64 (of_nat (length (as_bytes p'))) @ as_bytes p' @ to_be_bytes_u64 (of_nat (length b')) @ b' @ r'"
    using assms(1) by (simp add: file_bytes_def)
  from length_prefix_inject [OF _ _ this] have "as_bytes p = as_bytes p'"
    "to_be_bytes_u64 (of_nat (length b)) @ b @ r = to_be_bytes_u64 (of_nat (length b')) @ b' @ r'"
    using assms by auto
  with length_prefix_inject [OF _ _ this(2)] show ?thesis
    using assms by simp
qed

lemma payload_inject:
  assumes "\<forall>(p, b) \<in> set fs. length p < 2 ^ 64 \<and> length b < 2 ^ 64" "\<forall>(p, b) \<in> set gs. length p < 2 ^ 64 \<and> length b < 2 ^ 64"
    and "concat (map file_bytes fs) = concat (map file_bytes gs)"
  shows "fs = gs"
  using assms
proof (induction fs arbitrary: gs)
  case Nil
  then show ?case
    by (cases gs) (auto simp: file_bytes_def to_be_bytes_u64_def dest: arg_cong [where f = length])
next
  case (Cons f fs)
  obtain p b where f: "f = (p, b)" by fastforce
  have "concat (map file_bytes (f # fs)) \<noteq> []"
    by (simp add: f file_bytes_def to_be_bytes_u64_def flip: length_0_conv)
  then obtain g gs' where gs: "gs = g # gs'"
    using Cons.prems(3) by (cases gs) auto
  obtain p' b' where g: "g = (p', b')" by fastforce
  have "file_bytes (p, b) @ concat (map file_bytes fs) = file_bytes (p', b') @ concat (map file_bytes gs')"
    using Cons.prems(3) by (simp add: f g gs)
  from file_bytes_inject [OF this] have "p = p' \<and> b = b' \<and> concat (map file_bytes fs) = concat (map file_bytes gs')"
    using Cons.prems(1,2) by (auto simp: f g gs)
  then show ?case
    using Cons.IH [of gs'] Cons.prems(1,2) by (simp add: f g gs)
qed

theorem manifest_binds_files:
  assumes "AWEPackage_verify P p = Ok ()" "AWEPackage_verify P q = Ok ()"
    and "sm_manifest (pk_manifest p) = sm_manifest (pk_manifest q)"
    and "\<forall>(n, b) \<in> set (pk_files p). length n < 2 ^ 64 \<and> length b < 2 ^ 64"
    and "\<forall>(n, b) \<in> set (pk_files q). length n < 2 ^ 64 \<and> length b < 2 ^ 64"
  shows "pk_files p = pk_files q
    \<or> (let x = concat (map file_bytes (pk_files p)); y = concat (map file_bytes (pk_files q)) in x \<noteq> y \<and> blake3 P x = blake3 P y)"
proof -
  have "blake3 P (concat (map file_bytes (pk_files p))) = blake3 P (concat (map file_bytes (pk_files q)))"
    using verified_facts(4) [OF assms(1)] verified_facts(4) [OF assms(2)] assms(3) by (simp add: payload_hash_def)
  then show ?thesis
    using payload_inject [OF assms(4,5)] by (cases "pk_files p = pk_files q") auto
qed

text \<open>
  Installing an application named \<^verbatim>\<open>X.rollback\<close> writes its record over the rollback copy of \<^verbatim>\<open>X\<close>: both
  names are valid, and rolling \<^verbatim>\<open>X\<close> back then activates the record of the other application.
\<close>

theorem rollback_of_another_app:
  assumes json: "installed_json_ok P"
    and inst: "Store_install P fault s h granted_caps = (Ok app, s')" and name: "ia_id app = i @ ''.rollback''"
  shows "fst (Store_rollback P FaultFree s' i) = Ok app \<and> Store_installed P (snd (Store_rollback P FaultFree s' i)) i = Ok app"
proof -
  obtain p where "Store_fetch_cached P s h = Ok p" "ia_id app = mf_id (sm_manifest (pk_manifest p))"
    "bt_get (so_installed s') (Store_active (ia_id app)) = Some (installed_json P app)"
    using inst by (auto simp: Store_install_def Let_def split: sum.splits if_splits prod.splits bool.splits store_fault.splits)
  moreover have "Store_active (ia_id app) = rollback_name i"
    by (simp add: name Store_active_def rollback_name_def)
  ultimately show ?thesis
    using json by (simp add: Store_rollback_def Store_installed_def installed_json_ok_def Let_def)
qed

section \<open>Building packages\<close>

text \<open>
  A package built by a developer's identity from a valid name, version and entry path verifies, and
  keeps verifying after the developer sets a price; nobody else's price change is accepted.
\<close>

theorem built_package_verifies:
  assumes ed: "ed_correct P" "\<And>k m. length (ed_sign P k m) = 64" and wf: "identity_wf P identity"
    and names: "valid_app_id i" "valid_version v" "validate_path entry"
    and new: "AWEPackage_new P identity i name v kind entry files perms deps = Ok p"
  shows "AWEPackage_verify P p = Ok ()
    \<and> (price \<noteq> Some 0 \<longrightarrow> fst (set_price_onecoin P p identity price) = Ok ()
         \<and> AWEPackage_verify P (snd (set_price_onecoin P p identity price)) = Ok ())
    \<and> (ip_public_key (id_public other) \<noteq> ip_public_key (id_public identity) \<longrightarrow>
         set_price_onecoin P p other price = (Err ''only the app developer can change its price'', p))"
proof -
  define m where "m = sm_manifest (pk_manifest p)"
  have p: "pk_magic p = APP_MAGIC" "pk_files p = files" "files_size files \<le> MAX_PACKAGE"
      "check_entry ''missing entry'' kind files entry = Ok ()"
      "sm_signature (pk_manifest p) = Identity_sign P identity (manifest_json P m)"
      "m = \<lparr> mf_id = i, mf_name = name, mf_version = v, mf_kind = kind,
          mf_developer_awe_id = aweid_bytes (ip_awe_id (id_public identity)),
          mf_developer_public_key = ip_public_key (id_public identity), mf_entry = entry,
          mf_dependencies = deps, mf_permissions = perms,
          mf_payload_hash = payload_hash P files, mf_size = of_nat (files_size files),
          mf_protocol_version = 1, mf_price_onecoin_atoms = None \<rparr>"
    using new by (auto simp: AWEPackage_new_def m_def Let_def split: if_splits sum.splits)
  have entry: "check_entry ''missing WASM entry'' kind files entry = Ok ()"
    using p(4) by (auto simp: check_entry_def split: if_splits option.splits)
  have size: "unat (of_nat (files_size files) :: u64) \<le> MAX_PACKAGE"
    using p(3) by (simp add: MAX_PACKAGE_def unat_of_nat)
  have key: "AweId_from_public_key P (ip_public_key (id_public identity)) = ip_awe_id (id_public identity)"
    using wf by (simp add: identity_wf_def)
  have "entry \<noteq> []"
    using names(3) by (simp add: validate_path_def)
  then have ok: "AWEPackage_verify P q = Ok ()"
    if "pk_magic q = APP_MAGIC" "pk_files q = files" "sm_manifest (pk_manifest q) = m\<lparr>mf_price_onecoin_atoms := pr\<rparr>"
      "sm_signature (pk_manifest q) = Identity_sign P identity (manifest_json P (sm_manifest (pk_manifest q)))" for q pr
    using that names size key entry Identity_verify_sign [OF ed(1) wf] ed(2)
    by (simp add: AWEPackage_verify_def SignedManifest_verify_def AppManifest_verify_def p(6) Let_def Identity_sign_def)
  have "m\<lparr>mf_price_onecoin_atoms := None\<rparr> = m"
    by (simp add: p(6))
  then have "AWEPackage_verify P p = Ok ()"
    using ok [of p None] p(1,2,5) by (simp add: m_def)
  moreover have "fst (set_price_onecoin P p identity price) = Ok ()
      \<and> AWEPackage_verify P (snd (set_price_onecoin P p identity price)) = Ok ()" if "price \<noteq> Some 0"
    using that ok [of "snd (set_price_onecoin P p identity price)" price] p(1,2,6) unfolding m_def
    by (simp add: set_price_onecoin_def Let_def)
  moreover have "set_price_onecoin P p other price = (Err ''only the app developer can change its price'', p)"
    if "ip_public_key (id_public other) \<noteq> ip_public_key (id_public identity)"
    using that p(6) unfolding m_def by (simp add: set_price_onecoin_def Let_def)
  ultimately show ?thesis by blast
qed

text \<open>Concrete codecs: a list is written as its items, each after a one, and a closing zero.\<close>

definition enc_list :: "bytes \<Rightarrow> bytes" where
  "enc_list xs = concat (map (\<lambda>x. [1, x]) xs) @ [0]"

fun dec_list :: "bytes \<Rightarrow> bytes \<times> bytes" where
  "dec_list (t # r) =
     (if t = 0 then ([], r)
      else case r of [] \<Rightarrow> ([], []) | x # r' \<Rightarrow> (case dec_list r' of (xs, rest) \<Rightarrow> (x # xs, rest)))"
| "dec_list [] = ([], [])"

lemma dec_enc_list: "dec_list (enc_list xs @ r) = (xs, r)"
  by (induction xs) (simp_all add: enc_list_def)

definition cap_code :: "StoreCapability \<Rightarrow> u8" where
  "cap_code c = (case c of CapNetwork \<Rightarrow> 0 | CapStorage \<Rightarrow> 1 | CapIdentity \<Rightarrow> 2 | CapMedia \<Rightarrow> 3 | CapHost \<Rightarrow> 4 | CapProcess \<Rightarrow> 5)"

definition code_cap :: "u8 \<Rightarrow> StoreCapability" where
  "code_cap c = (if c = 0 then CapNetwork else if c = 1 then CapStorage else if c = 2 then CapIdentity
     else if c = 3 then CapMedia else if c = 4 then CapHost else CapProcess)"

lemma code_cap_code [simp]: "code_cap (cap_code c) = c"
  by (cases c) (simp_all add: cap_code_def code_cap_def)

definition demo_developer :: Identity where
  "demo_developer = Identity_generate demo_prims (replicate 32 9) (Username ''dev'')"

definition demo_app :: "AWEPackage option \<Rightarrow> app_prims" where
  "demo_app p = prims.extend demo_prims
     \<lparr> manifest_json = (\<lambda>m. [1]), package_json = (\<lambda>p. [2]), package_parse = (\<lambda>b. p),
       installed_json = (\<lambda>r. enc_list (as_bytes (ia_id r)) @ enc_list (as_bytes (ia_version r))
          @ enc_list (ia_package_hash r) @ enc_list (map cap_code (ia_permissions r))),
       installed_parse = (\<lambda>b. case dec_list b of (i, b) \<Rightarrow> case dec_list b of (v, b) \<Rightarrow>
          case dec_list b of (h, b) \<Rightarrow> case dec_list b of (c, b) \<Rightarrow>
          Some \<lparr> ia_id = from_bytes i, ia_version = from_bytes v, ia_package_hash = h, ia_permissions = map code_cap c \<rparr>) \<rparr>"

lemma demo_app_prims [simp]:
  "ed_sign (demo_app p) = ed_sign demo_prims" "ed_public (demo_app p) = ed_public demo_prims"
  "ed_key_ok (demo_app p) = ed_key_ok demo_prims" "ed_verify (demo_app p) = ed_verify demo_prims"
  "blake3 (demo_app p) = blake3 demo_prims" "sha256 (demo_app p) = sha256 demo_prims"
  "manifest_json (demo_app p) m = [1]" "package_parse (demo_app p) b = p"
  "hex_encode (demo_app p) = hex_encode demo_prims"
  by (simp_all add: demo_app_def prims.defs demo_prims_def)

lemma demo_installed_json: "installed_json_ok (demo_app p)"
  by (simp add: installed_json_ok_def demo_app_def prims.defs dec_enc_list dec_enc_list [where r = "[]", simplified] comp_def)

definition demo_package :: "string \<Rightarrow> AWEPackage" where
  "demo_package i = (case AWEPackage_new (demo_app None) demo_developer i ''demo'' ''1.0'' Linux ''/run'' [(''/run'', [7])] [CapNetwork] [] of
     Inr p \<Rightarrow> p)"

lemma demo_package_new:
  "AWEPackage_new (demo_app x) demo_developer i ''demo'' ''1.0'' Linux ''/run'' [(''/run'', [7])] [CapNetwork] [] = Ok (demo_package i)"
  by (simp add: demo_package_def AWEPackage_new_def files_size_def MAX_PACKAGE_def validate_path_def starts_with_def
      check_entry_def Let_def payload_hash_def Identity_sign_def)

lemma demo_developer_wf: "identity_wf (demo_app p) demo_developer"
  by (simp add: identity_wf_def demo_developer_def Identity_generate_def Identity_from_signing_key_def Let_def
      AweId_from_public_key_def hash_def)

lemma demo_names: "valid_app_id ''tool'' \<and> valid_app_id ''tool.rollback'' \<and> valid_version ''1.0'' \<and> validate_path ''/run''"
  by (simp add: valid_app_id_def valid_version_def validate_path_def is_ascii_alphanumeric_def starts_with_def)

theorem built_package_verifies_witness:
  "AWEPackage_verify (demo_app None) (demo_package ''tool'') = Ok ()"
  using built_package_verifies [OF _ _ demo_developer_wf _ _ _ demo_package_new, of None "''tool''" None demo_developer] demo_names
  by (simp add: ed_correct_def)

section \<open>Concrete installations\<close>

lemma demo_verifies:
  "AWEPackage_verify (demo_app x) (demo_package ''tool'') = Ok ()"
  "AWEPackage_verify (demo_app x) (demo_package ''tool.rollback'') = Ok ()"
  by (simp_all add: demo_package_def AWEPackage_new_def files_size_def MAX_PACKAGE_def AWEPackage_verify_def SignedManifest_verify_def
      AppManifest_verify_def demo_names validate_path_def starts_with_def check_entry_def Let_def payload_hash_def Identity_sign_def
      Identity_verify_def demo_developer_def Identity_generate_def Identity_from_signing_key_def AweId_from_public_key_def hash_def)

definition demo_cached :: Store where
  "demo_cached = \<lparr> so_packages = [(from_bytes [5], [2])], so_installed = [] \<rparr>"

lemma demo_fetch:
  assumes "AWEPackage_verify (demo_app (Some p)) p = Ok ()"
  shows "Store_fetch_cached (demo_app (Some p)) demo_cached [5] = Ok p"
  using assms by (simp add: Store_fetch_cached_def demo_cached_def Store_pkg_def bt_get_def AWEPackage_from_bytes_def MAX_PACKAGE_def)

lemma demo_install:
  assumes "AWEPackage_verify (demo_app (Some p)) p = Ok ()" "mf_permissions (sm_manifest (pk_manifest p)) = [CapNetwork]"
  obtains app s' where "Store_install (demo_app (Some p)) FaultFree demo_cached [5] [CapNetwork] = (Ok app, s')"
    "ia_id app = mf_id (sm_manifest (pk_manifest p))"
  using demo_fetch [OF assms(1)] assms(2) by (auto simp: Store_install_def keep_rollback_def demo_cached_def bt_get_def Let_def)

lemma demo_package_fields:
  "mf_permissions (sm_manifest (pk_manifest (demo_package i))) = [CapNetwork]"
  "mf_id (sm_manifest (pk_manifest (demo_package i))) = i" "pk_files (demo_package i) = [(''/run'', [7])]"
  by (simp_all add: demo_package_def AWEPackage_new_def files_size_def MAX_PACKAGE_def validate_path_def starts_with_def
      check_entry_def Let_def)

theorem install_checks_package_witness:
  "\<exists>app s'. Store_install (demo_app (Some (demo_package ''tool''))) FaultFree demo_cached [5] [CapNetwork] = (Ok app, s')
     \<and> Store_installed (demo_app (Some (demo_package ''tool''))) s' (ia_id app) = Ok app"
proof -
  obtain app s' where "Store_install (demo_app (Some (demo_package ''tool''))) FaultFree demo_cached [5] [CapNetwork] = (Ok app, s')"
    by (rule demo_install [OF demo_verifies(1) demo_package_fields(1)])
  then show ?thesis
    using install_checks_package [OF demo_installed_json] by blast
qed

theorem manifest_binds_files_witness:
  "AWEPackage_verify (demo_app None) (demo_package ''tool'') = Ok () \<and> pk_files (demo_package ''tool'') = pk_files (demo_package ''tool'')"
  using manifest_binds_files [OF demo_verifies(1) demo_verifies(1) refl, of None] demo_verifies(1) [of None]
  by (simp add: demo_package_fields)

theorem rollback_of_another_app_witness:
  "\<exists>app s'. Store_install (demo_app (Some (demo_package ''tool.rollback''))) FaultFree demo_cached [5] [CapNetwork] = (Ok app, s')
     \<and> fst (Store_rollback (demo_app (Some (demo_package ''tool.rollback''))) FaultFree s' ''tool'') = Ok app"
proof -
  obtain app s' where i: "Store_install (demo_app (Some (demo_package ''tool.rollback''))) FaultFree demo_cached [5] [CapNetwork] = (Ok app, s')"
    "ia_id app = mf_id (sm_manifest (pk_manifest (demo_package ''tool.rollback'')))"
    by (rule demo_install [OF demo_verifies(2) demo_package_fields(1)])
  then show ?thesis
    using rollback_of_another_app [OF demo_installed_json i(1), of "''tool''"] by (auto simp: demo_package_fields)
qed

end
