(* ===== verification/Discovery.thy ===== *)
theory Discovery
  imports Identity
begin

text \<open>
  Peer discovery and routing (core/src/discovery.rs, core/src/routing.rs): signed announcements, the
  bounded directory that keeps the newest one per node, and the ranking of peers by the XOR distance
  of their identities. The directory is a \<^verbatim>\<open>HashMap\<close> of which only the minimum by sequence and expiry is
  iterated; equal minima are resolved by key order here.
\<close>

section \<open>Announcements\<close>

record PeerAnnouncement =
  pa_node_id :: string
  pa_addresses :: "string list"
  pa_public_key :: bytes
  pa_expires_at_unix :: u64
  pa_sequence :: u64
  pa_signature :: bytes

definition announcement_signing_bytes :: "PeerAnnouncement \<Rightarrow> bytes" where
  "announcement_signing_bytes a =
     as_bytes ''AWE/DISCOVERY/v1'' @ as_bytes (pa_node_id a) @ [0]
     @ concat (map (\<lambda>x. as_bytes x @ [0]) (pa_addresses a))
     @ pa_public_key a @ to_be_bytes_u64 (pa_expires_at_unix a) @ to_be_bytes_u64 (pa_sequence a)"

definition announcement_verify_signature :: "'a prims_scheme \<Rightarrow> PeerAnnouncement \<Rightarrow> bool" where
  "announcement_verify_signature P a =
     (if length (pa_signature a) \<noteq> 64 then False
      else Identity_verify P (pa_public_key a) (announcement_signing_bytes a) (pa_signature a))"

definition announcement_validate :: "'a prims_scheme \<Rightarrow> PeerAnnouncement \<Rightarrow> u64 \<Rightarrow> u64 \<Rightarrow> unit result" where
  "announcement_validate P a now_unix max_lifetime =
     (if pa_node_id a = [] \<or> length (pa_node_id a) > 256 then Err ''invalid node id''
      else if length (pa_signature a) \<noteq> 64 then Err ''invalid peer announcement signature length''
      else if \<not> announcement_verify_signature P a then Err ''invalid peer announcement signature''
      else if length (pa_addresses a) > 16 then Err ''too many addresses''
      else if pa_expires_at_unix a \<le> now_unix \<or> sat_sub (pa_expires_at_unix a) now_unix > max_lifetime
      then Err ''peer announcement expired or lifetime too long''
      else if list_ex (\<lambda>x. length x > 256 \<or> x = []) (pa_addresses a) then Err ''invalid peer address''
      else Ok ())"

section \<open>The directory\<close>

record PeerDirectory =
  pd_records :: "(string, PeerAnnouncement) btree_map"
  pd_max_records :: nat

definition PeerDirectory_with_capacity :: "nat \<Rightarrow> PeerDirectory" where
  "PeerDirectory_with_capacity max_records = \<lparr> pd_records = [], pd_max_records = max max_records 1 \<rparr>"

definition PeerDirectory_default :: PeerDirectory where
  "PeerDirectory_default = PeerDirectory_with_capacity 1024"

definition age_rank :: "PeerAnnouncement \<Rightarrow> u64 \<times> u64" where
  "age_rank r = (pa_sequence r, pa_expires_at_unix r)"

definition PeerDirectory_upsert ::
  "'a prims_scheme \<Rightarrow> PeerDirectory \<Rightarrow> PeerAnnouncement \<Rightarrow> u64 \<Rightarrow> u64 \<Rightarrow> bool result \<times> PeerDirectory" where
  "PeerDirectory_upsert P d r now_unix max_lifetime =
     (case announcement_validate P r now_unix max_lifetime of
        Inl e \<Rightarrow> (Inl e, d)
      | Inr _ \<Rightarrow>
          (let accept = (case bt_get (pd_records d) (pa_node_id r) of
                           None \<Rightarrow> True | Some old \<Rightarrow> pa_sequence r > pa_sequence old)
           in if accept then
                (let recs = (if \<not> bt_contains (pd_records d) (pa_node_id r)
                             then evict_min age_rank (pd_max_records d) (pd_records d) else pd_records d)
                 in (Ok True, d\<lparr>pd_records := bt_insert (pa_node_id r) r recs\<rparr>))
              else (Ok False, d)))"

definition PeerDirectory_expire :: "PeerDirectory \<Rightarrow> u64 \<Rightarrow> PeerDirectory" where
  "PeerDirectory_expire d now_unix =
     d\<lparr>pd_records := filter (\<lambda>(k, r). pa_expires_at_unix r > now_unix) (pd_records d)\<rparr>"

definition PeerDirectory_get :: "PeerDirectory \<Rightarrow> string \<Rightarrow> u64 \<Rightarrow> PeerAnnouncement option" where
  "PeerDirectory_get d node_id now_unix =
     (case bt_get (pd_records d) node_id of
        None \<Rightarrow> None
      | Some r \<Rightarrow> if pa_expires_at_unix r > now_unix then Some r else None)"

definition PeerDirectory_len :: "PeerDirectory \<Rightarrow> nat" where
  "PeerDirectory_len d = length (pd_records d)"

section \<open>Routing\<close>

record PeerRoute =
  pr_node_id :: string
  pr_address :: string
  pr_distance :: bytes
  pr_latency_ms :: "u32 option"
  pr_healthy :: bool

definition xor_distance :: "bytes \<Rightarrow> bytes \<Rightarrow> bytes" where
  "xor_distance a b = map2 (XOR) a b"

definition node_id_bytes :: "'a prims_scheme \<Rightarrow> string \<Rightarrow> bytes option" where
  "node_id_bytes P node_id =
     (case hex_decode P node_id of
        None \<Rightarrow> None
      | Some bs \<Rightarrow> if length bs \<noteq> 32 then None else Some bs)"

definition measured :: "'a prims_scheme \<Rightarrow> bytes \<Rightarrow> PeerRoute \<Rightarrow> PeerRoute" where
  "measured P target p =
     (case node_id_bytes P (pr_node_id p) of
        None \<Rightarrow> p
      | Some i \<Rightarrow> p\<lparr>pr_distance := xor_distance target i\<rparr>)"

definition route_key :: "PeerRoute \<Rightarrow> bytes \<times> u32 \<times> string" where
  "route_key p = (pr_distance p, (case pr_latency_ms p of None \<Rightarrow> - 1 | Some l \<Rightarrow> l), pr_node_id p)"

definition rank_peers :: "'a prims_scheme \<Rightarrow> bytes \<Rightarrow> PeerRoute list \<Rightarrow> PeerRoute list" where
  "rank_peers P target peers =
     sort_key route_key (map (measured P target) (filter (\<lambda>p. pr_healthy p \<and> pr_node_id p \<noteq> []) peers))"

definition next_hop :: "'a prims_scheme \<Rightarrow> bytes \<Rightarrow> PeerRoute list \<Rightarrow> string list \<Rightarrow> PeerRoute option" where
  "next_hop P target peers visited =
     List.find (\<lambda>p. pr_node_id p \<notin> set visited) (rank_peers P target peers)"

section \<open>The directory never goes back\<close>

definition directory_inv :: "'a prims_scheme \<Rightarrow> PeerDirectory \<Rightarrow> bool" where
  "directory_inv P d \<longleftrightarrow> bt_inv (pd_records d) \<and> length (pd_records d) \<le> pd_max_records d \<and> 0 < pd_max_records d
     \<and> (\<forall>k r. bt_get (pd_records d) k = Some r \<longrightarrow> pa_node_id r = k \<and> announcement_verify_signature P r)"

lemma directory_inv_new: "directory_inv P (PeerDirectory_with_capacity n)"
  by (simp add: directory_inv_def PeerDirectory_with_capacity_def bt_get_def)

lemma validate_Ok:
  assumes "announcement_validate P a now life = Ok ()"
  shows "announcement_verify_signature P a" "pa_node_id a \<noteq> []" "now < pa_expires_at_unix a"
    "unat (pa_expires_at_unix a) - unat now \<le> unat life"
  using assms
  by (auto simp: announcement_validate_def word_le_nat_alt word_less_nat_alt unat_sat_sub not_less split: if_splits)

lemma directory_inv_upsert:
  assumes inv: "directory_inv P d"
  shows "directory_inv P (snd (PeerDirectory_upsert P d r now life))"
proof (cases "announcement_validate P r now life")
  case (Inl e)
  then show ?thesis using inv by (simp add: PeerDirectory_upsert_def)
next
  case (Inr u)
  note d = inv [unfolded directory_inv_def]
  have sig: "announcement_verify_signature P r"
    using Inr by (intro validate_Ok(1)) simp
  show ?thesis
  proof (cases "bt_get (pd_records d) (pa_node_id r)")
    case None
    have "length (bt_insert (pa_node_id r) r (evict_min age_rank (pd_max_records d) (pd_records d))) \<le> pd_max_records d"
      using d None by (intro evict_insert_bound) auto
    then show ?thesis
      using Inr None d sig evict_min_get [of "pd_records d" age_rank "pd_max_records d"]
      by (auto simp: PeerDirectory_upsert_def Let_def directory_inv_def bt_contains_def split: if_splits)
  next
    case (Some old)
    then show ?thesis
      using Inr d sig bt.len_insert [of "pd_records d" "pa_node_id r" r]
      by (auto simp: PeerDirectory_upsert_def Let_def directory_inv_def bt_contains_def split: if_splits)
  qed
qed

lemma bt_get_filter:
  assumes "bt_inv m"
  shows "bt_get (filter (\<lambda>(k, v). Q v) m) k = (case bt_get m k of None \<Rightarrow> None | Some v \<Rightarrow> if Q v then Some v else None)"
  using assms
proof (induction m)
  case (Cons e m)
  then have "bt_get (filter (\<lambda>(k, v). Q v) m) k = (case bt_get m k of None \<Rightarrow> None | Some v \<Rightarrow> if Q v then Some v else None)"
    by (simp add: bt_inv_Cons)
  moreover have "bt_get m k = None" if "fst e = k"
    using Cons.prems that by (intro bt_get_notin) (auto simp: bt_inv_Cons)
  ultimately show ?case
    by (cases e) (auto simp: bt_get_def split: if_splits option.splits)
qed (simp add: bt_get_def)

lemma bt_inv_filter: "bt_inv m \<Longrightarrow> bt_inv (filter Q m)"
  by (induction m) (auto simp: bt_inv_Cons)

lemma directory_inv_expire: "directory_inv P d \<Longrightarrow> directory_inv P (PeerDirectory_expire d now)"
  by (auto simp: directory_inv_def PeerDirectory_expire_def bt_inv_filter bt_get_filter
      intro: order_trans [OF length_filter_le] split: option.splits if_splits)

text \<open>
  The peer directory stays within its capacity, holds only announcements with a valid signature
  under their own node name, accepts a record only when it is unexpired with a bounded lifetime and
  newer than the one held for that node, and answers a look-up with that record until it expires.
\<close>

theorem directory_accepts_newer_only:
  assumes inv: "directory_inv P d" and up: "PeerDirectory_upsert P d r now life = (res, d')"
  shows "directory_inv P d' \<and> PeerDirectory_len d' \<le> pd_max_records d'
    \<and> (res = Ok True \<longrightarrow> PeerDirectory_get d' (pa_node_id r) now = Some r
         \<and> unat (pa_expires_at_unix r) - unat now \<le> unat life
         \<and> (\<forall>old. bt_get (pd_records d) (pa_node_id r) = Some old \<longrightarrow> pa_sequence old < pa_sequence r))
    \<and> (res \<noteq> Ok True \<longrightarrow> d' = d)"
proof -
  have i: "directory_inv P d'"
    using directory_inv_upsert [OF inv, of r now life] up by simp
  have acc: "announcement_validate P r now life = Ok ()
      \<and> (\<forall>old. bt_get (pd_records d) (pa_node_id r) = Some old \<longrightarrow> pa_sequence old < pa_sequence r)
      \<and> bt_get (pd_records d') (pa_node_id r) = Some r" if "res = Ok True"
    using that up by (auto simp: PeerDirectory_upsert_def Let_def split: sum.splits option.splits if_splits)
  then have "PeerDirectory_get d' (pa_node_id r) now = Some r" "unat (pa_expires_at_unix r) - unat now \<le> unat life"
    if "res = Ok True"
    using that validate_Ok(3,4) [of P r now life] by (simp_all add: PeerDirectory_get_def)
  moreover have "res \<noteq> Ok True \<longrightarrow> d' = d"
    using up by (auto simp: PeerDirectory_upsert_def Let_def split: sum.splits option.splits if_splits)
  ultimately show ?thesis
    using i acc by (auto simp: directory_inv_def PeerDirectory_len_def)
qed

definition demo_announcement :: "string \<Rightarrow> string list \<Rightarrow> bytes \<Rightarrow> u64 \<Rightarrow> PeerAnnouncement" where
  "demo_announcement i as k n =
     (let a = \<lparr> pa_node_id = i, pa_addresses = as, pa_public_key = k, pa_expires_at_unix = 100,
                pa_sequence = n, pa_signature = [] \<rparr>
      in a\<lparr>pa_signature := ed_sign demo_prims k (announcement_signing_bytes a)\<rparr>)"

lemma demo_announcement_verifies: "announcement_verify_signature demo_prims (demo_announcement i as k n)"
  by (simp add: announcement_verify_signature_def demo_announcement_def announcement_signing_bytes_def
      Identity_verify_def Let_def)

theorem directory_accepts_newer_only_witness:
  "PeerDirectory_get (snd (PeerDirectory_upsert demo_prims PeerDirectory_default (demo_announcement ''n'' [] [3] 1) 50 60)) ''n'' 50
     = Some (demo_announcement ''n'' [] [3] 1)"
proof -
  let ?a = "demo_announcement ''n'' [] [3] 1"
  have "directory_inv demo_prims PeerDirectory_default"
    unfolding PeerDirectory_default_def by (rule directory_inv_new)
  moreover have fields: "pa_node_id ?a = ''n''" "pa_addresses ?a = []" "pa_expires_at_unix ?a = 100" "length (pa_signature ?a) = 64"
    by (simp_all add: demo_announcement_def Let_def)
  then have "announcement_validate demo_prims ?a 50 60 = Ok ()"
    using demo_announcement_verifies by (simp add: announcement_validate_def sat_sub_def)
  then have "PeerDirectory_upsert demo_prims PeerDirectory_default ?a 50 60 =
      (Ok True, snd (PeerDirectory_upsert demo_prims PeerDirectory_default ?a 50 60))"
    by (simp add: PeerDirectory_upsert_def PeerDirectory_default_def PeerDirectory_with_capacity_def bt_get_def Let_def)
  ultimately show ?thesis
    using directory_accepts_newer_only [of demo_prims PeerDirectory_default ?a 50 60 "Ok True"] fields(1) by metis
qed

text \<open>
  The signed bytes of an announcement separate its fields by zero bytes that a field may itself
  contain, and do not bind the node name to the key. A valid announcement of a node without
  addresses whose name contains a zero byte is therefore also a valid announcement, with the same
  signature, of another node with an address; and any key may replace the record of any node by one
  with a higher sequence number.
\<close>

theorem announcement_signature_ambiguous:
  assumes v: "announcement_validate P a now life = Ok ()"
    and name: "pa_node_id a = n @ [CHR 0x00] @ addr" "pa_addresses a = []" "n \<noteq> []" "addr \<noteq> []"
  shows "announcement_validate P (a\<lparr>pa_node_id := n, pa_addresses := [addr]\<rparr>) now life = Ok ()"
proof -
  let ?b = "a\<lparr>pa_node_id := n, pa_addresses := [addr]\<rparr>"
  have "announcement_signing_bytes ?b = announcement_signing_bytes a"
    using name by (simp add: announcement_signing_bytes_def as_bytes_def)
  then have "announcement_verify_signature P ?b \<longleftrightarrow> announcement_verify_signature P a"
    by (simp add: announcement_verify_signature_def)
  then show ?thesis
    using v name validate_Ok(1) [OF v] by (auto simp: announcement_validate_def split: if_splits)
qed

theorem announcement_signature_ambiguous_witness:
  "announcement_validate demo_prims
     ((demo_announcement (''n'' @ [CHR 0x00] @ ''x'') [] [3] 1)\<lparr>pa_node_id := ''n'', pa_addresses := [''x'']\<rparr>) 50 60 = Ok ()"
proof -
  let ?a = "demo_announcement (''n'' @ [CHR 0x00] @ ''x'') [] [3] 1"
  have a: "pa_node_id ?a = ''n'' @ [CHR 0x00] @ ''x''" "pa_addresses ?a = []" "pa_expires_at_unix ?a = 100"
      "length (pa_signature ?a) = 64"
    by (simp_all add: demo_announcement_def Let_def)
  have "announcement_validate demo_prims ?a 50 60 = Ok ()"
    unfolding announcement_validate_def a using demo_announcement_verifies by (simp add: sat_sub_def)
  from announcement_signature_ambiguous [OF this a(1,2)] show ?thesis
    by simp
qed

section \<open>Routing by XOR distance\<close>

lemma length_xor [simp]: "length a = length b \<Longrightarrow> length (xor_distance a b) = length b"
  by (simp add: xor_distance_def)

lemma xor_inject:
  assumes "length b = length a" "length c = length a" "xor_distance a b = xor_distance a c"
  shows "b = c"
  using assms
proof (induction a arbitrary: b c)
  case (Cons x a)
  then obtain y b' z c' where "b = y # b'" "c = z # c'"
    by (metis length_Suc_conv)
  moreover have "x XOR y = x XOR z \<Longrightarrow> y = z" for y z :: u8
    by (metis xor.assoc xor.left_neutral xor_self_eq)
  ultimately show ?case
    using Cons by (auto simp: xor_distance_def)
qed simp

text \<open>
  The next hop towards a target: a healthy, named peer that was not visited, and none that was
  not visited comes before it in the order of XOR distance, latency and name; there is none exactly
  when every healthy named peer was visited.
\<close>

theorem next_hop_is_closest:
  "(next_hop P target peers visited = None \<longleftrightarrow>
      (\<forall>p \<in> set peers. pr_healthy p \<and> pr_node_id p \<noteq> [] \<longrightarrow> pr_node_id p \<in> set visited))
   \<and> (\<forall>h. next_hop P target peers visited = Some h \<longrightarrow>
        pr_node_id h \<notin> set visited \<and> pr_healthy h
        \<and> (\<exists>p \<in> set peers. h = measured P target p)
        \<and> (\<forall>p \<in> set peers. pr_healthy p \<and> pr_node_id p \<noteq> [] \<and> pr_node_id p \<notin> set visited \<longrightarrow>
             route_key h \<le> route_key (measured P target p)))"
proof -
  let ?R = "rank_peers P target peers"
  have same: "pr_node_id (measured P target p) = pr_node_id p" "pr_healthy (measured P target p) = pr_healthy p" for p
    by (simp_all add: measured_def split: option.split)
  have mem: "x \<in> set ?R \<longleftrightarrow>
      (\<exists>p \<in> set peers. pr_healthy p \<and> pr_node_id p \<noteq> [] \<and> x = measured P target p)" for x
    by (auto simp: rank_peers_def)
  have none: "next_hop P target peers visited = None \<longleftrightarrow> (\<forall>x \<in> set ?R. pr_node_id x \<in> set visited)"
    by (auto simp: next_hop_def find_None_iff)
  have sorted: "sorted (map route_key ?R)"
    by (simp add: rank_peers_def)
  have least: "route_key h \<le> route_key x"
    if h: "next_hop P target peers visited = Some h" and x: "x \<in> set ?R" "pr_node_id x \<notin> set visited" for h x
    by (rule find_sorted_min [OF sorted h [unfolded next_hop_def] x])
  have found: "pr_node_id h \<notin> set visited \<and> h \<in> set ?R" if "next_hop P target peers visited = Some h" for h
    using that by (auto simp: next_hop_def find_Some_iff)
  have "pr_node_id h \<notin> set visited \<and> pr_healthy h \<and> (\<exists>p \<in> set peers. h = measured P target p)
      \<and> (\<forall>p \<in> set peers. pr_healthy p \<and> pr_node_id p \<noteq> [] \<and> pr_node_id p \<notin> set visited \<longrightarrow>
           route_key h \<le> route_key (measured P target p))"
    if h: "next_hop P target peers visited = Some h" for h
  proof (intro conjI ballI impI)
    show "pr_node_id h \<notin> set visited" "pr_healthy h" "\<exists>p \<in> set peers. h = measured P target p"
      using found [OF h] unfolding mem by (auto simp: same)
    fix p assume "p \<in> set peers" and p: "pr_healthy p \<and> pr_node_id p \<noteq> [] \<and> pr_node_id p \<notin> set visited"
    then have "measured P target p \<in> set ?R"
      unfolding mem by blast
    then show "route_key h \<le> route_key (measured P target p)"
      using least [OF h] p by (simp add: same)
  qed
  moreover have "next_hop P target peers visited = None \<longleftrightarrow>
      (\<forall>p \<in> set peers. pr_healthy p \<and> pr_node_id p \<noteq> [] \<longrightarrow> pr_node_id p \<in> set visited)"
    unfolding none Ball_def mem by (auto simp: same)
  ultimately show ?thesis
    by blast
qed

theorem next_hop_is_closest_witness:
  "next_hop demo_prims (replicate 32 0)
     [\<lparr> pr_node_id = ''a'', pr_address = [], pr_distance = [9], pr_latency_ms = None, pr_healthy = True \<rparr>] [''a''] = None"
  using next_hop_is_closest [of demo_prims "replicate 32 0"
      "[\<lparr> pr_node_id = ''a'', pr_address = [], pr_distance = [9], pr_latency_ms = None, pr_healthy = True \<rparr>]" "[''a'']"]
  by simp

end
