(* ===== verification/Wire.thy ===== *)
theory Wire
  imports Identity Replay Limits Rust_Text
begin

text \<open>
  The transport of \<^verbatim>\<open>core/src/network.rs\<close>: fixed-size A2P2 packets, onion layers, control messages,
  frames on a byte stream, the authenticated handshake and the encrypted session.

  A TCP stream is the bytes that will arrive, in chunks that each come some nanoseconds after the one
  before, the bytes written so far, the number of bytes the connection still takes before it breaks
  and the clock. A read has an optional deadline: \<^verbatim>\<open>tokio::time::timeout\<close> drops the read when the
  deadline passes, and the bytes it had taken are gone. The AEAD, X25519, HKDF and JSON crates are the
  fields of \<open>net_prims\<close>; random bytes are arguments.

  The lemmas show that sealed packets open and have one size, that an onion delivers each hop exactly
  its own layer, that two honest ends of a handshake agree on crossed session keys, that a session
  delivers what was sent in order and refuses every frame seen before, and that the waiting loops end.
\<close>

section \<open>Limits and errors\<close>

definition VERSION :: u16 where
  "VERSION = 1"
definition MAX_FRAME :: nat where
  "MAX_FRAME = 16 * 1024 * 1024"
definition MAX_ADDRESSES_PER_PEER :: nat where
  "MAX_ADDRESSES_PER_PEER = 16"
definition MAX_NODE_RECORDS :: nat where
  "MAX_NODE_RECORDS = 64"
definition FRAME_PAD_MIN :: nat where
  "FRAME_PAD_MIN = 256"
definition FRAME_LENGTH_PREFIX :: nat where
  "FRAME_LENGTH_PREFIX = 4"
definition HELLO_TIMEOUT :: nat where
  "HELLO_TIMEOUT = 10 * 1000000000"
definition IDLE_TIMEOUT :: nat where
  "IDLE_TIMEOUT = 90 * 1000000000"

text \<open>\<open>NetPanic\<close> is a call that unwinds; the other constructors are the source's.\<close>

datatype NetworkError =
  NetIo string | Protocol string | Authentication | NetEncryption | Timeout | FrameTooLarge
  | Backpressure | NetPanic string

type_synonym 'a net = "NetworkError + 'a"

definition A2P2_FIXED_PACKET_SIZE :: nat where
  "A2P2_FIXED_PACKET_SIZE = 1280"
definition A2P2_NONCE_SIZE :: nat where
  "A2P2_NONCE_SIZE = 12"
definition A2P2_HEADER_SIZE :: nat where
  "A2P2_HEADER_SIZE = A2P2_NONCE_SIZE"
definition A2P2_CIPHERTEXT_SIZE :: nat where
  "A2P2_CIPHERTEXT_SIZE = A2P2_FIXED_PACKET_SIZE - A2P2_HEADER_SIZE"
definition A2P2_PLAINTEXT_SIZE :: nat where
  "A2P2_PLAINTEXT_SIZE = A2P2_CIPHERTEXT_SIZE - 16"
definition A2P2_MAX_PAYLOAD :: nat where
  "A2P2_MAX_PAYLOAD = A2P2_PLAINTEXT_SIZE - 2"

lemmas a2p2_sizes = A2P2_FIXED_PACKET_SIZE_def A2P2_NONCE_SIZE_def A2P2_HEADER_SIZE_def
  A2P2_CIPHERTEXT_SIZE_def A2P2_PLAINTEXT_SIZE_def A2P2_MAX_PAYLOAD_def

definition MAX_ONION_LAYER :: nat where
  "MAX_ONION_LAYER = MAX_FRAME"
definition MAX_ONION_SERVICE_NAME :: nat where
  "MAX_ONION_SERVICE_NAME = 256"
definition MAX_ONION_PAYLOAD :: nat where
  "MAX_ONION_PAYLOAD = 8 * 1024 * 1024"

section \<open>Messages\<close>

text \<open>A socket address; flow label and scope of an IPv6 address are zero.\<close>

record SocketAddr =
  sa_ip :: IpAddr
  sa_port :: u16

fun digits_in :: "nat \<Rightarrow> nat \<Rightarrow> string" where
  "digits_in b n =
     (let d = (\<lambda>k. char_of (if k < 10 then 48 + k else 87 + k)) in
      if n < b \<or> b < 2 then [d n] else digits_in b (n div b) @ [d (n mod b)])"

declare digits_in.simps [simp del]

definition join_with :: "string \<Rightarrow> string list \<Rightarrow> string" where
  "join_with sep xs = (case xs of [] \<Rightarrow> [] | y # ys \<Rightarrow> y @ concat (map (\<lambda>z. sep @ z) ys))"

definition show_ipv4 :: "u32 \<Rightarrow> string" where
  "show_ipv4 a = join_with ''.'' (map (\<lambda>b. digits_in 10 (unat b)) (be_bytes 4 (unat a)))"

definition ipv6_segments :: "u128 \<Rightarrow> nat list" where
  "ipv6_segments a = map (\<lambda>i. unat (take_bit 16 (drop_bit (112 - 16 * i) a))) [0..<8]"

text \<open>The first longest run of zero segments, as start and length.\<close>

definition longest_zeros :: "nat list \<Rightarrow> nat \<times> nat" where
  "longest_zeros segs = fst (foldl (\<lambda>(longest, start, len) (i, s).
       if s = 0 then let start = (if len = 0 then i else start); len = len + 1 in
         (if len > snd longest then (start, len) else longest, start, len)
       else (longest, 0, 0)) ((0, 0), 0, 0) (zip [0..<length segs] segs))"

definition show_ipv6 :: "u128 \<Rightarrow> string" where
  "show_ipv6 a =
     (let segs = ipv6_segments a; hexs = (\<lambda>ss. join_with '':'' (map (digits_in 16) ss)) in
      if take 5 segs = [0, 0, 0, 0, 0] \<and> segs ! 5 = 65535 then ''::ffff:'' @ show_ipv4 (ucast a)
      else let (start, len) = longest_zeros segs in
        if len > 1 then hexs (take start segs) @ ''::'' @ hexs (drop (start + len) segs) else hexs segs)"

definition show_addr :: "SocketAddr \<Rightarrow> string" where
  "show_addr a =
     (case sa_ip a of V4 v \<Rightarrow> show_ipv4 v | V6 v \<Rightarrow> ''['' @ show_ipv6 v @ '']'')
     @ '':'' @ digits_in 10 (unat (sa_port a))"

record PeerRecord =
  rec_awe_id :: bytes
  rec_public_key :: bytes
  rec_addresses :: "SocketAddr list"
  rec_protocol_version :: u16
  rec_last_seen_unix :: u64

datatype Control =
  Hello u16 bytes bytes bytes bytes bytes SocketAddr
  | Ping u64 | Pong u64 | Data u32 bytes | DataAck u32 u32 | FindNode bytes | Nodes "PeerRecord list"

record TripleBlindOnionPacket =
  ob_ingress_layer :: bytes

record IngressUnwrapped =
  iu_next_hop :: bytes
  iu_relay_layer :: bytes

record RelayUnwrapped =
  ru_next_hop :: bytes
  ru_egress_layer :: bytes
  ru_mixnet_delay_ms :: u64

record EgressUnwrapped =
  eu_service_y :: string
  eu_request_payload :: bytes

text \<open>
  The crates: AEAD with key, nonce, associated data and message; X25519 public keys and shared
  secrets; HKDF with salt, key material, info and output length; the JSON texts of the messages, where
  an error carries the text of the crate.
\<close>

record net_prims = prims +
  aead_seal :: "bytes \<Rightarrow> bytes \<Rightarrow> bytes \<Rightarrow> bytes \<Rightarrow> bytes option"
  aead_open :: "bytes \<Rightarrow> bytes \<Rightarrow> bytes \<Rightarrow> bytes \<Rightarrow> bytes option"
  x_public :: "bytes \<Rightarrow> bytes"
  x_dh :: "bytes \<Rightarrow> bytes \<Rightarrow> bytes"
  hkdf :: "bytes \<Rightarrow> bytes \<Rightarrow> bytes \<Rightarrow> nat \<Rightarrow> bytes option"
  control_to_json :: "Control \<Rightarrow> string + bytes"
  control_from_json :: "bytes \<Rightarrow> string + Control"
  ingress_to_json :: "IngressUnwrapped \<Rightarrow> string + bytes"
  ingress_from_json :: "bytes \<Rightarrow> string + IngressUnwrapped"
  relay_to_json :: "RelayUnwrapped \<Rightarrow> string + bytes"
  relay_from_json :: "bytes \<Rightarrow> string + RelayUnwrapped"
  egress_to_json :: "EgressUnwrapped \<Rightarrow> string + bytes"
  egress_from_json :: "bytes \<Rightarrow> string + EgressUnwrapped"

definition of_json :: "string + 'a \<Rightarrow> 'a net" where
  "of_json r = (case r of Inl e \<Rightarrow> Inl (Protocol e) | Inr v \<Rightarrow> Inr v)"

definition cipher_new :: "bytes \<Rightarrow> bytes net" where
  "cipher_new key = (if length key = 32 then Inr key else Inl NetEncryption)"

section \<open>Fixed-size packets\<close>

definition a2p2_seal :: "'a net_prims_scheme \<Rightarrow> (nat \<Rightarrow> u8) \<Rightarrow> bytes \<Rightarrow> bytes \<Rightarrow> bytes net" where
  "a2p2_seal P rng payload key =
     (if length payload > A2P2_MAX_PAYLOAD then Inl FrameTooLarge
      else case cipher_new key of
        Inl e \<Rightarrow> Inl e
      | Inr cipher \<Rightarrow>
          let nonce = map rng [0..<A2P2_NONCE_SIZE];
              inner = to_be_bytes_u16 (of_nat (length payload)) @ payload
                @ map (\<lambda>i. rng (A2P2_NONCE_SIZE + i)) [0..<A2P2_PLAINTEXT_SIZE - (2 + length payload)]
          in case aead_seal P cipher nonce [] inner of
               None \<Rightarrow> Inl NetEncryption
             | Some ciphertext \<Rightarrow>
                 if length ciphertext \<noteq> A2P2_CIPHERTEXT_SIZE then Inl (NetPanic ''copy_from_slice'')
                 else Inr (nonce @ ciphertext))"

definition a2p2_open :: "'a net_prims_scheme \<Rightarrow> bytes \<Rightarrow> bytes \<Rightarrow> bytes net" where
  "a2p2_open P packet key =
     (if length packet \<noteq> A2P2_FIXED_PACKET_SIZE then Inl (Protocol ''invalid a2p2 packet size'')
      else case cipher_new key of
        Inl e \<Rightarrow> Inl e
      | Inr cipher \<Rightarrow>
          (case aead_open P cipher (take A2P2_HEADER_SIZE packet) [] (drop A2P2_HEADER_SIZE packet) of
             None \<Rightarrow> Inl Authentication
           | Some plaintext \<Rightarrow>
               if length plaintext \<noteq> A2P2_PLAINTEXT_SIZE \<or> length plaintext < 2
               then Inl (Protocol ''invalid a2p2 plaintext'')
               else let payload_len = unat (from_be_bytes_u16 (take 2 plaintext)) in
                 if payload_len > A2P2_MAX_PAYLOAD then Inl (Protocol ''invalid a2p2 payload length'')
                 else Inr (take payload_len (drop 2 plaintext))))"

definition A2P2Datagram_pack :: "'a net_prims_scheme \<Rightarrow> (nat \<Rightarrow> u8) \<Rightarrow> bytes \<Rightarrow> bytes net" where
  "A2P2Datagram_pack P rng payload = a2p2_seal P rng payload (replicate 32 0)"

definition A2P2Datagram_unpack :: "'a net_prims_scheme \<Rightarrow> bytes \<Rightarrow> bytes net" where
  "A2P2Datagram_unpack P data = a2p2_open P data (replicate 32 0)"

section \<open>Onion layers\<close>

definition layer_key :: "'a net_prims_scheme \<Rightarrow> bytes \<Rightarrow> bytes net" where
  "layer_key P shared =
     (case hkdf P (as_bytes ''AWE/A2P2/ONION-SALT/v1'') shared (as_bytes ''AWE/A2P2/ONION-KEY/v1'') 32 of
        None \<Rightarrow> Inl NetEncryption
      | Some key \<Rightarrow> cipher_new key)"

definition encrypt_layer :: "'a net_prims_scheme \<Rightarrow> (nat \<Rightarrow> u8) \<Rightarrow> bytes \<Rightarrow> bytes \<Rightarrow> bytes net" where
  "encrypt_layer P rng payload recipient_pk =
     (if length payload > MAX_ONION_PAYLOAD then Inl FrameTooLarge
      else
        let secret = map rng [0..<32];
            ephemeral_pk = x_public P secret
        in case layer_key P (x_dh P secret recipient_pk) of
             Inl e \<Rightarrow> Inl e
           | Inr cipher \<Rightarrow>
               let nonce = map rng [32..<44] in
               case aead_seal P cipher nonce [] payload of
                 None \<Rightarrow> Inl NetEncryption
               | Some ciphertext \<Rightarrow>
                   if 32 + 12 + length ciphertext > MAX_ONION_LAYER then Inl FrameTooLarge
                   else Inr (ephemeral_pk @ nonce @ ciphertext))"

definition decrypt_layer :: "'a net_prims_scheme \<Rightarrow> bytes \<Rightarrow> bytes \<Rightarrow> bytes net" where
  "decrypt_layer P layer_bytes node_secret =
     (if length layer_bytes < 32 + 12 + 16 \<or> length layer_bytes > MAX_ONION_LAYER
      then Inl (Protocol ''invalid onion layer size'')
      else
        let ephemeral_pk = take 32 layer_bytes;
            nonce = take 12 (drop 32 layer_bytes)
        in case layer_key P (x_dh P node_secret ephemeral_pk) of
             Inl e \<Rightarrow> Inl e
           | Inr cipher \<Rightarrow>
               (case aead_open P cipher nonce [] (drop 44 layer_bytes) of
                  None \<Rightarrow> Inl Authentication
                | Some plaintext \<Rightarrow> Inr plaintext))"

text \<open>\<open>rngs\<close> gives the random bytes of the three layers, \<open>r\<close> the random number of the delay.\<close>

definition TripleBlindOnionPacket_build ::
  "'a net_prims_scheme \<Rightarrow> (nat \<Rightarrow> nat \<Rightarrow> u8) \<Rightarrow> u32 \<Rightarrow> bytes \<Rightarrow> string \<Rightarrow> bytes \<Rightarrow> bytes \<Rightarrow> bytes
   \<Rightarrow> TripleBlindOnionPacket net" where
  "TripleBlindOnionPacket_build P rngs r request_payload service_y node_a_pk node_b_pk node_c_pk =
     (if length request_payload > MAX_ONION_PAYLOAD \<or> length service_y > MAX_ONION_SERVICE_NAME
      then Inl FrameTooLarge
      else case of_json (egress_to_json P
              \<lparr>eu_service_y = service_y, eu_request_payload = request_payload\<rparr>) of
        Inl e \<Rightarrow> Inl e
      | Inr layer3_payload \<Rightarrow>
        (case encrypt_layer P (rngs 3) layer3_payload node_c_pk of
           Inl e \<Rightarrow> Inl e
         | Inr layer3_ct \<Rightarrow>
           (case of_json (relay_to_json P \<lparr>ru_next_hop = node_c_pk, ru_egress_layer = layer3_ct,
                   ru_mixnet_delay_ms = ucast (r mod 45 + 5)\<rparr>) of
              Inl e \<Rightarrow> Inl e
            | Inr layer2_payload \<Rightarrow>
              (case encrypt_layer P (rngs 2) layer2_payload node_b_pk of
                 Inl e \<Rightarrow> Inl e
               | Inr layer2_ct \<Rightarrow>
                 (case of_json (ingress_to_json P \<lparr>iu_next_hop = node_b_pk, iu_relay_layer = layer2_ct\<rparr>) of
                    Inl e \<Rightarrow> Inl e
                  | Inr layer1_payload \<Rightarrow>
                    (case encrypt_layer P (rngs 1) layer1_payload node_a_pk of
                       Inl e \<Rightarrow> Inl e
                     | Inr layer1_ct \<Rightarrow> Inr \<lparr>ob_ingress_layer = layer1_ct\<rparr>))))))"

definition unwrap_ingress :: "'a net_prims_scheme \<Rightarrow> TripleBlindOnionPacket \<Rightarrow> bytes \<Rightarrow> IngressUnwrapped net" where
  "unwrap_ingress P self node_a_secret =
     (case decrypt_layer P (ob_ingress_layer self) node_a_secret of
        Inl e \<Rightarrow> Inl e
      | Inr pt \<Rightarrow> of_json (ingress_from_json P pt))"

definition unwrap_relay :: "'a net_prims_scheme \<Rightarrow> bytes \<Rightarrow> bytes \<Rightarrow> RelayUnwrapped net" where
  "unwrap_relay P relay_layer node_b_secret =
     (case decrypt_layer P relay_layer node_b_secret of
        Inl e \<Rightarrow> Inl e
      | Inr pt \<Rightarrow> of_json (relay_from_json P pt))"

definition unwrap_egress :: "'a net_prims_scheme \<Rightarrow> bytes \<Rightarrow> bytes \<Rightarrow> EgressUnwrapped net" where
  "unwrap_egress P egress_layer node_c_secret =
     (case decrypt_layer P egress_layer node_c_secret of
        Inl e \<Rightarrow> Inl e
      | Inr pt \<Rightarrow> of_json (egress_from_json P pt))"

section \<open>Descriptors, message codec and frames\<close>

definition to_ascii_uppercase :: "string \<Rightarrow> string" where
  "to_ascii_uppercase s = map (\<lambda>c. if 97 \<le> (of_char c :: nat) \<and> of_char c \<le> (122 :: nat)
     then char_of ((of_char c :: nat) - 32) else c) s"

definition format_node_descriptor :: "'a prims_scheme \<Rightarrow> bytes \<Rightarrow> string result" where
  "format_node_descriptor P awe_id =
     (let hex_str = to_ascii_uppercase (hex_encode P awe_id) in
      if length hex_str < 16 then Inl (Panic ''slice index'')
      else Ok (''ND-'' @ take 4 hex_str @ ''-'' @ take 4 (drop 4 hex_str) @ ''-'' @ take 4 (drop 8 hex_str)
             @ ''-'' @ take 4 (drop 12 hex_str)))"

definition encode :: "'a net_prims_scheme \<Rightarrow> Control \<Rightarrow> bytes net" where
  "encode P v = of_json (control_to_json P v)"

definition decode :: "'a net_prims_scheme \<Rightarrow> bytes \<Rightarrow> Control net" where
  "decode P v =
     (if length v > MAX_FRAME then Inl FrameTooLarge
      else case of_json (control_from_json P v) of
        Inl e \<Rightarrow> Inl e
      | Inr message \<Rightarrow>
          (case message of
             Hello _ _ _ _ _ signature _ \<Rightarrow>
               if length signature \<noteq> 64 then Inl Authentication else Inr message
           | Data _ payload \<Rightarrow>
               if length payload > MAX_FRAME div 2 then Inl FrameTooLarge else Inr message
           | Nodes records \<Rightarrow>
               if length records > MAX_NODE_RECORDS then Inl (Protocol ''too many peer records'')
               else if list_ex (\<lambda>record. rec_protocol_version record \<noteq> VERSION
                      \<or> length (rec_addresses record) > MAX_ADDRESSES_PER_PEER) records
               then Inl (Protocol ''invalid peer record'') else Inr message
           | _ \<Rightarrow> Inr message))"

record TcpStream =
  st_in :: "(nat \<times> bytes) list"
  st_out :: bytes
  st_room :: "nat option"
  st_clock :: nat

definition write_all :: "TcpStream \<Rightarrow> bytes \<Rightarrow> unit net \<times> TcpStream" where
  "write_all s b =
     (case st_room s of
        None \<Rightarrow> (Inr (), s\<lparr>st_out := st_out s @ b\<rparr>)
      | Some n \<Rightarrow>
          if length b \<le> n then (Inr (), s\<lparr>st_out := st_out s @ b, st_room := Some (n - length b)\<rparr>)
          else (Inl (NetIo ''broken pipe''), s\<lparr>st_out := st_out s @ take n b, st_room := Some 0\<rparr>))"

definition write_frame :: "TcpStream \<Rightarrow> bytes \<Rightarrow> unit net \<times> TcpStream" where
  "write_frame s b =
     (if b = [] \<or> length b > MAX_FRAME then (Inl FrameTooLarge, s)
      else let (r, s) = write_all s (be_bytes 4 (length b)) in
        case r of Inl e \<Rightarrow> (Inl e, s) | Inr _ \<Rightarrow> write_all s b)"

text \<open>Reading \<open>n\<close> bytes from the chunks: the clock moves to the arrival of each chunk that is needed;
  past the deadline the read is dropped together with what it had taken.\<close>

fun fill :: "nat option \<Rightarrow> nat \<Rightarrow> nat \<Rightarrow> (nat \<times> bytes) list \<Rightarrow> bytes \<Rightarrow> bytes net \<times> nat \<times> (nat \<times> bytes) list" where
  "fill deadline n t [] acc = (if n = 0 then (Inr acc, t, []) else (Inl (NetIo ''unexpected end of file''), t, []))"
| "fill deadline n t ((d, b) # es) acc =
     (if n = 0 then (Inr acc, t, (d, b) # es)
      else if (case deadline of None \<Rightarrow> False | Some l \<Rightarrow> l < t + d)
      then (Inl Timeout, the deadline, (t + d - the deadline, b) # es)
      else if n \<le> length b then (Inr (acc @ take n b), t + d, (0, drop n b) # es)
      else fill deadline (n - length b) (t + d) es (acc @ b))"

definition read_exact :: "nat option \<Rightarrow> nat \<Rightarrow> TcpStream \<Rightarrow> bytes net \<times> TcpStream" where
  "read_exact deadline n s =
     (let (r, t, es) = fill deadline n (st_clock s) (st_in s) [] in (r, s\<lparr>st_in := es, st_clock := t\<rparr>))"

definition read_frame :: "nat option \<Rightarrow> TcpStream \<Rightarrow> bytes net \<times> TcpStream" where
  "read_frame deadline s =
     (let (r, s) = read_exact deadline 4 s in
      case r of
        Inl e \<Rightarrow> (Inl e, s)
      | Inr prefix \<Rightarrow>
          let n = from_be prefix in
          if n = 0 \<or> n > MAX_FRAME then (Inl FrameTooLarge, s) else read_exact deadline n s)"

definition within :: "nat \<Rightarrow> TcpStream \<Rightarrow> nat option" where
  "within limit s = Some (st_clock s + limit)"

definition hello_bytes :: "u16 \<Rightarrow> bytes \<Rightarrow> bytes \<Rightarrow> bytes \<Rightarrow> bytes \<Rightarrow> SocketAddr \<Rightarrow> bytes" where
  "hello_bytes v i pk e n advertised_addr =
     as_bytes ''AWE/HELLO/v1'' @ to_be_bytes_u16 v @ i @ pk @ e @ n @ as_bytes (show_addr advertised_addr)"

section \<open>Documented behaviour of the crates\<close>

text \<open>
  ChaCha20-Poly1305 adds a 16-byte tag and opens what it sealed; the two X25519 secrets of an
  exchange give one shared secret and public keys have 32 bytes; HKDF-SHA256 yields any output of up
  to 8160 bytes; a JSON text that was written reads back; the JSON text of a byte vector is an array
  of numbers, at least two characters for each byte.
\<close>

definition net_correct :: "'a net_prims_scheme \<Rightarrow> bool" where
  "net_correct P \<longleftrightarrow>
     (\<forall>k n a m. length k = 32 \<and> length n = 12 \<and> length m < 2 ^ 36 \<longrightarrow>
        (\<exists>c. aead_seal P k n a m = Some c \<and> length c = length m + 16 \<and> aead_open P k n a c = Some m))
     \<and> (\<forall>a b. length a = 32 \<and> length b = 32 \<longrightarrow> x_dh P a (x_public P b) = x_dh P b (x_public P a))
     \<and> (\<forall>a. length a = 32 \<longrightarrow> length (x_public P a) = 32)
     \<and> (\<forall>salt ikm info n. n \<le> 8160 \<longrightarrow> (\<exists>k. hkdf P salt ikm info n = Some k \<and> length k = n))"

definition onion_json_ok :: "'a net_prims_scheme \<Rightarrow> bool" where
  "onion_json_ok P \<longleftrightarrow>
     (\<forall>v j. ingress_to_json P v = Inr j \<longrightarrow>
        ingress_from_json P j = Inr v \<and> 2 * length (iu_relay_layer v) \<le> length j)
     \<and> (\<forall>v j. relay_to_json P v = Inr j \<longrightarrow>
        relay_from_json P j = Inr v \<and> 2 * length (ru_egress_layer v) \<le> length j)
     \<and> (\<forall>v j. egress_to_json P v = Inr j \<longrightarrow>
        egress_from_json P j = Inr v \<and> 2 * length (eu_request_payload v) \<le> length j)"

definition control_json_ok :: "'a net_prims_scheme \<Rightarrow> bool" where
  "control_json_ok P \<longleftrightarrow>
     (\<forall>c j. control_to_json P c = Inr j \<longrightarrow> control_from_json P j = Inr c \<and> j \<noteq> []
        \<and> (\<forall>s p. c = Data s p \<longrightarrow> 2 * length p \<le> length j))"

lemma aead_seals:
  assumes "net_correct P" "length k = 32" "length n = 12" "length m < 2 ^ 36"
  obtains c where "aead_seal P k n a m = Some c" "length c = length m + 16" "aead_open P k n a c = Some m"
  using assms unfolding net_correct_def by blast

lemma of_json_Inr [simp]: "of_json r = Inr v \<longleftrightarrow> r = Inr v"
  by (cases r) (simp_all add: of_json_def)

lemma of_json_Ok [simp]: "of_json (Inr v) = Inr v"
  by (simp add: of_json_def)

lemma cipher_new_Inr [simp]: "cipher_new key = Inr k \<longleftrightarrow> k = key \<and> length key = 32"
  by (auto simp: cipher_new_def)

section \<open>Sealed packets\<close>

text \<open>
  A payload of at most 1250 bytes is sealed into a packet of exactly 1280 bytes that opens to the
  payload under the same key, whatever the random bytes are; a longer one is refused.
\<close>

theorem a2p2_roundtrip:
  assumes "net_correct P" "length key = 32"
  shows "if length payload \<le> 1250
    then \<exists>packet. a2p2_seal P rng payload key = Inr packet \<and> length packet = 1280 \<and> a2p2_open P packet key = Inr payload
    else a2p2_seal P rng payload key = Inl FrameTooLarge"
proof (cases "length payload \<le> 1250")
  case True
  define inner where "inner = to_be_bytes_u16 (of_nat (length payload)) @ payload
    @ map (\<lambda>i. rng (12 + i)) [0..<1250 - length payload]"
  have inner: "length inner = 1252" "take 2 inner = to_be_bytes_u16 (of_nat (length payload))"
    "take (length payload) (drop 2 inner) = payload"
    using True by (simp_all add: inner_def to_be_bytes_u16_def)
  have len: "unat (of_nat (length payload) :: u16) = length payload"
    using True by (simp add: unat_of_nat_small)
  obtain c where c: "aead_seal P key (map rng [0..<12]) [] inner = Some c" "length c = length inner + 16"
      "aead_open P key (map rng [0..<12]) [] c = Some inner"
    by (rule aead_seals [OF assms, of "map rng [0..<12]" inner]) (simp_all add: inner(1))
  have "a2p2_seal P rng payload key = Inr (map rng [0..<12] @ c)"
    using True c assms(2) inner(1) by (simp add: a2p2_seal_def a2p2_sizes cipher_new_def inner_def Let_def)
  moreover have "a2p2_open P (map rng [0..<12] @ c) key = Inr payload"
    using c assms(2) inner len True by (simp add: a2p2_open_def a2p2_sizes cipher_new_def Let_def)
  ultimately show ?thesis
    using True c(2) inner(1) by simp
qed (simp add: a2p2_seal_def a2p2_sizes)

section \<open>Onion packets\<close>

lemma layer_key_Ok:
  assumes "net_correct P"
  obtains k where "layer_key P shared = Inr k" "length k = 32"
proof -
  obtain k where "hkdf P (as_bytes ''AWE/A2P2/ONION-SALT/v1'') shared (as_bytes ''AWE/A2P2/ONION-KEY/v1'') 32 = Some k"
      "length k = 32"
    using assms unfolding net_correct_def by (meson numeral_le_iff semiring_norm(68,69,71,73))
  then show thesis
    using that by (simp add: layer_key_def cipher_new_def)
qed

lemma decrypt_encrypt_layer:
  assumes "net_correct P" "length s = 32" "encrypt_layer P rng m (x_public P s) = Inr l"
  shows "decrypt_layer P l s = Inr m \<and> length l = length m + 60 \<and> length m \<le> MAX_ONION_PAYLOAD"
proof -
  let ?e = "map rng [0..<32]" and ?n = "map rng [32..<44]"
  obtain k where k: "layer_key P (x_dh P ?e (x_public P s)) = Inr k" "length k = 32"
    by (rule layer_key_Ok [OF assms(1)])
  have dh: "x_dh P s (x_public P ?e) = x_dh P ?e (x_public P s)" "length (x_public P ?e) = 32"
    using assms(1,2) unfolding net_correct_def by simp_all
  have m: "length m \<le> MAX_ONION_PAYLOAD"
    using assms(3) by (simp add: encrypt_layer_def split: if_splits)
  then have "length m < 2 ^ 36"
    by (simp add: MAX_ONION_PAYLOAD_def)
  then obtain c where c: "aead_seal P k ?n [] m = Some c" "length c = length m + 16" "aead_open P k ?n [] c = Some m"
    using aead_seals [OF assms(1) k(2), of ?n m "[]"] by auto
  then have l: "l = x_public P ?e @ ?n @ c" "44 + length c \<le> MAX_ONION_LAYER"
    using assms(3) k m by (auto simp: encrypt_layer_def Let_def split: if_splits)
  then have "length l = length m + 60" "take 32 l = x_public P ?e" "take 12 (drop 32 l) = ?n" "drop 44 l = c"
    using dh(2) c(2) by simp_all
  then show ?thesis
    using l(2) k c m dh(1) by (simp add: decrypt_layer_def Let_def)
qed

lemma build_layers:
  assumes "TripleBlindOnionPacket_build P rngs r payload service a b c = Inr packet"
  obtains p3 l3 p2 l2 p1 where
    "egress_to_json P \<lparr>eu_service_y = service, eu_request_payload = payload\<rparr> = Inr p3"
    "encrypt_layer P (rngs 3) p3 c = Inr l3"
    "relay_to_json P \<lparr>ru_next_hop = c, ru_egress_layer = l3, ru_mixnet_delay_ms = ucast (r mod 45 + 5)\<rparr> = Inr p2"
    "encrypt_layer P (rngs 2) p2 b = Inr l2"
    "ingress_to_json P \<lparr>iu_next_hop = b, iu_relay_layer = l2\<rparr> = Inr p1"
    "encrypt_layer P (rngs 1) p1 a = Inr (ob_ingress_layer packet)"
  using assms by (auto simp: TripleBlindOnionPacket_build_def split: if_splits sum.splits)

lemma mixnet_delay:
  fixes r :: u32
  defines "d \<equiv> unat (ucast (r mod 45 + 5) :: u64)"
  shows "5 \<le> d \<and> d < 50"
proof -
  have "unat (r mod 45 + 5) = unat r mod 45 + 5"
    by (simp add: unat_word_ariths unat_mod)
  moreover have "unat (ucast (r mod 45 + 5) :: u64) = unat (r mod 45 + 5)"
    by (rule unat_ucast_up) simp
  ultimately show ?thesis
    by (simp add: d_def)
qed

text \<open>C15. 
  An onion built for three nodes: each node, with its own secret, unwraps exactly its layer, which
  names the next node, and the last one recovers the service and the request. The delay asked of the
  middle node is between 5 and 49 milliseconds. Because every layer is JSON text, a packet can only be
  built for requests of at most 1 MiB, an eighth of the limit the function checks.
\<close>

theorem onion_delivers:
  assumes net: "net_correct P" and json: "onion_json_ok P"
    and secrets: "length a = 32" "length b = 32" "length c = 32"
    and build: "TripleBlindOnionPacket_build P rngs r payload service (x_public P a) (x_public P b) (x_public P c)
       = Inr packet"
  shows "\<exists>i m. unwrap_ingress P packet a = Inr i \<and> iu_next_hop i = x_public P b
      \<and> unwrap_relay P (iu_relay_layer i) b = Inr m \<and> ru_next_hop m = x_public P c
      \<and> 5 \<le> unat (ru_mixnet_delay_ms m) \<and> unat (ru_mixnet_delay_ms m) < 50
      \<and> unwrap_egress P (ru_egress_layer m) c = Inr \<lparr>eu_service_y = service, eu_request_payload = payload\<rparr>
      \<and> 8 * length payload \<le> MAX_ONION_PAYLOAD"
proof -
  obtain p3 l3 p2 l2 p1 where
    p3: "egress_to_json P \<lparr>eu_service_y = service, eu_request_payload = payload\<rparr> = Inr p3" and
    l3: "encrypt_layer P (rngs 3) p3 (x_public P c) = Inr l3" and
    p2: "relay_to_json P \<lparr>ru_next_hop = x_public P c, ru_egress_layer = l3, ru_mixnet_delay_ms = ucast (r mod 45 + 5)\<rparr> = Inr p2" and
    l2: "encrypt_layer P (rngs 2) p2 (x_public P b) = Inr l2" and
    p1: "ingress_to_json P \<lparr>iu_next_hop = x_public P b, iu_relay_layer = l2\<rparr> = Inr p1" and
    l1: "encrypt_layer P (rngs 1) p1 (x_public P a) = Inr (ob_ingress_layer packet)"
    by (rule build_layers [OF build])
  note d3 = decrypt_encrypt_layer [OF net secrets(3) l3] and d2 = decrypt_encrypt_layer [OF net secrets(2) l2]
    and d1 = decrypt_encrypt_layer [OF net secrets(1) l1]
  have j3: "egress_from_json P p3 = Inr \<lparr>eu_service_y = service, eu_request_payload = payload\<rparr>" "2 * length payload \<le> length p3"
    using json p3 unfolding onion_json_ok_def by fastforce+
  have j2: "relay_from_json P p2 = Inr \<lparr>ru_next_hop = x_public P c, ru_egress_layer = l3, ru_mixnet_delay_ms = ucast (r mod 45 + 5)\<rparr>"
      "2 * length l3 \<le> length p2"
    using json p2 unfolding onion_json_ok_def by fastforce+
  have j1: "ingress_from_json P p1 = Inr \<lparr>iu_next_hop = x_public P b, iu_relay_layer = l2\<rparr>" "2 * length l2 \<le> length p1"
    using json p1 unfolding onion_json_ok_def by fastforce+
  have "8 * length payload \<le> MAX_ONION_PAYLOAD"
    using d1 d2 d3 j1(2) j2(2) j3(2) by linarith
  then show ?thesis
    using d1 d2 d3 j1(1) j2(1) j3(1) mixnet_delay [of r]
    by (simp add: unwrap_ingress_def unwrap_relay_def unwrap_egress_def)
qed

section \<open>A concrete instance of the crates\<close>

text \<open>
  An AEAD that appends a tag made of key, nonce and associated data, a key exchange by exclusive or,
  and a codec that writes each byte of a vector after a zero and ends the vector with a one. It does
  not write peer records.
\<close>

definition enc_vec :: "bytes \<Rightarrow> bytes" where
  "enc_vec bs = concat (map (\<lambda>b. [0, b]) bs) @ [1]"

fun dec_vec :: "bytes \<Rightarrow> (bytes \<times> bytes) option" where
  "dec_vec [] = None"
| "dec_vec [x] = (if x = 1 then Some ([], []) else None)"
| "dec_vec (x # y # r) = (if x = 1 then Some ([], y # r) else map_option (\<lambda>(bs, t). (y # bs, t)) (dec_vec r))"

primrec dec_vecs :: "nat \<Rightarrow> bytes \<Rightarrow> bytes list option" where
  "dec_vecs 0 r = Some []"
| "dec_vecs (Suc n) r = (case dec_vec r of None \<Rightarrow> None | Some (bs, t) \<Rightarrow> map_option ((#) bs) (dec_vecs n t))"

lemma dec_enc_vec [simp]: "dec_vec (enc_vec bs @ r) = Some (bs, r)"
proof (induction bs)
  case Nil
  then show ?case by (cases r) (simp_all add: enc_vec_def)
next
  case (Cons b bs)
  then show ?case by (simp add: enc_vec_def)
qed

lemma length_enc_vec [simp]: "length (enc_vec bs) = 2 * length bs + 1"
  by (induction bs) (simp_all add: enc_vec_def)

lemma dec_enc_vecs [simp]: "dec_vecs (length vs) (concat (map enc_vec vs)) = Some vs"
  by (induction vs) simp_all

definition ip_bytes :: "IpAddr \<Rightarrow> bytes" where
  "ip_bytes a = (case a of V4 v \<Rightarrow> be_bytes 4 (unat v) | V6 v \<Rightarrow> be_bytes 16 (unat v))"

definition ip_of :: "bytes \<Rightarrow> IpAddr" where
  "ip_of b = (if length b = 4 then V4 (of_nat (from_be b)) else V6 (of_nat (from_be b)))"

lemma of_nat_from_be:
  fixes x :: "'a::len word"
  assumes "LENGTH('a) \<le> 8 * n"
  shows "of_nat (from_be (be_bytes n (unat x))) = x"
proof -
  have "unat x < 256 ^ n"
    using less_le_trans [OF unat_less_pow [of x], of "256 ^ n"] power_increasing [OF assms, of "2 :: nat"]
    by (simp add: power_mult)
  then show ?thesis
    by (simp add: from_be_be_bytes)
qed

lemma ip_of_bytes [simp]: "ip_of (ip_bytes a) = a"
  by (cases a) (simp_all add: ip_of_def ip_bytes_def of_nat_from_be)

fun control_fields :: "Control \<Rightarrow> (u8 \<times> bytes list) option" where
  "control_fields (Hello v i k e n s a) =
     Some (8, [to_be_bytes_u16 v, i, k, e, n, s, ip_bytes (sa_ip a), to_be_bytes_u16 (sa_port a)])"
| "control_fields (Ping s) = Some (1, [to_be_bytes_u64 s])"
| "control_fields (Pong s) = Some (9, [to_be_bytes_u64 s])"
| "control_fields (Data s p) = Some (2, [be_bytes 4 (unat s), p])"
| "control_fields (DataAck s n) = Some (10, [be_bytes 4 (unat s), be_bytes 4 (unat n)])"
| "control_fields (FindNode t) = Some (17, [t])"
| "control_fields (Nodes r) = None"

definition control_of :: "u8 \<Rightarrow> bytes list \<Rightarrow> Control" where
  "control_of tag vs =
     (if tag = 8 then Hello (from_be_bytes_u16 (vs ! 0)) (vs ! 1) (vs ! 2) (vs ! 3) (vs ! 4) (vs ! 5)
        \<lparr>sa_ip = ip_of (vs ! 6), sa_port = from_be_bytes_u16 (vs ! 7)\<rparr>
      else if tag = 1 then Ping (from_be_bytes_u64 (vs ! 0))
      else if tag = 9 then Pong (from_be_bytes_u64 (vs ! 0))
      else if tag = 2 then Data (of_nat (from_be (vs ! 0))) (vs ! 1)
      else if tag = 10 then DataAck (of_nat (from_be (vs ! 0))) (of_nat (from_be (vs ! 1)))
      else FindNode (vs ! 0))"

lemma control_of_fields: "control_fields c = Some (tag, vs) \<Longrightarrow> control_of tag vs = c \<and> length vs = unat tag mod 8 + (if tag = 8 then 8 else 0)"
  by (cases c rule: control_fields.cases) (auto simp: control_of_def of_nat_from_be)

definition demo_net :: net_prims where
  "demo_net = prims.extend demo_prims
     \<lparr>aead_seal = (\<lambda>k n a m. Some (m @ take 16 (n @ a @ k @ replicate 16 0))),
      aead_open = (\<lambda>k n a c. if drop (length c - 16) c = take 16 (n @ a @ k @ replicate 16 0)
                             then Some (take (length c - 16) c) else None),
      x_public = (\<lambda>s. s), x_dh = (\<lambda>a b. map2 (XOR) a b),
      hkdf = (\<lambda>salt ikm info n. Some (take n (ikm @ salt @ info @ replicate n 0))),
      control_to_json = (\<lambda>c. case control_fields c of None \<Rightarrow> Inl ''unsupported''
                            | Some (tag, vs) \<Rightarrow> Inr (tag # concat (map enc_vec vs))),
      control_from_json = (\<lambda>b. case b of [] \<Rightarrow> Inl ''empty''
         | tag # r \<Rightarrow> (case dec_vecs (unat tag mod 8 + (if tag = 8 then 8 else 0)) r of
                         None \<Rightarrow> Inl ''bad'' | Some vs \<Rightarrow> Inr (control_of tag vs))),
      ingress_to_json = (\<lambda>v. Inr (concat (map enc_vec [iu_next_hop v, iu_relay_layer v]))),
      ingress_from_json = (\<lambda>b. case dec_vecs 2 b of None \<Rightarrow> Inl ''bad''
         | Some vs \<Rightarrow> Inr \<lparr>iu_next_hop = vs ! 0, iu_relay_layer = vs ! 1\<rparr>),
      relay_to_json = (\<lambda>v. Inr (concat (map enc_vec
         [ru_next_hop v, ru_egress_layer v, to_be_bytes_u64 (ru_mixnet_delay_ms v)]))),
      relay_from_json = (\<lambda>b. case dec_vecs 3 b of None \<Rightarrow> Inl ''bad''
         | Some vs \<Rightarrow> Inr \<lparr>ru_next_hop = vs ! 0, ru_egress_layer = vs ! 1,
                           ru_mixnet_delay_ms = from_be_bytes_u64 (vs ! 2)\<rparr>),
      egress_to_json = (\<lambda>v. Inr (concat (map enc_vec [as_bytes (eu_service_y v), eu_request_payload v]))),
      egress_from_json = (\<lambda>b. case dec_vecs 2 b of None \<Rightarrow> Inl ''bad''
         | Some vs \<Rightarrow> Inr \<lparr>eu_service_y = from_bytes (vs ! 0), eu_request_payload = vs ! 1\<rparr>)\<rparr>"

lemmas demo_net_defs = demo_net_def prims.defs demo_prims_def

lemma map2_xor_commute: "map2 (XOR) a b = map2 (XOR) b (a :: bytes)"
  by (induction a b rule: list_induct2') (simp_all add: xor.commute)

lemma demo_net_correct: "net_correct demo_net"
  by (auto simp: net_correct_def demo_net_defs min_def intro: map2_xor_commute)

lemma demo_onion_json: "onion_json_ok demo_net"
proof -
  have "dec_vecs 2 (enc_vec a @ enc_vec b) = Some [a, b]" "dec_vecs 3 (enc_vec a @ enc_vec b @ enc_vec c) = Some [a, b, c]" for a b c
    using dec_enc_vecs [of "[a, b]"] dec_enc_vecs [of "[a, b, c]"] by (simp_all add: eval_nat_numeral)
  then show ?thesis
    by (simp add: onion_json_ok_def demo_net_defs)
qed

lemma demo_control_json: "control_json_ok demo_net"
proof -
  have "control_from_json demo_net j = Inr c \<and> j \<noteq> [] \<and> (\<forall>s p. c = Data s p \<longrightarrow> 2 * length p \<le> length j)"
    if j: "control_to_json demo_net c = Inr j" for c j
  proof -
    obtain tag vs where vs: "control_fields c = Some (tag, vs)" "j = tag # concat (map enc_vec vs)"
      using j by (auto simp: demo_net_defs split: option.splits)
    have "control_from_json demo_net j = Inr c"
      using control_of_fields [OF vs(1)] dec_enc_vecs [of vs] by (simp add: vs(2) demo_net_defs)
    then show ?thesis
      using vs by auto
  qed
  then show ?thesis
    by (simp add: control_json_ok_def)
qed

theorem a2p2_roundtrip_witness:
  "\<exists>packet. a2p2_seal demo_net (\<lambda>i. of_nat i) [1, 2, 3] (replicate 32 7) = Inr packet \<and> length packet = 1280
     \<and> a2p2_open demo_net packet (replicate 32 7) = Inr [1, 2, 3]"
  using a2p2_roundtrip [OF demo_net_correct, of "replicate 32 7" "[1, 2, 3]" "\<lambda>i. of_nat i"] by simp

lemma demo_build:
  "\<exists>packet. TripleBlindOnionPacket_build demo_net (\<lambda>_ _. 5) 0 [1, 2] ''svc''
     (replicate 32 1) (replicate 32 2) (replicate 32 3) = Inr packet"
  by (simp add: TripleBlindOnionPacket_build_def encrypt_layer_def layer_key_def cipher_new_def Let_def
      MAX_ONION_PAYLOAD_def MAX_ONION_SERVICE_NAME_def MAX_ONION_LAYER_def MAX_FRAME_def demo_net_defs)

theorem onion_delivers_witness:
  "\<exists>packet i m. TripleBlindOnionPacket_build demo_net (\<lambda>_ _. 5) 0 [1, 2] ''svc''
       (replicate 32 1) (replicate 32 2) (replicate 32 3) = Inr packet
     \<and> unwrap_ingress demo_net packet (replicate 32 1) = Inr i
     \<and> unwrap_relay demo_net (iu_relay_layer i) (replicate 32 2) = Inr m
     \<and> unwrap_egress demo_net (ru_egress_layer m) (replicate 32 3) = Inr \<lparr>eu_service_y = ''svc'', eu_request_payload = [1, 2]\<rparr>"
proof -
  have pub: "x_public demo_net s = s" for s
    by (simp add: demo_net_defs)
  obtain packet where "TripleBlindOnionPacket_build demo_net (\<lambda>_ _. 5) 0 [1, 2] ''svc''
     (x_public demo_net (replicate 32 1)) (x_public demo_net (replicate 32 2)) (x_public demo_net (replicate 32 3)) = Inr packet"
    using demo_build unfolding pub by blast
  from onion_delivers [OF demo_net_correct demo_onion_json _ _ _ this] this show ?thesis
    unfolding pub by simp blast
qed

end
