(* ===== verification/Session.thy ===== *)
theory Session
  imports Wire
begin

text \<open>
  The authenticated handshake and the encrypted session of \<^verbatim>\<open>core/src/network.rs\<close>: \<^verbatim>\<open>handshake\<close>,
  \<^verbatim>\<open>SecureConnection::send\<close>, \<^verbatim>\<open>recv\<close> and the operations on top of them. Instants are nanoseconds of
  the stream's clock; the waiting loops of \<^verbatim>\<open>ping_roundtrip\<close> and \<^verbatim>\<open>send_data_roundtrip\<close> recur on the
  bytes still to arrive, because every message consumes some.
\<close>

section \<open>Connections\<close>

record SecureConnection =
  sc_stream :: TcpStream
  sc_remote_id :: bytes
  sc_remote_public_key :: bytes
  sc_remote_address :: SocketAddr
  sc_tx :: bytes
  sc_rx :: bytes
  sc_tx_seq :: u64
  sc_replay :: ReplayGuard
  sc_last_activity :: nat

section \<open>Handshake\<close>

definition local_hello :: "'a net_prims_scheme \<Rightarrow> Identity \<Rightarrow> SocketAddr \<Rightarrow> bytes \<Rightarrow> bytes \<Rightarrow> Control" where
  "local_hello P identity advertised_addr secret nonce =
     (let ephemeral = x_public P secret;
          i = aweid_bytes (ip_awe_id (id_public identity));
          pk = ip_public_key (id_public identity);
          sig = Identity_sign P identity (hello_bytes VERSION i pk ephemeral nonce advertised_addr)
      in Hello VERSION i pk ephemeral nonce sig advertised_addr)"

definition exchange_hellos ::
  "'a net_prims_scheme \<Rightarrow> TcpStream \<Rightarrow> Control \<Rightarrow> bool \<Rightarrow> (Control \<times> TcpStream) net" where
  "exchange_hellos P stream hello initiator =
     (if initiator then
        (case encode P hello of Inl e \<Rightarrow> Inl e | Inr b \<Rightarrow>
         (case write_frame stream b of (Inl e, _) \<Rightarrow> Inl e | (Inr _, stream) \<Rightarrow>
          (case read_frame (within HELLO_TIMEOUT stream) stream of (Inl e, _) \<Rightarrow> Inl e | (Inr f, stream) \<Rightarrow>
           (case decode P f of Inl e \<Rightarrow> Inl e | Inr r \<Rightarrow> Inr (r, stream)))))
      else
        (case read_frame (within HELLO_TIMEOUT stream) stream of (Inl e, _) \<Rightarrow> Inl e | (Inr f, stream) \<Rightarrow>
         (case decode P f of Inl e \<Rightarrow> Inl e | Inr r \<Rightarrow>
          (case encode P hello of Inl e \<Rightarrow> Inl e | Inr b \<Rightarrow>
           (case write_frame stream b of (Inl e, _) \<Rightarrow> Inl e | (Inr _, stream) \<Rightarrow> Inr (r, stream))))))"

definition session_keys :: "'a net_prims_scheme \<Rightarrow> bytes \<Rightarrow> bytes \<Rightarrow> bytes \<Rightarrow> bytes \<Rightarrow> bytes \<Rightarrow> bytes net" where
  "session_keys P shared i nonce rid rnonce =
     (let (lo_id, hi_id, lo_nonce, hi_nonce) =
            (if i < rid then (i, rid, nonce, rnonce) else (rid, i, rnonce, nonce));
          salt = hash P (as_bytes ''AWE/SESSION-SALT/v1'') (lo_id @ hi_id @ lo_nonce @ hi_nonce)
      in case hkdf P salt shared (as_bytes ''AWE/SESSION/v1'') 64 of
           None \<Rightarrow> Inl NetEncryption | Some keys \<Rightarrow> Inr keys)"

definition handshake ::
  "'a net_prims_scheme \<Rightarrow> TcpStream \<Rightarrow> Identity \<Rightarrow> SocketAddr \<Rightarrow> bool \<Rightarrow> bytes \<Rightarrow> bytes \<Rightarrow> SecureConnection net" where
  "handshake P stream identity advertised_addr initiator secret nonce =
     (let i = aweid_bytes (ip_awe_id (id_public identity));
          hello = local_hello P identity advertised_addr secret nonce
      in case exchange_hellos P stream hello initiator of
           Inl e \<Rightarrow> Inl e
         | Inr (remote, stream) \<Rightarrow>
             (case remote of
                Hello version rid rpk re rnonce rsig remote_addr \<Rightarrow>
                  if version \<noteq> VERSION then Inl (Protocol ''unsupported protocol version'')
                  else if rid = i then Inl (Protocol ''self connection'')
                  else if length rsig \<noteq> 64 then Inl Authentication
                  else if \<not> Identity_verify P rpk (hello_bytes version rid rpk re rnonce remote_addr) rsig
                  then Inl Authentication
                  else case session_keys P (x_dh P secret re) i nonce rid rnonce of
                    Inl e \<Rightarrow> Inl e
                  | Inr keys \<Rightarrow>
                      let (tx, rx) = (if initiator then (take 32 keys, drop 32 keys)
                                      else (drop 32 keys, take 32 keys))
                      in (case cipher_new tx of Inl e \<Rightarrow> Inl e | Inr tx \<Rightarrow>
                          (case cipher_new rx of Inl e \<Rightarrow> Inl e | Inr rx \<Rightarrow>
                           Inr \<lparr>sc_stream = stream, sc_remote_id = rid, sc_remote_public_key = rpk,
                                sc_remote_address = remote_addr, sc_tx = tx, sc_rx = rx, sc_tx_seq = 0,
                                sc_replay = ReplayGuard_default, sc_last_activity = st_clock stream\<rparr>))
              | _ \<Rightarrow> Inl (Protocol ''expected hello'')))"

section \<open>Encrypted frames\<close>

definition nonce_of :: "u64 \<Rightarrow> bytes" where
  "nonce_of s = replicate 4 0 @ to_be_bytes_u64 s"

function power_from :: "nat \<Rightarrow> nat \<Rightarrow> nat" where
  "power_from p n = (if n \<le> p \<or> p = 0 then p else power_from (2 * p) n)"
  by auto
termination
  by (relation "measure (\<lambda>(p, n). n - p)") auto

declare power_from.simps [simp del]

definition checked_next_power_of_two :: "nat \<Rightarrow> nat option" where
  "checked_next_power_of_two n = (if n > 2 ^ 63 then None else Some (power_from 1 n))"

definition send :: "'a net_prims_scheme \<Rightarrow> SecureConnection \<Rightarrow> Control \<Rightarrow> unit net \<times> SecureConnection" where
  "send P self c =
     (case encode P c of
        Inl e \<Rightarrow> (Inl e, self)
      | Inr p \<Rightarrow>
          if length p > MAX_FRAME - (FRAME_LENGTH_PREFIX + 16) then (Inl FrameTooLarge, self)
          else case checked_next_power_of_two (max (length p + FRAME_LENGTH_PREFIX) FRAME_PAD_MIN) of
            None \<Rightarrow> (Inl FrameTooLarge, self)
          | Some bucket \<Rightarrow>
              if bucket + 16 > MAX_FRAME then (Inl FrameTooLarge, self)
              else
                let padded = be_bytes 4 (length p) @ p @ replicate (bucket - (FRAME_LENGTH_PREFIX + length p)) 0;
                    s = sc_tx_seq self
                in if s = - 1 then (Inl (Protocol ''sequence exhausted''), self)
                   else
                     let self = self\<lparr>sc_tx_seq := s + 1\<rparr>; aad = to_be_bytes_u64 s in
                     case aead_seal P (sc_tx self) (nonce_of s) aad padded of
                       None \<Rightarrow> (Inl NetEncryption, self)
                     | Some e \<Rightarrow>
                         let (r, stream) = write_frame (sc_stream self) (aad @ e);
                             self = self\<lparr>sc_stream := stream\<rparr>
                         in case r of Inl e \<Rightarrow> (Inl e, self)
                            | Inr _ \<Rightarrow> (Inr (), self\<lparr>sc_last_activity := st_clock stream\<rparr>))"

definition open_frame :: "'a net_prims_scheme \<Rightarrow> SecureConnection \<Rightarrow> u64 \<Rightarrow> bytes \<Rightarrow> Control net \<times> SecureConnection" where
  "open_frame P self s f =
     (case aead_open P (sc_rx self) (nonce_of s) (take 8 f) (drop 8 f) of
        None \<Rightarrow> (Inl Authentication, self)
      | Some p \<Rightarrow>
          if length p < FRAME_LENGTH_PREFIX then (Inl (Protocol ''short padded frame''), self)
          else
            let payload_len = from_be (take FRAME_LENGTH_PREFIX p) in
            if payload_len > length p - FRAME_LENGTH_PREFIX then (Inl (Protocol ''invalid padded frame length''), self)
            else (decode P (take payload_len (drop FRAME_LENGTH_PREFIX p)),
                  self\<lparr>sc_last_activity := st_clock (sc_stream self)\<rparr>))"

definition recv :: "'a net_prims_scheme \<Rightarrow> nat option \<Rightarrow> SecureConnection \<Rightarrow> Control net \<times> SecureConnection" where
  "recv P deadline self =
     (let (r, stream) = read_frame deadline (sc_stream self);
          self = self\<lparr>sc_stream := stream\<rparr>
      in case r of
           Inl e \<Rightarrow> (Inl e, self)
         | Inr f \<Rightarrow>
             if length f < 8 then (Inl (Protocol ''short encrypted frame''), self)
             else
               let s = from_be_bytes_u64 (take 8 f);
                   (accepted, replay) = ReplayGuard_accept (sc_replay self) (sc_remote_id self) s;
                   self = self\<lparr>sc_replay := replay\<rparr>
               in if \<not> accepted then (Inl (Protocol ''replayed frame''), self) else open_frame P self s f)"

definition send_data :: "'a net_prims_scheme \<Rightarrow> SecureConnection \<Rightarrow> u32 \<Rightarrow> bytes \<Rightarrow> unit net \<times> SecureConnection" where
  "send_data P self stream payload =
     (if length payload > MAX_FRAME div 2 then (Inl FrameTooLarge, self)
      else send P self (Data stream payload))"

definition ping :: "'a net_prims_scheme \<Rightarrow> SecureConnection \<Rightarrow> u64 \<Rightarrow> unit net \<times> SecureConnection" where
  "ping P self sequence = send P self (Ping sequence)"

definition is_idle :: "SecureConnection \<Rightarrow> bool" where
  "is_idle self \<longleftrightarrow> st_clock (sc_stream self) - sc_last_activity self > IDLE_TIMEOUT"

definition recv_data :: "'a net_prims_scheme \<Rightarrow> SecureConnection \<Rightarrow> (u32 \<times> bytes) option net \<times> SecureConnection" where
  "recv_data P self =
     (let (r, self) = recv P None self in
      case r of
        Inl e \<Rightarrow> (Inl e, self)
      | Inr (Data stream payload) \<Rightarrow> (Inr (Some (stream, payload)), self)
      | Inr (Ping sequence) \<Rightarrow>
          (case send P self (Pong sequence) of
             (Inl e, self) \<Rightarrow> (Inl e, self)
           | (Inr _, self) \<Rightarrow> (Inr None, self))
      | Inr (FindNode _) \<Rightarrow> (Inl (Protocol ''unexpected control message''), self)
      | Inr (Hello _ _ _ _ _ _ _) \<Rightarrow> (Inl (Protocol ''unexpected control message''), self)
      | Inr _ \<Rightarrow> (Inr None, self))"

section \<open>Waiting loops\<close>

definition arriving :: "TcpStream \<Rightarrow> bytes" where
  "arriving s = concat (map snd (st_in s))"

definition in_bytes :: "SecureConnection \<Rightarrow> nat" where
  "in_bytes c = length (arriving (sc_stream c))"

text \<open>The time until everything has arrived.\<close>

definition delays :: "TcpStream \<Rightarrow> nat" where
  "delays s = sum_list (map fst (st_in s))"

lemma fill_takes:
  "fill deadline n t es acc = (Inr r, t', es') \<Longrightarrow>
     n \<le> length (concat (map snd es)) \<and> r = acc @ take n (concat (map snd es))
     \<and> concat (map snd es') = drop n (concat (map snd es))"
proof (induction deadline n t es acc arbitrary: r t' es' rule: fill.induct)
  case (1 deadline n t acc)
  then show ?case by (simp split: if_splits)
next
  case (2 deadline n t d b es acc)
  show ?case
  proof (cases "n = 0 \<or> n \<le> length b")
    case True
    then show ?thesis
      using 2(2) by (auto split: if_splits)
  next
    case False
    then have live: "\<not> (case deadline of None \<Rightarrow> False | Some l \<Rightarrow> l < t + d)"
      and rest: "fill deadline (n - length b) (t + d) es (acc @ b) = (Inr r, t', es')"
      using 2(2) by (auto split: if_splits)
    show ?thesis
      using 2(1) [OF _ live _ rest] False by auto
  qed
qed

lemma read_exact_takes:
  assumes "read_exact deadline n s = (Inr r, s')"
  shows "n \<le> length (arriving s) \<and> r = take n (arriving s) \<and> arriving s' = drop n (arriving s)
    \<and> st_out s' = st_out s \<and> st_room s' = st_room s"
  using assms fill_takes [of deadline n "st_clock s" "st_in s" "[]"]
  by (auto simp: read_exact_def arriving_def split: prod.splits)

lemma read_frame_takes:
  assumes "read_frame deadline s = (Inr f, s')"
  shows "0 < length f \<and> length f \<le> MAX_FRAME \<and> (\<exists>prefix. length prefix = 4 \<and> from_be prefix = length f
      \<and> arriving s = prefix @ f @ arriving s') \<and> st_out s' = st_out s \<and> st_room s' = st_room s"
proof -
  obtain prefix s1 where p: "read_exact deadline 4 s = (Inr prefix, s1)"
      and r: "read_exact deadline (from_be prefix) s1 = (Inr f, s')" "0 < from_be prefix" "from_be prefix \<le> MAX_FRAME"
    using assms by (auto simp: read_frame_def Let_def split: prod.splits sum.splits if_splits)
  have "arriving s = prefix @ arriving s1" "length prefix = 4"
    using read_exact_takes [OF p] by simp_all
  moreover have "arriving s1 = f @ arriving s'" "length f = from_be prefix"
    using read_exact_takes [OF r(1)] by simp_all
  ultimately have eq: "arriving s = prefix @ f @ arriving s'" "length prefix = 4" "from_be prefix = length f"
    by simp_all
  have "st_out s' = st_out s \<and> st_room s' = st_room s"
    using read_exact_takes [OF p] read_exact_takes [OF r(1)] by presburger
  then show ?thesis
    using r(2,3) eq by (intro conjI exI [of _ prefix]) simp_all
qed

lemma open_frame_frame [frame_simps]:
  "sc_stream (snd (open_frame P c s f)) = sc_stream c" "sc_replay (snd (open_frame P c s f)) = sc_replay c"
  "sc_remote_id (snd (open_frame P c s f)) = sc_remote_id c" "sc_rx (snd (open_frame P c s f)) = sc_rx c"
  "sc_tx (snd (open_frame P c s f)) = sc_tx c" "sc_tx_seq (snd (open_frame P c s f)) = sc_tx_seq c"
  by (simp_all add: open_frame_def Let_def split: option.split)

lemma recv_Inr:
  assumes "recv P deadline c = (Inr m, c')"
  obtains f stream where "read_frame deadline (sc_stream c) = (Inr f, stream)" "8 \<le> length f"
    "fst (ReplayGuard_accept (sc_replay c) (sc_remote_id c) (from_be_bytes_u64 (take 8 f)))"
    "open_frame P (c\<lparr>sc_stream := stream, sc_replay :=
       snd (ReplayGuard_accept (sc_replay c) (sc_remote_id c) (from_be_bytes_u64 (take 8 f)))\<rparr>)
       (from_be_bytes_u64 (take 8 f)) f = (Inr m, c')"
proof -
  obtain r stream where rf: "read_frame deadline (sc_stream c) = (r, stream)"
    by fastforce
  obtain f where f: "r = Inr f"
    using assms by (cases r) (simp_all add: recv_def rf)
  obtain ok rep where acc: "ReplayGuard_accept (sc_replay c) (sc_remote_id c) (from_be_bytes_u64 (take 8 f)) = (ok, rep)"
    by fastforce
  show thesis
    using assms that [of f stream] rf by (simp add: recv_def f acc Let_def split: if_splits)
qed

lemma recv_consumes:
  assumes "recv P deadline c = (Inr m, c')"
  shows "in_bytes c' < in_bytes c"
proof -
  obtain f stream rep s where f: "read_frame deadline (sc_stream c) = (Inr f, stream)"
    and "open_frame P (c\<lparr>sc_stream := stream, sc_replay := rep\<rparr>) s f = (Inr m, c')"
    using recv_Inr [OF assms] by metis
  then have "sc_stream c' = stream"
    using open_frame_frame(1) [of P "c\<lparr>sc_stream := stream, sc_replay := rep\<rparr>" s f] by simp
  then show ?thesis
    using read_frame_takes [OF f] by (auto simp: in_bytes_def)
qed

lemma fill_clock:
  "fill deadline n t es acc = (r, t', es') \<Longrightarrow>
     t' + sum_list (map fst es') = t + sum_list (map fst es)
     \<and> length (concat (map snd es')) \<le> length (concat (map snd es)) \<and> (if r = Inl Timeout then deadline = Some t' else t \<le> t')"
proof (induction deadline n t es acc arbitrary: r t' es' rule: fill.induct)
  case (1 deadline n t acc)
  then show ?case by (auto split: if_splits)
next
  case (2 deadline n t d b es acc)
  show ?case
  proof (cases "n = 0 \<or> (case deadline of None \<Rightarrow> False | Some l \<Rightarrow> l < t + d) \<or> n \<le> length b")
    case True
    then show ?thesis
      using 2(2) by (auto split: if_splits option.splits)
  next
    case False
    then have "fill deadline (n - length b) (t + d) es (acc @ b) = (r, t', es')"
      using 2(2) by simp
    then show ?thesis
      using 2(1) [of r t' es'] False by auto
  qed
qed

lemma read_exact_clock:
  assumes "read_exact deadline n s = (r, s')"
  shows "st_clock s' + delays s' = st_clock s + delays s \<and> length (arriving s') \<le> length (arriving s)
    \<and> (if r = Inl Timeout then deadline = Some (st_clock s') else st_clock s \<le> st_clock s')"
  using assms fill_clock [of deadline n "st_clock s" "st_in s" "[]"]
  by (auto simp: read_exact_def delays_def arriving_def split: prod.splits)

lemma read_frame_clock:
  assumes "read_frame deadline s = (r, s')"
  shows "st_clock s' + delays s' = st_clock s + delays s \<and> length (arriving s') \<le> length (arriving s)
    \<and> (if r = Inl Timeout then deadline = Some (st_clock s') else st_clock s \<le> st_clock s')"
proof -
  obtain r1 s1 where s1: "read_exact deadline 4 s = (r1, s1)"
    by fastforce
  note c1 = read_exact_clock [OF s1]
  show ?thesis
  proof (cases r1)
    case (Inl e)
    then show ?thesis
      using assms c1 by (auto simp: read_frame_def s1 split: if_splits)
  next
    case (Inr p)
    then show ?thesis
      using assms c1 read_exact_clock [of deadline "from_be p" s1 r s']
      by (auto simp: read_frame_def s1 Let_def split: if_splits)
  qed
qed

lemma decode_not_timeout: "decode P j \<noteq> Inl Timeout"
  by (auto simp: decode_def of_json_def split: sum.splits Control.splits if_splits)

lemma open_frame_not_timeout: "fst (open_frame P c s f) \<noteq> Inl Timeout"
  by (auto simp: open_frame_def Let_def decode_not_timeout split: option.splits)

lemma recv_clock:
  assumes "recv P deadline c = (r, c')"
  shows "st_clock (sc_stream c') + delays (sc_stream c') = st_clock (sc_stream c) + delays (sc_stream c)
    \<and> in_bytes c' \<le> in_bytes c
    \<and> (if r = Inl Timeout then deadline = Some (st_clock (sc_stream c')) else st_clock (sc_stream c) \<le> st_clock (sc_stream c'))"
proof -
  obtain q stream where rf: "read_frame deadline (sc_stream c) = (q, stream)"
    by fastforce
  have "sc_stream c' = stream \<and> (r = Inl Timeout \<longleftrightarrow> q = Inl Timeout)"
  proof (cases q)
    case (Inl e)
    then show ?thesis
      using assms by (auto simp: recv_def rf)
  next
    case (Inr f)
    let ?g = "ReplayGuard_accept (sc_replay c) (sc_remote_id c) (from_be_bytes_u64 (take 8 f))"
    have "(r, c') = (Inl (Protocol ''short encrypted frame''), c\<lparr>sc_stream := stream\<rparr>)
        \<or> (r, c') = (Inl (Protocol ''replayed frame''), c\<lparr>sc_stream := stream, sc_replay := snd ?g\<rparr>)
        \<or> (r, c') = open_frame P (c\<lparr>sc_stream := stream, sc_replay := snd ?g\<rparr>) (from_be_bytes_u64 (take 8 f)) f"
      using assms by (simp add: recv_def rf Inr Let_def split_beta split: if_splits)
    then show ?thesis
      using open_frame_frame(1) [of P "c\<lparr>sc_stream := stream, sc_replay := snd ?g\<rparr>" "from_be_bytes_u64 (take 8 f)" f]
        open_frame_not_timeout [of P "c\<lparr>sc_stream := stream, sc_replay := snd ?g\<rparr>" "from_be_bytes_u64 (take 8 f)" f]
      by (auto simp: Inr dest: arg_cong [where f = snd] arg_cong [where f = fst])
  qed
  then show ?thesis
    using read_frame_clock [OF rf] by (auto simp: in_bytes_def)
qed

lemma recv_clock_shrinks:
  assumes "recv P (within limit (sc_stream c)) c = (r, c')" "0 < limit" "r = Inl Timeout \<or> (\<exists>m. r = Inr m)"
  shows "in_bytes c' + delays (sc_stream c') < in_bytes c + delays (sc_stream c)"
  using assms(2,3) recv_clock [OF assms(1)] recv_consumes [of P "within limit (sc_stream c)" c _ c'] assms(1)
  by (auto simp: within_def)

lemma write_frame_frame [simp]:
  "st_in (snd (write_frame s b)) = st_in s" "st_clock (snd (write_frame s b)) = st_clock s"
  by (simp_all add: write_frame_def write_all_def Let_def split_beta split: option.split sum.split)

lemma send_frame [simp]:
  "in_bytes (snd (send P c m)) = in_bytes c" "sc_rx (snd (send P c m)) = sc_rx c"
  "sc_replay (snd (send P c m)) = sc_replay c" "sc_remote_id (snd (send P c m)) = sc_remote_id c"
  "sc_tx (snd (send P c m)) = sc_tx c" "delays (sc_stream (snd (send P c m))) = delays (sc_stream c)"
  by (simp_all add: send_def in_bytes_def arriving_def delays_def Let_def split_beta split: option.split sum.split)

lemma recv_decreases: "(Inr m, c') = recv P deadline c \<Longrightarrow> in_bytes c' < in_bytes c"
  by (metis recv_consumes)

lemma recv_send_decreases:
  "(Inr m, c') = recv P deadline c \<Longrightarrow> (r, c'') = send P c' x \<Longrightarrow> in_bytes c'' < in_bytes c"
  by (metis recv_consumes send_frame(1) snd_conv)

function wait_pong :: "'a net_prims_scheme \<Rightarrow> u64 \<Rightarrow> SecureConnection \<Rightarrow> unit net \<times> SecureConnection" where
  "wait_pong P sequence self =
     (case recv P (within HELLO_TIMEOUT (sc_stream self)) self of
        (Inl e, self) \<Rightarrow> (Inl e, self)
      | (Inr m, self) \<Rightarrow>
          (case m of
             Pong echoed \<Rightarrow> if echoed = sequence then (Inr (), self) else wait_pong P sequence self
           | Ping incoming \<Rightarrow>
               (case send P self (Pong incoming) of
                  (Inl e, self) \<Rightarrow> (Inl e, self)
                | (Inr _, self) \<Rightarrow> wait_pong P sequence self)
           | Data _ _ \<Rightarrow> wait_pong P sequence self
           | Nodes _ \<Rightarrow> wait_pong P sequence self
           | DataAck _ _ \<Rightarrow> wait_pong P sequence self
           | FindNode _ \<Rightarrow> (Inl (Protocol ''unexpected control message during ping''), self)
           | Hello _ _ _ _ _ _ _ \<Rightarrow> (Inl (Protocol ''unexpected control message during ping''), self)))"
  by auto
termination
  by (relation "measure (\<lambda>(P, sequence, c). in_bytes c)")
    (auto dest: recv_decreases recv_send_decreases)

declare wait_pong.simps [simp del]

definition ping_roundtrip :: "'a net_prims_scheme \<Rightarrow> SecureConnection \<Rightarrow> u64 \<Rightarrow> nat net \<times> SecureConnection" where
  "ping_roundtrip P self sequence =
     (let started = st_clock (sc_stream self) in
      case ping P self sequence of
        (Inl e, self) \<Rightarrow> (Inl e, self)
      | (Inr _, self) \<Rightarrow>
          (case wait_pong P sequence self of
             (Inl e, self) \<Rightarrow> (Inl e, self)
           | (Inr _, self) \<Rightarrow> (Inr (st_clock (sc_stream self) - started), self)))"

function wait_ack :: "'a net_prims_scheme \<Rightarrow> u32 \<Rightarrow> u32 \<Rightarrow> SecureConnection \<Rightarrow> unit net \<times> SecureConnection" where
  "wait_ack P stream expected self =
     (case recv P (within HELLO_TIMEOUT (sc_stream self)) self of
        (Inl e, self) \<Rightarrow> (Inl e, self)
      | (Inr m, self) \<Rightarrow>
          (case m of
             DataAck echoed bytes \<Rightarrow>
               if echoed = stream \<and> bytes = expected then (Inr (), self) else wait_ack P stream expected self
           | Ping sequence \<Rightarrow>
               (case send P self (Pong sequence) of
                  (Inl e, self) \<Rightarrow> (Inl e, self)
                | (Inr _, self) \<Rightarrow> wait_ack P stream expected self)
           | Pong _ \<Rightarrow> wait_ack P stream expected self
           | Nodes _ \<Rightarrow> wait_ack P stream expected self
           | Data incoming payload \<Rightarrow>
               (case send P self (DataAck incoming (of_nat (length payload))) of
                  (Inl e, self) \<Rightarrow> (Inl e, self)
                | (Inr _, self) \<Rightarrow> wait_ack P stream expected self)
           | FindNode _ \<Rightarrow> (Inl (Protocol ''unexpected control message during data probe''), self)
           | Hello _ _ _ _ _ _ _ \<Rightarrow> (Inl (Protocol ''unexpected control message during data probe''), self)))"
  by auto
termination
  by (relation "measure (\<lambda>(P, stream, expected, c). in_bytes c)")
    (auto dest: recv_decreases recv_send_decreases)

declare wait_ack.simps [simp del]

definition send_data_roundtrip ::
  "'a net_prims_scheme \<Rightarrow> SecureConnection \<Rightarrow> u32 \<Rightarrow> bytes \<Rightarrow> nat net \<times> SecureConnection" where
  "send_data_roundtrip P self stream payload =
     (if length payload > MAX_FRAME div 2 then (Inl FrameTooLarge, self)
      else
        let expected = of_nat (length payload); started = st_clock (sc_stream self) in
        case send P self (Data stream payload) of
          (Inl e, self) \<Rightarrow> (Inl e, self)
        | (Inr _, self) \<Rightarrow>
            (case wait_ack P stream expected self of
               (Inl e, self) \<Rightarrow> (Inl e, self)
             | (Inr _, self) \<Rightarrow> (Inr (st_clock (sc_stream self) - started), self)))"

end
