(* ===== verification/Session_Props.thy ===== *)
theory Session_Props
  imports Session
begin

text \<open>
  What the session layer promises: two honest ends that exchange their hellos finish the handshake
  with crossed keys, messages sent on one end are received in order on the other, no sequence number
  is delivered twice whatever arrives, and what the handshake does not check.
\<close>

section \<open>Frames on a stream\<close>

definition frame :: "bytes \<Rightarrow> bytes" where
  "frame b = be_bytes 4 (length b) @ b"

definition in_time :: "nat option \<Rightarrow> TcpStream \<Rightarrow> bool" where
  "in_time deadline s \<longleftrightarrow> (case deadline of None \<Rightarrow> True | Some l \<Rightarrow> st_clock s + delays s \<le> l)"

lemma fill_in_time:
  assumes "n \<le> length (concat (map snd es))"
    and "case deadline of None \<Rightarrow> True | Some l \<Rightarrow> t + sum_list (map fst es) \<le> l"
  shows "\<exists>r t' es'. fill deadline n t es acc = (Inr r, t', es') \<and> t' + sum_list (map fst es') \<le> t + sum_list (map fst es)"
  using assms
proof (induction deadline n t es acc rule: fill.induct)
  case (2 deadline n t d b es acc)
  have live: "\<not> (case deadline of None \<Rightarrow> False | Some l \<Rightarrow> l < t + d)"
    using 2(3) by (cases deadline) auto
  show ?case
  proof (cases "n = 0 \<or> n \<le> length b")
    case True
    then show ?thesis
      using live by auto
  next
    case False
    then have "\<exists>r t' es'. fill deadline (n - length b) (t + d) es (acc @ b) = (Inr r, t', es')
        \<and> t' + sum_list (map fst es') \<le> t + d + sum_list (map fst es)"
      using 2(2,3) by (intro 2(1)) (auto simp: live add.assoc split: option.splits)
    then show ?thesis
      using False live by (auto simp: add.assoc)
  qed
qed simp

lemma read_exact_in_time:
  assumes "n \<le> length (arriving s)" "in_time deadline s"
  shows "\<exists>s'. read_exact deadline n s = (Inr (take n (arriving s)), s') \<and> in_time deadline s'"
proof -
  obtain r t es where f: "fill deadline n (st_clock s) (st_in s) [] = (Inr r, t, es)"
      "t + sum_list (map fst es) \<le> st_clock s + delays s"
    using fill_in_time [where n = n and es = "st_in s" and deadline = deadline and t = "st_clock s" and acc = "[]"] assms
    unfolding arriving_def in_time_def delays_def by blast
  have "read_exact deadline n s = (Inr r, s\<lparr>st_in := es, st_clock := t\<rparr>)"
    by (simp add: read_exact_def f(1))
  moreover have "in_time deadline (s\<lparr>st_in := es, st_clock := t\<rparr>)"
    using f(2) assms(2) by (auto simp: in_time_def delays_def split: option.splits)
  ultimately show ?thesis
    using read_exact_takes by blast
qed

lemma read_frame_frame:
  assumes "arriving s = frame b @ r" "b \<noteq> []" "length b \<le> MAX_FRAME" "in_time deadline s"
  obtains s' where "read_frame deadline s = (Inr b, s')" "arriving s' = r" "st_out s' = st_out s"
    "st_room s' = st_room s"
proof -
  have n: "from_be (be_bytes 4 (length b)) = length b"
    using assms(3) by (simp add: from_be_be_bytes MAX_FRAME_def)
  have t1: "4 \<le> length (arriving s)" "take 4 (arriving s) = be_bytes 4 (length b)"
    by (simp_all add: assms(1) frame_def)
  obtain s1 where s1: "read_exact deadline 4 s = (Inr (be_bytes 4 (length b)), s1)" "in_time deadline s1"
    using read_exact_in_time [OF t1(1) assms(4)] unfolding t1(2) by blast
  have "arriving s1 = drop 4 (arriving s)"
    using read_exact_takes [OF s1(1)] by (elim conjE)
  then have a1: "arriving s1 = b @ r"
    by (simp add: assms(1) frame_def)
  have t2: "length b \<le> length (arriving s1)" "take (length b) (arriving s1) = b"
    by (simp_all add: a1)
  obtain s2 where s2: "read_exact deadline (length b) s1 = (Inr b, s2)"
    using read_exact_in_time [OF t2(1) s1(2)] unfolding t2(2) by blast
  have "read_frame deadline s = (Inr b, s2)"
    using assms(2,3) by (simp add: read_frame_def s1(1) s2 n)
  then show thesis
  proof (rule that)
    have "arriving s2 = drop (length b) (arriving s1)"
      using read_exact_takes [OF s2] by (elim conjE)
    then show "arriving s2 = r"
      by (simp add: a1)
    show "st_out s2 = st_out s" "st_room s2 = st_room s"
      using read_exact_takes [OF s1(1)] read_exact_takes [OF s2] by presburger+
  qed
qed

lemma write_frame_ok:
  assumes "b \<noteq> []" "length b \<le> MAX_FRAME" "st_room s = None"
  shows "write_frame s b = (Inr (), s\<lparr>st_out := st_out s @ frame b\<rparr>)"
  using assms by (simp add: write_frame_def write_all_def frame_def)

section \<open>Handshake\<close>

text \<open>Ed25519 signatures have 64 bytes.\<close>

definition sig64 :: "'a prims_scheme \<Rightarrow> bool" where
  "sig64 P \<longleftrightarrow> (\<forall>s m. length (ed_sign P s m) = 64)"

lemma session_keys_commute:
  assumes "i \<noteq> rid"
  shows "session_keys P shared i nonce rid rnonce = session_keys P shared rid rnonce i nonce"
proof (cases "i < rid")
  case True
  then show ?thesis
    by (simp add: session_keys_def less_not_sym)
next
  case False
  then have "rid < i"
    using assms by simp
  then show ?thesis
    by (simp add: session_keys_def less_not_sym)
qed

lemma session_keys_length:
  assumes "net_correct P"
  shows "\<exists>keys. session_keys P shared i nonce rid rnonce = Inr keys \<and> length keys = 64"
proof -
  have "\<exists>k. hkdf P salt shared info 64 = Some k \<and> length k = 64" for salt info
    using assms unfolding net_correct_def by simp
  then have "\<exists>k. (case hkdf P salt shared info 64 of None \<Rightarrow> Inl NetEncryption | Some k \<Rightarrow> Inr k) = Inr k \<and> length k = 64"
    for salt info
    by (metis option.simps(5))
  then show ?thesis
    unfolding session_keys_def Let_def split_beta by blast
qed

lemma decode_written:
  assumes "control_json_ok P" "control_to_json P c = Inr j" "length j \<le> MAX_FRAME"
    and "case c of Hello _ _ _ _ _ s _ \<Rightarrow> length s = 64 | Nodes rs \<Rightarrow> length rs \<le> MAX_NODE_RECORDS \<and>
           (\<forall>r \<in> set rs. rec_protocol_version r = VERSION \<and> length (rec_addresses r) \<le> MAX_ADDRESSES_PER_PEER) | _ \<Rightarrow> True"
  shows "decode P j = Inr c"
proof -
  have j: "control_from_json P j = Inr c" "\<And>s p. c = Data s p \<Longrightarrow> 2 * length p \<le> length j"
    using assms(1,2) unfolding control_json_ok_def by blast+
  show ?thesis
    using assms(3,4) j by (cases c) (auto simp: decode_def list_ex_iff)
qed

lemma exchange_hellos_ok:
  assumes json: "control_json_ok P" and own: "control_to_json P hello = Inr j" "length j \<le> MAX_FRAME"
    and other: "control_to_json P remote = Inr j'" "length j' \<le> MAX_FRAME" "decode P j' = Inr remote"
    and s: "st_room s = None" "arriving s = frame j' @ r" "delays s \<le> HELLO_TIMEOUT"
  obtains s' where "exchange_hellos P s hello initiator = Inr (remote, s')" "arriving s' = r"
    "st_out s' = st_out s @ frame j" "st_room s' = None"
proof -
  have ne: "j \<noteq> []" "j' \<noteq> []"
    using json own(1) other(1) unfolding control_json_ok_def by blast+
  let ?w = "s\<lparr>st_out := st_out s @ frame j\<rparr>"
  have time: "in_time (within HELLO_TIMEOUT s) s" "in_time (within HELLO_TIMEOUT ?w) ?w" "arriving ?w = frame j' @ r"
    using s(2,3) by (simp_all add: in_time_def within_def delays_def arriving_def)
  obtain s1 where s1: "read_frame (within HELLO_TIMEOUT ?w) ?w = (Inr j', s1)" "arriving s1 = r" "st_out s1 = st_out ?w"
      "st_room s1 = st_room ?w"
    by (rule read_frame_frame [OF time(3) ne(2) other(2) time(2)])
  obtain s2 where s2: "read_frame (within HELLO_TIMEOUT s) s = (Inr j', s2)" "arriving s2 = r" "st_out s2 = st_out s"
      "st_room s2 = st_room s"
    by (rule read_frame_frame [OF s(2) ne(2) other(2) time(1)])
  show thesis
  proof (cases initiator)
    case True
    then show thesis
      using that [of s1] s1 s(1) ne own other(3) write_frame_ok [of j s]
      by (simp add: exchange_hellos_def encode_def)
  next
    case False
    then show thesis
      using that [of "s2\<lparr>st_out := st_out s2 @ frame j\<rparr>"] s2 s(1) ne own other(3) write_frame_ok [of j s2]
      by (simp add: exchange_hellos_def encode_def arriving_def)
  qed
qed

abbreviation own_id :: "Identity \<Rightarrow> bytes" where
  "own_id i \<equiv> aweid_bytes (ip_awe_id (id_public i))"

abbreviation own_key :: "Identity \<Rightarrow> bytes" where
  "own_key i \<equiv> ip_public_key (id_public i)"

lemma handshake_with_honest:
  assumes net: "net_correct P" and json: "control_json_ok P" and ed: "ed_correct P" "sig64 P"
    and peer: "own_key peer = ed_public P (id_signing_key peer)" and ids: "own_id peer \<noteq> own_id i"
    and own: "control_to_json P (local_hello P i addr secret nonce) = Inr j" "length j \<le> MAX_FRAME"
    and other: "control_to_json P (local_hello P peer paddr psecret pnonce) = Inr j'" "length j' \<le> MAX_FRAME"
    and s: "st_room s = None" "arriving s = frame j' @ r" "delays s \<le> HELLO_TIMEOUT"
    and keys: "session_keys P (x_dh P secret (x_public P psecret)) (own_id i) nonce (own_id peer) pnonce = Inr ks" "length ks = 64"
  shows "\<exists>c. handshake P s i addr initiator secret nonce = Inr c \<and> sc_remote_id c = own_id peer
    \<and> sc_remote_public_key c = own_key peer \<and> sc_remote_address c = paddr
    \<and> (sc_tx c, sc_rx c) = (if initiator then (take 32 ks, drop 32 ks) else (drop 32 ks, take 32 ks))
    \<and> sc_tx_seq c = 0 \<and> sc_replay c = ReplayGuard_default
    \<and> arriving (sc_stream c) = r \<and> st_out (sc_stream c) = st_out s @ frame j \<and> st_room (sc_stream c) = None"
proof -
  let ?sig = "Identity_sign P peer (hello_bytes VERSION (own_id peer) (own_key peer) (x_public P psecret) pnonce paddr)"
  have remote: "local_hello P peer paddr psecret pnonce =
      Hello VERSION (own_id peer) (own_key peer) (x_public P psecret) pnonce ?sig paddr"
    by (simp add: local_hello_def Let_def)
  have sig: "length ?sig = 64"
    using ed(2) by (simp add: Identity_sign_def sig64_def)
  have dec: "decode P j' = Inr (local_hello P peer paddr psecret pnonce)"
    using sig by (intro decode_written [OF json other]) (simp add: remote)
  obtain s' where s': "exchange_hellos P s (local_hello P i addr secret nonce) initiator
        = Inr (local_hello P peer paddr psecret pnonce, s')"
      "arriving s' = r" "st_out s' = st_out s @ frame j" "st_room s' = None"
    by (rule exchange_hellos_ok [OF json own other dec s])
  show ?thesis
    using keys sig ids s' ed(1) peer
    by (simp add: handshake_def remote cipher_new_def Identity_verify_def Identity_sign_def ed_correct_def)
qed

text \<open>C6. 
  Two honest nodes whose hellos reach each other within the time limit both finish the handshake, each
  knows the other's identifier, public key and address, the sending key of each side is the receiving
  key of the other, and both sides have consumed exactly the other's hello.
\<close>

theorem handshake_keys_agree:
  assumes net: "net_correct P" and json: "control_json_ok P"
    and ed: "ed_correct P" "sig64 P" "identity_wf P a" "identity_wf P b" and ids: "own_id a \<noteq> own_id b"
    and secrets: "length sa = 32" "length sb = 32"
    and ja: "control_to_json P (local_hello P a addra sa na) = Inr ja" "length ja \<le> MAX_FRAME"
    and jb: "control_to_json P (local_hello P b addrb sb nb) = Inr jb" "length jb \<le> MAX_FRAME"
    and ta: "st_room ta = None" "arriving ta = frame jb @ ra" "delays ta \<le> HELLO_TIMEOUT"
    and tb: "st_room tb = None" "arriving tb = frame ja @ rb" "delays tb \<le> HELLO_TIMEOUT"
  shows "\<exists>ca cb. handshake P ta a addra True sa na = Inr ca \<and> handshake P tb b addrb False sb nb = Inr cb
    \<and> sc_tx ca = sc_rx cb \<and> sc_rx ca = sc_tx cb \<and> length (sc_tx ca) = 32 \<and> length (sc_rx ca) = 32
    \<and> sc_remote_id ca = own_id b \<and> sc_remote_id cb = own_id a
    \<and> sc_remote_public_key ca = own_key b \<and> sc_remote_public_key cb = own_key a
    \<and> sc_remote_address ca = addrb \<and> sc_remote_address cb = addra
    \<and> st_out (sc_stream ca) = st_out ta @ frame ja \<and> st_out (sc_stream cb) = st_out tb @ frame jb
    \<and> arriving (sc_stream ca) = ra \<and> arriving (sc_stream cb) = rb"
proof -
  obtain ks where ks: "session_keys P (x_dh P sa (x_public P sb)) (own_id a) na (own_id b) nb = Inr ks" "length ks = 64"
    using session_keys_length [OF net] by metis
  have dh: "x_dh P sb (x_public P sa) = x_dh P sa (x_public P sb)"
    using net secrets unfolding net_correct_def by blast
  have ks': "session_keys P (x_dh P sb (x_public P sa)) (own_id b) nb (own_id a) na = Inr ks"
    using ks(1) by (simp add: dh session_keys_commute [OF ids [symmetric]])
  have keys: "own_key a = ed_public P (id_signing_key a)" "own_key b = ed_public P (id_signing_key b)"
    using ed(3,4) by (simp_all add: identity_wf_def)
  show ?thesis
    using handshake_with_honest [OF net json ed(1,2) keys(2) ids [symmetric] ja jb ta ks, of True]
      handshake_with_honest [OF net json ed(1,2) keys(1) ids jb ja tb ks' ks(2), of False] ks(2)
    by (elim exE conjE, intro exI conjI) (assumption | simp)+
qed

text \<open>
  The handshake does not check that the claimed identifier is the digest of the public key: a peer
  that signs its hello with any key of its own is accepted under whatever identifier it claims,
  other than the node's own.
\<close>

theorem handshake_accepts_any_id:
  assumes net: "net_correct P" and json: "control_json_ok P" and ed: "ed_correct P" "sig64 P"
    and liar: "own_key liar = ed_public P (id_signing_key liar)" "own_id liar = claimed" "claimed \<noteq> own_id a"
    and ja: "control_to_json P (local_hello P a addr sa na) = Inr ja" "length ja \<le> MAX_FRAME"
    and jb: "control_to_json P (local_hello P liar addrb sb nb) = Inr jb" "length jb \<le> MAX_FRAME"
    and ta: "st_room ta = None" "arriving ta = frame jb @ ra" "delays ta \<le> HELLO_TIMEOUT"
  shows "\<exists>c. handshake P ta a addr initiator sa na = Inr c \<and> sc_remote_id c = claimed
    \<and> sc_remote_public_key c = own_key liar"
proof -
  obtain ks where "session_keys P (x_dh P sa (x_public P sb)) (own_id a) na (own_id liar) nb = Inr ks" "length ks = 64"
    using session_keys_length [OF net] by metis
  then show ?thesis
    using handshake_with_honest [OF net json ed liar(1) _ ja jb ta, of ks initiator] liar(2,3) by auto
qed

lemma demo_net_ed: "ed_correct demo_net" "sig64 demo_net"
  by (simp_all add: ed_correct_def sig64_def demo_net_defs)

definition demo_alice :: Identity where
  "demo_alice = Identity_from_secret demo_net (Username ''alice'') (replicate 32 1)"

definition demo_bob :: Identity where
  "demo_bob = Identity_from_secret demo_net (Username ''bob'') (replicate 32 2)"

definition demo_socket :: SocketAddr where
  "demo_socket = \<lparr>sa_ip = V4 2130706433, sa_port = 4000\<rparr>"

definition demo_stream :: "bytes \<Rightarrow> TcpStream" where
  "demo_stream b = \<lparr>st_in = [(5, b)], st_out = [], st_room = None, st_clock = 0\<rparr>"

lemma demo_stream_simps [simp]:
  "st_room (demo_stream b) = None" "arriving (demo_stream b) = b" "delays (demo_stream b) = 5" "st_out (demo_stream b) = []"
  by (simp_all add: demo_stream_def arriving_def delays_def)

lemma demo_hello:
  assumes "length (own_id i) = 32" "length (own_key i) = 32"
  shows "\<exists>j. control_to_json demo_net (local_hello demo_net i demo_socket (replicate 32 k) (replicate 32 n)) = Inr j
     \<and> length j \<le> MAX_FRAME"
  using assms by (simp add: local_hello_def Let_def demo_net_defs Identity_sign_def MAX_FRAME_def
      demo_socket_def ip_bytes_def to_be_bytes_u16_def)

lemma demo_ids: "own_id demo_alice = replicate 32 1" "own_id demo_bob = replicate 32 2"
  "own_key demo_alice = replicate 32 1" "own_key demo_bob = replicate 32 2"
  by (simp_all add: demo_alice_def demo_bob_def Identity_from_secret_def Identity_from_signing_key_def Let_def
      AweId_from_public_key_def hash_def hash_input_def demo_net_defs pad32_def)

lemma demo_wf: "identity_wf demo_net demo_alice" "identity_wf demo_net demo_bob"
  by (simp_all add: demo_alice_def demo_bob_def)

theorem handshake_keys_agree_witness:
  "\<exists>ja jb ca cb. handshake demo_net (demo_stream (frame jb)) demo_alice demo_socket True (replicate 32 7) (replicate 32 8) = Inr ca
     \<and> handshake demo_net (demo_stream (frame ja)) demo_bob demo_socket False (replicate 32 9) (replicate 32 10) = Inr cb
     \<and> st_out (sc_stream ca) = frame ja \<and> st_out (sc_stream cb) = frame jb
     \<and> sc_tx ca = sc_rx cb \<and> sc_rx ca = sc_tx cb \<and> sc_remote_id ca = replicate 32 2 \<and> sc_remote_id cb = replicate 32 1"
proof -
  obtain ja where ja: "control_to_json demo_net (local_hello demo_net demo_alice demo_socket (replicate 32 7) (replicate 32 8)) = Inr ja"
      "length ja \<le> MAX_FRAME"
    using demo_hello [of demo_alice 7 8] by (auto simp: demo_ids)
  obtain jb where jb: "control_to_json demo_net (local_hello demo_net demo_bob demo_socket (replicate 32 9) (replicate 32 10)) = Inr jb"
      "length jb \<le> MAX_FRAME"
    using demo_hello [of demo_bob 9 10] by (auto simp: demo_ids)
  have ids: "own_id demo_alice \<noteq> own_id demo_bob"
    by (simp add: demo_ids)
  show ?thesis
    using handshake_keys_agree [OF demo_net_correct demo_control_json demo_net_ed demo_wf ids _ _ ja jb,
        of "demo_stream (frame jb)" "[]" "demo_stream (frame ja)" "[]"]
    by (simp add: demo_ids HELLO_TIMEOUT_def) blast
qed

theorem handshake_accepts_any_id_witness:
  "\<exists>jb c. handshake demo_net (demo_stream (frame jb)) demo_alice demo_socket False (replicate 32 7) (replicate 32 8) = Inr c
     \<and> sc_remote_id c = replicate 32 66 \<and> sc_remote_public_key c = own_key demo_bob"
proof -
  define liar where "liar = demo_bob\<lparr>id_public := (id_public demo_bob)\<lparr>ip_awe_id := AweId (replicate 32 66)\<rparr>\<rparr>"
  have liar: "own_key liar = own_key demo_bob" "own_id liar = replicate 32 66" "id_signing_key liar = id_signing_key demo_bob"
    by (simp_all add: liar_def)
  then have key: "own_key liar = ed_public demo_net (id_signing_key liar)"
    using demo_wf(2) by (simp add: identity_wf_def)
  obtain ja where ja: "control_to_json demo_net (local_hello demo_net demo_alice demo_socket (replicate 32 7) (replicate 32 8)) = Inr ja"
      "length ja \<le> MAX_FRAME"
    using demo_hello [of demo_alice 7 8] by (auto simp: demo_ids)
  obtain jb where jb: "control_to_json demo_net (local_hello demo_net liar demo_socket (replicate 32 9) (replicate 32 10)) = Inr jb"
      "length jb \<le> MAX_FRAME"
    using demo_hello [of liar 9 10] by (auto simp: demo_ids liar)
  show ?thesis
    using handshake_accepts_any_id [OF demo_net_correct demo_control_json demo_net_ed key liar(2) _ ja jb,
        of "demo_stream (frame jb)" "[]" False]
    by (simp add: demo_ids HELLO_TIMEOUT_def liar(1)) blast
qed

section \<open>Replays\<close>

definition only_peer :: "bytes \<Rightarrow> nat set \<Rightarrow> bytes \<Rightarrow> nat set" where
  "only_peer p A = (\<lambda>k. if k = p then A else {})"

lemma guard_step:
  assumes "rg.tracks g (only_peer p A)"
  shows "fst (ReplayGuard_accept g p s) \<longleftrightarrow> fresh A (unat s)"
    and "rg.tracks (snd (ReplayGuard_accept g p s)) (only_peer p (if fst (ReplayGuard_accept g p s) then insert (unat s) A else A))"
proof -
  have "bt_get (rg_states g) k = None" if "k \<noteq> p" for k
    using assms that unfolding rg.tracks_def only_peer_def
    by (auto simp: represents_def dest!: spec [of _ k] split: option.splits)
  then have "dom (bt_get (rg_states g)) \<subseteq> {p}"
    unfolding dom_def by (metis (mono_tags, lifting) mem_Collect_eq singletonI subsetI)
  then have "card (dom (bt_get (rg_states g))) \<le> 1"
    using card_mono [of "{p}"] by simp
  then have room: "bt_get (rg_states g) p \<noteq> None \<or> card (dom (bt_get (rg_states g))) < MAX_PEERS"
    by (simp add: MAX_PEERS_def)
  have "(only_peer p A)(p := insert (unat s) (only_peer p A p)) = only_peer p (insert (unat s) A)"
    by (simp add: only_peer_def fun_eq_iff)
  then show "fst (ReplayGuard_accept g p s) \<longleftrightarrow> fresh A (unat s)"
    and "rg.tracks (snd (ReplayGuard_accept g p s)) (only_peer p (if fst (ReplayGuard_accept g p s) then insert (unat s) A else A))"
    using rg.tracks_accept [OF assms room, of s] by (auto simp: only_peer_def [of p A] split: if_splits)
qed

lemma guard_start: "rg.tracks ReplayGuard_default (only_peer p {})"
  using rg_tracks_default by (simp add: only_peer_def)

text \<open>The sequence number of the frame that arrives next.\<close>

definition next_seq :: "SecureConnection \<Rightarrow> u64" where
  "next_seq c = from_be_bytes_u64 (take 8 (drop 4 (arriving (sc_stream c))))"

text \<open>Any number of receive calls, with any deadlines and any bytes arriving; \<open>ss\<close> are the sequence
  numbers of the messages delivered.\<close>

inductive receives :: "'a net_prims_scheme \<Rightarrow> SecureConnection \<Rightarrow> u64 list \<Rightarrow> SecureConnection \<Rightarrow> bool" for P where
  start: "receives P c [] c"
| delivered: "receives P c ss d \<Longrightarrow> recv P deadline d = (Inr m, e) \<Longrightarrow> receives P c (ss @ [next_seq d]) e"
| refused: "receives P c ss d \<Longrightarrow> recv P deadline d = (Inl x, e) \<Longrightarrow> receives P c ss e"
| arrives: "receives P c ss d \<Longrightarrow> receives P c ss (d\<lparr>sc_stream := (sc_stream d)\<lparr>st_in := es\<rparr>\<rparr>)"

lemma recv_guard:
  assumes "rg.tracks (sc_replay c) (only_peer (sc_remote_id c) A)" "recv P deadline c = (r, c')"
  shows "\<exists>A'. A \<subseteq> A' \<and> rg.tracks (sc_replay c') (only_peer (sc_remote_id c') A') \<and> sc_remote_id c' = sc_remote_id c
    \<and> (\<forall>m. r = Inr m \<longrightarrow> unat (next_seq c) \<notin> A \<and> unat (next_seq c) \<in> A')"
proof -
  obtain q stream where rf: "read_frame deadline (sc_stream c) = (q, stream)"
    by fastforce
  show ?thesis
  proof (cases q)
    case (Inl e)
    then show ?thesis
      using assms by (auto simp: recv_def rf)
  next
    case (Inr f)
    let ?s = "from_be_bytes_u64 (take 8 f)"
    obtain ok g where g: "ReplayGuard_accept (sc_replay c) (sc_remote_id c) ?s = (ok, g)"
      by fastforce
    have guard: "ok \<longleftrightarrow> fresh A (unat ?s)" "rg.tracks g (only_peer (sc_remote_id c) (if ok then insert (unat ?s) A else A))"
      using guard_step [OF assms(1), of ?s] by (simp_all add: g)
    show ?thesis
    proof (cases "length f < 8")
      case True
      then show ?thesis
        using assms by (auto simp: recv_def rf Inr)
    next
      case False
      obtain prefix where "length prefix = 4" "arriving (sc_stream c) = prefix @ f @ arriving stream"
        using read_frame_takes [OF rf [unfolded Inr]] by blast
      then have seq: "next_seq c = ?s"
        using False by (simp add: next_seq_def)
      have "if ok then open_frame P (c\<lparr>sc_stream := stream, sc_replay := g\<rparr>) ?s f = (r, c')
            else (r, c') = (Inl (Protocol ''replayed frame''), c\<lparr>sc_stream := stream, sc_replay := g\<rparr>)"
        using assms(2) False by (auto simp: recv_def rf Inr g Let_def)
      then have "sc_replay c' = g" "sc_remote_id c' = sc_remote_id c" "\<forall>m. r = Inr m \<longrightarrow> ok"
        using open_frame_frame(2,3) [of P "c\<lparr>sc_stream := stream, sc_replay := g\<rparr>" ?s f] by (auto split: if_splits)
      then show ?thesis
        using guard seq by (intro exI [of _ "if ok then insert (unat ?s) A else A"]) (auto simp: fresh_def)
    qed
  qed
qed

text \<open>C7. 
  On a connection as the handshake leaves it, no two delivered messages have the same sequence number,
  whatever bytes arrive in whatever order and however often a receive call fails in between.
\<close>

theorem session_refuses_replays:
  assumes "receives P c ss d" "sc_replay c = ReplayGuard_default"
  shows "distinct ss"
proof -
  have "\<exists>A. unat ` set ss \<subseteq> A \<and> distinct ss \<and> rg.tracks (sc_replay d) (only_peer (sc_remote_id d) A)"
    using assms
  proof (induction rule: receives.induct)
    case (start c)
    then show ?case
      using guard_start by auto
  next
    case (delivered c ss d deadline m e)
    then obtain A where A: "unat ` set ss \<subseteq> A" "distinct ss" "rg.tracks (sc_replay d) (only_peer (sc_remote_id d) A)"
      by blast
    then show ?case
      using recv_guard [OF A(3) delivered(2)] by fastforce
  next
    case (refused c ss d deadline x e)
    then obtain A where A: "unat ` set ss \<subseteq> A" "distinct ss" "rg.tracks (sc_replay d) (only_peer (sc_remote_id d) A)"
      by blast
    then show ?case
      using recv_guard [OF A(3) refused(2)] by blast
  qed simp
  then show ?thesis
    by blast
qed

section \<open>Delivery in order\<close>

lemma power_from_ge: "0 < p \<Longrightarrow> n \<le> power_from p n"
proof (induction p n rule: power_from.induct)
  case (1 p n)
  then show ?case
    by (subst power_from.simps) auto
qed

lemma write_frame_Inr:
  assumes "write_frame s b = (Inr u, s')"
  shows "b \<noteq> [] \<and> length b \<le> MAX_FRAME \<and> st_out s' = st_out s @ frame b"
  using assms by (auto simp: write_frame_def write_all_def frame_def Let_def split: if_splits option.splits)

text \<open>The plaintext of a frame: length, message, zeros.\<close>

definition padded :: "bytes \<Rightarrow> nat \<Rightarrow> bytes" where
  "padded j bucket = be_bytes 4 (length j) @ j @ replicate (bucket - (4 + length j)) 0"

lemma send_Inr:
  assumes "send P c m = (Inr u, c')"
  obtains j bucket e where "control_to_json P m = Inr j" "4 + length j \<le> bucket" "bucket + 16 \<le> MAX_FRAME"
    "sc_tx_seq c \<noteq> - 1" "sc_tx_seq c' = sc_tx_seq c + 1" "sc_tx c' = sc_tx c"
    "aead_seal P (sc_tx c) (nonce_of (sc_tx_seq c)) (to_be_bytes_u64 (sc_tx_seq c)) (padded j bucket) = Some e"
    "st_out (sc_stream c') = st_out (sc_stream c) @ frame (to_be_bytes_u64 (sc_tx_seq c) @ e)" "8 + length e \<le> MAX_FRAME"
proof -
  obtain j where j: "control_to_json P m = Inr j"
    using assms by (auto simp: send_def encode_def of_json_def split: sum.splits)
  let ?bucket = "power_from 1 (max (length j + 4) 256)"
  have big: "4 + length j \<le> ?bucket"
    using power_from_ge [of 1 "max (length j + 4) 256"] by simp
  have small: "?bucket + 16 \<le> MAX_FRAME" "sc_tx_seq c \<noteq> - 1"
    using assms by (auto simp: send_def encode_def j FRAME_LENGTH_PREFIX_def FRAME_PAD_MIN_def
        checked_next_power_of_two_def Let_def split: if_splits)
  have pad: "be_bytes 4 (length j) @ j @ replicate (?bucket - (FRAME_LENGTH_PREFIX + length j)) 0 = padded j ?bucket"
    by (simp add: padded_def FRAME_LENGTH_PREFIX_def)
  obtain e where e: "aead_seal P (sc_tx c) (nonce_of (sc_tx_seq c)) (to_be_bytes_u64 (sc_tx_seq c)) (padded j ?bucket) = Some e"
    using assms by (auto simp: send_def encode_def j FRAME_LENGTH_PREFIX_def FRAME_PAD_MIN_def padded_def
        checked_next_power_of_two_def Let_def split: if_splits option.splits)
  obtain r stream where w: "write_frame (sc_stream c) (to_be_bytes_u64 (sc_tx_seq c) @ e) = (r, stream)"
    by fastforce
  have "r = Inr ()" "sc_tx_seq c' = sc_tx_seq c + 1" "sc_tx c' = sc_tx c" "sc_stream c' = stream"
    using assms e w pad by (auto simp: send_def encode_def j FRAME_PAD_MIN_def FRAME_LENGTH_PREFIX_def
        checked_next_power_of_two_def Let_def split: if_splits sum.splits)
  then show thesis
    using that [OF j big small _ _ e] write_frame_Inr [of "sc_stream c" "to_be_bytes_u64 (sc_tx_seq c) @ e"] w by simp
qed

lemma recv_sent:
  assumes "arriving (sc_stream c) = frame (to_be_bytes_u64 s @ e) @ r" "8 + length e \<le> MAX_FRAME"
    and "rg.tracks (sc_replay c) (only_peer (sc_remote_id c) {0..<unat s})"
    and "aead_open P (sc_rx c) (nonce_of s) (to_be_bytes_u64 s) e = Some (padded j bucket)"
    and "4 + length j \<le> bucket" "bucket < 2 ^ 32" "decode P j = Inr m"
  obtains c' where "recv P None c = (Inr m, c')" "arriving (sc_stream c') = r" "sc_rx c' = sc_rx c"
    "rg.tracks (sc_replay c') (only_peer (sc_remote_id c') {0..<Suc (unat s)})"
proof -
  let ?f = "to_be_bytes_u64 s @ e"
  have ne: "?f \<noteq> []" "length ?f \<le> MAX_FRAME" "in_time None (sc_stream c)"
    using assms(2) by (simp_all add: in_time_def to_be_bytes_u64_def flip: length_0_conv)
  obtain stream where rf: "read_frame None (sc_stream c) = (Inr ?f, stream)" "arriving stream = r"
    by (rule read_frame_frame [OF assms(1) ne])
  have s: "from_be_bytes_u64 (take 8 ?f) = s" "take 8 ?f = to_be_bytes_u64 s" "drop 8 ?f = e"
    by (simp_all add: to_be_bytes_u64_def from_be_bytes_u64_def of_nat_from_be)
  obtain ok g where g: "ReplayGuard_accept (sc_replay c) (sc_remote_id c) s = (ok, g)"
    by fastforce
  have ok: "ok" and tr: "rg.tracks g (only_peer (sc_remote_id c) {0..<Suc (unat s)})"
    using guard_step [OF assms(3), of s] by (auto simp: g fresh_def atLeast0_lessThan_Suc)
  have j: "from_be (take 4 (padded j bucket)) = length j" "take (length j) (drop 4 (padded j bucket)) = j"
      "length (padded j bucket) = bucket"
    using assms(5,6) by (simp_all add: padded_def from_be_be_bytes)
  have "recv P None c = (Inr m, c\<lparr>sc_stream := stream, sc_replay := g, sc_last_activity := st_clock stream\<rparr>)"
    using assms(4,5,7) ok j by (simp add: recv_def rf s g open_frame_def FRAME_LENGTH_PREFIX_def Let_def)
  then show thesis
    using that rf(2) tr by simp
qed

text \<open>Sending a list of messages, stopping at the first error, and receiving a number of them.\<close>

primrec send_all :: "'a net_prims_scheme \<Rightarrow> SecureConnection \<Rightarrow> Control list \<Rightarrow> SecureConnection option" where
  "send_all P c [] = Some c"
| "send_all P c (m # ms) = (case send P c m of (Inl _, _) \<Rightarrow> None | (Inr _, c) \<Rightarrow> send_all P c ms)"

primrec recv_all :: "'a net_prims_scheme \<Rightarrow> SecureConnection \<Rightarrow> nat \<Rightarrow> (Control list \<times> SecureConnection) option" where
  "recv_all P c 0 = Some ([], c)"
| "recv_all P c (Suc n) = (case recv P None c of (Inl _, _) \<Rightarrow> None
     | (Inr m, c) \<Rightarrow> map_option (\<lambda>(ms, c). (m # ms, c)) (recv_all P c n))"

definition sendable :: "Control \<Rightarrow> bool" where
  "sendable c \<longleftrightarrow> (case c of Hello _ _ _ _ _ s _ \<Rightarrow> length s = 64 | Nodes rs \<Rightarrow> length rs \<le> MAX_NODE_RECORDS \<and>
      (\<forall>r \<in> set rs. rec_protocol_version r = VERSION \<and> length (rec_addresses r) \<le> MAX_ADDRESSES_PER_PEER) | _ \<Rightarrow> True)"

lemma send_all_out: "send_all P c ms = Some c' \<Longrightarrow> \<exists>w. st_out (sc_stream c') = st_out (sc_stream c) @ w"
proof (induction ms arbitrary: c)
  case (Cons m ms)
  then obtain u c1 where c1: "send P c m = (Inr u, c1)" "send_all P c1 ms = Some c'"
    by (auto split: prod.splits sum.splits)
  have "\<exists>w. st_out (sc_stream c1) = st_out (sc_stream c) @ w"
    by (rule send_Inr [OF c1(1)]) blast
  then show ?case
    using Cons.IH [OF c1(2)] by fastforce
qed simp

text \<open>C5. 
  Two ends of a session: whatever list of messages one end sends without an error, the other end
  receives exactly these messages in this order once the bytes arrive, and consumes exactly the bytes
  that were written.
\<close>

theorem session_delivers_in_order:
  assumes net: "net_correct P" and json: "control_json_ok P"
    and link: "sc_rx b = sc_tx a" "length (sc_tx a) = 32"
    and seq: "rg.tracks (sc_replay b) (only_peer (sc_remote_id b) {0..<unat (sc_tx_seq a)})"
    and ms: "\<forall>m \<in> set ms. sendable m" and sent: "send_all P a ms = Some a'"
    and wire: "st_out (sc_stream a') = st_out (sc_stream a) @ w" "arriving (sc_stream b) = w @ r"
  shows "\<exists>b'. recv_all P b (length ms) = Some (ms, b') \<and> arriving (sc_stream b') = r"
  using link seq ms sent wire
proof (induction ms arbitrary: a b w)
  case Nil
  then show ?case by simp
next
  case (Cons m ms)
  obtain u a1 where a1: "send P a m = (Inr u, a1)" "send_all P a1 ms = Some a'"
    using Cons.prems(5) by (auto split: prod.splits sum.splits)
  obtain j bucket e where e: "control_to_json P m = Inr j" "4 + length j \<le> bucket" "bucket + 16 \<le> MAX_FRAME"
      "sc_tx_seq a \<noteq> - 1" "sc_tx_seq a1 = sc_tx_seq a + 1" "sc_tx a1 = sc_tx a"
      "aead_seal P (sc_tx a) (nonce_of (sc_tx_seq a)) (to_be_bytes_u64 (sc_tx_seq a)) (padded j bucket) = Some e"
      "st_out (sc_stream a1) = st_out (sc_stream a) @ frame (to_be_bytes_u64 (sc_tx_seq a) @ e)" "8 + length e \<le> MAX_FRAME"
    by (rule send_Inr [OF a1(1)])
  obtain w1 where w1: "st_out (sc_stream a') = st_out (sc_stream a1) @ w1"
    using send_all_out [OF a1(2)] by blast
  then have w: "w = frame (to_be_bytes_u64 (sc_tx_seq a) @ e) @ w1"
    using Cons.prems(6) e(8) by simp
  have plain: "length (padded j bucket) = bucket" "length (nonce_of (sc_tx_seq a)) = 12"
    using e(2) by (simp_all add: padded_def nonce_of_def to_be_bytes_u64_def)
  have room: "bucket < 2 ^ 36" "bucket < 2 ^ 32"
    using e(3) by (simp_all add: MAX_FRAME_def)
  obtain e' where e': "aead_seal P (sc_tx a) (nonce_of (sc_tx_seq a)) (to_be_bytes_u64 (sc_tx_seq a)) (padded j bucket) = Some e'"
      "length e' = bucket + 16"
      "aead_open P (sc_tx a) (nonce_of (sc_tx_seq a)) (to_be_bytes_u64 (sc_tx_seq a)) e' = Some (padded j bucket)"
    using aead_seals [OF net Cons.prems(2) plain(2), of "padded j bucket" "to_be_bytes_u64 (sc_tx_seq a)"] plain(1) room(1)
    by auto
  have dec: "decode P j = Inr m"
    using Cons.prems(4) e(2,3) by (intro decode_written [OF json e(1)]) (auto simp: sendable_def)
  have opens: "aead_open P (sc_rx b) (nonce_of (sc_tx_seq a)) (to_be_bytes_u64 (sc_tx_seq a)) e = Some (padded j bucket)"
    using e(7) e'(1,3) Cons.prems(1) by simp
  have arr: "arriving (sc_stream b) = frame (to_be_bytes_u64 (sc_tx_seq a) @ e) @ w1 @ r"
    using Cons.prems(7) w by simp
  obtain b1 where b1: "recv P None b = (Inr m, b1)" "arriving (sc_stream b1) = w1 @ r" "sc_rx b1 = sc_rx b"
      "rg.tracks (sc_replay b1) (only_peer (sc_remote_id b1) {0..<Suc (unat (sc_tx_seq a))})"
    by (rule recv_sent [OF arr e(9) Cons.prems(3) opens e(2) room(2) dec])
  have "unat (sc_tx_seq a1) = Suc (unat (sc_tx_seq a))"
    using e(4,5) unat_inc [OF unat_not_max] by simp
  then have "\<exists>b'. recv_all P b1 (length ms) = Some (ms, b') \<and> arriving (sc_stream b') = r"
    using b1 e(6) Cons.prems(1,2,4) by (intro Cons.IH [OF _ _ _ _ a1(2) w1]) simp_all
  then show ?case
    using b1(1) by auto
qed

definition demo_conn :: "bytes \<Rightarrow> SecureConnection" where
  "demo_conn b = \<lparr>sc_stream = demo_stream b, sc_remote_id = replicate 32 2, sc_remote_public_key = replicate 32 2,
     sc_remote_address = demo_socket, sc_tx = replicate 32 7, sc_rx = replicate 32 7, sc_tx_seq = 0,
     sc_replay = ReplayGuard_default, sc_last_activity = 0\<rparr>"

lemma demo_conn_simps [simp]:
  "sc_rx (demo_conn b) = replicate 32 7" "sc_tx (demo_conn b) = replicate 32 7" "sc_tx_seq (demo_conn b) = 0"
  "sc_stream (demo_conn b) = demo_stream b" "sc_replay (demo_conn b) = ReplayGuard_default"
  by (simp_all add: demo_conn_def)

lemma demo_sends: "\<exists>a. send_all demo_net (demo_conn []) [Ping 5] = Some a"
proof -
  have pow: "power_from (Suc 0) 256 = 256"
    by (simp add: power_from.simps)
  show ?thesis
    by (simp add: send_def encode_def demo_conn_def demo_stream_def demo_net_defs FRAME_LENGTH_PREFIX_def MAX_FRAME_def
        FRAME_PAD_MIN_def checked_next_power_of_two_def pow to_be_bytes_u64_def nonce_of_def Let_def
        write_frame_def write_all_def)
qed

lemma demo_tracks: "rg.tracks (sc_replay (demo_conn w)) (only_peer (sc_remote_id (demo_conn w)) {0..<unat (sc_tx_seq (demo_conn []))})"
  using guard_start by simp

theorem session_delivers_in_order_witness:
  "\<exists>a b. send_all demo_net (demo_conn []) [Ping 5] = Some a
     \<and> recv_all demo_net (demo_conn (st_out (sc_stream a))) 1 = Some ([Ping 5], b) \<and> arriving (sc_stream b) = []"
proof -
  obtain a where a: "send_all demo_net (demo_conn []) [Ping 5] = Some a"
    using demo_sends by blast
  show ?thesis
    using session_delivers_in_order [OF demo_net_correct demo_control_json _ _ demo_tracks _ a,
        of "st_out (sc_stream a)" "st_out (sc_stream a)" "[]"] a
    by (auto simp: sendable_def)
qed

lemma demo_receives:
  "\<exists>w m b. recv demo_net None (demo_conn w) = (Inr m, b)"
proof -
  obtain a where a: "send_all demo_net (demo_conn []) [Ping 5] = Some a"
    using demo_sends by blast
  then obtain u where "send demo_net (demo_conn []) (Ping 5) = (Inr u, a)"
    by (auto split: prod.splits sum.splits)
  then obtain j bucket e where e: "control_to_json demo_net (Ping 5) = Inr j" "4 + length j \<le> bucket" "bucket + 16 \<le> MAX_FRAME"
      "aead_seal demo_net (replicate 32 7) (nonce_of 0) (to_be_bytes_u64 0) (padded j bucket) = Some e" "8 + length e \<le> MAX_FRAME"
    by (auto elim: send_Inr)
  have len: "length (nonce_of 0) = 12" "length (padded j bucket) < 2 ^ 36" "bucket < 2 ^ 32"
    using e(2,3) by (simp_all add: nonce_of_def to_be_bytes_u64_def padded_def MAX_FRAME_def)
  have opens: "aead_open demo_net (sc_rx (demo_conn w)) (nonce_of 0) (to_be_bytes_u64 0) e = Some (padded j bucket)" for w
    using aead_seals [OF demo_net_correct _ len(1,2), of "replicate 32 7" "to_be_bytes_u64 0"] e(4) by auto
  have dec: "decode demo_net j = Inr (Ping 5)"
    using e(2,3) by (intro decode_written [OF demo_control_json e(1)]) auto
  let ?w = "frame (to_be_bytes_u64 0 @ e)"
  have arr: "arriving (sc_stream (demo_conn ?w)) = frame (to_be_bytes_u64 0 @ e) @ []"
    by simp
  have tr: "rg.tracks (sc_replay (demo_conn ?w)) (only_peer (sc_remote_id (demo_conn ?w)) {0..<unat (0 :: u64)})"
    using demo_tracks by simp
  obtain b where "recv demo_net None (demo_conn ?w) = (Inr (Ping 5), b)"
    by (rule recv_sent [OF arr e(5) tr opens e(2) len(3) dec])
  then show ?thesis
    by blast
qed

theorem session_refuses_replays_witness:
  "\<exists>w s d. receives demo_net (demo_conn w) [s] d \<and> distinct [s]"
proof -
  obtain w m b where r: "recv demo_net None (demo_conn w) = (Inr m, b)"
    using demo_receives by blast
  have d: "receives demo_net (demo_conn w) ([] @ [next_seq (demo_conn w)]) b"
    by (rule receives.delivered [OF receives.start r])
  show ?thesis
    using d session_refuses_replays [OF d] by auto
qed

section \<open>Limits of the session\<close>

text \<open>
  A read that times out in the middle of a frame drops the bytes it had taken: when the length prefix
  and a part \<open>p\<close> of a frame arrive before the deadline and the rest \<open>q\<close> after it, the receive call
  reports a timeout and the next call reads its length prefix from the middle of the frame.
\<close>

theorem timeout_loses_frame_bytes:
  assumes "b = p @ q" "q \<noteq> []" "p \<noteq> []" "length b \<le> MAX_FRAME"
    and "st_in s = (d, be_bytes 4 (length b) @ p) # (late, q) # rest" "d \<le> limit" "limit < d + late"
  shows "\<exists>s'. read_frame (within limit s) s = (Inl Timeout, s') \<and> arriving s' = q @ concat (map snd rest)
    \<and> st_clock s' = st_clock s + limit"
proof -
  have n: "from_be (be_bytes 4 (length b)) = length b"
    using assms(4) by (simp add: from_be_be_bytes MAX_FRAME_def)
  have pre: "read_exact (within limit s) 4 s =
      (Inr (be_bytes 4 (length b)), s\<lparr>st_in := (0, p) # (late, q) # rest, st_clock := st_clock s + d\<rparr>)"
    using assms(5,6) by (simp add: read_exact_def within_def)
  have len: "length b = length p + length q" "0 < length q"
    using assms(1,2) by simp_all
  have body: "read_exact (within limit s) (length b) (s\<lparr>st_in := (0, p) # (late, q) # rest, st_clock := st_clock s + d\<rparr>)
      = (Inl Timeout, s\<lparr>st_in := (d + late - limit, q) # rest, st_clock := st_clock s + limit\<rparr>)"
    using assms(6,7) len by (simp add: read_exact_def within_def)
  have "length b \<noteq> 0"
    using len by simp
  then show ?thesis
    using assms(4) by (simp add: read_frame_def pre n body Let_def arriving_def)
qed

theorem timeout_loses_frame_bytes_witness:
  "\<exists>s'. read_frame (within 20 \<lparr>st_in = [(5, be_bytes 4 (Suc 2) @ [9]), (30, [8, 7])], st_out = [], st_room = None, st_clock = 0\<rparr>)
       \<lparr>st_in = [(5, be_bytes 4 (Suc 2) @ [9]), (30, [8, 7])], st_out = [], st_room = None, st_clock = 0\<rparr> = (Inl Timeout, s')
     \<and> arriving s' = [8, 7]"
  using timeout_loses_frame_bytes [of "[9, 8, 7]" "[9]" "[8, 7]"
      "\<lparr>st_in = [(5, be_bytes 4 (Suc 2) @ [9]), (30, [8, 7])], st_out = [], st_room = None, st_clock = 0\<rparr>" 5 30 "[]" 20]
  by (auto simp: MAX_FRAME_def numeral_2_eq_2)

text \<open>
  A data message can only be sent when its payload has less than 4 MiB: the message is padded to a
  power of two below the frame limit and JSON takes at least two characters for a byte. The check of
  \<^verbatim>\<open>send_data\<close> admits 8 MiB.
\<close>

lemma power_from_power: "\<exists>k. p = 2 ^ k \<Longrightarrow> \<exists>k. power_from p n = 2 ^ k"
proof (induction p n rule: power_from.induct)
  case (1 p n)
  then show ?case
    by (subst power_from.simps) (auto simp flip: power_Suc)
qed

lemma data_payload_limit:
  assumes json: "control_json_ok P" and sent: "send_data P c stream payload = (Inr u, c')"
  shows "length payload < 4 * 1024 * 1024"
proof -
  have "send P c (Data stream payload) = (Inr u, c')"
    using sent by (simp add: send_data_def split: if_splits)
  then obtain j where j: "control_to_json P (Data stream payload) = Inr j"
      "power_from 1 (max (length j + 4) 256) + 16 \<le> MAX_FRAME"
    by (auto simp: send_def encode_def of_json_def FRAME_LENGTH_PREFIX_def FRAME_PAD_MIN_def
        checked_next_power_of_two_def split: sum.splits if_splits)
  obtain k where k: "power_from 1 (max (length j + 4) 256) = 2 ^ k"
    using power_from_power [of 1] by (metis power_0)
  have "(2 :: nat) ^ k < 2 ^ 24"
    using j(2) unfolding k MAX_FRAME_def by simp
  then have "k < 24"
    by (rule power_less_imp_less_exp [rotated]) simp
  then have "k \<le> 23"
    by simp
  then have "(2 :: nat) ^ k \<le> 2 ^ 23"
    by (rule power_increasing) simp
  moreover have "length j + 4 \<le> 2 ^ k"
    using power_from_ge [of 1 "max (length j + 4) 256"] unfolding k by simp
  moreover have "2 * length payload \<le> length j"
    using json j(1) unfolding control_json_ok_def by blast
  ultimately show ?thesis
    by simp
qed

end
