(* ===== verification/Net_Node.thy ===== *)
theory Net_Node
  imports Session Shield
begin

text \<open>
  The peer-to-peer node of \<^verbatim>\<open>core/src/network.rs\<close>: the routing table, the bounded peer table, the
  connection handler, admission of connections, outgoing connections, delivery and iterative lookup.

  The node's tables are shared by concurrent tasks through one lock each. The handler of a connection
  is a loop over \<open>handle_iteration\<close>; \<open>env\<close> is what the other tasks do to the node before each
  iteration. \<^verbatim>\<open>take_inbox\<close> takes two locks one after the other, so it is two operations. Hash maps are
  ordered maps: where the source takes the first of several records with the smallest time, the model
  takes the one with the smallest identifier. The times that \<^verbatim>\<open>now()\<close> returns and the streams that
  connecting gives are arguments.
\<close>

section \<open>Limits\<close>

definition MAX_CONCURRENT_CONNECTIONS :: nat where
  "MAX_CONCURRENT_CONNECTIONS = 1024"
definition MAX_PEERS_PER_RESPONSE :: nat where
  "MAX_PEERS_PER_RESPONSE = 64"
definition MAX_ROUTING_RECORDS :: nat where
  "MAX_ROUTING_RECORDS = 8192"
definition MAX_PEER_RECORDS :: nat where
  "MAX_PEER_RECORDS = 8192"
definition MAX_ACTIVE_CONNECTIONS :: nat where
  "MAX_ACTIVE_CONNECTIONS = 512"
definition MAX_INBOX_MESSAGES :: nat where
  "MAX_INBOX_MESSAGES = 4096"
definition MAX_INBOX_BYTES :: nat where
  "MAX_INBOX_BYTES = 64 * 1024 * 1024"
definition DISCOVERY_ROUNDS :: nat where
  "DISCOVERY_ROUNDS = 4"
definition DISCOVERY_ALPHA :: nat where
  "DISCOVERY_ALPHA = 3"
definition PEER_RATE_CAPACITY :: u64 where
  "PEER_RATE_CAPACITY = 256"
definition PEER_RATE_REFILL_PER_SECOND :: u64 where
  "PEER_RATE_REFILL_PER_SECOND = 128"
definition PREAUTH_MAX_IPS :: nat where
  "PREAUTH_MAX_IPS = 1024"
definition PREAUTH_RATE_CAPACITY :: u64 where
  "PREAUTH_RATE_CAPACITY = 32"
definition PREAUTH_RATE_REFILL_PER_SECOND :: u64 where
  "PREAUTH_RATE_REFILL_PER_SECOND = 16"
definition HEARTBEAT :: nat where
  "HEARTBEAT = 20 * 1000000000"

section \<open>Routing table and peer table\<close>

definition id_distance :: "bytes \<Rightarrow> bytes \<Rightarrow> bytes" where
  "id_distance a b = map2 (XOR) a b"

record RoutingTable =
  rt_peers :: "(bytes, PeerRecord) btree_map"

definition RoutingTable_insert :: "RoutingTable \<Rightarrow> PeerRecord \<Rightarrow> RoutingTable" where
  "RoutingTable_insert self p =
     (let peers = bt_insert (rec_awe_id p) p (rt_peers self) in
      if length peers > MAX_ROUTING_RECORDS then
        case min_by_key (\<lambda>(i, r). rec_last_seen_unix r) peers of
          None \<Rightarrow> self\<lparr>rt_peers := peers\<rparr>
        | Some (evict, _) \<Rightarrow> self\<lparr>rt_peers := bt_remove evict peers\<rparr>
      else self\<lparr>rt_peers := peers\<rparr>)"

definition RoutingTable_remove :: "RoutingTable \<Rightarrow> bytes \<Rightarrow> RoutingTable" where
  "RoutingTable_remove self i = self\<lparr>rt_peers := bt_remove i (rt_peers self)\<rparr>"

definition RoutingTable_all :: "RoutingTable \<Rightarrow> PeerRecord list" where
  "RoutingTable_all self = map snd (rt_peers self)"

text \<open>
  \<^verbatim>\<open>select_nth_unstable_by_key\<close> of the standard library reorders a slice so that the element at the index
  is the one a sort would put there, with none greater before it and none smaller after it; nothing more
  is promised. It is an argument of \<open>closest_by\<close>, which is the body of \<^verbatim>\<open>closest\<close>: the index is the last
  place kept, the rest is truncated, and what is kept is sorted. The node runs it with a quickselect;
  \<open>Net_Node_Props\<close> shows that every selection with the promised behaviour gives the same result.
\<close>

type_synonym selection = "nat \<Rightarrow> (PeerRecord \<Rightarrow> bytes) \<Rightarrow> PeerRecord list \<Rightarrow> PeerRecord list"

definition closest_by :: "selection \<Rightarrow> RoutingTable \<Rightarrow> bytes \<Rightarrow> nat \<Rightarrow> PeerRecord list" where
  "closest_by select_nth self target limit =
     (if limit = 0 \<or> rt_peers self = [] then []
      else
        let v = map snd (rt_peers self);
            n = min limit (length v);
            v = (if n < length v
                 then let nth = n - 1 in take n (select_nth nth (\<lambda>p. id_distance (rec_awe_id p) target) v)
                 else v)
        in sort_key (\<lambda>p. id_distance (rec_awe_id p) target) v)"

fun quickselect :: "nat \<Rightarrow> ('a \<Rightarrow> 'k :: linorder) \<Rightarrow> 'a list \<Rightarrow> 'a list" where
  "quickselect i key [] = []"
| "quickselect i key (x # xs) =
     (let below = filter (\<lambda>y. key y < key x) xs; above = filter (\<lambda>y. \<not> key y < key x) xs
      in if i < length below then quickselect i key below @ x # above
         else if i = length below then below @ x # above
         else below @ x # quickselect (i - length below - 1) key above)"

definition closest :: "RoutingTable \<Rightarrow> bytes \<Rightarrow> nat \<Rightarrow> PeerRecord list" where
  "closest = closest_by quickselect"

fun merge_addresses :: "SocketAddr list \<Rightarrow> SocketAddr list \<Rightarrow> SocketAddr list" where
  "merge_addresses new [] = new"
| "merge_addresses new (address # old) =
     (if length new \<ge> MAX_ADDRESSES_PER_PEER then new
      else merge_addresses (if address \<in> set new then new else new @ [address]) old)"

definition insert_peer_bounded :: "(bytes, PeerRecord) btree_map \<Rightarrow> PeerRecord \<Rightarrow> (bytes, PeerRecord) btree_map" where
  "insert_peer_bounded peers record =
     (case bt_get peers (rec_awe_id record) of
        Some existing \<Rightarrow>
          bt_insert (rec_awe_id record)
            (record\<lparr>rec_addresses := merge_addresses (rec_addresses record) (rec_addresses existing),
                    rec_last_seen_unix := max (rec_last_seen_unix record) (rec_last_seen_unix existing)\<rparr>) peers
      | None \<Rightarrow>
          let peers = (if length peers \<ge> MAX_PEER_RECORDS then
                         case min_by_key rec_last_seen_unix (map snd peers) of
                           None \<Rightarrow> peers | Some p \<Rightarrow> bt_remove (rec_awe_id p) peers
                       else peers)
          in bt_insert (rec_awe_id record) record peers)"

section \<open>The node\<close>

record NetNode =
  nn_identity :: Identity
  nn_listen_addr :: SocketAddr
  nn_routing :: RoutingTable
  nn_peers :: "(bytes, PeerRecord) btree_map"
  nn_admission :: PeerAdmission
  nn_preauth :: IpAdmission
  nn_defense :: PeerDefense
  nn_active :: "(bytes, SecureConnection) btree_map"
  nn_inbox :: "(bytes \<times> u32 \<times> bytes) list"
  nn_inbox_bytes :: nat

definition Node_new :: "Identity \<Rightarrow> SocketAddr \<Rightarrow> NetNode" where
  "Node_new identity listen_addr =
     \<lparr>nn_identity = identity, nn_listen_addr = listen_addr, nn_routing = \<lparr>rt_peers = []\<rparr>, nn_peers = [],
      nn_admission = PeerAdmission_new MAX_CONCURRENT_CONNECTIONS PEER_RATE_CAPACITY PEER_RATE_REFILL_PER_SECOND,
      nn_preauth = IpAdmission_new PREAUTH_MAX_IPS PREAUTH_RATE_CAPACITY PREAUTH_RATE_REFILL_PER_SECOND,
      nn_defense = PeerDefense_default, nn_active = [], nn_inbox = [], nn_inbox_bytes = 0\<rparr>"

definition node_descriptor :: "'a prims_scheme \<Rightarrow> NetNode \<Rightarrow> string result" where
  "node_descriptor P self = format_node_descriptor P (aweid_bytes (ip_awe_id (id_public (nn_identity self))))"

definition node_id :: "NetNode \<Rightarrow> bytes" where
  "node_id self = aweid_bytes (ip_awe_id (id_public (nn_identity self)))"

definition is_unspecified :: "IpAddr \<Rightarrow> bool" where
  "is_unspecified ip = (case ip of V4 a \<Rightarrow> a = 0 | V6 a \<Rightarrow> a = 0)"

definition peer_record :: "SecureConnection \<Rightarrow> IpAddr \<Rightarrow> u64 \<Rightarrow> PeerRecord" where
  "peer_record c ip now =
     \<lparr>rec_awe_id = sc_remote_id c, rec_public_key = sc_remote_public_key c,
      rec_addresses = [if is_unspecified (sa_ip (sc_remote_address c))
                       then \<lparr>sa_ip = ip, sa_port = sa_port (sc_remote_address c)\<rparr> else sc_remote_address c],
      rec_protocol_version = VERSION, rec_last_seen_unix = now\<rparr>"

definition learn_peer :: "NetNode \<Rightarrow> PeerRecord \<Rightarrow> NetNode" where
  "learn_peer self r =
     self\<lparr>nn_routing := RoutingTable_insert (nn_routing self) r, nn_peers := insert_peer_bounded (nn_peers self) r\<rparr>"

definition strike_peer :: "NetNode \<Rightarrow> bytes \<Rightarrow> u64 \<Rightarrow> NetNode" where
  "strike_peer self peer now = self\<lparr>nn_defense := snd (PeerDefense_strike (nn_defense self) peer now)\<rparr>"

text \<open>The part of \<^verbatim>\<open>handle\<close> before the loop: whether the connection is kept.\<close>

definition handle_admit :: "NetNode \<Rightarrow> SecureConnection \<Rightarrow> IpAddr \<Rightarrow> (nat \<Rightarrow> u64) \<Rightarrow> bool \<times> NetNode" where
  "handle_admit self c ip now =
     (let (allowed, admission) = PeerAdmission_allow (nn_admission self) (sc_remote_id c) 1 (now 0);
          self = self\<lparr>nn_admission := admission\<rparr>
      in if \<not> allowed then (False, strike_peer self (sc_remote_id c) (now 1))
         else
           let (decision, defense) = PeerDefense_check (nn_defense self) (sc_remote_id c) (now 1);
               self = self\<lparr>nn_defense := defense\<rparr>
           in if decision = Banned \<or> decision = Quarantined then (False, self)
              else (True, learn_peer self (peer_record c ip (now 2))))"

fun message_cost :: "Control \<Rightarrow> u64" where
  "message_cost (Ping _) = 1"
| "message_cost (Pong _) = 1"
| "message_cost (FindNode _) = 4"
| "message_cost (Nodes records) = 4 + of_nat (length records)"
| "message_cost (Data _ payload) = 1 + of_nat (length payload) div 4096"
| "message_cost (DataAck _ _) = 1"
| "message_cost (Hello _ _ _ _ _ _ _) = PEER_RATE_CAPACITY + 1"

definition deliver :: "NetNode \<Rightarrow> bytes \<Rightarrow> u32 \<Rightarrow> bytes \<Rightarrow> bool \<times> NetNode" where
  "deliver self from stream payload =
     (let message_bytes = length payload in
      if message_bytes > MAX_INBOX_BYTES \<or> nn_inbox_bytes self > MAX_INBOX_BYTES - message_bytes then (False, self)
      else if length (nn_inbox self) \<ge> MAX_INBOX_MESSAGES then (False, self)
      else (True, self\<lparr>nn_inbox := nn_inbox self @ [(from, stream, payload)],
                       nn_inbox_bytes := nn_inbox_bytes self + message_bytes\<rparr>))"

definition reply :: "'a net_prims_scheme \<Rightarrow> NetNode \<Rightarrow> SecureConnection \<Rightarrow> Control \<Rightarrow> bool \<times> NetNode \<times> SecureConnection" where
  "reply P self c m = (case send P c m of (Inl _, c) \<Rightarrow> (False, self, c) | (Inr _, c) \<Rightarrow> (True, self, c))"

definition handle_message ::
  "'a net_prims_scheme \<Rightarrow> NetNode \<Rightarrow> SecureConnection \<Rightarrow> Control \<Rightarrow> (nat \<Rightarrow> u64) \<Rightarrow> bool \<times> NetNode \<times> SecureConnection" where
  "handle_message P self c message now =
     (let (allowed, admission) = PeerAdmission_allow (nn_admission self) (sc_remote_id c) (message_cost message) (now 0);
          self = self\<lparr>nn_admission := admission\<rparr>
      in if \<not> allowed then (False, strike_peer self (sc_remote_id c) (now 1), c)
         else case message of
           Ping sequence \<Rightarrow> reply P self c (Pong sequence)
         | Pong _ \<Rightarrow> (True, self, c)
         | FindNode target \<Rightarrow> reply P self c (Nodes (closest (nn_routing self) target MAX_PEERS_PER_RESPONSE))
         | Data stream payload \<Rightarrow>
             let (accepted, self) = deliver self (sc_remote_id c) stream payload in
             if \<not> accepted then (False, self, c) else reply P self c (DataAck stream (of_nat (length payload)))
         | DataAck _ _ \<Rightarrow> (True, self, c)
         | Nodes _ \<Rightarrow> (False, self, c)
         | Hello _ _ _ _ _ _ _ \<Rightarrow> (False, self, c))"

text \<open>One iteration of the loop: whether it goes on, the node, the connection and the heartbeat number.\<close>

definition handle_iteration ::
  "'a net_prims_scheme \<Rightarrow> NetNode \<Rightarrow> SecureConnection \<Rightarrow> u64 \<Rightarrow> (nat \<Rightarrow> u64) \<Rightarrow> bool \<times> NetNode \<times> SecureConnection \<times> u64" where
  "handle_iteration P self c seq now =
     (case recv P (within HEARTBEAT (sc_stream c)) c of
        (Inr message, c) \<Rightarrow> (let (continue, self, c) = handle_message P self c message now in (continue, self, c, seq))
      | (Inl Timeout, c) \<Rightarrow>
          if is_idle c then (False, self, c, seq)
          else (case ping P c seq of (Inl _, c) \<Rightarrow> (False, self, c, seq) | (Inr _, c) \<Rightarrow> (True, self, c, seq + 1))
      | (Inl _, c) \<Rightarrow> (False, strike_peer self (sc_remote_id c) (now 0), c, seq))"

lemma send_same:
  "send P c m = (r, c') \<Longrightarrow> in_bytes c' = in_bytes c \<and> delays (sc_stream c') = delays (sc_stream c)"
  by (metis send_frame(1,6) snd_conv)

lemma reply_frame:
  "reply P self c m = (ok, self', c') \<Longrightarrow> in_bytes c' = in_bytes c \<and> delays (sc_stream c') = delays (sc_stream c) \<and> self' = self"
  by (auto simp: reply_def split: prod.splits sum.splits dest: send_same)

lemma handle_message_connection:
  "handle_message P self c m now = (ok, self', c') \<Longrightarrow>
     in_bytes c' = in_bytes c \<and> delays (sc_stream c') = delays (sc_stream c)"
  by (auto simp: handle_message_def Let_def split: prod.splits if_splits Control.splits dest: reply_frame)

lemma handle_iteration_shrinks:
  assumes "handle_iteration P self c seq now = (True, self', c', seq')"
  shows "in_bytes c' + delays (sc_stream c') < in_bytes c + delays (sc_stream c)"
proof -
  obtain r c1 where r: "recv P (within HEARTBEAT (sc_stream c)) c = (r, c1)"
    by fastforce
  have same: "in_bytes c' = in_bytes c1 \<and> delays (sc_stream c') = delays (sc_stream c1)"
    and kind: "r = Inl Timeout \<or> (\<exists>m. r = Inr m)"
    using assms
    by (auto simp: handle_iteration_def r ping_def split: sum.splits NetworkError.splits prod.splits if_splits
        dest: send_same handle_message_connection)
  then show ?thesis
    using recv_clock_shrinks [OF r _ kind] by (simp add: HEARTBEAT_def)
qed

function handle_loop ::
  "'a net_prims_scheme \<Rightarrow> (nat \<Rightarrow> NetNode \<Rightarrow> NetNode) \<Rightarrow> (nat \<Rightarrow> nat \<Rightarrow> u64) \<Rightarrow> nat \<Rightarrow> NetNode \<Rightarrow> SecureConnection \<Rightarrow> u64
   \<Rightarrow> nat \<times> NetNode \<times> SecureConnection" where
  "handle_loop P env now k self c seq =
     (case handle_iteration P (env k self) c seq (now k) of
        (continue, self, c, seq) \<Rightarrow>
          if continue then handle_loop P env now (k + 1) self c seq else (k + 1, self, c))"
  by auto
termination
  by (relation "measure (\<lambda>(P, env, now, k, self, c, seq). in_bytes c + delays (sc_stream c))")
    (auto dest: handle_iteration_shrinks [OF sym])

declare handle_loop.simps [simp del]

definition touch :: "bytes \<Rightarrow> u64 \<Rightarrow> (bytes, PeerRecord) btree_map \<Rightarrow> (bytes, PeerRecord) btree_map" where
  "touch i now m = (case bt_get m i of None \<Rightarrow> m | Some r \<Rightarrow> bt_insert i (r\<lparr>rec_last_seen_unix := now\<rparr>) m)"

text \<open>After the loop the two records are touched, each if its lock is free.\<close>

definition handle_finish :: "NetNode \<Rightarrow> bytes \<Rightarrow> bool \<Rightarrow> bool \<Rightarrow> (nat \<Rightarrow> u64) \<Rightarrow> NetNode" where
  "handle_finish self i peers_free routing_free now =
     (let self = (if peers_free then self\<lparr>nn_peers := touch i (now 0) (nn_peers self)\<rparr> else self) in
      if routing_free then self\<lparr>nn_routing := \<lparr>rt_peers = touch i (now 1) (rt_peers (nn_routing self))\<rparr>\<rparr> else self)"

definition node_handle ::
  "'a net_prims_scheme \<Rightarrow> (nat \<Rightarrow> NetNode \<Rightarrow> NetNode) \<Rightarrow> (nat \<Rightarrow> nat \<Rightarrow> u64) \<Rightarrow> NetNode \<Rightarrow> TcpStream \<Rightarrow> IpAddr
   \<Rightarrow> bytes \<Rightarrow> bytes \<Rightarrow> bool \<Rightarrow> bool \<Rightarrow> NetNode" where
  "node_handle P env now self stream ip secret nonce peers_free routing_free =
     (case handshake P stream (nn_identity self) (nn_listen_addr self) False secret nonce of
        Inl _ \<Rightarrow> self
      | Inr c \<Rightarrow>
          let (kept, self) = handle_admit self c ip (now 0) in
          if \<not> kept then self
          else let (k, self, c) = handle_loop P env now 1 self c 0
               in handle_finish self (sc_remote_id c) peers_free routing_free (now k))"

text \<open>A connection that \<^verbatim>\<open>listen\<close> accepts: whether a handler is started, and the permits left.\<close>

definition listen_accept :: "NetNode \<Rightarrow> nat \<Rightarrow> IpAddr \<Rightarrow> u64 \<Rightarrow> bool \<times> nat \<times> NetNode" where
  "listen_accept self permits ip now =
     (if permits = 0 then (False, permits, self)
      else let (allowed, preauth) = IpAdmission_allow (nn_preauth self) ip now;
               self = self\<lparr>nn_preauth := preauth\<rparr>
           in if allowed then (True, permits - 1, self) else (False, permits, self))"

section \<open>Outgoing connections\<close>

text \<open>What connecting to an address gives: the stream or the error, and the random secret and nonce.\<close>

type_synonym dialer = "SocketAddr \<Rightarrow> TcpStream net \<times> bytes \<times> bytes"

definition connect :: "'a net_prims_scheme \<Rightarrow> dialer \<Rightarrow> NetNode \<Rightarrow> SocketAddr \<Rightarrow> SecureConnection net" where
  "connect P dial self address =
     (case dial address of
        (Inl e, _, _) \<Rightarrow> Inl e
      | (Inr s, secret, nonce) \<Rightarrow> handshake P s (nn_identity self) (nn_listen_addr self) True secret nonce)"

fun learn_records :: "NetNode \<Rightarrow> PeerRecord list \<Rightarrow> nat \<times> NetNode" where
  "learn_records self [] = (0, self)"
| "learn_records self (x # xs) =
     (if rec_awe_id x = node_id self then learn_records self xs
      else let (n, self) = learn_records (learn_peer self x) xs in (n + 1, self))"

definition cache_connection :: "NetNode \<Rightarrow> bytes \<Rightarrow> SecureConnection \<Rightarrow> NetNode" where
  "cache_connection self i c =
     (if length (nn_active self) < MAX_ACTIVE_CONNECTIONS then self\<lparr>nn_active := bt_insert i c (nn_active self)\<rparr>
      else self)"

definition bootstrap_seed :: "'a net_prims_scheme \<Rightarrow> dialer \<Rightarrow> NetNode \<Rightarrow> SocketAddr \<Rightarrow> u64 \<Rightarrow> nat \<times> NetNode" where
  "bootstrap_seed P dial self address now =
     (case connect P dial self address of
        Inl _ \<Rightarrow> (0, self)
      | Inr c \<Rightarrow>
          let self = learn_peer self (peer_record c (sa_ip address) now);
              (_, c) = send P c (FindNode (node_id self));
              (r, c) = recv P (within HELLO_TIMEOUT (sc_stream c)) c;
              (discovered, self) = (case r of Inr (Nodes records) \<Rightarrow> learn_records self records | _ \<Rightarrow> (0, self))
          in (discovered, cache_connection self (sc_remote_id c) c))"

text \<open>The heartbeat task of a cached connection.\<close>

definition heartbeat :: "'a net_prims_scheme \<Rightarrow> NetNode \<Rightarrow> bytes \<Rightarrow> u64 \<Rightarrow> NetNode" where
  "heartbeat P self i now =
     (case bt_get (nn_active self) i of
        None \<Rightarrow> self
      | Some c \<Rightarrow>
          (case ping_roundtrip P c now of
             (Inl _, _) \<Rightarrow> self\<lparr>nn_active := bt_remove i (nn_active self)\<rparr>
           | (Inr _, c) \<Rightarrow> self\<lparr>nn_active := bt_insert i c (nn_active self)\<rparr>))"

definition closest_peers :: "NetNode \<Rightarrow> bytes \<Rightarrow> nat \<Rightarrow> PeerRecord list" where
  "closest_peers self target limit = closest (nn_routing self) target limit"

definition node_peers :: "NetNode \<Rightarrow> PeerRecord list" where
  "node_peers self = map snd (nn_peers self)"

text \<open>Asking one peer for nodes: its addresses in turn, until one answers with records.\<close>

fun query_peer :: "'a net_prims_scheme \<Rightarrow> dialer \<Rightarrow> NetNode \<Rightarrow> bytes \<Rightarrow> SocketAddr list \<Rightarrow> PeerRecord list" where
  "query_peer P dial self target [] = []"
| "query_peer P dial self target (address # addresses) =
     (case connect P dial self address of
        Inl _ \<Rightarrow> query_peer P dial self target addresses
      | Inr c \<Rightarrow>
          (case send P c (FindNode target) of
             (Inl _, _) \<Rightarrow> query_peer P dial self target addresses
           | (Inr _, c) \<Rightarrow>
               (case recv P None c of
                  (Inr (Nodes records), _) \<Rightarrow> records
                | _ \<Rightarrow> query_peer P dial self target addresses)))"

fun absorb :: "NetNode \<Rightarrow> bool \<Rightarrow> PeerRecord list \<Rightarrow> bool \<times> NetNode" where
  "absorb self discovered [] = (discovered, self)"
| "absorb self discovered (record # records) =
     (if rec_awe_id record = node_id self then absorb self discovered records
      else absorb (learn_peer self record) (discovered \<or> \<not> bt_contains (nn_peers self) (rec_awe_id record)) records)"

text \<open>The rounds of a lookup; the answers of a round are absorbed in the order of the queried peers,
  and \<open>dials\<close> gives what connecting does for each round and peer.\<close>

primrec lookup_rounds ::
  "nat \<Rightarrow> 'a net_prims_scheme \<Rightarrow> (nat \<Rightarrow> bytes \<Rightarrow> dialer) \<Rightarrow> bytes \<Rightarrow> nat \<Rightarrow> bytes list \<Rightarrow> NetNode \<Rightarrow> NetNode" where
  "lookup_rounds 0 P dials target alpha queried self = self"
| "lookup_rounds (Suc n) P dials target alpha queried self =
     (let candidates = closest_peers self target (alpha * 4);
          batch = take alpha (filter (\<lambda>peer. rec_awe_id peer \<notin> set queried \<and> rec_addresses peer \<noteq> []) candidates)
      in if batch = [] then self
         else
           let queried = queried @ map rec_awe_id batch;
               answers = map (\<lambda>peer. query_peer P (dials n (rec_awe_id peer)) self target (rec_addresses peer)) batch;
               (discovered, self) = absorb self False (concat answers)
           in if \<not> discovered then self else lookup_rounds n P dials target alpha queried self)"

definition find_nodes_iterative ::
  "'a net_prims_scheme \<Rightarrow> (nat \<Rightarrow> bytes \<Rightarrow> dialer) \<Rightarrow> NetNode \<Rightarrow> bytes \<Rightarrow> nat \<Rightarrow> nat \<Rightarrow> PeerRecord list \<times> NetNode" where
  "find_nodes_iterative P dials self target alpha max_rounds =
     (let alpha = max 1 (min alpha 8);
          max_rounds = max 1 (min max_rounds 16);
          self = lookup_rounds max_rounds P dials target alpha [] self
      in (closest_peers self target (alpha * 8), self))"

fun bootstrap_seeds :: "'a net_prims_scheme \<Rightarrow> (nat \<Rightarrow> dialer) \<Rightarrow> (nat \<Rightarrow> u64) \<Rightarrow> nat \<Rightarrow> SocketAddr list \<Rightarrow> NetNode \<Rightarrow> nat \<times> NetNode" where
  "bootstrap_seeds P dial now k [] self = (0, self)"
| "bootstrap_seeds P dial now k (address # addresses) self =
     (let (n, self) = bootstrap_seed P (dial k) self address (now k);
          (m, self) = bootstrap_seeds P dial now (k + 1) addresses self
      in (n + m, self))"

definition bootstrap ::
  "'a net_prims_scheme \<Rightarrow> (nat \<Rightarrow> dialer) \<Rightarrow> (nat \<Rightarrow> bytes \<Rightarrow> dialer) \<Rightarrow> (nat \<Rightarrow> u64) \<Rightarrow> NetNode \<Rightarrow> SocketAddr list \<Rightarrow> nat \<times> NetNode" where
  "bootstrap P dial dials now self addresses =
     (let (found, self) = bootstrap_seeds P dial now 0 (take 64 addresses) self;
          (discovered, self) = find_nodes_iterative P dials self (node_id self) DISCOVERY_ALPHA DISCOVERY_ROUNDS
      in (found + length discovered, self))"

text \<open>One tick of the discovery loop: the seeds and up to 32 known addresses, sorted, without repetitions.\<close>

definition discovery_candidates :: "SocketAddr list \<Rightarrow> NetNode \<Rightarrow> SocketAddr list" where
  "discovery_candidates seeds self =
     remdups_adj (sort_key (\<lambda>a. (sa_ip a, sa_port a)) (seeds @ take 32 (concat (map rec_addresses (node_peers self)))))"

definition discovery_tick ::
  "'a net_prims_scheme \<Rightarrow> (nat \<Rightarrow> dialer) \<Rightarrow> (nat \<Rightarrow> bytes \<Rightarrow> dialer) \<Rightarrow> (nat \<Rightarrow> u64) \<Rightarrow> NetNode \<Rightarrow> SocketAddr list \<Rightarrow> NetNode" where
  "discovery_tick P dial dials now self seeds =
     (let candidates = discovery_candidates seeds self in
      if candidates = [] then self else snd (bootstrap P dial dials now self candidates))"

definition send_on ::
  "'a net_prims_scheme \<Rightarrow> NetNode \<Rightarrow> bytes \<Rightarrow> SecureConnection \<Rightarrow> u32 \<Rightarrow> bytes \<Rightarrow> nat net \<times> NetNode" where
  "send_on P self peer_id c stream payload =
     (case send_data P c stream payload of
        (Inl e, _) \<Rightarrow> (Inl e, self\<lparr>nn_active := bt_remove peer_id (nn_active self)\<rparr>)
      | (Inr _, c') \<Rightarrow>
          (Inr (st_clock (sc_stream c') - st_clock (sc_stream c)),
           if bt_contains (nn_active self) peer_id then self\<lparr>nn_active := bt_insert peer_id c' (nn_active self)\<rparr> else self))"

definition first_address :: "NetNode \<Rightarrow> bytes \<Rightarrow> SocketAddr net" where
  "first_address self peer_id =
     (case bt_get (nn_peers self) peer_id of
        None \<Rightarrow> Inl (Protocol ''peer address is unknown'')
      | Some peer \<Rightarrow> (case rec_addresses peer of [] \<Rightarrow> Inl (Protocol ''peer address is unknown'') | a # _ \<Rightarrow> Inr a))"

definition send_to_peer ::
  "'a net_prims_scheme \<Rightarrow> dialer \<Rightarrow> NetNode \<Rightarrow> bytes \<Rightarrow> u32 \<Rightarrow> bytes \<Rightarrow> nat net \<times> NetNode" where
  "send_to_peer P dial self peer_id stream payload =
     (case bt_get (nn_active self) peer_id of
        Some c \<Rightarrow> send_on P self peer_id c stream payload
      | None \<Rightarrow>
          (case first_address self peer_id of
             Inl e \<Rightarrow> (Inl e, self)
           | Inr address \<Rightarrow>
               (case connect P dial self address of
                  Inl e \<Rightarrow> (Inl e, self)
                | Inr c \<Rightarrow> send_on P (cache_connection self peer_id c) peer_id c stream payload)))"

definition send_to_peer_confirmed ::
  "'a net_prims_scheme \<Rightarrow> dialer \<Rightarrow> NetNode \<Rightarrow> bytes \<Rightarrow> u32 \<Rightarrow> bytes \<Rightarrow> nat net" where
  "send_to_peer_confirmed P dial self peer_id stream payload =
     (case first_address self peer_id of
        Inl e \<Rightarrow> Inl e
      | Inr address \<Rightarrow>
          (case connect P dial self address of
             Inl e \<Rightarrow> Inl e
           | Inr c \<Rightarrow> fst (send_data_roundtrip P c stream payload)))"

definition ping_peer :: "'a net_prims_scheme \<Rightarrow> NetNode \<Rightarrow> bytes \<Rightarrow> u64 \<Rightarrow> nat net \<times> NetNode" where
  "ping_peer P self peer_id now =
     (case bt_get (nn_active self) peer_id of
        None \<Rightarrow> (Inl (Protocol ''peer is not actively connected''), self)
      | Some c \<Rightarrow> (let (r, c) = ping_roundtrip P c now in (r, self\<lparr>nn_active := bt_insert peer_id c (nn_active self)\<rparr>)))"

definition active_peers :: "NetNode \<Rightarrow> bytes list" where
  "active_peers self = map fst (nn_active self)"

definition active_peer_count :: "NetNode \<Rightarrow> nat" where
  "active_peer_count self = length (nn_active self)"

section \<open>The inbox\<close>

definition take_inbox_queue :: "NetNode \<Rightarrow> (bytes \<times> u32 \<times> bytes) list \<times> NetNode" where
  "take_inbox_queue self = (nn_inbox self, self\<lparr>nn_inbox := []\<rparr>)"

definition take_inbox_reset :: "NetNode \<Rightarrow> NetNode" where
  "take_inbox_reset self = self\<lparr>nn_inbox_bytes := 0\<rparr>"

definition take_inbox :: "(NetNode \<Rightarrow> NetNode) \<Rightarrow> NetNode \<Rightarrow> (bytes \<times> u32 \<times> bytes) list \<times> NetNode" where
  "take_inbox between self = (let (queue, self) = take_inbox_queue self in (queue, take_inbox_reset (between self)))"

end
