(* ===== verification/Net_Node_Props.thy ===== *)
theory Net_Node_Props
  imports Net_Node Session_Props "HOL-Library.Multiset"
begin

text \<open>
  The node under concurrency: a step relation with one step for every section of the program that
  runs under a lock, the bounds of all tables in every reachable state, the composite operations as
  sequences of steps, the nearest-peer query, and the accounting of the inbox.
\<close>

section \<open>Tables\<close>

definition keyed :: "(bytes, PeerRecord) btree_map \<Rightarrow> bool" where
  "keyed m \<longleftrightarrow> bt_inv m \<and> (\<forall>k r. bt_get m k = Some r \<longrightarrow> rec_awe_id r = k)"

definition short_records :: "(bytes, PeerRecord) btree_map \<Rightarrow> bool" where
  "short_records m \<longleftrightarrow> (\<forall>k r. bt_get m k = Some r \<longrightarrow> length (rec_addresses r) \<le> MAX_ADDRESSES_PER_PEER)"

lemma routing_insert_keyed:
  assumes "keyed (rt_peers t)" "length (rt_peers t) \<le> MAX_ROUTING_RECORDS"
  shows "keyed (rt_peers (RoutingTable_insert t p)) \<and> length (rt_peers (RoutingTable_insert t p)) \<le> MAX_ROUTING_RECORDS"
proof -
  let ?m = "bt_insert (rec_awe_id p) p (rt_peers t)"
  have inv: "bt_inv ?m"
    using assms(1) by (simp add: keyed_def)
  have key: "keyed ?m"
    using assms(1) by (simp add: keyed_def)
  have len: "length ?m \<le> MAX_ROUTING_RECORDS + 1"
    using assms by (simp add: keyed_def bt.len_insert)
  show ?thesis
  proof (cases "length ?m > MAX_ROUTING_RECORDS")
    case False
    then show ?thesis
      using key by (simp add: RoutingTable_insert_def Let_def)
  next
    case True
    then obtain i r where e: "min_by_key (\<lambda>(i, r). rec_last_seen_unix r) ?m = Some (i, r)"
      by (metis less_nat_zero_code list.size(3) min_by_key_None not_None_eq surj_pair)
    have "bt_get ?m i = Some r"
      using bt_get_in [OF inv, of i r] min_by_key_mem [OF e] by blast
    then have "length (bt_remove i ?m) = length ?m - 1"
      by (intro bt.len_remove [OF inv]) simp
    then have "length (bt_remove i ?m) \<le> MAX_ROUTING_RECORDS"
      using len by linarith
    moreover have "keyed (bt_remove i ?m)"
      using key inv unfolding keyed_def by (metis bt_get_remove bt_inv_remove option.distinct(1))
    moreover have "RoutingTable_insert t p = t\<lparr>rt_peers := bt_remove i ?m\<rparr>"
      using True by (simp add: RoutingTable_insert_def Let_def e)
    ultimately show ?thesis
      by simp
  qed
qed

lemma length_merge: "length new \<le> MAX_ADDRESSES_PER_PEER \<Longrightarrow> length (merge_addresses new old) \<le> MAX_ADDRESSES_PER_PEER"
  by (induction new old rule: merge_addresses.induct) (auto simp: not_le Suc_le_eq)

lemma peer_insert_bounded:
  assumes "keyed m" "length m \<le> MAX_PEER_RECORDS" "short_records m" "length (rec_addresses r) \<le> MAX_ADDRESSES_PER_PEER"
  shows "keyed (insert_peer_bounded m r) \<and> length (insert_peer_bounded m r) \<le> MAX_PEER_RECORDS
    \<and> short_records (insert_peer_bounded m r)"
proof (cases "bt_get m (rec_awe_id r)")
  case (Some old)
  then show ?thesis
    using assms length_merge [OF assms(4)]
    by (auto simp: insert_peer_bounded_def keyed_def short_records_def bt.len_insert)
next
  case None
  have inv: "bt_inv m"
    using assms(1) by (simp add: keyed_def)
  let ?e = "if length m \<ge> MAX_PEER_RECORDS then case min_by_key rec_last_seen_unix (map snd m) of
      None \<Rightarrow> m | Some p \<Rightarrow> bt_remove (rec_awe_id p) m else m"
  have e: "bt_inv ?e \<and> (\<forall>k v. bt_get ?e k = Some v \<longrightarrow> bt_get m k = Some v) \<and> length ?e < MAX_PEER_RECORDS"
  proof (cases "length m \<ge> MAX_PEER_RECORDS")
    case True
    then obtain p where p: "min_by_key rec_last_seen_unix (map snd m) = Some p"
      by (metis (no_types, lifting) MAX_PEER_RECORDS_def list.map_disc_iff list.size(3) min_by_key_None not_None_eq not_numeral_le_zero)
    obtain k where "(k, p) \<in> set m"
      using min_by_key_mem [OF p] by auto
    then have k: "bt_get m (rec_awe_id p) = Some p"
      using assms(1) bt_get_in [OF inv, of k p] unfolding keyed_def by metis
    then have "length (bt_remove (rec_awe_id p) m) = length m - 1" "0 < length m"
      using bt.len_pos [OF inv, of "rec_awe_id p"] by (simp_all add: bt.len_remove [OF inv])
    then have "length (bt_remove (rec_awe_id p) m) < MAX_PEER_RECORDS"
      using assms(2) by linarith
    then show ?thesis
      using True p inv by simp
  qed (use inv in simp)
  obtain m' where m': "insert_peer_bounded m r = bt_insert (rec_awe_id r) r m'" "bt_inv m'" "length m' < MAX_PEER_RECORDS"
    and sub: "\<And>k v. bt_get m' k = Some v \<Longrightarrow> bt_get m k = Some v"
    using e by (simp only: insert_peer_bounded_def None Let_def option.case)
  have get: "k = rec_awe_id r \<and> v = r \<or> bt_get m k = Some v" if "bt_get (bt_insert (rec_awe_id r) r m') k = Some v" for k v
    using that sub by (auto split: if_splits)
  have "keyed (bt_insert (rec_awe_id r) r m')"
    unfolding keyed_def
  proof (intro conjI allI impI)
    fix k v assume "bt_get (bt_insert (rec_awe_id r) r m') k = Some v"
    from get [OF this] show "rec_awe_id v = k"
      using assms(1) unfolding keyed_def by blast
  qed (use m' in simp)
  moreover have "short_records (bt_insert (rec_awe_id r) r m')"
    unfolding short_records_def
  proof (intro allI impI)
    fix k v assume "bt_get (bt_insert (rec_awe_id r) r m') k = Some v"
    from get [OF this] show "length (rec_addresses v) \<le> MAX_ADDRESSES_PER_PEER"
      using assms(3,4) unfolding short_records_def by blast
  qed
  moreover have "length (bt_insert (rec_awe_id r) r m') \<le> MAX_PEER_RECORDS"
    using m' by (simp add: bt.len_insert)
  ultimately show ?thesis
    unfolding m'(1) by blast
qed

section \<open>Steps of the node\<close>

text \<open>
  One step for every section that runs under a lock: a connection is admitted or refused, a handler
  runs an iteration or finishes, the listener asks for admission, a record is learnt from a handshake
  or a verified answer, a connection is cached, used, replaced or dropped, and the two halves of
  \<^verbatim>\<open>take_inbox\<close>. Connections, messages, times and addresses are arbitrary.
\<close>

inductive node_task :: "'a net_prims_scheme \<Rightarrow> NetNode \<Rightarrow> NetNode \<Rightarrow> bool" for P where
  admit: "handle_admit n c ip now = (b, n') \<Longrightarrow> node_task P n n'"
| iteration: "handle_iteration P n c seq now = (b, n', c', seq') \<Longrightarrow> node_task P n n'"
| finish: "node_task P n (handle_finish n i pf rf now)"
| accept: "listen_accept n permits ip now = (b, permits', n') \<Longrightarrow> node_task P n n'"
| learn: "length (rec_addresses r) \<le> MAX_ADDRESSES_PER_PEER \<Longrightarrow> node_task P n (learn_peer n r)"
| cache: "node_task P n (cache_connection n i c)"
| use: "bt_contains (nn_active n) i \<Longrightarrow> node_task P n (n\<lparr>nn_active := bt_insert i c (nn_active n)\<rparr>)"
| drop: "node_task P n (n\<lparr>nn_active := bt_remove i (nn_active n)\<rparr>)"

inductive node_step :: "'a net_prims_scheme \<Rightarrow> NetNode \<Rightarrow> NetNode \<Rightarrow> bool" for P where
  task: "node_task P n n' \<Longrightarrow> node_step P n n'"
| take_queue: "take_inbox_queue n = (queue, n') \<Longrightarrow> node_step P n n'"
| take_reset: "node_step P n (take_inbox_reset n)"

lemmas node_step_rules = node_task.intros [THEN node_step.task]

text \<open>The same without interleaving inside \<^verbatim>\<open>take_inbox\<close>: nothing runs between its two halves.\<close>

inductive calm_step :: "'a net_prims_scheme \<Rightarrow> NetNode \<Rightarrow> NetNode \<Rightarrow> bool" for P where
  task: "node_task P n n' \<Longrightarrow> calm_step P n n'"
| take: "take_inbox id n = (queue, n') \<Longrightarrow> calm_step P n n'"

definition node_inv :: "NetNode \<Rightarrow> bool" where
  "node_inv n \<longleftrightarrow>
     keyed (rt_peers (nn_routing n)) \<and> length (rt_peers (nn_routing n)) \<le> MAX_ROUTING_RECORDS
     \<and> keyed (nn_peers n) \<and> length (nn_peers n) \<le> MAX_PEER_RECORDS \<and> short_records (nn_peers n)
     \<and> bt_inv (nn_active n) \<and> length (nn_active n) \<le> MAX_ACTIVE_CONNECTIONS
     \<and> length (nn_inbox n) \<le> MAX_INBOX_MESSAGES \<and> nn_inbox_bytes n \<le> MAX_INBOX_BYTES"

text \<open>The state the invariant is about.\<close>

definition tables :: "NetNode \<Rightarrow> RoutingTable \<times> (bytes, PeerRecord) btree_map \<times> (bytes, SecureConnection) btree_map
    \<times> (bytes \<times> u32 \<times> bytes) list \<times> nat" where
  "tables n = (nn_routing n, nn_peers n, nn_active n, nn_inbox n, nn_inbox_bytes n)"

lemma node_inv_tables: "tables n = tables n' \<Longrightarrow> node_inv n \<Longrightarrow> node_inv n'"
  by (simp add: tables_def node_inv_def)

lemma tables_simps [simp]:
  "tables (n\<lparr>nn_admission := a\<rparr>) = tables n" "tables (n\<lparr>nn_preauth := p\<rparr>) = tables n"
  "tables (n\<lparr>nn_defense := d\<rparr>) = tables n" "tables (strike_peer n i t) = tables n"
  by (simp_all add: tables_def strike_peer_def)

lemma learn_inv:
  assumes "node_inv n" "length (rec_addresses r) \<le> MAX_ADDRESSES_PER_PEER"
  shows "node_inv (learn_peer n r)"
  using assms routing_insert_keyed [of "nn_routing n" r] peer_insert_bounded [of "nn_peers n" r]
  by (simp add: node_inv_def learn_peer_def)

lemma peer_record_short: "length (rec_addresses (peer_record c ip t)) \<le> MAX_ADDRESSES_PER_PEER"
  by (simp add: peer_record_def MAX_ADDRESSES_PER_PEER_def)

lemma admit_tables:
  assumes "handle_admit n c ip now = (b, n')"
  shows "tables n' = tables n \<or> (\<exists>m. tables m = tables n \<and> n' = learn_peer m (peer_record c ip (now 2)))"
proof -
  obtain ok adm where a: "PeerAdmission_allow (nn_admission n) (sc_remote_id c) 1 (now 0) = (ok, adm)"
    by fastforce
  obtain dec d where d: "PeerDefense_check (nn_defense n) (sc_remote_id c) (now 1) = (dec, d)"
    by fastforce
  have "\<exists>m. tables m = tables n \<and> learn_peer (n\<lparr>nn_admission := adm, nn_defense := d\<rparr>) r = learn_peer m r" for r
    by (rule exI [of _ "n\<lparr>nn_admission := adm, nn_defense := d\<rparr>"]) simp
  then show ?thesis
    using assms by (auto simp: handle_admit_def a d Let_def simp del: One_nat_def split: if_splits)
qed

lemma deliver_tables:
  assumes "deliver n i s p = (b, n')" "node_inv n"
  shows "node_inv n'"
  using assms by (auto simp: deliver_def Let_def node_inv_def split: if_splits)

lemma message_inv:
  assumes "handle_message P n c m now = (b, n', c')" "node_inv n"
  shows "node_inv n'"
proof -
  obtain ok adm where a: "PeerAdmission_allow (nn_admission n) (sc_remote_id c) (message_cost m) (now 0) = (ok, adm)"
    by fastforce
  let ?n = "n\<lparr>nn_admission := adm\<rparr>"
  have inv: "node_inv ?n" "node_inv (strike_peer ?n (sc_remote_id c) (now 1))"
    using assms(2) by (auto intro: node_inv_tables [of n])
  show ?thesis
  proof (cases ok)
    case False
    then show ?thesis
      using assms(1) inv by (auto simp: handle_message_def a)
  next
    case True
    show ?thesis
    proof (cases m)
      case (Data s p)
      obtain acc n1 where d: "deliver ?n (sc_remote_id c) s p = (acc, n1)"
        by fastforce
      have "n' = n1"
        using assms(1) a True d by (auto simp: handle_message_def Data split: if_splits dest: reply_frame)
      then show ?thesis
        using deliver_tables [OF d inv(1)] by simp
    qed (use assms(1) a True inv in \<open>auto simp: handle_message_def dest: reply_frame\<close>)
  qed
qed

lemma iteration_inv:
  assumes "handle_iteration P n c seq now = (b, n', c', seq')" "node_inv n"
  shows "node_inv n'"
proof -
  obtain r c1 where r: "recv P (within HEARTBEAT (sc_stream c)) c = (r, c1)"
    by fastforce
  have "n' = n \<or> n' = strike_peer n (sc_remote_id c1) (now 0) \<or> (\<exists>m b c2. handle_message P n c1 m now = (b, n', c2))"
    using assms(1) by (auto simp: handle_iteration_def r split: sum.splits NetworkError.splits prod.splits if_splits)
  then show ?thesis
    using assms(2) message_inv node_inv_tables [of n "strike_peer n (sc_remote_id c1) (now 0)"] by auto
qed

lemma touch_keeps:
  assumes "keyed m"
  shows "keyed (touch i t m)" "length (touch i t m) = length m" "short_records m \<Longrightarrow> short_records (touch i t m)"
  using assms by (auto simp: touch_def keyed_def short_records_def bt.len_insert split: option.splits)

lemma finish_inv: "node_inv n \<Longrightarrow> node_inv (handle_finish n i pf rf now)"
  by (simp add: handle_finish_def node_inv_def touch_keeps Let_def)

lemma node_task_inv:
  assumes "node_task P n n'" "node_inv n"
  shows "node_inv n'"
  using assms
proof (induction rule: node_task.induct)
  case (admit n c ip now b n')
  then show ?case
    using admit_tables [OF admit(1)] learn_inv [OF _ peer_record_short] node_inv_tables by metis
next
  case (iteration n c seq now b n' c' seq')
  then show ?case
    by (rule iteration_inv)
next
  case (accept n permits ip now b permits' n')
  then have "tables n' = tables n"
    by (auto simp: listen_accept_def Let_def split: if_splits prod.splits)
  then show ?case
    using accept(2) node_inv_tables by metis
next
  case (use n i c)
  then show ?case
    by (auto simp: node_inv_def bt.len_insert bt_contains_def)
next
  case (drop n i)
  then show ?case
    using length_remove_le [of i "nn_active n"] by (auto simp: node_inv_def)
next
  case (finish n i pf rf now)
  then show ?case
    by (rule finish_inv)
next
  case (learn r n)
  then show ?case
    by (simp add: learn_inv)
next
  case (cache n i c)
  then show ?case
    by (auto simp: cache_connection_def node_inv_def bt.len_insert)
qed

lemma node_step_inv: "node_step P n n' \<Longrightarrow> node_inv n \<Longrightarrow> node_inv n'"
proof (induction rule: node_step.induct)
  case (task n n')
  then show ?case by (rule node_task_inv)
qed (auto simp: take_inbox_queue_def take_inbox_reset_def node_inv_def)

text \<open>Bytes of the messages held, and the tables that a task which delivers nothing leaves alone.\<close>

definition held_bytes :: "NetNode \<Rightarrow> nat" where
  "held_bytes n = (\<Sum>(i, s, p) \<leftarrow> nn_inbox n. length p)"

definition counted :: "NetNode \<Rightarrow> bool" where
  "counted n \<longleftrightarrow> nn_inbox_bytes n = held_bytes n"

lemma counted_same: "nn_inbox n' = nn_inbox n \<Longrightarrow> nn_inbox_bytes n' = nn_inbox_bytes n \<Longrightarrow> counted n \<Longrightarrow> counted n'"
  by (simp add: counted_def held_bytes_def)

lemma tables_inbox: "tables n' = tables n \<Longrightarrow> nn_inbox n' = nn_inbox n \<and> nn_inbox_bytes n' = nn_inbox_bytes n"
  by (simp add: tables_def)

lemma deliver_counted: "counted n \<Longrightarrow> counted (snd (deliver n i s p))"
  by (auto simp: counted_def held_bytes_def deliver_def Let_def)

lemma message_inbox:
  assumes "handle_message P n c m now = (b, n', c')"
  shows "(nn_inbox n' = nn_inbox n \<and> nn_inbox_bytes n' = nn_inbox_bytes n)
       \<or> (\<exists>adm s p. n' = snd (deliver (n\<lparr>nn_admission := adm\<rparr>) (sc_remote_id c) s p))"
proof -
  obtain ok adm where a: "PeerAdmission_allow (nn_admission n) (sc_remote_id c) (message_cost m) (now 0) = (ok, adm)"
    by fastforce
  show ?thesis
  proof (cases "ok \<and> (\<exists>s p. m = Data s p)")
    case True
    then obtain s p where m: "m = Data s p" by blast
    obtain acc n1 where d: "deliver (n\<lparr>nn_admission := adm\<rparr>) (sc_remote_id c) s p = (acc, n1)"
      by fastforce
    have "n' = n1"
      using assms a True d by (auto simp: handle_message_def m split: if_splits dest: reply_frame)
    then show ?thesis
      using d by (metis snd_conv)
  next
    case False
    then show ?thesis
      using assms a by (cases ok; cases m) (auto simp: handle_message_def strike_peer_def Let_def dest!: reply_frame)
  qed
qed

lemma node_task_counted:
  assumes "node_task P n n'" "counted n"
  shows "counted n'"
  using assms
proof (induction rule: node_task.induct)
  case (admit n c ip now b n')
  from admit_tables [OF admit(1)] have "nn_inbox n' = nn_inbox n \<and> nn_inbox_bytes n' = nn_inbox_bytes n"
    by (auto simp: learn_peer_def tables_def)
  then show ?case
    using admit(2) counted_same by blast
next
  case (iteration n c seq now b n' c' seq')
  obtain r c1 where r: "recv P (within HEARTBEAT (sc_stream c)) c = (r, c1)"
    by fastforce
  have "nn_inbox n' = nn_inbox n \<and> nn_inbox_bytes n' = nn_inbox_bytes n \<or> (\<exists>m b c2. handle_message P n c1 m now = (b, n', c2))"
    using iteration(1)
    by (auto simp: handle_iteration_def r strike_peer_def split: sum.splits NetworkError.splits prod.splits if_splits)
  then consider "nn_inbox n' = nn_inbox n \<and> nn_inbox_bytes n' = nn_inbox_bytes n"
    | adm i s p where "n' = snd (deliver (n\<lparr>nn_admission := adm\<rparr>) i s p)"
    using message_inbox by metis
  then show ?case
  proof cases
    case 2
    have "counted (n\<lparr>nn_admission := adm\<rparr>)"
      using iteration(2) by (rule counted_same [rotated 2]) simp_all
    then show ?thesis
      unfolding 2 by (rule deliver_counted)
  qed (use iteration(2) counted_same in blast)
next
  case (accept n permits ip now b permits' n')
  then show ?case
    by (auto simp: listen_accept_def Let_def counted_def held_bytes_def split: if_splits prod.splits)
qed (auto simp: counted_def held_bytes_def learn_peer_def handle_finish_def cache_connection_def Let_def)

lemma calm_step_node_step:
  assumes "calm_step P n n'"
  shows "(node_step P)\<^sup>*\<^sup>* n n' \<and> (counted n \<longrightarrow> counted n')"
  using assms
proof (cases rule: calm_step.cases)
  case task
  then show ?thesis
    by (auto intro: node_step.task node_task_counted)
next
  case (take queue)
  have "node_step P n (snd (take_inbox_queue n))"
    by (rule node_step.take_queue) (simp add: take_inbox_queue_def)
  moreover have "n' = take_inbox_reset (snd (take_inbox_queue n))"
    using take by (auto simp: take_inbox_def take_inbox_queue_def)
  ultimately show ?thesis
    using node_step.take_reset [of P "snd (take_inbox_queue n)"]
    by (auto simp: counted_def held_bytes_def take_inbox_reset_def take_inbox_queue_def
        intro: rtranclp.rtrancl_into_rtrancl r_into_rtranclp)
qed

lemma node_inv_new: "node_inv (Node_new i a)"
  by (simp add: Node_new_def node_inv_def keyed_def short_records_def bt_get_def)

lemma calm_run:
  assumes "(calm_step P)\<^sup>*\<^sup>* (Node_new i a) n"
  shows "(node_step P)\<^sup>*\<^sup>* (Node_new i a) n \<and> counted n"
  using assms
proof (induction rule: rtranclp_induct)
  case (step y z)
  then show ?case
    using calm_step_node_step by (metis rtranclp_trans)
qed (simp add: counted_def held_bytes_def Node_new_def)

lemma node_run_inv: "(node_step P)\<^sup>*\<^sup>* (Node_new i a) n \<Longrightarrow> node_inv n"
  by (induction rule: rtranclp_induct) (auto simp: node_inv_new intro: node_step_inv)

text \<open>C16. 
  In every state the node reaches, under every interleaving of its tasks and whatever peers send, the
  routing table and the peer table hold at most 8192 records, each peer record at most 16 addresses,
  at most 512 connections are cached, and the inbox holds at most 4096 messages. When no delivery falls
  between the two halves of \<^verbatim>\<open>take_inbox\<close>, the byte counter is the number of bytes held, and these are
  at most 64 MiB.
\<close>

theorem net_node_bounds:
  assumes "(node_step P)\<^sup>*\<^sup>* (Node_new i a) n"
  shows "length (rt_peers (nn_routing n)) \<le> 8192 \<and> length (nn_peers n) \<le> 8192
    \<and> length (nn_active n) \<le> 512 \<and> length (nn_inbox n) \<le> 4096 \<and> nn_inbox_bytes n \<le> 64 * 1024 * 1024
    \<and> (\<forall>k r. bt_get (nn_peers n) k = Some r \<longrightarrow> rec_awe_id r = k \<and> length (rec_addresses r) \<le> 16)
    \<and> ((calm_step P)\<^sup>*\<^sup>* (Node_new i a) n \<longrightarrow>
         nn_inbox_bytes n = (\<Sum>(i, s, p) \<leftarrow> nn_inbox n. length p) \<and> (\<Sum>(i, s, p) \<leftarrow> nn_inbox n. length p) \<le> 64 * 1024 * 1024)"
proof -
  have inv: "node_inv n"
    using assms by (rule node_run_inv)
  have "nn_inbox_bytes n = held_bytes n \<and> held_bytes n \<le> 64 * 1024 * 1024" if "(calm_step P)\<^sup>*\<^sup>* (Node_new i a) n"
    using calm_run [OF that] inv unfolding node_inv_def counted_def MAX_INBOX_BYTES_def by simp
  then show ?thesis
    using inv unfolding node_inv_def keyed_def short_records_def held_bytes_def MAX_ROUTING_RECORDS_def MAX_PEER_RECORDS_def
      MAX_ACTIVE_CONNECTIONS_def MAX_INBOX_MESSAGES_def MAX_INBOX_BYTES_def MAX_ADDRESSES_PER_PEER_def by blast
qed

definition demo_record :: "u8 \<Rightarrow> PeerRecord" where
  "demo_record b = \<lparr>rec_awe_id = replicate 32 b, rec_public_key = replicate 32 b, rec_addresses = [demo_socket],
     rec_protocol_version = 1, rec_last_seen_unix = 5\<rparr>"

text \<open>A record learnt, then an inbox emptied in one go.\<close>

theorem net_node_bounds_witness:
  "(calm_step demo_net)\<^sup>*\<^sup>* (Node_new demo_alice demo_socket)
      (snd (take_inbox id (learn_peer (Node_new demo_alice demo_socket) (demo_record 9))))
   \<and> length (nn_peers (snd (take_inbox id (learn_peer (Node_new demo_alice demo_socket) (demo_record 9))))) \<le> 8192
   \<and> (\<Sum>(i, s, p) \<leftarrow> nn_inbox (snd (take_inbox id (learn_peer (Node_new demo_alice demo_socket) (demo_record 9)))). length p)
       \<le> 64 * 1024 * 1024"
proof -
  let ?n = "learn_peer (Node_new demo_alice demo_socket) (demo_record 9)"
  have "calm_step demo_net (Node_new demo_alice demo_socket) ?n"
    by (intro calm_step.task node_task.learn) (simp add: demo_record_def MAX_ADDRESSES_PER_PEER_def)
  moreover have "calm_step demo_net ?n (snd (take_inbox id ?n))"
    by (rule calm_step.take [of _ "fst (take_inbox id ?n)"]) simp
  ultimately have run: "(calm_step demo_net)\<^sup>*\<^sup>* (Node_new demo_alice demo_socket) (snd (take_inbox id ?n))"
    by (meson rtranclp.rtrancl_into_rtrancl r_into_rtranclp)
  then show ?thesis
    using net_node_bounds [OF calm_run [OF run, THEN conjunct1]] by blast
qed

section \<open>Composite operations are sequences of steps\<close>

lemma learn_records_steps:
  assumes "\<forall>r \<in> set rs. length (rec_addresses r) \<le> MAX_ADDRESSES_PER_PEER"
  shows "(node_step P)\<^sup>*\<^sup>* n (snd (learn_records n rs))"
  using assms
proof (induction n rs rule: learn_records.induct)
  case (2 n x xs)
  show ?case
  proof (cases "rec_awe_id x = node_id n")
    case True
    then show ?thesis
      using 2 by simp
  next
    case False
    have "node_step P n (learn_peer n x)"
      using 2(3) by (intro node_step_rules(5)) simp
    then show ?thesis
      using False 2(2,3) by (auto simp: split_beta intro: converse_rtranclp_into_rtranclp)
  qed
qed simp

lemma absorb_steps:
  assumes "\<forall>r \<in> set rs. length (rec_addresses r) \<le> MAX_ADDRESSES_PER_PEER"
  shows "(node_step P)\<^sup>*\<^sup>* n (snd (absorb n d rs))"
  using assms
proof (induction n d rs rule: absorb.induct)
  case (2 n d x xs)
  show ?case
  proof (cases "rec_awe_id x = node_id n")
    case True
    then show ?thesis
      using 2 by simp
  next
    case False
    have "node_step P n (learn_peer n x)"
      using 2(3) by (intro node_step_rules(5)) simp
    then show ?thesis
      using False 2(2,3) by (auto intro: converse_rtranclp_into_rtranclp)
  qed
qed simp

lemma decode_Nodes: "decode P j = Inr (Nodes rs) \<Longrightarrow> \<forall>r \<in> set rs. length (rec_addresses r) \<le> MAX_ADDRESSES_PER_PEER"
  by (auto simp: decode_def list_ex_iff not_less split: if_splits sum.splits Control.splits)

lemma recv_Nodes:
  assumes "recv P deadline c = (Inr (Nodes rs), c')"
  shows "\<forall>r \<in> set rs. length (rec_addresses r) \<le> MAX_ADDRESSES_PER_PEER"
proof -
  obtain s f d where "open_frame P d s f = (Inr (Nodes rs), c')"
    using recv_Inr [OF assms] by metis
  then show ?thesis
    by (auto simp: open_frame_def Let_def split: option.splits if_splits dest: decode_Nodes)
qed

lemma query_peer_short:
  "\<forall>r \<in> set (query_peer P dial n target addrs). length (rec_addresses r) \<le> MAX_ADDRESSES_PER_PEER"
proof (induction addrs)
  case (Cons a as)
  have "query_peer P dial n target (a # as) = query_peer P dial n target as
      \<or> (\<exists>d c rs c'. recv P d c = (Inr (Nodes rs), c') \<and> query_peer P dial n target (a # as) = rs)"
    by (auto split: sum.splits prod.splits Control.splits)
  then show ?case
    using Cons recv_Nodes by metis
qed simp

lemma lookup_steps: "(node_step P)\<^sup>*\<^sup>* n (lookup_rounds k P dials target alpha queried n)"
proof (induction k arbitrary: queried n)
  case (Suc k)
  define batch where "batch = take alpha (filter (\<lambda>peer. rec_awe_id peer \<notin> set queried \<and> rec_addresses peer \<noteq> [])
    (closest_peers n target (alpha * 4)))"
  define rs where "rs = concat (map (\<lambda>peer. query_peer P (dials k (rec_awe_id peer)) n target (rec_addresses peer)) batch)"
  have "\<forall>r \<in> set rs. length (rec_addresses r) \<le> MAX_ADDRESSES_PER_PEER"
    unfolding rs_def set_concat set_map using query_peer_short by blast
  then have steps: "(node_step P)\<^sup>*\<^sup>* n (snd (absorb n False rs))"
    by (rule absorb_steps)
  have "lookup_rounds (Suc k) P dials target alpha queried n =
      (if batch = [] then n else if \<not> fst (absorb n False rs) then snd (absorb n False rs)
       else lookup_rounds k P dials target alpha (queried @ map rec_awe_id batch) (snd (absorb n False rs)))"
    by (simp only: lookup_rounds.simps Let_def split_beta batch_def [symmetric] rs_def [symmetric])
  then show ?case
    using steps rtranclp_trans [OF steps Suc] by simp
qed simp

lemma bootstrap_seed_steps: "(node_step P)\<^sup>*\<^sup>* n (snd (bootstrap_seed P dial n address now))"
proof (cases "connect P dial n address")
  case (Inr c)
  define n1 where "n1 = learn_peer n (peer_record c (sa_ip address) now)"
  define c1 where "c1 = snd (send P c (FindNode (node_id n1)))"
  obtain r c2 where r: "recv P (within HELLO_TIMEOUT (sc_stream c1)) c1 = (r, c2)"
    by fastforce
  define n2 where "n2 = (case r of Inr (Nodes records) \<Rightarrow> snd (learn_records n1 records) | _ \<Rightarrow> n1)"
  have "snd (bootstrap_seed P dial n address now) = cache_connection n2 (sc_remote_id c2) c2"
    by (simp add: bootstrap_seed_def Inr Let_def split_beta n2_def r flip: n1_def c1_def split: sum.split Control.split)
  moreover have "node_step P n n1"
    unfolding n1_def by (rule node_step_rules(5) [OF peer_record_short])
  moreover have "(node_step P)\<^sup>*\<^sup>* n1 n2"
    using learn_records_steps [of _ P n1] recv_Nodes [of P _ c1 _ c2] r
    by (auto simp: n2_def split: sum.splits Control.splits)
  moreover have "node_step P n2 (cache_connection n2 (sc_remote_id c2) c2)"
    by (rule node_step_rules(6))
  ultimately show ?thesis
    by (simp add: converse_rtranclp_into_rtranclp rtranclp.rtrancl_into_rtrancl)
qed (simp add: bootstrap_seed_def)

lemma bootstrap_seeds_steps: "(node_step P)\<^sup>*\<^sup>* n (snd (bootstrap_seeds P dial now k addrs n))"
proof (induction addrs arbitrary: k n)
  case (Cons a as)
  then show ?case
    using rtranclp_trans [OF bootstrap_seed_steps Cons] by (simp add: split_beta)
qed simp

lemma bootstrap_steps: "(node_step P)\<^sup>*\<^sup>* n (snd (bootstrap P dial dials now n addrs))"
  using rtranclp_trans [OF bootstrap_seeds_steps lookup_steps]
  by (simp add: bootstrap_def find_nodes_iterative_def Let_def split_beta)

lemma send_to_peer_steps: "(node_step P)\<^sup>*\<^sup>* n (snd (send_to_peer P dial n i stream payload))"
proof -
  have on: "(node_step P)\<^sup>*\<^sup>* m (snd (send_on P m i c stream payload))" for m c
    by (auto simp: send_on_def split: prod.splits sum.splits intro: node_step_rules(7) node_step_rules(8))
  moreover have "(node_step P)\<^sup>*\<^sup>* m (snd (send_on P (cache_connection m i c) i c stream payload))" for m c
    by (rule converse_rtranclp_into_rtranclp [where r = "node_step P", OF node_step_rules(6) on])
  ultimately show ?thesis
    by (auto simp: send_to_peer_def split: option.splits sum.splits)
qed

lemma heartbeat_steps: "(node_step P)\<^sup>*\<^sup>* n (heartbeat P n i now)"
  using node_step_rules(7) [of n i P] node_step_rules(8) [of P n i]
  by (auto simp: heartbeat_def bt_contains_def split: option.splits prod.splits sum.splits)

lemma handle_loop_steps:
  assumes "\<And>k m. (node_step P)\<^sup>*\<^sup>* m (env k m)"
  shows "(node_step P)\<^sup>*\<^sup>* n (fst (snd (handle_loop P env now k n c seq)))"
  using assms
proof (induction P env now k n c seq rule: handle_loop.induct)
  case (1 P env now k n c seq)
  obtain go n1 c1 s1 where it: "handle_iteration P (env k n) c seq (now k) = (go, n1, c1, s1)"
    by (metis prod_cases4)
  have first: "(node_step P)\<^sup>*\<^sup>* n n1"
    using 1(2) [where m = n and k = k] node_step_rules(2) [OF it] by (rule rtranclp.rtrancl_into_rtrancl)
  show ?case
  proof (cases go)
    case True
    then have "(node_step P)\<^sup>*\<^sup>* n1 (fst (snd (handle_loop P env now (k + 1) n1 c1 s1)))"
      using 1(1) [OF it [symmetric] refl refl True 1(2)] by blast
    then show ?thesis
      using first True by (subst handle_loop.simps) (simp add: it)
  next
    case False
    then show ?thesis
      using first by (subst handle_loop.simps) (simp add: it)
  qed
qed

section \<open>Nearest peers\<close>

text \<open>What the standard library promises of \<^verbatim>\<open>select_nth_unstable_by_key\<close>.\<close>

definition selects :: "(nat \<Rightarrow> ('a \<Rightarrow> 'k :: linorder) \<Rightarrow> 'a list \<Rightarrow> 'a list) \<Rightarrow> bool" where
  "selects select_nth \<longleftrightarrow> (\<forall>i key v. i < length v \<longrightarrow>
     (let w = select_nth i key v in mset w = mset v
        \<and> (\<forall>j < i. key (w ! j) \<le> key (w ! i)) \<and> (\<forall>j. i < j \<and> j < length w \<longrightarrow> key (w ! i) \<le> key (w ! j))))"

lemma quickselect_mset: "mset (quickselect i key v) = mset v"
  by (induction i key v rule: quickselect.induct) (simp_all add: Let_def)

lemma quickselect_length [simp]: "length (quickselect i key v) = length v"
  by (metis quickselect_mset size_mset)

lemma quickselect_set: "set (quickselect i key v) = set v"
  by (metis quickselect_mset set_mset_mset)

lemma order_behind:
  assumes "k < length q" "\<forall>y \<in> set l. key y \<le> key (q ! k)" "\<forall>j < k. key (q ! j) \<le> key (q ! k)"
    and "\<forall>j. k < j \<and> j < length q \<longrightarrow> key (q ! k) \<le> key (q ! j)"
  shows "(\<forall>j < length l + k. key ((l @ q) ! j) \<le> key ((l @ q) ! (length l + k)))
       \<and> (\<forall>j. length l + k < j \<and> j < length l + length q \<longrightarrow> key ((l @ q) ! (length l + k)) \<le> key ((l @ q) ! j))"
proof (intro conjI allI impI)
  fix j assume j: "length l + k < j \<and> j < length l + length q"
  then have "k < j - length l \<and> j - length l < length q" by linarith
  then show "key ((l @ q) ! (length l + k)) \<le> key ((l @ q) ! j)"
    using assms(4) j by (simp add: nth_append)
qed (use assms in \<open>auto simp: nth_append\<close>)

lemma quickselect_order:
  "i < length v \<Longrightarrow>
     (\<forall>j < i. key (quickselect i key v ! j) \<le> key (quickselect i key v ! i))
     \<and> (\<forall>j. i < j \<and> j < length v \<longrightarrow> key (quickselect i key v ! i) \<le> key (quickselect i key v ! j))"
proof (induction i key v rule: quickselect.induct)
  case (2 i key x xs)
  define below where "below = filter (\<lambda>y. key y < key x) xs"
  define above where "above = filter (\<lambda>y. \<not> key y < key x) xs"
  have len: "length xs = length below + length above"
    unfolding below_def above_def by (metis sum_length_filter_compl)
  have b: "key y < key x" if "y \<in> set below" for y
    using that by (simp add: below_def)
  have a: "key x \<le> key y" if "y \<in> set above" for y
    using that by (simp add: above_def not_less)
  note unfold = quickselect.simps(2) [of i key x xs, unfolded Let_def]
  consider "i < length below" | "i = length below" | "length below < i" by linarith
  then show ?case
  proof cases
    case 1
    let ?q = "quickselect i key below"
    have eq: "quickselect i key (x # xs) = ?q @ x # above"
      using 1 by (simp only: unfold below_def [symmetric] above_def [symmetric] if_True)
    have IH: "\<forall>j < i. key (?q ! j) \<le> key (?q ! i)" "\<forall>j. i < j \<and> j < length below \<longrightarrow> key (?q ! i) \<le> key (?q ! j)"
      using 2(1) [OF below_def above_def 1 1] by blast+
    have q: "key (?q ! i) < key x"
      using b [of "?q ! i"] nth_mem [of i ?q] 1 by (simp add: quickselect_set)
    have "key (?q ! i) \<le> key ((x # above) ! k)" if "k < length (x # above)" for k
      using that q a [of "above ! (k - 1)"] by (cases k) (auto simp: less_le_trans less_imp_le intro: order.trans)
    then show ?thesis
      unfolding eq using IH 1 len by (auto simp: nth_append)
  next
    case 2
    have eq: "quickselect i key (x # xs) = below @ x # above"
      unfolding unfold below_def [symmetric] above_def [symmetric] using 2 by simp
    show ?thesis
      unfolding eq using 2 b a len by (auto simp: nth_append nth_Cons' less_imp_le)
  next
    case 3
    define k where "k = i - length below - 1"
    let ?q = "quickselect k key above"
    have eq: "quickselect i key (x # xs) = below @ x # ?q"
      unfolding unfold below_def [symmetric] above_def [symmetric] k_def using 3 by simp
    have k: "k < length above" "i = length below + 1 + k"
      using 3 2(3) len by (auto simp: k_def)
    have IH: "\<forall>j < k. key (?q ! j) \<le> key (?q ! k)" "\<forall>j. k < j \<and> j < length above \<longrightarrow> key (?q ! k) \<le> key (?q ! j)"
      using 2(2) [OF below_def above_def _ _ k(1) [unfolded k_def]] 3 unfolding k_def by auto
    have q: "key x \<le> key (?q ! k)"
      using a [of "?q ! k"] nth_mem [of k ?q] k(1) by (simp add: quickselect_set)
    have low: "\<forall>y \<in> set (below @ [x]). key y \<le> key (?q ! k)"
      using q b by fastforce
    have "quickselect i key (x # xs) = (below @ [x]) @ ?q" "i = length (below @ [x]) + k"
      "length (x # xs) = length (below @ [x]) + length above"
      unfolding eq using k len by simp_all
    then show ?thesis
      using order_behind [of k ?q "below @ [x]" key, unfolded quickselect_length, OF k(1) low IH] by (simp only:)
  qed
qed simp

lemma quickselect_selects: "selects quickselect"
  using quickselect_order by (auto simp: selects_def Let_def quickselect_mset)

text \<open>A selection at index \<open>n - 1\<close> truncated to \<open>n\<close> has the \<open>n\<close> smallest elements.\<close>

lemma selected_prefix:
  fixes key :: "'a \<Rightarrow> 'k :: linorder"
  assumes "selects select_nth" "0 < n" "n \<le> length v"
  defines "w \<equiv> select_nth (n - 1) key v"
  shows "mset w = mset v" "\<forall>p \<in> set (take n w). \<forall>q \<in> set (drop n w). key p \<le> key q"
proof -
  have w: "mset w = mset v" "\<forall>j < n - 1. key (w ! j) \<le> key (w ! (n - 1))"
    "\<forall>j. n - 1 < j \<and> j < length w \<longrightarrow> key (w ! (n - 1)) \<le> key (w ! j)"
    using assms(1-3) by (auto simp: selects_def Let_def w_def)
  then show "mset w = mset v" by blast
  have len: "length w = length v"
    using w(1) by (metis size_mset)
  show "\<forall>p \<in> set (take n w). \<forall>q \<in> set (drop n w). key p \<le> key q"
  proof (intro ballI)
    fix p q assume "p \<in> set (take n w)" "q \<in> set (drop n w)"
    then obtain i j where i: "i < n" "p = w ! i" and j: "j < length w - n" "q = w ! (n + j)"
      using assms(3) by (auto simp: in_set_conv_nth len)
    have "key (w ! i) \<le> key (w ! (n - 1))"
      using w(2) i(1) by (cases "i = n - 1") auto
    also have "\<dots> \<le> key (w ! (n + j))"
      using w(3) [rule_format, of "n + j"] j(1) assms(2) by linarith
    finally show "key p \<le> key q"
      by (simp add: i j)
  qed
qed

lemma sorted_selection:
  assumes "selects select_nth" "0 < n" "n \<le> length v" "inj_on key (set v)"
  shows "sort_key key (take n (select_nth (n - 1) key v)) = take n (sort_key key v)"
proof -
  let ?w = "select_nth (n - 1) key v"
  note s = selected_prefix [OF assms(1-3), of key]
  have inj: "inj_on key (set ?w)"
    using s(1) assms(4) by (metis set_mset_mset)
  let ?l = "sort_key key (take n ?w) @ sort_key key (drop n ?w)"
  have "mset v = mset ?l"
    using s(1) by (metis append_take_drop_id mset_append mset_sort)
  moreover have "sorted (map key ?l)"
    using s(2) by (simp add: sorted_append)
  ultimately have "sort_key key v = ?l"
    using assms(4) by (intro sort_key_inj_key_eq) simp_all
  moreover have "length (sort_key key (take n ?w)) = n"
    using s(1) assms(3) by (metis length_sort length_take min.absorb2 size_mset)
  ultimately show ?thesis
    by simp
qed

text \<open>The distance as a number: the bytes of an identifier are a number, the most significant byte first.\<close>

lemma xor_digit:
  fixes x y u v :: nat
  assumes "u < 256" "v < 256"
  shows "(x * 256 + u) XOR (y * 256 + v) = (x XOR y) * 256 + (u XOR v)"
proof -
  let ?z = "(x * 256 + u) XOR (y * 256 + v)"
  have d: "drop_bit 8 (x * 256 + u) = x" "take_bit 8 (x * 256 + u) = u" "drop_bit 8 (y * 256 + v) = y" "take_bit 8 (y * 256 + v) = v"
    using assms by (simp_all add: drop_bit_eq_div take_bit_eq_mod)
  have "?z = drop_bit 8 ?z * 256 + take_bit 8 ?z"
    by (simp add: drop_bit_eq_div take_bit_eq_mod)
  also have "\<dots> = (x XOR y) * 256 + (u XOR v)"
    by (simp only: drop_bit_xor take_bit_xor d)
  finally show ?thesis .
qed

lemma from_be_id_distance:
  assumes "length a = length b"
  shows "from_be (id_distance a b) = from_be a XOR from_be b"
  using assms
proof (induction a arbitrary: b rule: rev_induct)
  case (snoc c a)
  then obtain b' d where b: "b = b' @ [d]" "length a = length b'"
    by (cases b rule: rev_cases) auto
  have "unat c < 256" "unat d < 256"
    using unat_less_pow [of c] unat_less_pow [of d] by simp_all
  then show ?case
    using snoc.IH [of b'] b by (simp add: id_distance_def xor_digit unsigned_xor_eq)
qed (simp add: id_distance_def)

lemma from_be_Cons: "from_be (c # cs) = unat c * 256 ^ length cs + from_be cs"
proof (induction cs rule: rev_induct)
  case (snoc d cs)
  then show ?case
    using from_be_snoc [of "c # cs" d] by (simp add: algebra_simps)
qed (simp add: from_be_def)

lemma digit_order:
  fixes x y m :: nat
  assumes "u < m" "v < m"
  shows "x * m + u \<le> y * m + v \<longleftrightarrow> x < y \<or> x = y \<and> u \<le> v"
proof -
  have "x * m + u < y * m + v" if "x < y" "u < m" for x y u v
  proof -
    have "x * m + u < (x + 1) * m"
      using that(2) by simp
    also have "\<dots> \<le> y * m"
      using that(1) by (intro mult_le_mono1) simp
    finally show ?thesis by simp
  qed
  from this [of x y u v] this [of y x v u] show ?thesis
    using assms by (cases x y rule: linorder_cases) auto
qed

lemma lex_le_from_be:
  fixes a b :: bytes
  assumes "length a = length b"
  shows "a \<le> b \<longleftrightarrow> from_be a \<le> from_be b"
  using assms
proof (induction a b rule: list_induct2)
  case (Cons c a d b)
  have "from_be a < 256 ^ length a" "from_be b < 256 ^ length a"
    using from_be_less [of a] from_be_less [of b] Cons.hyps by simp_all
  then show ?case
    using Cons by (auto simp: from_be_Cons digit_order word_less_nat_alt word_unat_eq_iff)
qed simp

lemma sort_key_same_order:
  fixes f :: "'a \<Rightarrow> 'k :: linorder" and g :: "'a \<Rightarrow> 'l :: linorder"
  assumes "\<And>x y. x \<in> set v \<Longrightarrow> y \<in> set v \<Longrightarrow> f x \<le> f y \<longleftrightarrow> g x \<le> g y" "inj_on g (set v)"
  shows "sort_key f v = sort_key g v"
proof (rule sort_key_inj_key_eq)
  show "inj_on f (set v)"
    using assms by (intro inj_onI) (metis inj_onD order_antisym order_refl)
  have "sorted_wrt (\<lambda>x y. g x \<le> g y) (sort_key g v)"
    using sorted_sort_key [of g v] by (simp add: sorted_map)
  then have "sorted_wrt (\<lambda>x y. f x \<le> f y) (sort_key g v)"
    by (rule sorted_wrt_mono_rel [rotated]) (simp add: assms(1))
  then show "sorted (map f (sort_key g v))"
    by (simp add: sorted_map)
qed simp

text \<open>C17. 
  The query for the nearest peers, which selects, truncates and only then sorts, gives the first entries of
  the whole table in the order of the XOR metric: the exclusive or of the two identifiers read as numbers.
  This holds for every selection that does what the standard library promises, so the order in which it
  leaves the elements does not matter.
\<close>

theorem closest_is_sorted_prefix:
  fixes t :: RoutingTable
  assumes "selects select_nth"
    and "distinct (map rec_awe_id (RoutingTable_all t))" "length target = 32"
    and "\<forall>p \<in> set (RoutingTable_all t). length (rec_awe_id p) = 32"
  shows "closest_by select_nth t target limit
           = take limit (sort_key (\<lambda>p. from_be (rec_awe_id p) XOR from_be target) (RoutingTable_all t))
       \<and> closest_by select_nth t target limit = closest t target limit"
proof -
  let ?key = "\<lambda>p. id_distance (rec_awe_id p) target" and ?num = "\<lambda>p. from_be (rec_awe_id p) XOR from_be target"
  let ?v = "RoutingTable_all t"
  have num: "?key p \<le> ?key q \<longleftrightarrow> ?num p \<le> ?num q" if "p \<in> set ?v" "q \<in> set ?v" for p q
    using that assms(3,4) lex_le_from_be [of "?key p" "?key q"]
    by (simp add: from_be_id_distance) (simp add: id_distance_def)
  have inj: "inj_on ?num (set ?v)"
  proof (rule inj_onI)
    fix p q assume pq: "p \<in> set ?v" "q \<in> set ?v" "?num p = ?num q"
    then have "from_be (rec_awe_id p) = from_be (rec_awe_id q)"
      by (metis xor.assoc xor_self_eq xor.right_neutral)
    then have "rec_awe_id p = rec_awe_id q"
      using be_bytes_from_be assms(4) pq by metis
    then show "p = q"
      using assms(2) pq by (metis distinct_map inj_onD)
  qed
  have key_inj: "inj_on ?key (set ?v)"
    using num inj by (intro inj_onI) (metis inj_onD order_antisym order_refl)
  have main: "closest_by sel t target limit = take limit (sort_key ?key ?v)" if "selects sel" for sel :: selection
  proof (cases "limit = 0 \<or> rt_peers t = []")
    case False
    then have n: "0 < min limit (length ?v)" "min limit (length ?v) \<le> length ?v"
      by (simp_all add: RoutingTable_all_def)
    show ?thesis
      using False sorted_selection [OF that n key_inj]
      by (auto simp: closest_by_def Let_def RoutingTable_all_def min_def)
  qed (auto simp: closest_by_def RoutingTable_all_def)
  show ?thesis
    using main [OF assms(1)] main [OF quickselect_selects] sort_key_same_order [OF num inj]
    by (simp add: closest_def)
qed

theorem closest_is_sorted_prefix_witness:
  "closest \<lparr>rt_peers = [(replicate 32 1, demo_record 1), (replicate 32 2, demo_record 2), (replicate 32 7, demo_record 7)]\<rparr>
     (replicate 32 3) 2 = [demo_record 2, demo_record 1]"
proof -
  let ?t = "\<lparr>rt_peers = [(replicate 32 1, demo_record 1), (replicate 32 2, demo_record 2), (replicate 32 7, demo_record 7)]\<rparr>"
  let ?num = "\<lambda>p. from_be (rec_awe_id p) XOR from_be (replicate 32 3)"
  have d: "rec_awe_id (demo_record b) = replicate 32 b" for b
    by (simp add: demo_record_def)
  have v: "RoutingTable_all ?t = [demo_record 1, demo_record 2, demo_record 7]"
    by (simp add: RoutingTable_all_def)
  have "closest_by quickselect ?t (replicate 32 3) 2 = take 2 (sort_key ?num (RoutingTable_all ?t))
      \<and> closest_by quickselect ?t (replicate 32 3) 2 = closest ?t (replicate 32 3) 2"
    by (rule closest_is_sorted_prefix [OF quickselect_selects]) (simp_all add: v d)
  moreover have "?num (demo_record b) = from_be (replicate 32 (b XOR 3))" for b
    using from_be_id_distance [of "replicate 32 b" "replicate 32 3"] by (simp add: d id_distance_def zip_replicate)
  then have "?num (demo_record 2) = from_be (replicate 32 1)" "?num (demo_record 1) = from_be (replicate 32 2)"
    "?num (demo_record 7) = from_be (replicate 32 4)"
    by simp_all
  moreover have "from_be (replicate 32 a) \<le> from_be (replicate 32 b) \<longleftrightarrow> a \<le> b" for a b
    using lex_le_from_be [of "replicate 32 a" "replicate 32 b"] replicate_Suc [of 31 a] replicate_Suc [of 31 b]
    by (auto simp: order_le_less)
  moreover have "\<not> (2 :: u8) \<le> 1" "(2 :: u8) \<le> 4"
    by (simp_all add: word_le_nat_alt)
  ultimately show ?thesis
    unfolding v by simp metis
qed

section \<open>Inbox accounting\<close>

text \<open>
  Delivery and an uninterrupted \<^verbatim>\<open>take_inbox\<close> keep the byte counter equal to the bytes in the inbox,
  which therefore stay below 64 MiB. A message delivered between the two halves of \<^verbatim>\<open>take_inbox\<close> stays
  in the inbox with the counter reset to zero.
\<close>

theorem inbox_counter:
  assumes "counted n"
  shows "counted (snd (deliver n i s p)) \<and> counted (snd (take_inbox id n))
    \<and> (\<forall>m. p \<noteq> [] \<longrightarrow> deliver (snd (take_inbox_queue n)) i s p = (True, m) \<longrightarrow>
         nn_inbox (take_inbox_reset m) = [(i, s, p)] \<and> nn_inbox_bytes (take_inbox_reset m) = 0 \<and> \<not> counted (take_inbox_reset m))"
  using assms
  by (auto simp: counted_def held_bytes_def deliver_def Let_def take_inbox_def take_inbox_queue_def take_inbox_reset_def split: if_splits)

theorem inbox_counter_witness:
  "counted (Node_new demo_alice demo_socket) \<and> counted (snd (deliver (Node_new demo_alice demo_socket) [1] 7 [2, 3]))"
  using inbox_counter [of "Node_new demo_alice demo_socket"] by (simp add: counted_def held_bytes_def Node_new_def)

end
