(* ===== verification/Host.thy ===== *)
theory Host
  imports Storage Registry Data_Plane
begin

text \<open>
  \<^verbatim>\<open>core/src/host.rs\<close> and \<^verbatim>\<open>core/src/host_directory.rs\<close>: publishing files and manifests on a node,
  serving them through a cache, and choosing a host for a site.

  A host is its object directory, its manifest directory, its policy and its cache; the JSON codec of
  manifests is a field of \<open>host_prims\<close>. The lemmas show that published files are served back, that
  only paths without a parent component are served, that a failed host is replaced by the best
  remaining one, and what the cache and the root digest do not separate.
\<close>

section \<open>Records\<close>

record HostPolicy =
  hp_max_site_bytes :: u64
  hp_max_file_bytes :: u64
  hp_bandwidth_bytes_per_second :: u64
  hp_cache_entries :: nat
  hp_replica_count :: nat

definition HostPolicy_default :: HostPolicy where
  "HostPolicy_default = \<lparr>hp_max_site_bytes = push_bit 30 1, hp_max_file_bytes = push_bit 20 64,
     hp_bandwidth_bytes_per_second = push_bit 20 10, hp_cache_entries = 4096, hp_replica_count = 3\<rparr>"

record HostedFile =
  hf_path :: string
  hf_object_id :: bytes
  hf_size :: u64
  hf_content_type :: string

record HostManifest =
  hm_domain :: string
  hm_version :: u64
  hm_root_hash :: bytes
  hm_files :: "HostedFile list"
  hm_owner_key :: bytes
  hm_policy :: HostPolicy
  hm_access :: AccessDescriptor

record HostHealth =
  hh_available :: bool
  hh_consecutive_failures :: u32
  hh_last_check_unix :: u64
  hh_latency_ms :: u64

definition default_host_access :: AccessDescriptor where
  "default_host_access = AccessDescriptor_open"

definition HostManifest_open :: "HostManifest \<Rightarrow> bool" where
  "HostManifest_open self \<longleftrightarrow> ad_mode (hm_access self) = Open"

definition HostManifest_authorize :: "'a prims_scheme \<Rightarrow> HostManifest \<Rightarrow> AccessMap option \<Rightarrow> bool" where
  "HostManifest_authorize P self access_map = AccessDescriptor_authorize P (hm_access self) access_map (hm_root_hash self)"

record HostRecord =
  hr_node_id :: bytes
  hr_domain :: string
  hr_version :: u64
  hr_manifest_hash :: bytes
  hr_health :: HostHealth

record AweHost =
  ah_root :: dir
  ah_objects :: dir
  ah_store :: LocalNodeStore
  ah_policy :: HostPolicy
  ah_cache :: "(string, bytes) btree_map"

record host_prims = prims +
  manifest_to_json :: "HostManifest \<Rightarrow> bytes option"
  manifest_from_json :: "bytes \<Rightarrow> HostManifest option"

section \<open>Paths\<close>

definition normalize_path :: "string \<Rightarrow> string result" where
  "normalize_path path =
     (if path = [] \<or> \<not> starts_with path ''/'' \<or> CHR 0x5C \<in> set path \<or> ''..'' \<in> set (split_on (CHR ''/'') path)
      then Inl (Io InvalidInput ''invalid web path'')
      else Ok (if path = ''/'' then ''/index.html'' else path))"

definition manifest_path :: "string \<Rightarrow> string" where
  "manifest_path domain = map (\<lambda>c. if c = CHR ''/'' then CHR ''_'' else c) domain @ ''.manifest.json''"

section \<open>Host\<close>

definition AweHost_open :: "dir \<Rightarrow> dir \<Rightarrow> u64 \<Rightarrow> HostPolicy \<Rightarrow> AweHost" where
  "AweHost_open root objects quota policy =
     \<lparr>ah_root = root, ah_objects = objects, ah_store = \<lparr>ln_quota = quota\<rparr>, ah_policy = policy, ah_cache = []\<rparr>"

definition publish_file ::
  "'a prims_scheme \<Rightarrow> disk_fault \<Rightarrow> AweHost \<Rightarrow> string \<Rightarrow> bytes \<Rightarrow> string \<Rightarrow> HostedFile result \<times> AweHost" where
  "publish_file P fault self path data content_type =
     (case normalize_path path of
        Inl e \<Rightarrow> (Inl e, self)
      | Inr clean \<Rightarrow>
          if of_nat (length data) > hp_max_file_bytes (ah_policy self)
          then (Inl (Io InvalidInput ''file exceeds host policy''), self)
          else
            let (r, objects) = put P (ah_store self) fault (ah_objects self) data;
                self = self\<lparr>ah_objects := objects\<rparr>
            in case r of
                 Inl e \<Rightarrow> (Inl e, self)
               | Inr i \<Rightarrow> (Ok \<lparr>hf_path = clean, hf_object_id = i, hf_size = of_nat (length data),
                             hf_content_type = content_type\<rparr>, self))"

definition manifest_digest_input :: "string \<Rightarrow> u64 \<Rightarrow> HostedFile list \<Rightarrow> bytes" where
  "manifest_digest_input domain version files =
     as_bytes domain @ to_be_bytes_u64 version
     @ concat (map (\<lambda>f. as_bytes (hf_path f) @ hf_object_id f @ to_be_bytes_u64 (hf_size f)) files)"

definition publish_manifest ::
  "'a prims_scheme \<Rightarrow> AweHost \<Rightarrow> string \<Rightarrow> u64 \<Rightarrow> bytes \<Rightarrow> HostedFile list \<Rightarrow> HostManifest result" where
  "publish_manifest P self domain version owner_key files =
     (if domain = [] \<or> version = 0 then Inl (Io InvalidInput ''invalid site manifest'')
      else if sum_list (map hf_size files) > hp_max_site_bytes (ah_policy self)
      then Inl (Io InvalidInput ''site exceeds host policy'')
      else Ok \<lparr>hm_domain = domain, hm_version = version,
               hm_root_hash = sha256 P (manifest_digest_input domain version files),
               hm_files = files, hm_owner_key = owner_key, hm_policy = ah_policy self,
               hm_access = AccessDescriptor_open\<rparr>)"

definition authorize_domain :: "HostManifest \<Rightarrow> Registry \<Rightarrow> bool" where
  "authorize_domain manifest registry =
     (case namespace_resolve registry (hm_domain manifest) of
        None \<Rightarrow> False
      | Some r \<Rightarrow> rr_status r = Active \<and> rr_owner_public_key r = hm_owner_key manifest)"

definition host_get :: "'a prims_scheme \<Rightarrow> AweHost \<Rightarrow> HostManifest \<Rightarrow> string \<Rightarrow> bytes result \<times> AweHost" where
  "host_get P self manifest path =
     (case normalize_path path of
        Inl e \<Rightarrow> (Inl e, self)
      | Inr clean \<Rightarrow>
          (case bt_get (ah_cache self) clean of
             Some v \<Rightarrow> (Ok v, self)
           | None \<Rightarrow>
               (case List.find (\<lambda>f. hf_path f = clean) (hm_files manifest) of
                  None \<Rightarrow> (Inl (Io NotFound ''AWE host path not found''), self)
                | Some f \<Rightarrow>
                    (case get_object P (ah_objects self) (hf_object_id f) of
                       Inl e \<Rightarrow> (Inl e, self)
                     | Inr data \<Rightarrow>
                         if of_nat (length data) \<noteq> hf_size f \<or> content_id P data \<noteq> hf_object_id f
                         then (Inl (Io InvalidData ''host object integrity failure''), self)
                         else
                           let cache = (if length (ah_cache self) \<ge> hp_cache_entries (ah_policy self) then
                                          (case ah_cache self of [] \<Rightarrow> [] | e # _ \<Rightarrow> bt_remove (fst e) (ah_cache self))
                                        else ah_cache self)
                           in (Ok data, self\<lparr>ah_cache := bt_insert clean data cache\<rparr>)))))"

definition get_authorized ::
  "'a prims_scheme \<Rightarrow> AweHost \<Rightarrow> HostManifest \<Rightarrow> string \<Rightarrow> AccessMap option \<Rightarrow> bytes result \<times> AweHost" where
  "get_authorized P self manifest path access_map =
     (if \<not> HostManifest_authorize P manifest access_map then (Inl (Io PermissionDenied ''AWE site access denied''), self)
      else host_get P self manifest path)"

text \<open>\<^verbatim>\<open>fs::write\<close> ends with the file written (\<open>Inr\<close>), or fails before it was opened (\<open>Inl None\<close>) or after it was
  replaced by a part of the bytes (\<open>Inl (Some part)\<close>).\<close>

definition save_manifest :: "'a host_prims_scheme \<Rightarrow> bytes option + unit \<Rightarrow> AweHost \<Rightarrow> HostManifest \<Rightarrow> unit result \<times> AweHost" where
  "save_manifest P how self manifest =
     (case manifest_to_json P manifest of
        None \<Rightarrow> (Inl (Io InvalidData ''manifest serialization failed''), self)
      | Some b \<Rightarrow>
          (let name = manifest_path (hm_domain manifest) in
           case how of
             Inr _ \<Rightarrow> (Ok (), self\<lparr>ah_root := bt_insert name b (ah_root self)\<rparr>)
           | Inl None \<Rightarrow> (Inl (Io OtherIo ''write''), self)
           | Inl (Some part) \<Rightarrow> (Inl (Io OtherIo ''write''), self\<lparr>ah_root := bt_insert name part (ah_root self)\<rparr>)))"

definition load_manifest :: "'a host_prims_scheme \<Rightarrow> AweHost \<Rightarrow> string \<Rightarrow> HostManifest result" where
  "load_manifest P self domain =
     (case bt_get (ah_root self) (manifest_path domain) of
        None \<Rightarrow> Inl (Io NotFound ''read'')
      | Some b \<Rightarrow> (case manifest_from_json P b of
           None \<Rightarrow> Inl (Io InvalidData ''invalid host manifest'') | Some m \<Rightarrow> Ok m))"

section \<open>Host directory\<close>

record HostDirectory =
  hd_records :: "(bytes, HostRecord) btree_map"

definition HostDirectory_upsert :: "HostDirectory \<Rightarrow> HostRecord \<Rightarrow> HostDirectory" where
  "HostDirectory_upsert self record = self\<lparr>hd_records := bt_insert (hr_node_id record) record (hd_records self)\<rparr>"

definition HostDirectory_remove :: "HostDirectory \<Rightarrow> bytes \<Rightarrow> HostDirectory" where
  "HostDirectory_remove self node = self\<lparr>hd_records := bt_remove node (hd_records self)\<rparr>"

definition host_rank :: "HostRecord \<Rightarrow> u32 \<times> u64" where
  "host_rank r = (hh_consecutive_failures (hr_health r), hh_latency_ms (hr_health r))"

definition healthy :: "HostDirectory \<Rightarrow> string \<Rightarrow> u64 \<Rightarrow> HostRecord list" where
  "healthy self domain version =
     sort_key host_rank (filter (\<lambda>r. hr_domain r = domain \<and> hr_version r \<ge> version \<and> hh_available (hr_health r))
       (map snd (hd_records self)))"

definition failover :: "HostDirectory \<Rightarrow> string \<Rightarrow> u64 \<Rightarrow> bytes \<Rightarrow> HostRecord option" where
  "failover self domain version failed = List.find (\<lambda>r. hr_node_id r \<noteq> failed) (healthy self domain version)"

definition health_update :: "HostDirectory \<Rightarrow> bytes \<Rightarrow> HostHealth \<Rightarrow> HostDirectory" where
  "health_update self node health =
     (case bt_get (hd_records self) node of
        None \<Rightarrow> self
      | Some r \<Rightarrow> self\<lparr>hd_records := bt_insert node (r\<lparr>hr_health := health\<rparr>) (hd_records self)\<rparr>)"

section \<open>Serving\<close>

lemma normalize_Ok:
  assumes "normalize_path path = Ok clean"
  shows "starts_with clean ''/'' \<and> ''..'' \<notin> set (split_on (CHR ''/'') clean) \<and> normalize_path clean = Ok clean"
  using assms by (auto simp: normalize_path_def starts_with_def split: if_splits)

lemma host_get_safe:
  assumes "host_get P h m path = (Ok data, h')"
  shows "\<exists>clean. normalize_path path = Ok clean \<and> bt_get (ah_cache h') clean = Some data
    \<and> (bt_get (ah_cache h) clean = Some data \<or>
       (\<exists>f \<in> set (hm_files m). hf_path f = clean \<and> content_id P data = hf_object_id f \<and> of_nat (length data) = hf_size f))"
  using assms
  by (auto simp: host_get_def Let_def find_Some_iff split: sum.splits option.splits if_splits)

text \<open>C36. 
  A file that was published is served: a manifest that lists it under its path, published with it, lets
  anyone read exactly the published bytes under that path, provided nothing is cached for the path (and
  unless the store already held a different content with the same digest). When something is cached for the
  path, from an earlier read of this or of any other site, those bytes are served instead and the new
  publication is not seen.
\<close>

theorem host_serves_published:
  assumes "store_inv P (ah_store h) (ah_objects h)"
    and pub: "publish_file P fault h path data ct = (Ok f, h')"
    and man: "publish_manifest P h' domain version owner files = Ok m"
    and listed: "List.find (\<lambda>g. hf_path g = hf_path f) files = Some f"
  shows "case bt_get (ah_cache h) (hf_path f) of
      None \<Rightarrow> fst (get_authorized P h' m path access_map) = Ok data
        \<or> (\<exists>x. bt_get (ah_objects h) (object_path P (content_id P data)) = Some x \<and> x \<noteq> data \<and> blake3 P x = blake3 P data)
    | Some old \<Rightarrow> fst (get_authorized P h' m path access_map) = Ok old"
proof -
  obtain objects i where clean: "normalize_path path = Ok (hf_path f)" and p: "put P (ah_store h) fault (ah_objects h) data = (Ok i, objects)"
      and f: "hf_object_id f = i" "hf_size f = of_nat (length data)" and h': "h' = h\<lparr>ah_objects := objects\<rparr>"
    using pub by (auto simp: publish_file_def Let_def split: sum.splits if_splits prod.splits)
  have m: "hm_files m = files" "hm_access m = AccessDescriptor_open"
    using man by (auto simp: publish_manifest_def split: if_splits)
  have auth: "HostManifest_authorize P m access_map"
    by (simp add: HostManifest_authorize_def m AccessDescriptor_authorize_def AccessDescriptor_open_def)
  show ?thesis
  proof (cases "bt_get (ah_cache h) (hf_path f)")
    case miss: None
    consider "i = content_id P data" "get_object P objects i = Ok data" 
      | "\<exists>x. bt_get (ah_objects h) (object_path P (content_id P data)) = Some x \<and> x \<noteq> data \<and> blake3 P x = blake3 P data"
      using put_then_get [OF assms(1) p] by blast
    then show ?thesis
      using miss listed by cases (simp_all add: get_authorized_def auth host_get_def clean h' m f)
  next
    case (Some old)
    then show ?thesis
      by (simp add: get_authorized_def auth host_get_def clean h')
  qed
qed

text \<open>
  The cache is keyed by the path alone: after one site was read at a path, every other site that
  anyone may read gives the first site's bytes at that path, whether or not it has such a file, and
  whether or not the first site was secret.
\<close>

theorem host_cache_crosses_sites:
  assumes got: "host_get P h secret path = (Ok data, h')" and other: "HostManifest_open m"
  shows "get_authorized P h' m path access_map = (Ok data, h')"
proof -
  obtain clean where clean: "normalize_path path = Ok clean" "bt_get (ah_cache h') clean = Some data"
    using host_get_safe [OF got] by blast
  have "HostManifest_authorize P m access_map"
    using other by (simp add: HostManifest_open_def HostManifest_authorize_def AccessDescriptor_authorize_def)
  then show ?thesis
    using clean by (simp add: get_authorized_def host_get_def)
qed

lemma cache_bound:
  assumes "bt_inv (ah_cache h)" "length (ah_cache h) \<le> max 1 (hp_cache_entries (ah_policy h))" "host_get P h m path = (r, h')"
  shows "bt_inv (ah_cache h') \<and> length (ah_cache h') \<le> max 1 (hp_cache_entries (ah_policy h'))"
proof -
  let ?c = "ah_cache h"
  let ?e = "if length ?c \<ge> hp_cache_entries (ah_policy h) then (case ?c of [] \<Rightarrow> [] | e # _ \<Rightarrow> bt_remove (fst e) ?c) else ?c"
  have e: "bt_inv ?e" "length ?e + 1 \<le> max 1 (hp_cache_entries (ah_policy h))"
    using assms(1,2) by (auto split: list.splits simp: bt_inv_Cons)
  have "h' = h \<or> (\<exists>clean data. h' = h\<lparr>ah_cache := bt_insert clean data ?e\<rparr>)"
    using assms(3) by (auto simp: host_get_def Let_def split: sum.splits option.splits if_splits)
  then show ?thesis
    using e assms(1,2) by (auto simp: bt.len_insert)
qed

text \<open>The root digest of a manifest does not separate domain, version and paths.\<close>

lemma root_digest_ambiguous:
  assumes "length (as_bytes p) = 8"
  shows "manifest_digest_input d v [f\<lparr>hf_path := p @ q\<rparr>]
       = manifest_digest_input (d @ from_bytes (to_be_bytes_u64 v)) (from_be_bytes_u64 (as_bytes p)) [f\<lparr>hf_path := q\<rparr>]"
proof -
  have "to_be_bytes_u64 (from_be_bytes_u64 (as_bytes p)) = as_bytes p"
    using assms by (rule to_be_from_be_u64)
  then show ?thesis
    by (simp add: manifest_digest_input_def as_bytes_def [of "_ @ _"]) (simp flip: as_bytes_def)
qed

section \<open>Failover\<close>

text \<open>
  Failover gives a host of the domain that is available, recent enough and not the failed one, and no
  such host has fewer consecutive failures, or as many and a lower latency; it gives none exactly when
  there is no such host.
\<close>

theorem failover_gives_best:
  "(failover d domain version failed = None \<longleftrightarrow>
      (\<forall>r \<in> set (map snd (hd_records d)). \<not> (hr_domain r = domain \<and> version \<le> hr_version r \<and> hh_available (hr_health r)
         \<and> hr_node_id r \<noteq> failed)))
   \<and> (\<forall>b. failover d domain version failed = Some b \<longrightarrow>
        b \<in> set (map snd (hd_records d)) \<and> hr_domain b = domain \<and> version \<le> hr_version b \<and> hh_available (hr_health b)
        \<and> hr_node_id b \<noteq> failed
        \<and> (\<forall>r \<in> set (map snd (hd_records d)). hr_domain r = domain \<and> version \<le> hr_version r \<and> hh_available (hr_health r)
             \<and> hr_node_id r \<noteq> failed \<longrightarrow> host_rank b \<le> host_rank r))"
proof -
  let ?H = "healthy d domain version"
  have mem: "r \<in> set ?H \<longleftrightarrow> r \<in> set (map snd (hd_records d)) \<and> hr_domain r = domain \<and> version \<le> hr_version r \<and> hh_available (hr_health r)" for r
    unfolding healthy_def set_sort set_filter by blast
  have sorted: "sorted (map host_rank ?H)"
    by (simp add: healthy_def)
  have best: "host_rank b \<le> host_rank r"
    if "failover d domain version failed = Some b" "r \<in> set ?H" "hr_node_id r \<noteq> failed" for b r
    by (rule find_sorted_min [OF sorted that [unfolded failover_def]])
  have found: "b \<in> set ?H \<and> hr_node_id b \<noteq> failed" if "failover d domain version failed = Some b" for b
    using that by (auto simp: failover_def find_Some_iff)
  have "failover d domain version failed = None \<longleftrightarrow> (\<forall>r \<in> set ?H. hr_node_id r = failed)"
    by (auto simp: failover_def find_None_iff)
  then have none: "failover d domain version failed = None \<longleftrightarrow>
      (\<forall>r \<in> set (map snd (hd_records d)). \<not> (hr_domain r = domain \<and> version \<le> hr_version r \<and> hh_available (hr_health r)
         \<and> hr_node_id r \<noteq> failed))"
    unfolding Ball_def mem by blast
  show ?thesis
  proof (intro conjI allI impI ballI)
    fix b assume b: "failover d domain version failed = Some b"
    show "b \<in> set (map snd (hd_records d))" "hr_domain b = domain" "version \<le> hr_version b" "hh_available (hr_health b)"
        "hr_node_id b \<noteq> failed"
      using found [OF b] unfolding mem by blast+
    fix r assume "r \<in> set (map snd (hd_records d))"
      and "hr_domain r = domain \<and> version \<le> hr_version r \<and> hh_available (hr_health r) \<and> hr_node_id r \<noteq> failed"
    then show "host_rank b \<le> host_rank r"
      using best [OF b, of r] unfolding mem by blast
  qed (rule none)
qed

section \<open>Examples\<close>

definition demo_hosting :: AweHost where
  "demo_hosting = AweHost_open [] [] 1000000 HostPolicy_default"

definition demo_file :: HostedFile where
  "demo_file = \<lparr>hf_path = ''/index.html'', hf_object_id = content_id demo_names [7, 8], hf_size = 2, hf_content_type = ''text''\<rparr>"

definition demo_site :: HostManifest where
  "demo_site = \<lparr>hm_domain = ''a.awe'', hm_version = 1,
     hm_root_hash = sha256 demo_names (manifest_digest_input ''a.awe'' 1 [demo_file]), hm_files = [demo_file],
     hm_owner_key = [1], hm_policy = HostPolicy_default, hm_access = AccessDescriptor_open\<rparr>"

definition demo_hosted :: AweHost where
  "demo_hosted = demo_hosting\<lparr>ah_objects := [(object_path demo_names (content_id demo_names [7, 8]), [7, 8])]\<rparr>"

lemma demo_normal: "normalize_path ''/'' = Ok ''/index.html''"
  by (simp add: normalize_path_def starts_with_def)

lemma demo_publish: "publish_file demo_names NoFault demo_hosting ''/'' [7, 8] ''text'' = (Ok demo_file, demo_hosted)"
  by (simp add: publish_file_def demo_normal demo_hosting_def AweHost_open_def HostPolicy_default_def put_def Let_def
      stats_def bt_contains_def bt_get_def sat_add_def demo_file_def demo_hosted_def)

lemma demo_manifest: "publish_manifest demo_names demo_hosted ''a.awe'' 1 [1] [demo_file] = Ok demo_site"
  by (simp add: publish_manifest_def demo_hosted_def demo_hosting_def AweHost_open_def HostPolicy_default_def demo_site_def demo_file_def)

lemma demo_get: "fst (host_get demo_names demo_hosted demo_site ''/'') = Ok [7, 8]"
  by (simp add: host_get_def demo_normal demo_hosted_def demo_hosting_def AweHost_open_def bt_get_def demo_site_def demo_file_def
      get_object_def)

text \<open>Published, read, then published again with other content: the second read still gives the first content.\<close>

definition demo_read :: AweHost where
  "demo_read = snd (get_authorized demo_names demo_hosted demo_site ''/'' None)"

definition demo_file2 :: HostedFile where
  "demo_file2 = \<lparr>hf_path = ''/index.html'', hf_object_id = content_id demo_names [9], hf_size = 1, hf_content_type = ''text''\<rparr>"

lemma demo_read_eq: "demo_read = demo_hosted\<lparr>ah_cache := [(''/index.html'', [7, 8])]\<rparr>"
  by (simp add: demo_read_def get_authorized_def HostManifest_authorize_def AccessDescriptor_authorize_def AccessDescriptor_open_def
      host_get_def demo_normal demo_hosted_def demo_hosting_def AweHost_open_def bt_get_def demo_site_def demo_file_def
      HostPolicy_default_def get_object_def Let_def)

lemma demo_republish: "\<exists>h2. publish_file demo_names NoFault demo_read ''/'' [9] ''text'' = (Ok demo_file2, h2)
    \<and> ah_policy h2 = HostPolicy_default"
  by (simp add: publish_file_def demo_normal demo_read_eq demo_hosted_def demo_hosting_def AweHost_open_def HostPolicy_default_def
      put_def Let_def stats_def bt_contains_def bt_get_def sat_add_def demo_file2_def dir_bytes_def)

theorem host_serves_published_witness:
  "fst (get_authorized demo_names demo_hosted demo_site ''/'' None) = Ok [7, 8]
   \<and> (\<exists>h2 m2. publish_file demo_names NoFault demo_read ''/'' [9] ''text'' = (Ok demo_file2, h2)
        \<and> publish_manifest demo_names h2 ''a.awe'' 2 [1] [demo_file2] = Ok m2
        \<and> fst (get_authorized demo_names h2 m2 ''/'' None) = Ok [7, 8])"
proof
  show "fst (get_authorized demo_names demo_hosted demo_site ''/'' None) = Ok [7, 8]"
    using host_serves_published [OF _ demo_publish demo_manifest, of None]
    by (simp add: store_inv_def demo_hosting_def AweHost_open_def dir_bytes_def demo_file_def bt_get_def)
  obtain h2 where p: "publish_file demo_names NoFault demo_read ''/'' [9] ''text'' = (Ok demo_file2, h2)" "ah_policy h2 = HostPolicy_default"
    using demo_republish by blast
  obtain m2 where m: "publish_manifest demo_names h2 ''a.awe'' 2 [1] [demo_file2] = Ok m2"
    by (simp add: publish_manifest_def p(2) HostPolicy_default_def demo_file2_def)
  have "i = j" if "hex_encode demo_names i = hex_encode demo_names j" for i j
    using demo_names_ok that unfolding hex_names_def hex_roundtrip_def by (metis option.inject)
  then have "store_inv demo_names (ah_store demo_read) (ah_objects demo_read)"
    by (auto simp: demo_read_eq demo_hosted_def demo_hosting_def AweHost_open_def store_inv_def dir_bytes_def bt_inv_Cons
        bt_sum_def bt_get_def object_path_def)
  from host_serves_published [OF this p(1) m, of None]
  have "fst (get_authorized demo_names h2 m2 ''/'' None) = Ok [7, 8]"
    by (simp add: demo_read_eq demo_file2_def bt_get_def)
  with p m show "\<exists>h2 m2. publish_file demo_names NoFault demo_read ''/'' [9] ''text'' = (Ok demo_file2, h2)
      \<and> publish_manifest demo_names h2 ''a.awe'' 2 [1] [demo_file2] = Ok m2
      \<and> fst (get_authorized demo_names h2 m2 ''/'' None) = Ok [7, 8]"
    by blast
qed

theorem host_cache_crosses_sites_witness:
  "\<exists>h. get_authorized demo_names h (demo_site\<lparr>hm_domain := ''other.awe'', hm_files := []\<rparr>) ''/'' None = (Ok [7, 8], h)"
proof -
  obtain h where "host_get demo_names demo_hosted demo_site ''/'' = (Ok [7, 8], h)"
    using demo_get by (metis prod.collapse)
  moreover have "HostManifest_open (demo_site\<lparr>hm_domain := ''other.awe'', hm_files := []\<rparr>)"
    by (simp add: HostManifest_open_def demo_site_def AccessDescriptor_open_def)
  ultimately show ?thesis
    using host_cache_crosses_sites by blast
qed

theorem failover_gives_best_witness:
  "failover \<lparr>hd_records = []\<rparr> ''a.awe'' 1 [1] = None"
  using failover_gives_best [of "\<lparr>hd_records = []\<rparr>" "''a.awe''" 1 "[1]"] by simp

end
