(* ===== verification/Messenger.thy ===== *)
theory Messenger
  imports Wire
begin

text \<open>
  \<^verbatim>\<open>core/src/messenger.rs\<close> and \<^verbatim>\<open>core/src/messenger_runtime.rs\<close>: end-to-end sessions, channels with signed
  broadcasts, identifiers, offline queues and privacy routes. The AEAD, X25519, HKDF and JSON crates
  are fields of \<open>messenger_prims\<close>, the random nonce bytes are arguments.

  The lemmas show what two ends of a session deliver to each other, that no sequence number is
  delivered twice, that a broadcast is bound to its channel, and the behaviour of the queues.
\<close>

section \<open>Data\<close>

record Contact =
  ct_awe_id :: bytes
  ct_signing_key :: bytes
  ct_display_name :: "string option"

datatype MessageKind = TextMsg | VoiceMsg | FileMsg | CallSignalMsg | GroupEvent

datatype DeliveryState = Queued | Sent | Delivered | Read | Failed

record MessageEnvelope =
  me_id :: bytes
  me_sender :: bytes
  me_recipient :: bytes
  me_timestamp :: u64
  me_sequence :: u64
  me_kind :: MessageKind
  me_payload :: bytes

record EncryptedMessage =
  em_sender :: bytes
  em_recipient :: bytes
  em_ephemeral_public :: bytes
  em_nonce :: bytes
  em_ciphertext :: bytes

record MsgSession =
  ms_key :: bytes
  ms_send_sequence :: u64
  ms_receive_sequence :: u64

datatype MessengerError = InvalidMessage | ReplayedMessage | CryptoFailed | KeyMaterial

type_synonym 'a msg_result = "MessengerError + 'a"

record messenger_prims = net_prims +
  message_to_json :: "MessageEnvelope \<Rightarrow> bytes option"
  message_from_json :: "bytes \<Rightarrow> MessageEnvelope option"
  aad_to_json :: "bytes \<times> bytes \<times> u64 \<times> MessageKind \<Rightarrow> bytes option"

section \<open>Sessions\<close>

definition from_ephemeral :: "'a net_prims_scheme \<Rightarrow> bytes \<Rightarrow> bytes \<Rightarrow> bytes \<Rightarrow> MsgSession msg_result" where
  "from_ephemeral P local remote context_bytes =
     (case hkdf P (as_bytes ''AWE-MSG-V1'') (x_dh P local remote) context_bytes 32 of
        None \<Rightarrow> Inl CryptoFailed
      | Some key \<Rightarrow> Inr \<lparr>ms_key = key, ms_send_sequence = 0, ms_receive_sequence = 0\<rparr>)"

definition Session_encrypt ::
  "'a messenger_prims_scheme \<Rightarrow> (nat \<Rightarrow> u8) \<Rightarrow> MsgSession \<Rightarrow> MessageEnvelope \<Rightarrow> (u64 \<times> bytes \<times> bytes) msg_result \<times> MsgSession" where
  "Session_encrypt P rng self envelope =
     (let seq = ms_send_sequence self in
      if seq = - 1 then (Inl ReplayedMessage, self)
      else
        let self = self\<lparr>ms_send_sequence := seq + 1\<rparr>;
            nonce = to_be_bytes_u64 seq @ map rng [0..<4]
        in case aad_to_json P (me_sender envelope, me_recipient envelope, seq, me_kind envelope) of
             None \<Rightarrow> (Inl CryptoFailed, self)
           | Some aad \<Rightarrow>
               (case message_to_json P envelope of
                  None \<Rightarrow> (Inl CryptoFailed, self)
                | Some msg \<Rightarrow>
                    (case aead_seal P (ms_key self) nonce aad msg of
                       None \<Rightarrow> (Inl CryptoFailed, self)
                     | Some ct \<Rightarrow> (Inr (seq, nonce, ct), self))))"

definition Session_decrypt ::
  "'a messenger_prims_scheme \<Rightarrow> MsgSession \<Rightarrow> bytes \<Rightarrow> bytes \<Rightarrow> u64 \<Rightarrow> bytes \<Rightarrow> bytes \<Rightarrow> MessageKind
   \<Rightarrow> MessageEnvelope msg_result \<times> MsgSession" where
  "Session_decrypt P self sender recipient seq nonce ciphertext kind =
     (if seq < ms_receive_sequence self then (Inl ReplayedMessage, self)
      else case aad_to_json P (sender, recipient, seq, kind) of
        None \<Rightarrow> (Inl CryptoFailed, self)
      | Some aad \<Rightarrow>
          (case aead_open P (ms_key self) nonce aad ciphertext of
             None \<Rightarrow> (Inl InvalidMessage, self)
           | Some pt \<Rightarrow>
               (case message_from_json P pt of
                  None \<Rightarrow> (Inl InvalidMessage, self)
                | Some env \<Rightarrow>
                    if me_sender env \<noteq> sender \<or> me_recipient env \<noteq> recipient \<or> me_kind env \<noteq> kind \<or> me_sequence env \<noteq> seq
                    then (Inl InvalidMessage, self)
                    else if seq = - 1 then (Inl ReplayedMessage, self)
                    else (Inr env, self\<lparr>ms_receive_sequence := seq + 1\<rparr>))))"

definition new_ephemeral :: "'a net_prims_scheme \<Rightarrow> (nat \<Rightarrow> u8) \<Rightarrow> bytes \<times> bytes" where
  "new_ephemeral P rng = (let secret = map rng [0..<32] in (secret, x_public P secret))"

section \<open>Identifiers\<close>

text \<open>\<^verbatim>\<open>hex::encode\<close> writes lower case already; the slices panic on a text that is too short.\<close>

definition slice_to :: "nat \<Rightarrow> string \<Rightarrow> string result" where
  "slice_to n s = (if length s < n then Inl (Panic ''slice index'') else Ok (take n s))"

definition format_messenger_id :: "'a prims_scheme \<Rightarrow> bytes \<Rightarrow> string result" where
  "format_messenger_id P awe_id =
     (let hex_str = to_ascii_lowercase (hex_encode P awe_id) in
      if length hex_str < 16 then Inl (Panic ''slice index'')
      else Ok (''awe-msg-'' @ take 8 hex_str @ ''-'' @ take 8 (drop 8 hex_str)))"

definition format_uid :: "'a prims_scheme \<Rightarrow> bytes \<Rightarrow> string result" where
  "format_uid P awe_id =
     (let hex_str = to_ascii_lowercase (hex_encode P awe_id) in
      if length hex_str < 16 then Inl (Panic ''slice index'')
      else Ok (''uid-awe-msg-'' @ take 8 hex_str @ ''-'' @ take 8 (drop 8 hex_str)))"

definition tagged_id :: "'a prims_scheme \<Rightarrow> string \<Rightarrow> bytes \<Rightarrow> string result" where
  "tagged_id P tag i = (case slice_to 16 (hex_encode P i) of Inl e \<Rightarrow> Inl e | Inr s \<Rightarrow> Ok (tag @ s))"

definition format_chid :: "'a prims_scheme \<Rightarrow> bytes \<Rightarrow> string result" where
  "format_chid P i = tagged_id P ''chid-'' i"
definition format_gid :: "'a prims_scheme \<Rightarrow> bytes \<Rightarrow> string result" where
  "format_gid P i = tagged_id P ''gid-'' i"
definition format_fid :: "'a prims_scheme \<Rightarrow> bytes \<Rightarrow> string result" where
  "format_fid P i = tagged_id P ''fid-'' i"
definition format_sfid :: "'a prims_scheme \<Rightarrow> bytes \<Rightarrow> string result" where
  "format_sfid P i = tagged_id P ''sfid-'' i"
definition format_aid :: "'a prims_scheme \<Rightarrow> bytes \<Rightarrow> string result" where
  "format_aid P i = tagged_id P ''aid-'' i"
definition format_nid :: "'a prims_scheme \<Rightarrow> bytes \<Rightarrow> string result" where
  "format_nid P i = tagged_id P ''nid-'' i"

section \<open>Channels, files, groups and routes\<close>

record Channel =
  ch_id :: bytes
  ch_chid :: string
  ch_title :: string
  ch_owner :: bytes
  ch_owner_public_key :: bytes
  ch_subscribers :: "bytes list"

definition broadcast_signing_bytes :: "Channel \<Rightarrow> bytes \<Rightarrow> bytes" where
  "broadcast_signing_bytes self message = as_bytes ''AWE-CHANNEL/v1'' @ ch_id self @ message"

definition verify_channel_broadcast :: "'a prims_scheme \<Rightarrow> Channel \<Rightarrow> bytes \<Rightarrow> bytes \<Rightarrow> bool" where
  "verify_channel_broadcast P self message signature =
     (if length signature \<noteq> 64 then False
      else if \<not> ed_key_ok P (ch_owner_public_key self) then False
      else ed_verify P (ch_owner_public_key self) (as_bytes ''AWE-CHANNEL/v1'' @ ch_id self @ message) signature)"

record SecretFile =
  sf_id :: bytes
  sf_sfid :: string
  sf_encrypted_payload :: bytes
  sf_awe_secret_signature :: string

record Group =
  gr_id :: bytes
  gr_members :: "bytes list"
  gr_epoch :: u64

record RelayRoute =
  rr_hops :: "bytes list"
  rr_encrypted_layers :: "bytes list"

definition is_private_transport_hint :: "RelayRoute \<Rightarrow> bool" where
  "is_private_transport_hint self \<longleftrightarrow> length (rr_hops self) \<ge> 2 \<and> length (rr_hops self) = length (rr_encrypted_layers self)"

text \<open>The offline queue of \<^verbatim>\<open>messenger.rs\<close>: ciphertexts by message identifier.\<close>

record OfflineStore =
  os_messages :: "(bytes, bytes) btree_map"

definition OfflineQueue_enqueue :: "OfflineStore \<Rightarrow> bytes \<Rightarrow> bytes \<Rightarrow> OfflineStore" where
  "OfflineQueue_enqueue self i ciphertext = self\<lparr>os_messages := bt_insert i ciphertext (os_messages self)\<rparr>"

definition OfflineQueue_take :: "OfflineStore \<Rightarrow> bytes \<Rightarrow> bytes option \<times> OfflineStore" where
  "OfflineQueue_take self i = (bt_get (os_messages self) i, self\<lparr>os_messages := bt_remove i (os_messages self)\<rparr>)"

definition OfflineQueue_len :: "OfflineStore \<Rightarrow> nat" where
  "OfflineQueue_len self = length (os_messages self)"

definition OfflineQueue_is_empty :: "OfflineStore \<Rightarrow> bool" where
  "OfflineQueue_is_empty self \<longleftrightarrow> os_messages self = []"

section \<open>Runtime contracts\<close>

datatype ContactId = ContactId (contact_bytes: bytes)

datatype MediaKind = MediaText | EncryptedFile | VoiceMessage | CallOffer | CallAnswer | IceCandidate | Hangup

record Envelope =
  ev_message_id :: bytes
  ev_sender :: ContactId
  ev_recipient :: ContactId
  ev_session_epoch :: u64
  ev_sequence :: u64
  ev_kind :: MediaKind
  ev_ciphertext :: bytes

record GroupEpoch =
  ge_group_id :: bytes
  ge_epoch :: u64
  ge_members :: "ContactId list"

record RelayHop =
  rh_node_id :: bytes
  rh_expires_at_unix :: u64

record PrivacyRoute =
  pv_hops :: "RelayHop list"

record OfflineQueue =
  oq_queue :: "Envelope list"

definition OfflineQueue_push :: "OfflineQueue \<Rightarrow> Envelope \<Rightarrow> OfflineQueue" where
  "OfflineQueue_push self e = self\<lparr>oq_queue := oq_queue self @ [e]\<rparr>"

definition OfflineQueue_pop :: "OfflineQueue \<Rightarrow> Envelope option \<times> OfflineQueue" where
  "OfflineQueue_pop self = (case oq_queue self of [] \<Rightarrow> (None, self) | e # es \<Rightarrow> (Some e, self\<lparr>oq_queue := es\<rparr>))"

record MessengerState =
  mst_delivery :: "(bytes, DeliveryState) btree_map"
  mst_replay :: ReplayGuard
  mst_offline :: OfflineQueue

definition MessengerState_default :: MessengerState where
  "MessengerState_default = \<lparr>mst_delivery = [], mst_replay = ReplayGuard_default, mst_offline = \<lparr>oq_queue = []\<rparr>\<rparr>"

definition MessengerState_queue :: "MessengerState \<Rightarrow> Envelope \<Rightarrow> MessengerState" where
  "MessengerState_queue self e =
     self\<lparr>mst_delivery := bt_insert (ev_message_id e) Queued (mst_delivery self),
          mst_offline := OfflineQueue_push (mst_offline self) e\<rparr>"

definition MessengerState_mark :: "MessengerState \<Rightarrow> bytes \<Rightarrow> DeliveryState \<Rightarrow> MessengerState" where
  "MessengerState_mark self i state = self\<lparr>mst_delivery := bt_insert i state (mst_delivery self)\<rparr>"

definition validate_route :: "PrivacyRoute \<Rightarrow> u64 \<Rightarrow> bool" where
  "validate_route route now_unix \<longleftrightarrow>
     pv_hops route \<noteq> [] \<and> length (pv_hops route) \<le> 8 \<and> list_all (\<lambda>h. rh_expires_at_unix h > now_unix) (pv_hops route)"

section \<open>What a session delivers\<close>

text \<open>Identifiers have 32 bytes. A JSON text that was written reads back; the texts of messages of less
  than a gigabyte stay below the AEAD limit.\<close>

definition msg_wf :: "MessageEnvelope \<Rightarrow> bool" where
  "msg_wf e \<longleftrightarrow> length (me_id e) = 32 \<and> length (me_sender e) = 32 \<and> length (me_recipient e) = 32 \<and> length (me_payload e) < 2 ^ 30"

definition messenger_json_ok :: "'a messenger_prims_scheme \<Rightarrow> bool" where
  "messenger_json_ok P \<longleftrightarrow>
     (\<forall>e. \<exists>j. message_to_json P e = Some j \<and> message_from_json P j = Some e \<and> (msg_wf e \<longrightarrow> length j < 2 ^ 36))
     \<and> (\<forall>x. aad_to_json P x \<noteq> None)"

lemma ephemeral_keys:
  assumes "net_correct P" "length sa = 32" "length sb = 32"
    and "from_ephemeral P sa (x_public P sb) ctx = Inr a" "from_ephemeral P sb (x_public P sa) ctx = Inr b"
  shows "ms_key a = ms_key b \<and> length (ms_key a) = 32"
proof -
  have dh: "x_dh P sa (x_public P sb) = x_dh P sb (x_public P sa)"
    using assms(1-3) unfolding net_correct_def by blast
  have "\<exists>k. hkdf P (as_bytes ''AWE-MSG-V1'') (x_dh P sb (x_public P sa)) ctx 32 = Some k \<and> length k = 32"
    using assms(1) unfolding net_correct_def by simp
  then show ?thesis
    using assms(4,5) by (auto simp: from_ephemeral_def dh split: option.splits)
qed

lemma encrypt_decrypt:
  assumes net: "net_correct P" and json: "messenger_json_ok P" and key: "ms_key a = ms_key b" "length (ms_key a) = 32"
    and seq: "ms_send_sequence a \<noteq> - 1" "ms_receive_sequence b \<le> ms_send_sequence a" and e: "msg_wf e"
  obtains nonce ct where
    "Session_encrypt P rng a e = (Inr (ms_send_sequence a, nonce, ct), a\<lparr>ms_send_sequence := ms_send_sequence a + 1\<rparr>)"
    "Session_decrypt P b (me_sender e) (me_recipient e) (ms_send_sequence a) nonce ct (me_kind e)
       = (if me_sequence e = ms_send_sequence a then (Inr e, b\<lparr>ms_receive_sequence := ms_send_sequence a + 1\<rparr>)
          else (Inl InvalidMessage, b))"
proof -
  let ?n = "to_be_bytes_u64 (ms_send_sequence a) @ map rng [0..<4]"
  obtain aad where aad: "aad_to_json P (me_sender e, me_recipient e, ms_send_sequence a, me_kind e) = Some aad"
    using json unfolding messenger_json_ok_def by blast
  obtain j where j: "message_to_json P e = Some j" "message_from_json P j = Some e" "length j < 2 ^ 36"
    using json e unfolding messenger_json_ok_def by blast
  have "length ?n = 12"
    by (simp add: to_be_bytes_u64_def)
  then obtain ct where ct: "aead_seal P (ms_key a) ?n aad j = Some ct" "aead_open P (ms_key a) ?n aad ct = Some j"
    by (rule aead_seals [OF net key(2) _ j(3)])
  show thesis
  proof (rule that)
    show "Session_encrypt P rng a e = (Inr (ms_send_sequence a, ?n, ct), a\<lparr>ms_send_sequence := ms_send_sequence a + 1\<rparr>)"
      using seq(1) aad j ct by (simp add: Session_encrypt_def Let_def)
    show "Session_decrypt P b (me_sender e) (me_recipient e) (ms_send_sequence a) ?n ct (me_kind e)
       = (if me_sequence e = ms_send_sequence a then (Inr e, b\<lparr>ms_receive_sequence := ms_send_sequence a + 1\<rparr>)
          else (Inl InvalidMessage, b))"
      using seq aad j ct(2) by (simp add: Session_decrypt_def key(1) not_less)
  qed
qed

text \<open>C23. 
  Two ends that exchanged ephemeral keys: whatever one end encrypts, with its next sequence number in
  the envelope, the other end decrypts to the same envelope, and a second decryption of the same
  message is refused as a replay. An envelope that carries another sequence number than the session's
  is encrypted without an error and refused at the other end.
\<close>

theorem messenger_session_delivers:
  assumes net: "net_correct P" and json: "messenger_json_ok P" and secrets: "length sa = 32" "length sb = 32"
    and keys: "from_ephemeral P sa (x_public P sb) ctx = Inr a0" "from_ephemeral P sb (x_public P sa) ctx = Inr b0"
    and a: "ms_key a = ms_key a0" and b: "ms_key b = ms_key b0"
    and seq: "ms_send_sequence a \<noteq> - 1" "ms_receive_sequence b \<le> ms_send_sequence a" and e: "msg_wf e"
  shows "\<exists>nonce ct. fst (Session_encrypt P rng a e) = Inr (ms_send_sequence a, nonce, ct)
    \<and> (let d = Session_decrypt P b (me_sender e) (me_recipient e) (ms_send_sequence a) nonce ct (me_kind e) in
       if me_sequence e = ms_send_sequence a then fst d = Inr e
         \<and> fst (Session_decrypt P (snd d) (me_sender e) (me_recipient e) (ms_send_sequence a) nonce ct (me_kind e)) = Inl ReplayedMessage
       else d = (Inl InvalidMessage, b))"
proof -
  have key: "ms_key a = ms_key b" "length (ms_key a) = 32"
    using ephemeral_keys [OF net secrets keys] a b by auto
  have less: "ms_send_sequence a < ms_send_sequence a + 1"
    using seq(1) unat_inc [OF unat_not_max [OF seq(1)]] by (simp add: word_less_nat_alt)
  obtain nonce ct where
    "Session_encrypt P rng a e = (Inr (ms_send_sequence a, nonce, ct), a\<lparr>ms_send_sequence := ms_send_sequence a + 1\<rparr>)"
    "Session_decrypt P b (me_sender e) (me_recipient e) (ms_send_sequence a) nonce ct (me_kind e)
       = (if me_sequence e = ms_send_sequence a then (Inr e, b\<lparr>ms_receive_sequence := ms_send_sequence a + 1\<rparr>)
          else (Inl InvalidMessage, b))"
    by (rule encrypt_decrypt [OF net json key seq e])
  then show ?thesis
    using less by (intro exI [of _ nonce] exI [of _ ct]) (auto simp: Let_def Session_decrypt_def)
qed

text \<open>Any number of decryptions with any arguments; \<open>ss\<close> are the sequence numbers delivered.\<close>

inductive decrypts :: "'a messenger_prims_scheme \<Rightarrow> MsgSession \<Rightarrow> u64 list \<Rightarrow> MsgSession \<Rightarrow> bool" for P where
  start: "decrypts P s [] s"
| delivered: "decrypts P s ss t \<Longrightarrow> Session_decrypt P t i r q n c k = (Inr e, u) \<Longrightarrow> decrypts P s (ss @ [me_sequence e]) u"
| refused: "decrypts P s ss t \<Longrightarrow> Session_decrypt P t i r q n c k = (Inl x, u) \<Longrightarrow> decrypts P s ss u"

lemma decrypt_Inr:
  "Session_decrypt P t i r q n c k = (Inr e, u) \<Longrightarrow>
     ms_receive_sequence t \<le> me_sequence e \<and> ms_receive_sequence u = me_sequence e + 1 \<and> me_sequence e \<noteq> - 1
     \<and> me_sender e = i \<and> me_recipient e = r \<and> me_kind e = k \<and> me_sequence e = q"
  by (auto simp: Session_decrypt_def not_less split: if_splits option.splits)

lemma decrypt_Inl: "Session_decrypt P t i r q n c k = (Inl x, u) \<Longrightarrow> u = t"
  by (auto simp: Session_decrypt_def split: if_splits option.splits)

text \<open>
  The sequence numbers a session delivers are strictly increasing, whatever it is given: nothing is
  delivered twice, and a message that arrives after a later one is lost.
\<close>

theorem messenger_delivers_in_order:
  assumes "decrypts P s ss t"
  shows "sorted_wrt (<) (map unat ss) \<and> (\<forall>q \<in> set ss. unat q < unat (ms_receive_sequence t))"
  using assms
proof (induction rule: decrypts.induct)
  case (delivered s ss t i r q n c k e u)
  note d = decrypt_Inr [OF delivered(2)]
  have "unat (me_sequence e + 1) = unat (me_sequence e) + 1"
    using d unat_inc [OF unat_not_max] by blast
  moreover have "unat (ms_receive_sequence t) \<le> unat (me_sequence e)"
    using d unfolding word_le_nat_alt by (elim conjE)
  ultimately show ?case
    using delivered.IH d by (auto simp: sorted_wrt_append)
next
  case (refused s ss t i r q n c k x u)
  then show ?case
    using decrypt_Inl [OF refused(2)] by simp
qed simp

text \<open>Both directions of a conversation use one key, and a nonce is the sequence number and four
  random bytes: messages with the same number and the same random bytes share key and nonce.\<close>

lemma directions_share_nonces:
  assumes "ms_key a = ms_key b" "ms_send_sequence a = ms_send_sequence b"
    and "fst (Session_encrypt P rng a e) = Inr (q, n, c)" "fst (Session_encrypt P rng b f) = Inr (q', n', c')"
  shows "n = n'"
  using assms by (auto simp: Session_encrypt_def Let_def split: if_splits option.splits)

section \<open>Channels and queues\<close>

text \<open>
  A broadcast that its owner signed verifies on the channel, and the signed bytes of two channels agree
  only for the same channel and message.
\<close>

lemma broadcast_bound_to_channel:
  assumes "ed_correct P" "ch_owner_public_key c = ed_public P k" "length (ed_sign P k (broadcast_signing_bytes c m)) = 64"
  shows "verify_channel_broadcast P c m (ed_sign P k (broadcast_signing_bytes c m))"
    and "length (ch_id c) = 32 \<Longrightarrow> length (ch_id d) = 32 \<Longrightarrow>
      broadcast_signing_bytes c m = broadcast_signing_bytes d m' \<longleftrightarrow> ch_id c = ch_id d \<and> m = m'"
  using assms by (auto simp: verify_channel_broadcast_def broadcast_signing_bytes_def ed_correct_def)

lemma offline_take:
  assumes "bt_inv (os_messages q)"
  shows "fst (OfflineQueue_take (OfflineQueue_enqueue q i c) i) = Some c"
    and "fst (OfflineQueue_take (snd (OfflineQueue_take (OfflineQueue_enqueue q i c) i)) i) = None"
  using assms by (simp_all add: OfflineQueue_take_def OfflineQueue_enqueue_def)

text \<open>The runtime queue is first in, first out.\<close>

primrec pop_all :: "nat \<Rightarrow> OfflineQueue \<Rightarrow> Envelope list" where
  "pop_all 0 q = []"
| "pop_all (Suc n) q = (case OfflineQueue_pop q of (None, q) \<Rightarrow> [] | (Some e, q) \<Rightarrow> e # pop_all n q)"

lemma pop_all_queue: "oq_queue q = es \<Longrightarrow> pop_all (length es) q = es"
  by (induction es arbitrary: q) (simp_all add: OfflineQueue_pop_def)

lemma queued_messages_pop_in_order:
  "pop_all (length es) (mst_offline (foldl MessengerState_queue MessengerState_default es)) = es"
proof -
  have "oq_queue (mst_offline (foldl MessengerState_queue s es)) = oq_queue (mst_offline s) @ es" for s
    by (induction es arbitrary: s) (simp_all add: MessengerState_queue_def OfflineQueue_push_def)
  then show ?thesis
    by (intro pop_all_queue) (simp add: MessengerState_default_def)
qed

section \<open>A concrete instance\<close>

fun kind_byte :: "MessageKind \<Rightarrow> u8" where
  "kind_byte TextMsg = 0" | "kind_byte VoiceMsg = 1" | "kind_byte FileMsg = 2" | "kind_byte CallSignalMsg = 3" | "kind_byte GroupEvent = 4"

definition byte_kind :: "u8 \<Rightarrow> MessageKind" where
  "byte_kind b = (if b = 0 then TextMsg else if b = 1 then VoiceMsg else if b = 2 then FileMsg else if b = 3 then CallSignalMsg else GroupEvent)"

lemma byte_kind_byte [simp]: "byte_kind (kind_byte k) = k"
  by (cases k) (simp_all add: byte_kind_def)

definition demo_messenger :: messenger_prims where
  "demo_messenger = net_prims.extend demo_net
     \<lparr>message_to_json = (\<lambda>e. Some (concat (map enc_vec [me_id e, me_sender e, me_recipient e, to_be_bytes_u64 (me_timestamp e),
        to_be_bytes_u64 (me_sequence e), [kind_byte (me_kind e)], me_payload e]))),
      message_from_json = (\<lambda>b. case dec_vecs 7 b of None \<Rightarrow> None
        | Some vs \<Rightarrow> Some \<lparr>me_id = vs ! 0, me_sender = vs ! 1, me_recipient = vs ! 2, me_timestamp = from_be_bytes_u64 (vs ! 3),
            me_sequence = from_be_bytes_u64 (vs ! 4), me_kind = byte_kind (hd (vs ! 5)), me_payload = vs ! 6\<rparr>),
      aad_to_json = (\<lambda>(s, r, q, k). Some (s @ r @ to_be_bytes_u64 q @ [kind_byte k]))\<rparr>"

lemma demo_messenger_same:
  "aead_seal demo_messenger = aead_seal demo_net" "aead_open demo_messenger = aead_open demo_net"
  "x_public demo_messenger = x_public demo_net" "x_dh demo_messenger = x_dh demo_net" "hkdf demo_messenger = hkdf demo_net"
  by (simp_all add: demo_messenger_def net_prims.defs demo_net_defs)

lemma demo_messenger_net: "net_correct demo_messenger"
  using demo_net_correct unfolding net_correct_def demo_messenger_same .

lemma demo_messenger_json: "messenger_json_ok demo_messenger"
proof -
  have "message_from_json demo_messenger (concat (map enc_vec [me_id e, me_sender e, me_recipient e, to_be_bytes_u64 (me_timestamp e),
        to_be_bytes_u64 (me_sequence e), [kind_byte (me_kind e)], me_payload e])) = Some e" for e
    using dec_enc_vecs [of "[me_id e, me_sender e, me_recipient e, to_be_bytes_u64 (me_timestamp e),
        to_be_bytes_u64 (me_sequence e), [kind_byte (me_kind e)], me_payload e]"]
    by (simp add: demo_messenger_def net_prims.defs eval_nat_numeral)
  then show ?thesis
    by (simp add: messenger_json_ok_def demo_messenger_def net_prims.defs msg_wf_def to_be_bytes_u64_def)
qed

definition demo_message :: MessageEnvelope where
  "demo_message = \<lparr>me_id = replicate 32 9, me_sender = replicate 32 1, me_recipient = replicate 32 2, me_timestamp = 1,
     me_sequence = 0, me_kind = TextMsg, me_payload = [104, 105]\<rparr>"

definition demo_session :: MsgSession where
  "demo_session = \<lparr>ms_key = take 32 (map2 (XOR) (replicate 32 3) (replicate 32 4)), ms_send_sequence = 0, ms_receive_sequence = 0\<rparr>"

lemma demo_ephemeral:
  "from_ephemeral demo_messenger (replicate 32 3) (x_public demo_messenger (replicate 32 4)) [1] = Inr demo_session"
  "from_ephemeral demo_messenger (replicate 32 4) (x_public demo_messenger (replicate 32 3)) [1] = Inr demo_session"
  by (simp_all add: from_ephemeral_def demo_messenger_same demo_net_defs demo_session_def)

theorem messenger_session_delivers_witness:
  "\<exists>nonce ct. fst (Session_encrypt demo_messenger (\<lambda>_. 5) demo_session demo_message) = Inr (0, nonce, ct)
     \<and> fst (Session_decrypt demo_messenger demo_session (replicate 32 1) (replicate 32 2) 0 nonce ct TextMsg) = Inr demo_message"
  using messenger_session_delivers [OF demo_messenger_net demo_messenger_json _ _ demo_ephemeral,
      of demo_session demo_session demo_message "\<lambda>_. 5"]
  by (simp add: demo_session_def demo_message_def msg_wf_def Let_def) blast

theorem messenger_delivers_in_order_witness:
  "\<exists>t. decrypts demo_messenger demo_session [0] t \<and> sorted_wrt (<) (map unat [0 :: u64])"
proof -
  obtain nonce ct where "Session_decrypt demo_messenger demo_session (me_sender demo_message) (me_recipient demo_message)
      (ms_send_sequence demo_session) nonce ct (me_kind demo_message)
      = (if me_sequence demo_message = ms_send_sequence demo_session
         then (Inr demo_message, demo_session\<lparr>ms_receive_sequence := ms_send_sequence demo_session + 1\<rparr>) else (Inl InvalidMessage, demo_session))"
    by (rule encrypt_decrypt [OF demo_messenger_net demo_messenger_json, of demo_session demo_session demo_message "\<lambda>_. 5"])
      (simp_all add: demo_session_def demo_message_def msg_wf_def)
  then have "decrypts demo_messenger demo_session ([] @ [me_sequence demo_message]) (demo_session\<lparr>ms_receive_sequence := ms_send_sequence demo_session + 1\<rparr>)"
    by (intro decrypts.delivered [OF decrypts.start]) (simp add: demo_message_def demo_session_def)
  then have d: "decrypts demo_messenger demo_session [0] (demo_session\<lparr>ms_receive_sequence := ms_send_sequence demo_session + 1\<rparr>)"
    by (simp add: demo_message_def)
  show ?thesis
    using d messenger_delivers_in_order [OF d] by blast
qed

end
