(* ===== verification/Federation.thy ===== *)
theory Federation
  imports Wire
begin

text \<open>
  \<^verbatim>\<open>core/src/federation.rs\<close>: the configuration files of nodes, data centres and data groups, their
  generation, validation, storage and merging. BLAKE3 and hex are primitives (a digest has 64 hex
  digits, so the slices of the source are in range); the clock and the disk are arguments; the JSON
  codec is a parameter of the functions that load.

  The lemmas show that what is generated validates and is read back, and that merging is a union that
  keeps the local configuration valid, is idempotent, and changes nothing when it is refused.
\<close>

section \<open>Configurations\<close>

definition FORMAT_VERSION :: u16 where
  "FORMAT_VERSION = 1"

record AweNodeConfig =
  nc_format :: string
  nc_version :: u16
  nc_node_id :: string
  nc_data_centre_id :: string
  nc_data_centre_name :: string
  nc_issued_at_unix :: u64
  nc_endpoint :: string
  nc_bootstrap_endpoints :: "string list"
  nc_join_token :: string

record DataCentreConfig =
  dcc_format :: string
  dcc_version :: u16
  dcc_data_centre_id :: string
  dcc_data_centre_name :: string
  dcc_owner_node_id :: string
  dcc_issued_at_unix :: u64
  dcc_endpoints :: "string list"
  dcc_member_node_ids :: "string list"
  dcc_peer_data_centres :: "string list"
  dcc_join_token :: string

record DataGroupConfig =
  dgc_format :: string
  dgc_version :: u16
  dgc_data_group_id :: string
  dgc_data_group_name :: string
  dgc_issued_at_unix :: u64
  dgc_owner_data_centre_id :: string
  dgc_data_centre_ids :: "string list"
  dgc_peer_data_groups :: "string list"
  dgc_join_token :: string

record AweNetConfig =
  anc_format :: string
  anc_version :: u16
  anc_local_node_id :: string
  anc_local_data_centre_id :: "string option"
  anc_local_data_group_id :: "string option"
  anc_joined_data_centres :: "string list"
  anc_joined_data_groups :: "string list"
  anc_bootstrap_endpoints :: "string list"

section \<open>Generation\<close>

definition token :: "'a prims_scheme \<Rightarrow> u128 \<Rightarrow> string \<Rightarrow> string \<Rightarrow> string" where
  "token P nanos prefix seed =
     prefix @ ''-'' @ take 32 (hex_encode P (blake3 P (as_bytes prefix @ as_bytes seed @ be_bytes 16 (unat nanos))))"

definition config_id :: "'a prims_scheme \<Rightarrow> string \<Rightarrow> string \<Rightarrow> string" where
  "config_id P prefix seed =
     prefix @ ''-'' @ take 24 (hex_encode P (blake3 P (as_bytes (''AWE/'' @ prefix @ ''/v1/'' @ seed))))"

definition generate_awenode_for_dc ::
  "'a prims_scheme \<Rightarrow> u128 \<Rightarrow> string \<Rightarrow> string \<Rightarrow> string \<Rightarrow> string \<Rightarrow> string list \<Rightarrow> u64 \<Rightarrow> AweNodeConfig" where
  "generate_awenode_for_dc P nanos nid data_centre_id name endpoint boot now =
     \<lparr>nc_format = ''awenode'', nc_version = FORMAT_VERSION, nc_node_id = nid, nc_data_centre_id = data_centre_id,
      nc_data_centre_name = name, nc_issued_at_unix = now, nc_endpoint = endpoint, nc_bootstrap_endpoints = boot,
      nc_join_token = token P nanos ''node'' nid\<rparr>"

definition generate_awenode ::
  "'a prims_scheme \<Rightarrow> u128 \<Rightarrow> string \<Rightarrow> string \<Rightarrow> string \<Rightarrow> string list \<Rightarrow> u64 \<Rightarrow> AweNodeConfig" where
  "generate_awenode P nanos nid name endpoint boot now =
     generate_awenode_for_dc P nanos nid (config_id P ''dc'' (nid @ '':'' @ name)) name endpoint boot now"

definition generate_awedc ::
  "'a prims_scheme \<Rightarrow> u128 \<Rightarrow> string \<Rightarrow> string \<Rightarrow> string \<Rightarrow> string list \<Rightarrow> string list \<Rightarrow> u64 \<Rightarrow> DataCentreConfig" where
  "generate_awedc P nanos owner_node_id dc_id name endpoints members now =
     \<lparr>dcc_format = ''awedc'', dcc_version = FORMAT_VERSION, dcc_data_centre_id = dc_id, dcc_data_centre_name = name,
      dcc_owner_node_id = owner_node_id, dcc_issued_at_unix = now, dcc_endpoints = endpoints,
      dcc_member_node_ids = members, dcc_peer_data_centres = [], dcc_join_token = token P nanos ''dc'' dc_id\<rparr>"

definition generate_dgc :: "'a prims_scheme \<Rightarrow> u128 \<Rightarrow> string \<Rightarrow> string \<Rightarrow> string list \<Rightarrow> u64 \<Rightarrow> DataGroupConfig" where
  "generate_dgc P nanos owner_dc_id name data_centres now =
     (let ids = remdups_adj (sort data_centres) in
      \<lparr>dgc_format = ''dgc'', dgc_version = FORMAT_VERSION,
       dgc_data_group_id = config_id P ''dg'' (owner_dc_id @ '':'' @ name @ '':'' @ join_with '','' ids),
       dgc_data_group_name = name, dgc_issued_at_unix = now, dgc_owner_data_centre_id = owner_dc_id,
       dgc_data_centre_ids = ids, dgc_peer_data_groups = [], dgc_join_token = token P nanos ''dg'' owner_dc_id\<rparr>)"

section \<open>Validation\<close>

definition validate_awenode :: "AweNodeConfig \<Rightarrow> unit result" where
  "validate_awenode v =
     (if nc_format v \<noteq> ''awenode'' \<or> nc_version v \<noteq> FORMAT_VERSION then Err ''invalid .awenode format/version''
      else if nc_node_id v = [] \<or> nc_data_centre_id v = [] \<or> nc_endpoint v = [] \<or> nc_join_token v = []
      then Err ''incomplete .awenode configuration'' else Ok ())"

definition validate_awedc :: "DataCentreConfig \<Rightarrow> unit result" where
  "validate_awedc v =
     (if dcc_format v \<noteq> ''awedc'' \<or> dcc_version v \<noteq> FORMAT_VERSION then Err ''invalid .awedc format/version''
      else if dcc_data_centre_id v = [] \<or> dcc_owner_node_id v = [] \<or> dcc_endpoints v = [] \<or> dcc_join_token v = []
      then Err ''incomplete .awedc configuration''
      else if dcc_member_node_ids v = [] then Err ''data centre must contain at least one node'' else Ok ())"

definition validate_dgc :: "DataGroupConfig \<Rightarrow> unit result" where
  "validate_dgc v =
     (if dgc_format v \<noteq> ''dgc'' \<or> dgc_version v \<noteq> FORMAT_VERSION then Err ''invalid .dgc format/version''
      else if dgc_data_group_id v = [] \<or> dgc_owner_data_centre_id v = [] \<or> dgc_join_token v = []
      then Err ''incomplete .dgc configuration''
      else if length (dgc_data_centre_ids v) < 2 then Err ''data group requires at least two data centres'' else Ok ())"

section \<open>Files\<close>

text \<open>Saving with the outcome of creating the directory and of writing; a failed write may leave any text.\<close>

definition config_save ::
  "('c \<Rightarrow> string + bytes) \<Rightarrow> bool \<Rightarrow> bytes option \<Rightarrow> 'c \<Rightarrow> string \<Rightarrow> (string, bytes) btree_map \<Rightarrow> unit result \<times> (string, bytes) btree_map" where
  "config_save to_json mkdir_ok torn v path d =
     (if \<not> mkdir_ok then (Err ''create_dir_all'', d)
      else case to_json v of
        Inl e \<Rightarrow> (Err e, d)
      | Inr b \<Rightarrow> (case torn of None \<Rightarrow> (Ok (), bt_insert path b d) | Some t \<Rightarrow> (Err ''write'', bt_insert path t d)))"

definition config_load :: "(bytes \<Rightarrow> string + 'c) \<Rightarrow> ('c \<Rightarrow> unit result) \<Rightarrow> string \<Rightarrow> (string, bytes) btree_map \<Rightarrow> 'c result" where
  "config_load from_json validate path d =
     (case bt_get d path of
        None \<Rightarrow> Err ''read''
      | Some b \<Rightarrow>
          (case from_json b of
             Inl e \<Rightarrow> Err e
           | Inr v \<Rightarrow> (case validate v of Inl e \<Rightarrow> Inl e | Inr _ \<Rightarrow> Ok v)))"

definition load_awenode :: "(bytes \<Rightarrow> string + AweNodeConfig) \<Rightarrow> string \<Rightarrow> (string, bytes) btree_map \<Rightarrow> AweNodeConfig result" where
  "load_awenode from_json path d = config_load from_json validate_awenode path d"

definition load_awedc :: "(bytes \<Rightarrow> string + DataCentreConfig) \<Rightarrow> string \<Rightarrow> (string, bytes) btree_map \<Rightarrow> DataCentreConfig result" where
  "load_awedc from_json path d = config_load from_json validate_awedc path d"

definition load_dgc :: "(bytes \<Rightarrow> string + DataGroupConfig) \<Rightarrow> string \<Rightarrow> (string, bytes) btree_map \<Rightarrow> DataGroupConfig result" where
  "load_dgc from_json path d = config_load from_json validate_dgc path d"

section \<open>Merging\<close>

definition push_new :: "'a list \<Rightarrow> 'a list \<Rightarrow> 'a list" where
  "push_new local incoming = foldl (\<lambda>xs x. if x \<in> set xs then xs else xs @ [x]) local incoming"

definition merge_awedc :: "DataCentreConfig \<Rightarrow> DataCentreConfig \<Rightarrow> unit result \<times> DataCentreConfig" where
  "merge_awedc local incoming =
     (case validate_awedc incoming of
        Inl e \<Rightarrow> (Inl e, local)
      | Inr _ \<Rightarrow>
          if dcc_data_centre_id local = dcc_data_centre_id incoming
          then (Err ''cannot merge a data centre with itself'', local)
          else (Ok (), local\<lparr>dcc_endpoints := push_new (dcc_endpoints local) (dcc_endpoints incoming),
                   dcc_peer_data_centres := push_new (dcc_peer_data_centres local) [dcc_data_centre_id incoming]\<rparr>))"

definition merge_dgc :: "DataGroupConfig \<Rightarrow> DataGroupConfig \<Rightarrow> unit result \<times> DataGroupConfig" where
  "merge_dgc local incoming =
     (case validate_dgc incoming of
        Inl e \<Rightarrow> (Inl e, local)
      | Inr _ \<Rightarrow>
          if dgc_data_group_id local = dgc_data_group_id incoming
          then (Err ''cannot merge a data group with itself'', local)
          else (Ok (), local\<lparr>dgc_data_centre_ids := push_new (dgc_data_centre_ids local) (dgc_data_centre_ids incoming),
                   dgc_peer_data_groups := push_new (dgc_peer_data_groups local) (dgc_peer_data_groups incoming)\<rparr>))"

section \<open>Lemmas\<close>

lemma push_new_simps [simp]: "push_new xs [] = xs" "push_new xs (y # ys) = push_new (if y \<in> set xs then xs else xs @ [y]) ys"
  by (simp_all add: push_new_def)

lemma push_new_facts:
  "set (push_new xs ys) = set xs \<union> set ys \<and> (\<exists>zs. push_new xs ys = xs @ zs) \<and> (distinct xs \<longrightarrow> distinct (push_new xs ys))"
proof (induction ys arbitrary: xs)
  case (Cons y ys)
  show ?case
    using Cons [of xs] Cons [of "xs @ [y]"] by (auto split: if_splits)
qed simp

lemma push_new_absorbs: "set ys \<subseteq> set xs \<Longrightarrow> push_new xs ys = xs"
  by (induction ys) simp_all

lemma push_new_idem: "push_new (push_new xs ys) ys = push_new xs ys"
  using push_new_facts [of xs ys] by (intro push_new_absorbs) auto

text \<open>
  Merging a data centre: it is refused exactly for an invalid or the same data centre and then changes
  nothing; otherwise the endpoints become the union in the old order, the other centre becomes a peer,
  validity is kept, no entry is repeated that was not before, and merging again changes nothing.
\<close>

theorem merge_awedc_union:
  "(fst (merge_awedc a b) = Ok () \<longleftrightarrow> validate_awedc b = Ok () \<and> dcc_data_centre_id a \<noteq> dcc_data_centre_id b)
   \<and> (fst (merge_awedc a b) \<noteq> Ok () \<longrightarrow> snd (merge_awedc a b) = a)
   \<and> (fst (merge_awedc a b) = Ok () \<longrightarrow>
        set (dcc_endpoints (snd (merge_awedc a b))) = set (dcc_endpoints a) \<union> set (dcc_endpoints b)
        \<and> dcc_data_centre_id b \<in> set (dcc_peer_data_centres (snd (merge_awedc a b))))
   \<and> (validate_awedc a = Ok () \<longrightarrow> validate_awedc (snd (merge_awedc a b)) = Ok ())
   \<and> snd (merge_awedc (snd (merge_awedc a b)) b) = snd (merge_awedc a b)"
proof (cases "validate_awedc b = Ok () \<and> dcc_data_centre_id a \<noteq> dcc_data_centre_id b")
  case False
  then have "fst (merge_awedc a b) \<noteq> Ok () \<and> snd (merge_awedc a b) = a"
    by (auto simp: merge_awedc_def split: sum.splits)
  then show ?thesis
    using False by simp
next
  case True
  define ends where "ends = push_new (dcc_endpoints a) (dcc_endpoints b)"
  define peers where "peers = push_new (dcc_peer_data_centres a) [dcc_data_centre_id b]"
  define m where "m = a\<lparr>dcc_endpoints := ends, dcc_peer_data_centres := peers\<rparr>"
  have merge: "merge_awedc a b = (Ok (), m)"
    using True by (simp add: merge_awedc_def m_def ends_def peers_def)
  have again: "merge_awedc m b = (Ok (), m)"
    using True by (simp add: merge_awedc_def m_def ends_def peers_def push_new_idem)
  have ends: "set ends = set (dcc_endpoints a) \<union> set (dcc_endpoints b)" "ends = [] \<longrightarrow> dcc_endpoints a = []"
    using push_new_facts [of "dcc_endpoints a" "dcc_endpoints b"] unfolding ends_def by auto
  have "validate_awedc a = Ok () \<longrightarrow> validate_awedc m = Ok ()"
    using ends(2) by (auto simp: validate_awedc_def m_def)
  moreover have "dcc_data_centre_id b \<in> set peers"
    unfolding peers_def by simp
  ultimately show ?thesis
    using True ends(1) by (simp add: merge again) (simp add: m_def)
qed

text \<open>
  A generated data-group configuration has its data centres sorted without repetition, so it validates
  exactly when an owner is given and at least two different data centres are named, and then it is read
  back as it was saved.
\<close>

theorem generated_group_validates:
  assumes json: "\<And>v. \<exists>b. to_json v = Inr b \<and> from_json b = Inr v"
  shows "(validate_dgc (generate_dgc P nanos owner name dcs now) = Ok () \<longleftrightarrow> owner \<noteq> [] \<and> 2 \<le> card (set dcs))
    \<and> (owner \<noteq> [] \<and> 2 \<le> card (set dcs) \<longrightarrow>
         load_dgc from_json path (snd (config_save to_json True None (generate_dgc P nanos owner name dcs now) path d))
           = Ok (generate_dgc P nanos owner name dcs now))"
proof -
  let ?g = "generate_dgc P nanos owner name dcs now"
  have "length (remdups_adj (sort dcs)) = card (set dcs)"
    by (metis distinct_card remdups_adj_distinct_sorted remdups_adj_set set_sort sorted_sort)
  then have valid: "validate_dgc ?g = Ok () \<longleftrightarrow> owner \<noteq> [] \<and> 2 \<le> card (set dcs)"
    by (auto simp: validate_dgc_def generate_dgc_def Let_def config_id_def token_def)
  obtain b where "to_json ?g = Inr b" "from_json b = Inr ?g"
    using json by blast
  then show ?thesis
    using valid by (auto simp: load_dgc_def config_load_def config_save_def)
qed

end
