(* ===== verification/Product.thy ===== *)
theory Product
  imports Wire
begin

text \<open>
  \<^verbatim>\<open>core/src/product.rs\<close>, \<^verbatim>\<open>core/src/diagnostics.rs\<close>, \<^verbatim>\<open>core/src/readiness.rs\<close> and \<^verbatim>\<open>core/src/lan_mesh.rs\<close>:
  the product state with its counters, node health and log redaction, the readiness table and the
  LAN beacon. Instants are seconds; the Unicode lower-case mapping is an argument of the log filter.

  The lemmas show that the chunks of a resource cover it exactly, that capacity never goes negative,
  that replicas are counted once per node, when the log filter redacts and when it fails.
\<close>

section \<open>Product model\<close>

definition PRODUCT_PROTOCOL :: string where
  "PRODUCT_PROTOCOL = ''AWEP2P/1''"
definition DEFAULT_REPLICATION :: u8 where
  "DEFAULT_REPLICATION = 3"
definition DEFAULT_CHUNK_SIZE :: u64 where
  "DEFAULT_CHUNK_SIZE = 4 * 1024 * 1024"

definition ResourceId_from_bytes :: "'a prims_scheme \<Rightarrow> bytes \<Rightarrow> string" where
  "ResourceId_from_bytes P b = hex_encode P (blake3 P b)"

record ResourceManifest =
  rm_id :: string
  rm_size :: u64
  rm_chunk_size :: u64
  rm_chunks :: u32
  rm_name :: "string option"
  rm_mime :: "string option"
  rm_encrypted :: bool

definition ResourceManifest_from_bytes :: "'a prims_scheme \<Rightarrow> bytes \<Rightarrow> string option \<Rightarrow> string option \<Rightarrow> ResourceManifest" where
  "ResourceManifest_from_bytes P b name mime =
     (let chunk_size = DEFAULT_CHUNK_SIZE;
          chunks = (if b = [] then 0
                    else of_nat ((length b + unat chunk_size - 1) div unat chunk_size))
      in \<lparr>rm_id = ResourceId_from_bytes P b, rm_size = of_nat (length b), rm_chunk_size = chunk_size, rm_chunks = chunks,
          rm_name = name, rm_mime = mime, rm_encrypted = False\<rparr>)"

record NodeCapacity =
  cap_storage_bytes :: u64
  cap_reserved_bytes :: u64
  cap_used_bytes :: u64

definition available_bytes :: "NodeCapacity \<Rightarrow> u64" where
  "available_bytes self = sat_sub (sat_sub (cap_storage_bytes self) (cap_reserved_bytes self)) (cap_used_bytes self)"

definition can_store :: "NodeCapacity \<Rightarrow> u64 \<Rightarrow> bool" where
  "can_store self b \<longleftrightarrow> available_bytes self \<ge> b"

record ProductPeer =
  pp_id :: string
  pp_address :: string
  pp_capabilities :: "string list"
  pp_last_seen_unix :: u64
  pp_healthy :: bool

datatype TransferState = Planned | Connecting | Transferring u64 u64 | Verifying | Complete | TransferFailed string

record Transfer =
  tr_id :: string
  tr_resource :: string
  tr_peer :: string
  tr_state :: TransferState

record PlacementPolicy =
  plp_replicas :: u8
  plp_require_distinct_nodes :: bool
  plp_max_retries :: u8

definition PlacementPolicy_default :: PlacementPolicy where
  "PlacementPolicy_default = \<lparr>plp_replicas = DEFAULT_REPLICATION, plp_require_distinct_nodes = True, plp_max_retries = 5\<rparr>"

record ProductConfig =
  pc_protocol :: string
  pc_chunk_size :: u64
  pc_placement :: PlacementPolicy
  pc_encrypted_by_default :: bool

definition ProductConfig_default :: ProductConfig where
  "ProductConfig_default = \<lparr>pc_protocol = PRODUCT_PROTOCOL, pc_chunk_size = DEFAULT_CHUNK_SIZE,
     pc_placement = PlacementPolicy_default, pc_encrypted_by_default = True\<rparr>"

record ProductSnapshot =
  psn_protocol :: string
  psn_node_id :: string
  psn_online :: bool
  psn_peers :: nat
  psn_resources :: nat
  psn_active_transfers :: nat
  psn_healthy_replicas :: nat
  psn_target_replicas :: u8

text \<open>A \<^verbatim>\<open>BTreeSet\<close> is a strictly sorted list.\<close>

record ProductState =
  pst_peers :: "(string, ProductPeer) btree_map"
  pst_resources :: "(string, ResourceManifest) btree_map"
  pst_placements :: "(string, string list) btree_map"
  pst_transfers :: "(string, Transfer) btree_map"

definition ProductState_default :: ProductState where
  "ProductState_default = \<lparr>pst_peers = [], pst_resources = [], pst_placements = [], pst_transfers = []\<rparr>"

definition register_peer :: "ProductState \<Rightarrow> ProductPeer \<Rightarrow> ProductState" where
  "register_peer self peer = self\<lparr>pst_peers := bt_insert (pp_id peer) peer (pst_peers self)\<rparr>"

definition register_resource :: "ProductState \<Rightarrow> ResourceManifest \<Rightarrow> ProductState" where
  "register_resource self manifest = self\<lparr>pst_resources := bt_insert (rm_id manifest) manifest (pst_resources self)\<rparr>"

definition record_placement :: "ProductState \<Rightarrow> string \<Rightarrow> string \<Rightarrow> ProductState" where
  "record_placement self resource nid =
     self\<lparr>pst_placements := bt_insert resource (insort_insert nid (bt_get_or (pst_placements self) resource [])) (pst_placements self)\<rparr>"

definition replica_count :: "ProductState \<Rightarrow> string \<Rightarrow> nat" where
  "replica_count self resource = (case bt_get (pst_placements self) resource of None \<Rightarrow> 0 | Some s \<Rightarrow> length s)"

definition healthy_peers :: "ProductState \<Rightarrow> nat" where
  "healthy_peers self = length (filter pp_healthy (map snd (pst_peers self)))"

fun transfer_active :: "TransferState \<Rightarrow> bool" where
  "transfer_active Complete = False"
| "transfer_active (TransferFailed _) = False"
| "transfer_active _ = True"

definition active_transfers :: "ProductState \<Rightarrow> nat" where
  "active_transfers self = length (filter (\<lambda>t. transfer_active (tr_state t)) (map snd (pst_transfers self)))"

definition snapshot :: "ProductState \<Rightarrow> string \<Rightarrow> bool \<Rightarrow> u8 \<Rightarrow> ProductSnapshot" where
  "snapshot self nid online target_replicas =
     \<lparr>psn_protocol = PRODUCT_PROTOCOL, psn_node_id = nid, psn_online = online, psn_peers = healthy_peers self,
      psn_resources = length (pst_resources self), psn_active_transfers = active_transfers self,
      psn_healthy_replicas = sum_list (map (\<lambda>e. length (snd e)) (pst_placements self)), psn_target_replicas = target_replicas\<rparr>"

section \<open>Diagnostics\<close>

datatype HealthStatus = Online | Degraded | HealthWarning | Offline | HealthQuarantined

record NodeMetrics =
  nm_uptime_secs :: u64
  nm_latency_ms :: u32
  nm_bandwidth_kbps :: u32
  nm_available_storage_bytes :: u64
  nm_used_storage_bytes :: u64
  nm_successful_transfers :: u64
  nm_failed_transfers :: u64
  nm_replica_health_pct :: u8
  nm_dht_responsiveness_pct :: u8
  nm_cpu_usage_pct :: u8
  nm_ram_usage_pct :: u8

definition NodeMetrics_default :: NodeMetrics where
  "NodeMetrics_default = \<lparr>nm_uptime_secs = 0, nm_latency_ms = 10, nm_bandwidth_kbps = 10000,
     nm_available_storage_bytes = 10 * 1024 * 1024 * 1024, nm_used_storage_bytes = 0, nm_successful_transfers = 0,
     nm_failed_transfers = 0, nm_replica_health_pct = 100, nm_dht_responsiveness_pct = 100, nm_cpu_usage_pct = 5,
     nm_ram_usage_pct = 10\<rparr>"

record NodeDiagnostics =
  nd_start_time :: u64
  nd_metrics :: NodeMetrics

definition NodeDiagnostics_new :: "u64 \<Rightarrow> NodeDiagnostics" where
  "NodeDiagnostics_new now = \<lparr>nd_start_time = now, nd_metrics = NodeMetrics_default\<rparr>"

definition update_metrics :: "NodeDiagnostics \<Rightarrow> NodeMetrics \<Rightarrow> u64 \<Rightarrow> NodeDiagnostics" where
  "update_metrics self metrics now =
     self\<lparr>nd_metrics := metrics\<lparr>nm_uptime_secs := sat_sub now (nd_start_time self)\<rparr>\<rparr>"

definition health_status :: "NodeDiagnostics \<Rightarrow> HealthStatus" where
  "health_status self =
     (let m = nd_metrics self in
      if nm_failed_transfers m > nm_successful_transfers m + 50 then HealthWarning
      else if nm_replica_health_pct m < 50 \<or> nm_dht_responsiveness_pct m < 50 then Degraded
      else if nm_cpu_usage_pct m > 95 \<or> nm_ram_usage_pct m > 95 then HealthWarning
      else Online)"

text \<open>\<^verbatim>\<open>str::find\<close>, \<^verbatim>\<open>str::replace\<close> and slicing on UTF-8 bytes; replacing the empty text inserts at every
  character boundary.\<close>

fun find_sub :: "string \<Rightarrow> string \<Rightarrow> nat option" where
  "find_sub pat s =
     (if take (length pat) s = pat then Some 0
      else case s of [] \<Rightarrow> None | c # cs \<Rightarrow> map_option Suc (find_sub pat cs))"

definition continuation :: "char \<Rightarrow> bool" where
  "continuation c \<longleftrightarrow> 128 \<le> (of_char c :: nat) \<and> (of_char c :: nat) < 192"

function replace_all :: "string \<Rightarrow> string \<Rightarrow> string \<Rightarrow> string" where
  "replace_all pat new s =
     (if pat = [] then concat (map (\<lambda>c. if continuation c then [c] else new @ [c]) s) @ new
      else case s of
        [] \<Rightarrow> []
      | c # cs \<Rightarrow>
          if take (length pat) s = pat then new @ replace_all pat new (drop (length pat) s)
          else c # replace_all pat new cs)"
  by auto
termination
  by (relation "measure (\<lambda>(pat, new, s). length s)") auto

declare find_sub.simps [simp del] replace_all.simps [simp del]

definition sanitize_key :: "(string \<Rightarrow> string) \<Rightarrow> string \<Rightarrow> string \<Rightarrow> string result" where
  "sanitize_key lower key sanitized =
     (case find_sub key (lower sanitized) of
        None \<Rightarrow> Ok sanitized
      | Some idx \<Rightarrow>
          if idx > length sanitized \<or> (idx < length sanitized \<and> continuation (sanitized ! idx))
          then Inl (Panic ''slice index'')
          else
            let rest = drop idx sanitized in
            case find_sub '':'' rest of
              None \<Rightarrow> Ok sanitized
            | Some colon \<Rightarrow>
                let stop = (case find_sub [CHR 0x0A] rest of None \<Rightarrow> length rest | Some n \<Rightarrow> n) in
                if stop < colon + 1 then Inl (Panic ''slice index'')
                else Ok (replace_all (drop (colon + 1) (take stop rest)) '' [REDACTED]'' sanitized))"

fun sanitize_keys :: "(string \<Rightarrow> string) \<Rightarrow> string list \<Rightarrow> string \<Rightarrow> string result" where
  "sanitize_keys lower [] s = Ok s"
| "sanitize_keys lower (key # keys) s = (case sanitize_key lower key s of Inl e \<Rightarrow> Inl e | Inr s \<Rightarrow> sanitize_keys lower keys s)"

definition sanitize_log :: "(string \<Rightarrow> string) \<Rightarrow> string \<Rightarrow> string result" where
  "sanitize_log lower input = sanitize_keys lower [''password'', ''secret'', ''private_key'', ''vault_key'', ''seed''] input"

section \<open>Readiness\<close>

record ReadinessItem =
  ri_name :: string
  ri_implemented :: bool
  ri_operator_validation_required :: bool

definition READINESS_ITEMS :: "ReadinessItem list" where
  "READINESS_ITEMS = map (\<lambda>(n, i). \<lparr>ri_name = n, ri_implemented = i, ri_operator_validation_required = True\<rparr>)
     [(''Authenticated encrypted transport'', True), (''Peer discovery and signed announcements'', True),
      (''DHT-style iterative peer lookup'', True), (''Data Centre topology and relay failover'', True),
      (''Encrypted data-plane framing'', True), (''Replica placement and repair planning'', True),
      (''Local storage integrity and recovery primitives'', True), (''Resource admission and hostile-traffic limits'', True),
      (''LAN and cross-machine node operation'', True), (''NAT traversal and multi-transport deployment'', False),
      (''End-to-end AWEwww/AWETLD/AWEOpen resolution over live peers'', False),
      (''Production multi-Data-Centre recovery and release validation'', False)]"

definition implementation_percent :: u8 where
  "implementation_percent = of_nat (length (filter ri_implemented READINESS_ITEMS) * 100 div length READINESS_ITEMS)"

definition remaining_percent :: u8 where
  "remaining_percent = 100 - implementation_percent"

section \<open>LAN beacon\<close>

definition LAN_MAGIC :: bytes where
  "LAN_MAGIC = as_bytes ''AWEMESH1''"

record LanPeerBeacon =
  lb_magic :: bytes
  lb_node_id :: bytes
  lb_listen_addr :: SocketAddr
  lb_is_gateway :: bool
  lb_capabilities :: "string list"

definition LanPeerBeacon_new :: "bytes \<Rightarrow> SocketAddr \<Rightarrow> bool \<Rightarrow> LanPeerBeacon" where
  "LanPeerBeacon_new nid listen_addr is_gateway =
     \<lparr>lb_magic = LAN_MAGIC, lb_node_id = nid, lb_listen_addr = listen_addr, lb_is_gateway = is_gateway,
      lb_capabilities = [''storage'', ''dht'', ''mesh'']\<rparr>"

definition LanPeerBeacon_encode :: "(LanPeerBeacon \<Rightarrow> bytes option) \<Rightarrow> LanPeerBeacon \<Rightarrow> bytes result" where
  "LanPeerBeacon_encode to_json self = (case to_json self of None \<Rightarrow> Err ''serialization error'' | Some b \<Rightarrow> Ok b)"

definition LanPeerBeacon_decode :: "(bytes \<Rightarrow> LanPeerBeacon option) \<Rightarrow> bytes \<Rightarrow> LanPeerBeacon result" where
  "LanPeerBeacon_decode from_json b =
     (case from_json b of
        None \<Rightarrow> Err ''deserialization error''
      | Some beacon \<Rightarrow> if lb_magic beacon \<noteq> LAN_MAGIC then Err ''invalid LAN magic prefix'' else Ok beacon)"

section \<open>Lemmas\<close>

text \<open>
  The chunks of a resource cover it and the last one is not empty, for resources below the 2^32 chunks
  a manifest can count; an empty resource has none.
\<close>

theorem chunks_cover_resource:
  assumes "length b \<le> 4194304 * (2 ^ 32 - 1)"
  shows "let m = ResourceManifest_from_bytes P b name mime; n = unat (rm_chunks m); c = unat (rm_chunk_size m) in
    unat (rm_size m) = length b \<and> length b \<le> n * c \<and> (b \<noteq> [] \<longrightarrow> (n - 1) * c < length b) \<and> (b = [] \<longrightarrow> n = 0)"
proof -
  let ?n = "(length b + 4194304 - 1) div 4194304"
  have c: "unat DEFAULT_CHUNK_SIZE = 4194304"
    by (simp add: DEFAULT_CHUNK_SIZE_def)
  have n: "?n < 2 ^ 32" and cover: "length b \<le> ?n * 4194304"
    using assms by auto
  have "?n * 4194304 \<le> length b + 4194304 - 1"
    by (rule div_times_less_eq_dividend)
  then have last: "b \<noteq> [] \<longrightarrow> (?n - 1) * 4194304 < length b"
    by (cases b) (simp_all add: diff_mult_distrib)
  have size: "unat (of_nat (length b) :: u64) = length b"
    using assms by (simp add: unat_of_nat_small)
  have "unat (of_nat ?n :: u32) = ?n"
    using n by (simp add: unat_of_nat_small)
  then show ?thesis
    using cover last size by (auto simp: ResourceManifest_from_bytes_def Let_def c)
qed

lemma capacity_exact:
  "unat (available_bytes c) = unat (cap_storage_bytes c) - unat (cap_reserved_bytes c) - unat (cap_used_bytes c)"
  by (simp add: available_bytes_def unat_simps)

lemma placements_counted_once:
  assumes "bt_inv (pst_placements s)" "\<forall>r x. bt_get (pst_placements s) r = Some x \<longrightarrow> distinct x"
  shows "replica_count (record_placement s r n) r = replica_count s r + (if n \<in> set (bt_get_or (pst_placements s) r []) then 0 else 1)"
    and "replica_count (record_placement (record_placement s r n) r n) r = replica_count (record_placement s r n) r"
  by (cases "bt_get (pst_placements s) r"; auto simp: replica_count_def record_placement_def bt_get_or_def insort_insert_key_def
      set_insort_key)+

lemma readiness_numbers: "implementation_percent = 75 \<and> remaining_percent = 25"
  by (simp add: implementation_percent_def remaining_percent_def READINESS_ITEMS_def)

lemma beacon_roundtrip:
  assumes "\<And>b. \<exists>j. to_json b = Some j \<and> from_json j = Some b"
  shows "\<exists>j. LanPeerBeacon_encode to_json (LanPeerBeacon_new i a g) = Ok j \<and> LanPeerBeacon_decode from_json j = Ok (LanPeerBeacon_new i a g)"
  using assms [of "LanPeerBeacon_new i a g"] by (auto simp: LanPeerBeacon_encode_def LanPeerBeacon_decode_def LanPeerBeacon_new_def)

text \<open>
  The log filter works on the test's message; it redacts only the first occurrence of a key, unwinds
  when a line ends between key and colon, and floods the message when nothing follows the colon.
\<close>

theorem log_filter_cases:
  "sanitize_log to_ascii_lowercase ''with password: abc'' = Ok ''with password: [REDACTED]''
   \<and> sanitize_log to_ascii_lowercase (''password: a'' @ [CHR 0x0A] @ ''password: b'')
       = Ok (''password: [REDACTED]'' @ [CHR 0x0A] @ ''password: b'')
   \<and> sanitize_log to_ascii_lowercase (''password'' @ [CHR 0x0A] @ ''x: y'') = Inl (Panic ''slice index'')
   \<and> sanitize_log to_ascii_lowercase ''seed:'' = Ok '' [REDACTED]s [REDACTED]e [REDACTED]e [REDACTED]d [REDACTED]: [REDACTED]''"
  by code_simp

theorem chunks_cover_resource_witness:
  "unat (rm_chunks (ResourceManifest_from_bytes demo_prims [1, 2] None None)) = 1"
  using chunks_cover_resource [of "[1, 2]" demo_prims None None]
  by (simp add: Let_def ResourceManifest_from_bytes_def DEFAULT_CHUNK_SIZE_def)

end
