(* ===== verification/Node_State.thy ===== *)
theory Node_State
  imports Canonical App_Store Wire Storage
begin

text \<open>
  Node registration and the standalone node of \<^verbatim>\<open>src/core/src/node.rs\<close>: what a node offers and
  where its state is written, the capacity estimate, the check of the allocation mode, the
  proof-of-relay tracker and the internal request handler. The operating system (which paths exist,
  the free space, whether a directory or a file can be written) is the record \<open>node_os\<close>; a directory
  is the map from file names to contents of \<open>Storage\<close>; the JSON codec is a parameter.
\<close>

section \<open>Node information\<close>

record HardwareAllocation =
  hw_gpu_vram_mb :: u64
  hw_tpu_units :: u64
  hw_vcpu_cores :: u32
  hw_ram_mb :: u64
  hw_ssd_gb :: u64
  hw_hdd_gb :: u64

definition HardwareAllocation_default :: HardwareAllocation where
  "HardwareAllocation_default =
     \<lparr>hw_gpu_vram_mb = 0, hw_tpu_units = 0, hw_vcpu_cores = 0, hw_ram_mb = 0, hw_ssd_gb = 0, hw_hdd_gb = 0\<rparr>"

record NodeInfo =
  ni_username :: string
  ni_awe_id :: string
  ni_nid :: string
  ni_offered_bytes :: u64
  ni_available_bytes :: u64
  ni_is_active_node :: bool
  ni_node_descriptor :: "string option"
  ni_site_dashboard_unlocked :: bool
  ni_is_datacenter_scale :: bool
  ni_hardware_allocation :: HardwareAllocation
  ni_background_worker_active :: bool

record node_prims = prims +
  node_info_to_json :: "NodeInfo \<Rightarrow> bytes option"
  node_info_from_json :: "bytes \<Rightarrow> NodeInfo option"

text \<open>How \<^verbatim>\<open>fs::write\<close> ends: it replaces the file, cannot open it, or fails after truncating it.\<close>

datatype write_end = Written | NotOpened | Torn bytes

definition save_state :: "'a node_prims_scheme \<Rightarrow> write_end \<Rightarrow> NodeInfo \<Rightarrow> string \<Rightarrow> dir \<Rightarrow> unit result \<times> dir" where
  "save_state P how self path d =
     (case node_info_to_json P self of
        None \<Rightarrow> (Inl (Io OtherIo ''json''), d)
      | Some json \<Rightarrow>
          (case how of
             Written \<Rightarrow> (Ok (), bt_insert path json d)
           | NotOpened \<Rightarrow> (Inl (Io OtherIo ''open''), d)
           | Torn partial \<Rightarrow> (Inl (Io OtherIo ''write''), bt_insert path partial d)))"

definition load_state :: "'a node_prims_scheme \<Rightarrow> string \<Rightarrow> dir \<Rightarrow> NodeInfo result" where
  "load_state P path d =
     (case bt_get d path of
        None \<Rightarrow> Inl (Io NotFound ''read'')
      | Some content \<Rightarrow>
          (if \<not> valid_utf8 content then Inl (Io InvalidData ''stream did not contain valid UTF-8'')
           else case node_info_from_json P content of
             None \<Rightarrow> Inl (Io InvalidData ''json'')
           | Some info \<Rightarrow> Ok info))"

definition compute_decentralization_health_score :: "NodeInfo \<Rightarrow> u32" where
  "compute_decentralization_health_score self =
     (if \<not> ni_is_active_node self then 0
      else
        let score = 50;
            score = (if ni_offered_bytes self > 0 then score + 20 else score);
            score = (if hw_vcpu_cores (ni_hardware_allocation self) \<ge> 2 then score + 15 else score);
            score = (if hw_ram_mb (ni_hardware_allocation self) \<ge> 2048 then score + 15 else score)
        in min score 100)"

record NetworkCapacityMetrics =
  nm_total_active_nodes :: u64
  nm_user_contributed_bytes :: u64
  nm_global_network_bytes :: u64
  nm_dynamic_site_storage_limit_bytes :: u64

definition NetworkCapacityMetrics_calculate :: "u64 \<Rightarrow> u64 \<Rightarrow> NetworkCapacityMetrics" where
  "NetworkCapacityMetrics_calculate active_nodes_count user_contributed_bytes =
     (let base_node_avg = 50 * 1024 * 1024 * 1024;
          global_network_bytes = sat_add (sat_mul (max active_nodes_count 1) base_node_avg) user_contributed_bytes;
          limit = max (global_network_bytes div 5) (10 * 1024 * 1024 * 1024)
      in \<lparr>nm_total_active_nodes = max active_nodes_count 1,
          nm_user_contributed_bytes = user_contributed_bytes,
          nm_global_network_bytes = global_network_bytes,
          nm_dynamic_site_storage_limit_bytes = limit\<rparr>)"

section \<open>Registration\<close>

text \<open>
  The operating system as the registration sees it. \<open>os_statvfs\<close> gives \<^verbatim>\<open>f_bavail\<close> and \<^verbatim>\<open>f_frsize\<close>;
  \<open>os_error_text\<close> is the text of the error a call ends with; \<open>os_gb\<close> formats a size for a message.
\<close>

record node_os =
  os_exists :: "string \<Rightarrow> bool"
  os_parent :: "string \<Rightarrow> string option"
  os_current_dir :: "string result"
  os_statvfs :: "string \<Rightarrow> (u64 \<times> u64) option"
  os_create_dir_all :: "string \<Rightarrow> bool"
  os_write :: write_end
  os_error_text :: string
  os_gb :: "u64 \<Rightarrow> string"

definition existing_path :: "node_os \<Rightarrow> string \<Rightarrow> string result" where
  "existing_path os path =
     (if os_exists os path then Ok path
      else case os_parent os path of
        Some parent \<Rightarrow> if os_exists os parent then Ok parent else os_current_dir os
      | None \<Rightarrow> os_current_dir os)"

definition get_available_disk_space :: "node_os \<Rightarrow> string \<Rightarrow> u64 result" where
  "get_available_disk_space os path =
     (case existing_path os path of
        Inl e \<Rightarrow> Inl e
      | Inr target_path \<Rightarrow>
          if CHR 0x00 \<in> set target_path then Inl (Io InvalidInput ''nul byte found in provided data'')
          else case os_statvfs os target_path of
            Some (f_bavail, f_frsize) \<Rightarrow> Ok (sat_mul f_bavail f_frsize)
          | None \<Rightarrow> Inl (Io OtherIo (os_error_text os)))"

datatype NodeAllocationMode =
  FolderAllocation string
| WholeNonSystemDisksAllocation "string list"

definition system_disk :: "string \<Rightarrow> bool" where
  "system_disk lower = (lower \<in> {''c:'', ''c:'' @ [CHR 0x5C], ''/'', ''/boot'', ''/sys''})"

fun refuse_system_disks :: "(string \<Rightarrow> string) \<Rightarrow> string list \<Rightarrow> unit result" where
  "refuse_system_disks to_lowercase [] = Ok ()"
| "refuse_system_disks to_lowercase (disk # disks) =
     (if system_disk (to_lowercase disk)
      then Err (''System disk ('' @ disk @ '') allocation is prohibited! Choose a non-system disk.'')
      else refuse_system_disks to_lowercase disks)"

definition validate_and_configure_node_allocation ::
  "(string \<Rightarrow> string) \<Rightarrow> NodeAllocationMode \<Rightarrow> HardwareAllocation result" where
  "validate_and_configure_node_allocation to_lowercase mode =
     (case mode of
        FolderAllocation folder_path \<Rightarrow>
          if folder_path = [] then Err ''Folder path cannot be empty''
          else Ok \<lparr>hw_gpu_vram_mb = 1024, hw_tpu_units = 0, hw_vcpu_cores = 2, hw_ram_mb = 2048, hw_ssd_gb = 20, hw_hdd_gb = 0\<rparr>
      | WholeNonSystemDisksAllocation allocated_disks \<Rightarrow>
          (case refuse_system_disks to_lowercase allocated_disks of
             Inl e \<Rightarrow> Inl e
           | Inr _ \<Rightarrow>
               if allocated_disks = [] then Err ''No non-system disks selected for full allocation mode''
               else Ok \<lparr>hw_gpu_vram_mb = 16384, hw_tpu_units = 2, hw_vcpu_cores = 16, hw_ram_mb = 65536,
                       hw_ssd_gb = 2000, hw_hdd_gb = 8000\<rparr>))"

fun error_text :: "rust_error \<Rightarrow> string" where
  "error_text (Msg m) = m"
| "error_text (Io k m) = m"
| "error_text (Panic m) = m"

definition NODE_STATE_FILE :: string where
  "NODE_STATE_FILE = ''node_state.json''"

text \<open>The information a registration records; slicing the hexadecimal identifier panics when it is short.\<close>

definition node_info_of ::
  "'a prims_scheme \<Rightarrow> Identity \<Rightarrow> u64 \<Rightarrow> u64 \<Rightarrow> HardwareAllocation \<Rightarrow> NodeInfo result" where
  "node_info_of P identity offered_bytes real_available hardware =
     (let awe_id = ip_awe_id (id_public identity) in
      case format_node_descriptor P (aweid_bytes awe_id) of
        Inl e \<Rightarrow> Inl e
      | Inr node_desc \<Rightarrow>
          if length (AweId_to_hex P awe_id) < 16 then Inl (Panic ''slice index'')
          else Ok \<lparr>ni_username = username_str (ip_username (id_public identity)),
                  ni_awe_id = AweId_to_hex P awe_id,
                  ni_nid = ''nid-'' @ take 16 (AweId_to_hex P awe_id),
                  ni_offered_bytes = offered_bytes,
                  ni_available_bytes = real_available,
                  ni_is_active_node = True,
                  ni_node_descriptor = Some node_desc,
                  ni_site_dashboard_unlocked = True,
                  ni_is_datacenter_scale = (offered_bytes \<ge> 1000 * 1024 * 1024 * 1024 \<or> hw_tpu_units hardware \<ge> 1),
                  ni_hardware_allocation = hardware,
                  ni_background_worker_active = True\<rparr>)"

definition configure_node_storage ::
  "'a node_prims_scheme \<Rightarrow> node_os \<Rightarrow> Identity \<Rightarrow> string \<Rightarrow> u64 \<Rightarrow> HardwareAllocation \<Rightarrow> dir \<Rightarrow> NodeInfo result \<times> dir" where
  "configure_node_storage P os identity storage_path offered_bytes hardware d =
     (if offered_bytes = 0 \<and> hw_ram_mb hardware = 0 \<and> hw_vcpu_cores hardware = 0
      then (Err ''Offered resources must be greater than 0 to become a Node.'', d)
      else case get_available_disk_space os storage_path of
        Inl e \<Rightarrow> (Err (''Failed to verify hardware disk space: '' @ error_text e), d)
      | Inr real_available \<Rightarrow>
          if offered_bytes > real_available
          then (Err (''Offered storage size ('' @ os_gb os offered_bytes @ '' GB) exceeds actual available disk space (''
                     @ os_gb os real_available @ '' GB). Node registration rejected.''), d)
          else if \<not> os_exists os storage_path \<and> \<not> os_create_dir_all os storage_path
          then (Err (''Failed to initialize node storage directory: '' @ os_error_text os), d)
          else case node_info_of P identity offered_bytes real_available hardware of
            Inl e \<Rightarrow> (Inl e, d)
          | Inr info \<Rightarrow> (Ok info, snd (save_state P (os_write os) info NODE_STATE_FILE d)))"

section \<open>Proof of relay\<close>

record ProofOfRelayTracker =
  pr_bytes_relayed_transit :: u64
  pr_bytes_consumed :: u64

definition ProofOfRelayTracker_default :: ProofOfRelayTracker where
  "ProofOfRelayTracker_default = \<lparr>pr_bytes_relayed_transit = 10 * 1024 * 1024, pr_bytes_consumed = 0\<rparr>"

definition record_transit_relayed :: "ProofOfRelayTracker \<Rightarrow> u64 \<Rightarrow> ProofOfRelayTracker" where
  "record_transit_relayed self bytes =
     self\<lparr>pr_bytes_relayed_transit := sat_add (pr_bytes_relayed_transit self) bytes\<rparr>"

definition can_consume :: "ProofOfRelayTracker \<Rightarrow> u64 \<Rightarrow> bool" where
  "can_consume self bytes_requested =
     (let max_allowable = sat_mul (pr_bytes_relayed_transit self) 2 in
      sat_add (pr_bytes_consumed self) bytes_requested \<le> max_allowable)"

definition consume :: "ProofOfRelayTracker \<Rightarrow> u64 \<Rightarrow> unit result \<times> ProofOfRelayTracker" where
  "consume self bytes_requested =
     (if \<not> can_consume self bytes_requested
      then (Err (''Resource consumption rejected: Insufficient Proof-of-Relay contribution. ''
                 @ ''Relay more transit traffic first.''), self)
      else (Ok (), self\<lparr>pr_bytes_consumed := sat_add (pr_bytes_consumed self) bytes_requested\<rparr>))"

section \<open>The standalone node\<close>

record SecureBrowserConfig =
  br_canvas_fingerprint_spoofed :: bool
  br_webgl_vendor_spoofed :: bool
  br_system_fonts_masked :: bool
  br_audio_context_noise_enabled :: bool
  br_user_agent_normalized :: string

definition SecureBrowserConfig_default :: SecureBrowserConfig where
  "SecureBrowserConfig_default =
     \<lparr>br_canvas_fingerprint_spoofed = True, br_webgl_vendor_spoofed = True, br_system_fonts_masked = True,
      br_audio_context_noise_enabled = True, br_user_agent_normalized = ''AWEP2P/1.0 (Sovereign; Zero-Fingerprint)''\<rparr>"

datatype AweIpcCommand =
  GetNodeStatus
| ResolveAweName string
| SendOnionPacket string bytes
| CheckRelayContribution
| ExecuteWasmCompute bytes

datatype AweIpcResponse =
  Status NodeInfo
| AweNameLookupKey string string
| RelayStatus ProofOfRelayTracker
| IpcError string

record StandaloneAweNode =
  sn_info :: NodeInfo
  sn_relay_tracker :: ProofOfRelayTracker
  sn_browser_config :: SecureBrowserConfig

definition StandaloneAweNode_new :: "NodeInfo \<Rightarrow> StandaloneAweNode" where
  "StandaloneAweNode_new info =
     \<lparr>sn_info = info, sn_relay_tracker = ProofOfRelayTracker_default, sn_browser_config = SecureBrowserConfig_default\<rparr>"

definition handle_internal_ipc_request ::
  "'a prims_scheme \<Rightarrow> StandaloneAweNode \<Rightarrow> AweIpcCommand \<Rightarrow> AweIpcResponse \<times> StandaloneAweNode" where
  "handle_internal_ipc_request P self request =
     (case request of
        GetNodeStatus \<Rightarrow> (Status (sn_info self), self)
      | ResolveAweName domain \<Rightarrow>
          if \<not> ends_with domain ''.awe'' then (IpcError ''Domain must end with .awe'', self)
          else (AweNameLookupKey domain (hex_encode P (hash P (as_bytes ''AWE-NAME-LOOKUP/v1'') (as_bytes domain))), self)
      | CheckRelayContribution \<Rightarrow> (RelayStatus (sn_relay_tracker self), self)
      | SendOnionPacket _ _ \<Rightarrow>
          (IpcError ''onion routing requires a live peer transport; standalone IPC does not fake delivery'', self)
      | ExecuteWasmCompute script_wasm \<Rightarrow>
          let caps = CapabilitySet_grant (CapabilitySet {}) StorageRead;
              sandbox = \<lparr>ws_config = SandboxConfig_default, ws_capabilities = caps\<rparr>
          in case validate_module sandbox script_wasm of
               Inr _ \<Rightarrow> (IpcError ''WASM validated but no execution backend is linked'', self)
             | Inl e \<Rightarrow> (IpcError (error_text e), self))"

section \<open>Registration\<close>

lemma refuse_system_disks_Ok [simp]:
  "refuse_system_disks low disks = Ok () \<longleftrightarrow> (\<forall>d \<in> set disks. \<not> system_disk (low d))"
  by (induction disks) auto

lemma refuse_system_disks_Inl:
  "refuse_system_disks low disks = Inl e \<Longrightarrow> \<exists>d \<in> set disks. system_disk (low d)"
  by (induction disks) (auto split: if_splits)

lemma allocation_accepted_iff:
  "is_ok (validate_and_configure_node_allocation low mode) \<longleftrightarrow>
     (case mode of FolderAllocation p \<Rightarrow> p \<noteq> []
      | WholeNonSystemDisksAllocation ds \<Rightarrow> ds \<noteq> [] \<and> (\<forall>d \<in> set ds. \<not> system_disk (low d)))"
  by (auto simp: validate_and_configure_node_allocation_def split: NodeAllocationMode.splits sum.splits
      dest: refuse_system_disks_Inl)

text \<open>The check compares whole strings, so another spelling of the root directory is accepted.\<close>

lemma system_disk_other_spelling:
  "is_ok (validate_and_configure_node_allocation to_ascii_lowercase (WholeNonSystemDisksAllocation [''//'']))"
  "is_ok (validate_and_configure_node_allocation to_ascii_lowercase (WholeNonSystemDisksAllocation [''C:/'']))"
  by (simp_all add: validate_and_configure_node_allocation_def system_disk_def to_ascii_lowercase_def)

lemma health_score_values:
  "compute_decentralization_health_score self \<in> {0, 50, 65, 70, 80, 85, 100}"
  by (simp add: compute_decentralization_health_score_def Let_def)

text \<open>Documented behaviour of \<^verbatim>\<open>serde_json\<close>: it writes valid text that reads back.\<close>

definition node_json_ok :: "'a node_prims_scheme \<Rightarrow> bool" where
  "node_json_ok P = (\<forall>i. \<exists>b. node_info_to_json P i = Some b \<and> valid_utf8 b \<and> node_info_from_json P b = Some i)"

lemma load_saved:
  assumes "node_json_ok P"
  shows "load_state P path (snd (save_state P Written info path d)) = Ok info"
proof -
  obtain b where "node_info_to_json P info = Some b" "valid_utf8 b" "node_info_from_json P b = Some info"
    using assms unfolding node_json_ok_def by blast
  then show ?thesis
    by (simp add: save_state_def load_state_def)
qed

lemma configure_Ok:
  assumes "configure_node_storage P os identity path offered hw d = (Ok info, d')"
  obtains available where "get_available_disk_space os path = Ok available" "offered \<le> available"
    "offered \<noteq> 0 \<or> hw_ram_mb hw \<noteq> 0 \<or> hw_vcpu_cores hw \<noteq> 0"
    "node_info_of P identity offered available hw = Ok info"
    "d' = snd (save_state P (os_write os) info NODE_STATE_FILE d)"
  using assms that
  by (fastforce simp: configure_node_storage_def not_less split: if_splits sum.splits)

lemma node_info_of_Ok:
  assumes "node_info_of P identity offered available hw = Ok info"
  shows "ni_offered_bytes info = offered" "ni_available_bytes info = available" "ni_is_active_node info"
    "ni_hardware_allocation info = hw" "ni_awe_id info = AweId_to_hex P (ip_awe_id (id_public identity))"
  using assms by (auto simp: node_info_of_def Let_def split: sum.splits if_splits)

text \<open>A registered node never offers more than the free space that was measured, and when the write of its
  state goes through, a restart reads the registered node back.\<close>

theorem registration_survives_restart:
  assumes "node_json_ok P"
    and "configure_node_storage P os identity path offered hw d = (Ok info, d')"
    and "os_write os = Written"
  shows "ni_offered_bytes info \<le> ni_available_bytes info \<and> ni_offered_bytes info = offered
       \<and> get_available_disk_space os path = Ok (ni_available_bytes info)
       \<and> load_state P NODE_STATE_FILE d' = Ok info"
proof -
  obtain available where a: "get_available_disk_space os path = Ok available" "offered \<le> available"
    "node_info_of P identity offered available hw = Ok info"
    "d' = snd (save_state P (os_write os) info NODE_STATE_FILE d)"
    using configure_Ok [OF assms(2)] by blast
  then show ?thesis
    using node_info_of_Ok [OF a(3)] load_saved [OF assms(1)] assms(3) by simp
qed

text \<open>A codec for the witness: the fields as byte vectors, each byte as two characters.\<close>

definition nibbles :: "bytes \<Rightarrow> bytes" where
  "nibbles bs = concat (map (\<lambda>b. [b div 16, b mod 16]) bs)"

fun unnibble :: "bytes \<Rightarrow> bytes" where
  "unnibble (h # l # r) = (16 * h + l) # unnibble r"
| "unnibble _ = []"

lemma nibble_bounds: "b div 16 < 0x80" "b mod 16 < 0x80" for b :: u8
proof -
  have "unat b < 256"
    using unat_less_pow [of b] by simp
  then show "b div 16 < 0x80" "b mod 16 < 0x80"
    by (simp_all add: word_less_nat_alt unat_div unat_mod less_mult_imp_div_less order.strict_trans [of _ 16])
qed

lemma unnibble_nibbles [simp]: "unnibble (nibbles bs) = bs"
proof (induction bs)
  case (Cons b bs)
  then show ?case by (simp add: nibbles_def word_mod_div_equality mult.commute [of 16])
qed (simp add: nibbles_def)

lemma valid_utf8_nibbles: "valid_utf8 (nibbles bs)"
  by (induction bs) (simp_all add: nibbles_def nibble_bounds)

definition flag :: "bool \<Rightarrow> bytes" where
  "flag b = [if b then 1 else 0]"

definition node_info_fields :: "NodeInfo \<Rightarrow> bytes list" where
  "node_info_fields i = (let h = ni_hardware_allocation i in
     [as_bytes (ni_username i), as_bytes (ni_awe_id i), as_bytes (ni_nid i), to_be_bytes_u64 (ni_offered_bytes i),
      to_be_bytes_u64 (ni_available_bytes i), flag (ni_is_active_node i),
      (case ni_node_descriptor i of None \<Rightarrow> [] | Some s \<Rightarrow> 1 # as_bytes s),
      flag (ni_site_dashboard_unlocked i), flag (ni_is_datacenter_scale i),
      to_be_bytes_u64 (hw_gpu_vram_mb h), to_be_bytes_u64 (hw_tpu_units h), be_bytes 4 (unat (hw_vcpu_cores h)),
      to_be_bytes_u64 (hw_ram_mb h), to_be_bytes_u64 (hw_ssd_gb h), to_be_bytes_u64 (hw_hdd_gb h),
      flag (ni_background_worker_active i)])"

definition node_info_of_fields :: "bytes list \<Rightarrow> NodeInfo" where
  "node_info_of_fields v =
     \<lparr>ni_username = from_bytes (v ! 0), ni_awe_id = from_bytes (v ! 1), ni_nid = from_bytes (v ! 2),
      ni_offered_bytes = from_be_bytes_u64 (v ! 3), ni_available_bytes = from_be_bytes_u64 (v ! 4),
      ni_is_active_node = (v ! 5 = [1]),
      ni_node_descriptor = (case v ! 6 of [] \<Rightarrow> None | _ # s \<Rightarrow> Some (from_bytes s)),
      ni_site_dashboard_unlocked = (v ! 7 = [1]), ni_is_datacenter_scale = (v ! 8 = [1]),
      ni_hardware_allocation =
        \<lparr>hw_gpu_vram_mb = from_be_bytes_u64 (v ! 9), hw_tpu_units = from_be_bytes_u64 (v ! 10),
         hw_vcpu_cores = of_nat (from_be (v ! 11)), hw_ram_mb = from_be_bytes_u64 (v ! 12),
         hw_ssd_gb = from_be_bytes_u64 (v ! 13), hw_hdd_gb = from_be_bytes_u64 (v ! 14)\<rparr>,
      ni_background_worker_active = (v ! 15 = [1])\<rparr>"

lemma node_info_of_fields [simp]: "node_info_of_fields (node_info_fields i) = i"
  by (simp add: node_info_of_fields_def node_info_fields_def Let_def flag_def of_nat_from_be split: option.split)

lemma length_node_info_fields: "length (node_info_fields i) = 16"
  by (simp add: node_info_fields_def Let_def)

definition demo_node_prims :: node_prims where
  "demo_node_prims = prims.extend demo_prims
     \<lparr>node_info_to_json = (\<lambda>i. Some (nibbles (concat (map enc_vec (node_info_fields i))))),
      node_info_from_json = (\<lambda>b. map_option node_info_of_fields (dec_vecs 16 (unnibble b)))\<rparr>"

lemma demo_node_json: "node_json_ok demo_node_prims"
  using dec_enc_vecs [of "node_info_fields i" for i]
  by (simp add: node_json_ok_def demo_node_prims_def prims.defs valid_utf8_nibbles length_node_info_fields)

definition demo_os :: node_os where
  "demo_os = \<lparr>os_exists = (\<lambda>p. p = ''/data''), os_parent = (\<lambda>p. None), os_current_dir = Ok ''/'',
     os_statvfs = (\<lambda>p. Some (1000, 4096)), os_create_dir_all = (\<lambda>p. True), os_write = Written,
     os_error_text = [], os_gb = (\<lambda>n. [])\<rparr>"

definition demo_node_identity :: Identity where
  "demo_node_identity =
     \<lparr>id_signing_key = replicate 32 1,
      id_public = \<lparr>ip_username = Username ''ararat'', ip_awe_id = AweId (replicate 32 7), ip_public_key = replicate 32 1\<rparr>\<rparr>"

theorem registration_survives_restart_witness:
  "\<exists>info d'. configure_node_storage demo_node_prims demo_os demo_node_identity ''/data'' 4096000 HardwareAllocation_default []
       = (Ok info, d')
     \<and> ni_offered_bytes info \<le> ni_available_bytes info
     \<and> load_state demo_node_prims NODE_STATE_FILE d' = Ok info"
proof -
  have "is_ok (fst (configure_node_storage demo_node_prims demo_os demo_node_identity ''/data'' 4096000
      HardwareAllocation_default []))"
    by (simp add: configure_node_storage_def demo_os_def get_available_disk_space_def existing_path_def
        node_info_of_def format_node_descriptor_def demo_node_prims_def prims.defs demo_prims_def sat_mul_def
        demo_node_identity_def to_ascii_uppercase_def from_bytes_def AweId_to_hex_def Let_def)
  then obtain info d' where c: "configure_node_storage demo_node_prims demo_os demo_node_identity ''/data'' 4096000
      HardwareAllocation_default [] = (Ok info, d')"
    by (metis is_ok_iff prod.collapse)
  have "os_write demo_os = Written"
    by (simp add: demo_os_def)
  with c show ?thesis
    using registration_survives_restart [OF demo_node_json c] by blast
qed

section \<open>Proof of relay\<close>

text \<open>A history of the tracker: traffic that was relayed and requests to consume. \<open>granted\<close> is the number of
  bytes of the requests that \<^verbatim>\<open>consume\<close> answered with \<^verbatim>\<open>Ok\<close>, counted without bound, and \<open>relayed\<close> the transit traffic.\<close>

datatype relay_event = Relayed u64 | Requested u64

fun relay_step :: "ProofOfRelayTracker \<Rightarrow> relay_event \<Rightarrow> ProofOfRelayTracker" where
  "relay_step t (Relayed n) = record_transit_relayed t n"
| "relay_step t (Requested n) = snd (consume t n)"

fun relayed :: "relay_event list \<Rightarrow> nat" where
  "relayed [] = 0"
| "relayed (Relayed n # es) = unat n + relayed es"
| "relayed (Requested n # es) = relayed es"

fun granted :: "ProofOfRelayTracker \<Rightarrow> relay_event list \<Rightarrow> nat" where
  "granted t [] = 0"
| "granted t (Relayed n # es) = granted (relay_step t (Relayed n)) es"
| "granted t (Requested n # es) = (if is_ok (fst (consume t n)) then unat n else 0) + granted (relay_step t (Requested n)) es"

lemma can_consume_exact:
  assumes "2 * unat (pr_bytes_relayed_transit t) < 2 ^ 64"
  shows "can_consume t n \<longleftrightarrow> unat (pr_bytes_consumed t) + unat n \<le> 2 * unat (pr_bytes_relayed_transit t)"
proof -
  have "2 * unat (pr_bytes_relayed_transit t) \<noteq> 18446744073709551615"
    by presburger
  then show ?thesis
    using assms by (simp add: can_consume_def Let_def word_le_nat_alt unat_sat_add unat_sat_mul mult.commute min_def)
qed

lemma relay_step_balance:
  assumes "unat (pr_bytes_consumed t) \<le> 2 * unat (pr_bytes_relayed_transit t)"
    and "2 * (unat (pr_bytes_relayed_transit t) + relayed (e # es)) < 2 ^ 64"
  shows "unat (pr_bytes_relayed_transit (relay_step t e)) + relayed es = unat (pr_bytes_relayed_transit t) + relayed (e # es)"
    and "unat (pr_bytes_consumed (relay_step t e)) + granted (relay_step t e) es = unat (pr_bytes_consumed t) + granted t (e # es)"
    and "unat (pr_bytes_consumed (relay_step t e)) \<le> 2 * unat (pr_bytes_relayed_transit (relay_step t e))"
proof -
  have small: "2 * unat (pr_bytes_relayed_transit t) < 2 ^ 64"
    using assms(2) by simp
  have consumed: "unat (pr_bytes_consumed t) + unat n < 2 ^ 64" if "can_consume t n" for n
    using can_consume_exact [OF small] that small by (meson le_less_trans)
  show "unat (pr_bytes_relayed_transit (relay_step t e)) + relayed es = unat (pr_bytes_relayed_transit t) + relayed (e # es)"
    using assms(2) by (cases e) (auto simp: record_transit_relayed_def consume_def unat_sat_add)
  show "unat (pr_bytes_consumed (relay_step t e)) + granted (relay_step t e) es = unat (pr_bytes_consumed t) + granted t (e # es)"
    by (cases e) (auto simp: record_transit_relayed_def consume_def unat_sat_add dest: consumed)
  show "unat (pr_bytes_consumed (relay_step t e)) \<le> 2 * unat (pr_bytes_relayed_transit (relay_step t e))"
    using assms can_consume_exact [OF small]
    by (cases e) (auto simp: record_transit_relayed_def consume_def unat_sat_add)
qed

definition relay_run :: "ProofOfRelayTracker \<Rightarrow> relay_event list \<Rightarrow> ProofOfRelayTracker" where
  "relay_run t es = fold (\<lambda>e t. relay_step t e) es t"

lemma relay_run_account:
  assumes "unat (pr_bytes_consumed t) \<le> 2 * unat (pr_bytes_relayed_transit t)"
    and "2 * (unat (pr_bytes_relayed_transit t) + relayed es) < 2 ^ 64"
  shows "unat (pr_bytes_relayed_transit (relay_run t es)) = unat (pr_bytes_relayed_transit t) + relayed es
       \<and> unat (pr_bytes_consumed (relay_run t es)) = unat (pr_bytes_consumed t) + granted t es
       \<and> unat (pr_bytes_consumed (relay_run t es)) \<le> 2 * unat (pr_bytes_relayed_transit (relay_run t es))"
  using assms
proof (induction es arbitrary: t)
  case (Cons e es)
  note b = relay_step_balance [OF Cons.prems]
  show ?case
    using Cons.IH [of "relay_step t e"] Cons.prems(2) b by (simp add: relay_run_def)
qed (simp add: relay_run_def)

text \<open>C31. Over any history, the bytes that \<^verbatim>\<open>consume\<close> grants are at most twice the bonus and the traffic
  relayed, and the next request is granted exactly when it still fits into that credit.\<close>

theorem consumption_needs_relaying:
  assumes "2 * (10 * 1024 * 1024 + relayed es) < 2 ^ 64"
  shows "granted ProofOfRelayTracker_default es \<le> 2 * (10 * 1024 * 1024 + relayed es)
       \<and> (is_ok (fst (consume (relay_run ProofOfRelayTracker_default es) n)) \<longleftrightarrow>
            granted ProofOfRelayTracker_default es + unat n \<le> 2 * (10 * 1024 * 1024 + relayed es))"
proof -
  let ?t = "relay_run ProofOfRelayTracker_default es"
  have a: "unat (pr_bytes_relayed_transit ?t) = 10 * 1024 * 1024 + relayed es"
    "unat (pr_bytes_consumed ?t) = granted ProofOfRelayTracker_default es"
    "unat (pr_bytes_consumed ?t) \<le> 2 * unat (pr_bytes_relayed_transit ?t)"
    using relay_run_account [of ProofOfRelayTracker_default es] assms
    by (simp_all add: ProofOfRelayTracker_default_def)
  have "is_ok (fst (consume ?t n)) \<longleftrightarrow> can_consume ?t n"
    by (simp add: consume_def)
  then show ?thesis
    using a can_consume_exact [of ?t n] assms by simp
qed

theorem consumption_needs_relaying_witness:
  "granted ProofOfRelayTracker_default [Requested 15728640, Requested 10485760, Relayed 52428800, Requested 52428800] = 68157440
   \<and> is_ok (fst (consume (relay_run ProofOfRelayTracker_default
        [Requested 15728640, Requested 10485760, Relayed 52428800, Requested 52428800]) 57671680))
   \<and> \<not> is_ok (fst (consume (relay_run ProofOfRelayTracker_default
        [Requested 15728640, Requested 10485760, Relayed 52428800, Requested 52428800]) 57671681))"
proof -
  let ?es = "[Requested 15728640, Requested 10485760, Relayed 52428800, Requested 52428800]"
  have g: "granted ProofOfRelayTracker_default ?es = 68157440"
    by (simp add: ProofOfRelayTracker_default_def can_consume_def consume_def record_transit_relayed_def
        sat_add_def sat_mul_def)
  show ?thesis
    using consumption_needs_relaying [of ?es 57671680] consumption_needs_relaying [of ?es 57671681] g
    by simp
qed

section \<open>Requests\<close>

lemma ipc_keeps_node [simp]: "snd (handle_internal_ipc_request P self request) = self"
  by (simp add: handle_internal_ipc_request_def Let_def split: AweIpcCommand.split sum.split)

lemma ipc_never_executes:
  "\<exists>e. fst (handle_internal_ipc_request P self (ExecuteWasmCompute wasm)) = IpcError e"
  by (simp add: handle_internal_ipc_request_def Let_def split: sum.split)

end
