(* ===== verification/Json.thy ===== *)
theory Json
  imports Ordered_Map Rust_Text
begin

text \<open>
  The values of \<^verbatim>\<open>serde_json::Value\<close> that the daemon (\<^verbatim>\<open>src/apps/awe-node/src/main.rs\<close>) reads, builds and
  updates in place. A number is a \<^verbatim>\<open>u64\<close>, a negative \<^verbatim>\<open>i64\<close> or a float, of which only the printed text is
  used; an object is a \<^verbatim>\<open>BTreeMap\<close>. Parsing and printing belong to the library and are parameters.
\<close>

datatype json =
  JNull
| JBool bool
| JPos u64
| JNeg nat
| JFloat string
| JStr string
| JArr "json list"
| JObj "(string \<times> json) list"

text \<open>\<^verbatim>\<open>Value::get\<close> with a string, and the \<^verbatim>\<open>as_\<close> accessors.\<close>

definition json_get :: "json \<Rightarrow> string \<Rightarrow> json option" where
  "json_get v k = (case v of JObj m \<Rightarrow> bt_get m k | _ \<Rightarrow> None)"

definition as_str :: "json \<Rightarrow> string option" where
  "as_str v = (case v of JStr s \<Rightarrow> Some s | _ \<Rightarrow> None)"

definition as_u64 :: "json \<Rightarrow> u64 option" where
  "as_u64 v = (case v of JPos n \<Rightarrow> Some n | _ \<Rightarrow> None)"

definition as_bool :: "json \<Rightarrow> bool option" where
  "as_bool v = (case v of JBool b \<Rightarrow> Some b | _ \<Rightarrow> None)"

definition as_array :: "json \<Rightarrow> json list option" where
  "as_array v = (case v of JArr a \<Rightarrow> Some a | _ \<Rightarrow> None)"

definition get_str :: "json \<Rightarrow> string \<Rightarrow> string option" where
  "get_str v k = Option.bind (json_get v k) as_str"

definition get_u64 :: "json \<Rightarrow> string \<Rightarrow> u64 option" where
  "get_u64 v k = Option.bind (json_get v k) as_u64"

definition get_array :: "json \<Rightarrow> string \<Rightarrow> json list option" where
  "get_array v k = Option.bind (json_get v k) as_array"

text \<open>\<^verbatim>\<open>.unwrap_or("")\<close>.\<close>

definition str_or_empty :: "string option \<Rightarrow> string" where
  "str_or_empty s = (case s of None \<Rightarrow> [] | Some t \<Rightarrow> t)"

text \<open>\<^verbatim>\<open>json!({...})\<close>, and an insertion into an object.\<close>

definition json_obj :: "(string \<times> json) list \<Rightarrow> json" where
  "json_obj es = JObj (bt_of_list es)"

definition json_insert :: "string \<Rightarrow> json \<Rightarrow> json \<Rightarrow> json" where
  "json_insert k x v = (case v of JObj m \<Rightarrow> JObj (bt_insert k x m) | _ \<Rightarrow> v)"

text \<open>\<^verbatim>\<open>v.get_mut(k).and_then(|a| a.as_array_mut())\<close>, changed by \<open>f\<close> when there is one, and the change of the
  first element that \<^verbatim>\<open>iter_mut().find\<close> gives.\<close>

definition update_array :: "string \<Rightarrow> (json list \<Rightarrow> json list) \<Rightarrow> json \<Rightarrow> json" where
  "update_array k f v = (case get_array v k of None \<Rightarrow> v | Some a \<Rightarrow> json_insert k (JArr (f a)) v)"

fun update_first :: "('a \<Rightarrow> bool) \<Rightarrow> ('a \<Rightarrow> 'a) \<Rightarrow> 'a list \<Rightarrow> 'a list" where
  "update_first p f [] = []"
| "update_first p f (x # xs) = (if p x then f x # xs else x # update_first p f xs)"

definition has_id :: "string \<Rightarrow> json \<Rightarrow> bool" where
  "has_id i v = (get_str v ''id'' = Some i)"

definition mentions :: "string \<Rightarrow> json list option \<Rightarrow> bool" where
  "mentions s a = (case a of None \<Rightarrow> False | Some vs \<Rightarrow> \<exists>v \<in> set vs. as_str v = Some s)"

section \<open>Reading back\<close>

lemma as_simps [simp]:
  "as_str (JStr s) = Some s" "as_array (JArr a) = Some a" "as_u64 (JPos n) = Some n" "as_bool (JBool b) = Some b"
  by (simp_all add: as_str_def as_array_def as_u64_def as_bool_def)

lemma as_str_Some [simp]: "as_str v = Some s \<longleftrightarrow> v = JStr s"
  by (cases v) (auto simp: as_str_def)

lemma as_array_Some [simp]: "as_array v = Some a \<longleftrightarrow> v = JArr a"
  by (cases v) (auto simp: as_array_def)

lemma str_or_empty_simps [simp]: "str_or_empty None = []" "str_or_empty (Some s) = s"
  by (simp_all add: str_or_empty_def)

lemma get_str_Some: "get_str v k = Some s \<longleftrightarrow> json_get v k = Some (JStr s)"
  by (simp add: get_str_def Option.bind_eq_Some_conv)

lemma get_array_Some: "get_array v k = Some a \<longleftrightarrow> json_get v k = Some (JArr a)"
  by (simp add: get_array_def Option.bind_eq_Some_conv)

lemma json_get_insert [simp]:
  "json_get (json_insert k x v) j = (if j = k \<and> (\<exists>m. v = JObj m) then Some x else json_get v j)"
  by (cases v) (auto simp: json_get_def json_insert_def)

lemma json_get_obj: "json_get v k = Some x \<Longrightarrow> \<exists>m. v = JObj m"
  by (cases v) (simp_all add: json_get_def)

lemma get_array_update [simp]:
  "get_array (update_array k f v) j = (if j = k then map_option f (get_array v k) else get_array v j)"
  by (cases v) (auto simp: update_array_def get_array_def json_get_def json_insert_def split: option.splits)

lemma json_get_json_obj: "json_get (json_obj es) k = bt_get (bt_of_list es) k"
  by (simp add: json_get_def json_obj_def)

lemma update_first_length [simp]: "length (update_first p f xs) = length xs"
  by (induction xs) simp_all

lemma update_first_none: "\<forall>x \<in> set xs. \<not> p x \<Longrightarrow> update_first p f xs = xs"
  by (induction xs) auto

lemma set_update_first: "set (update_first p f xs) \<subseteq> set xs \<union> f ` {x \<in> set xs. p x}"
  by (induction xs) auto

end
