(* ===== verification/Daemon.thy ===== *)
theory Daemon
  imports Json Node_State Messenger Consensus_Runtime Onebank
begin

text \<open>
  The state of the product daemon of \<^verbatim>\<open>src/apps/awe-node/src/main.rs\<close> and its wallet: how the ledger file is
  opened at start-up, how an amount is read from a request, and the requests that send coins and declare
  a resource contribution. The shared state behind the locks is one record; a request that holds a lock
  is one step. The outcome of every disk write and network delivery is an argument. The lemmas show
  what an amount means, that an accepted payment is on disk, and how a wallet that has received coins
  behaves.
\<close>

section \<open>State\<close>

text \<open>JSON codecs of the daemon; the pretty printer writes the same values as the compact one. A \<^verbatim>\<open>u128\<close> in
  \<^verbatim>\<open>json!\<close> goes through \<^verbatim>\<open>to_value\<close>, which can refuse it; the macro unwraps the result.\<close>

record daemon_prims = store_prims +
  ledger_to_pretty :: "OnecoinLedger \<Rightarrow> bytes option"
  tx_from_json :: "bytes \<Rightarrow> OnecoinTransaction option"
  contribution_to_pretty :: "ResourceContribution \<Rightarrow> bytes option"
  contribution_from_json :: "bytes \<Rightarrow> ResourceContribution option"
  json_parse :: "bytes \<Rightarrow> json option"
  json_print :: "json \<Rightarrow> bytes"
  consensus_to_vec :: "OnecoinConsensusMessage \<Rightarrow> bytes"
  consensus_from_slice :: "bytes \<Rightarrow> OnecoinConsensusMessage option"
  ack_to_json :: "StorageShardAck \<Rightarrow> bytes"
  ack_from_json :: "bytes \<Rightarrow> StorageShardAck option"
  request_to_json :: "StorageShardRequest \<Rightarrow> bytes"
  request_from_json :: "bytes \<Rightarrow> StorageShardRequest option"
  transfer_to_json :: "StorageShardTransfer \<Rightarrow> bytes"
  transfer_from_json :: "bytes \<Rightarrow> StorageShardTransfer option"
  u128_to_value :: "u128 \<Rightarrow> json option"

record Daemon =
  da_identity :: Identity
  da_disk :: disk
  da_ledger :: OnecoinLedger
  da_onecoin_path :: path
  da_contribution :: ResourceContribution
  da_contribution_path :: path
  da_consensus :: "OnecoinConsensusRuntime option"
  da_messenger :: "json list"
  da_community :: json
  da_storage :: LocalNodeStore
  da_objects :: dir
  da_pending_acks :: "(bytes, StorageShardAck) btree_map"
  da_pending_shards :: "(bytes, StorageShardTransfer) btree_map"
  da_policy :: NetworkPolicy

definition local_id :: "Daemon \<Rightarrow> AweId" where
  "local_id self = ip_awe_id (id_public (da_identity self))"

text \<open>The text that \<open>format_uid\<close> gives. Its slices are within bounds, so that it never panics, as soon as the
  encoding has sixteen digits; the one of an identifier of 32 bytes has 64 (\<open>format_uid_uid\<close>).\<close>

definition uid :: "'a prims_scheme \<Rightarrow> bytes \<Rightarrow> string" where
  "uid P awe_id =
     (let hex_str = to_ascii_lowercase (hex_encode P awe_id) in
      ''uid-awe-msg-'' @ take 8 hex_str @ ''-'' @ take 8 (drop 8 hex_str))"

lemma format_uid_uid:
  assumes "length (hex_encode P awe_id) = 64"
  shows "format_uid P awe_id = Ok (uid P awe_id)"
  using assms by (simp add: format_uid_def uid_def Let_def to_ascii_lowercase_def)

definition fs_write :: "write_end \<Rightarrow> path \<Rightarrow> bytes \<Rightarrow> disk \<Rightarrow> bool \<times> disk" where
  "fs_write how p b d =
     (case how of Written \<Rightarrow> (True, d(p := Some b)) | NotOpened \<Rightarrow> (False, d) | Torn t \<Rightarrow> (False, d(p := Some t)))"

section \<open>Start-up\<close>

text \<open>\<^verbatim>\<open>fs::read\<close> fails when there is no file, and it may fail when there is one (\<open>readable\<close> is false): the error
  is dropped, and the ledger is the empty one.\<close>

definition read_ledger :: "'a daemon_prims_scheme \<Rightarrow> bool \<Rightarrow> disk \<Rightarrow> path \<Rightarrow> OnecoinLedger" where
  "read_ledger P readable d p =
     (case Option.bind (if readable then d p else None) (ledger_from_json P) of None \<Rightarrow> OnecoinLedger_default | Some l \<Rightarrow> l)"

definition open_wallet ::
  "'a daemon_prims_scheme \<Rightarrow> bool \<Rightarrow> write_end \<Rightarrow> disk \<Rightarrow> path \<Rightarrow> AweId \<Rightarrow> OnecoinLedger result \<times> disk" where
  "open_wallet P readable how d p own =
     (let ledger = read_ledger P readable d p in
      if l_members ledger \<noteq> [] then (Ok ledger, d)
      else case initialize_genesis P ledger [own] of
        (Inl e, _) \<Rightarrow> (Inl e, d)
      | (Inr _, ledger) \<Rightarrow>
          (case ledger_to_pretty P ledger of
             None \<Rightarrow> (Inl (Io OtherIo ''json''), d)
           | Some b \<Rightarrow> (case fs_write how p b d of
                        (True, d) \<Rightarrow> (Ok ledger, d)
                      | (False, d) \<Rightarrow> (Inl (Io OtherIo ''write''), d))))"

section \<open>Amounts\<close>

definition is_ascii_digit :: "char \<Rightarrow> bool" where
  "is_ascii_digit c \<longleftrightarrow> 48 \<le> (of_char c :: nat) \<and> (of_char c :: nat) \<le> 57"

definition is_ascii_hexdigit :: "char \<Rightarrow> bool" where
  "is_ascii_hexdigit c \<longleftrightarrow> is_ascii_digit c
     \<or> (65 \<le> (of_char c :: nat) \<and> (of_char c :: nat) \<le> 70) \<or> (97 \<le> (of_char c :: nat) \<and> (of_char c :: nat) \<le> 102)"

definition digits_value :: "string \<Rightarrow> nat" where
  "digits_value s = foldl (\<lambda>acc c. acc * 10 + (of_char c - 48)) 0 s"

text \<open>\<^verbatim>\<open>parse::<u128>\<close> on a text of digits, which is all the caller lets through.\<close>

definition parse_u128 :: "string \<Rightarrow> u128 option" where
  "parse_u128 s =
     (if s = [] \<or> \<not> list_all is_ascii_digit s \<or> digits_value s \<ge> 2 ^ 128 then None else Some (of_nat (digits_value s)))"

definition checked_add :: "u128 \<Rightarrow> u128 \<Rightarrow> u128 option" where
  "checked_add a b = (if unat a + unat b < 2 ^ 128 then Some (a + b) else None)"

definition checked_mul :: "u128 \<Rightarrow> u128 \<Rightarrow> u128 option" where
  "checked_mul a b = (if unat a * unat b < 2 ^ 128 then Some (a * b) else None)"

definition amount_text :: "json \<Rightarrow> string option" where
  "amount_text v =
     (case v of
        JStr text \<Rightarrow> Some (trim_str text)
      | JPos n \<Rightarrow> Some (show_nat (unat n))
      | JNeg n \<Rightarrow> Some (''-'' @ show_nat n)
      | JFloat text \<Rightarrow> Some text
      | _ \<Rightarrow> None)"

definition parse_onecoin_atoms :: "json \<Rightarrow> u128 result" where
  "parse_onecoin_atoms value =
     (case amount_text value of
        None \<Rightarrow> Err ''amount_coins must be a number or decimal string''
      | Some raw \<Rightarrow>
          if raw = [] \<or> CHR ''e'' \<in> set raw \<or> CHR ''E'' \<in> set raw
          then Err ''amount_coins must be a plain decimal value''
          else
            let parts = split_on (CHR ''.'') raw;
                whole = hd parts;
                fraction = (case tl parts of [] \<Rightarrow> [] | f # _ \<Rightarrow> f)
            in if length parts > 2 \<or> whole = [] \<or> \<not> list_all is_ascii_digit whole
               then Err ''amount_coins has invalid decimal syntax''
               else if length fraction > 8 \<or> \<not> list_all is_ascii_digit fraction
               then Err ''amount_coins supports at most 8 decimal places''
               else case Option.bind (parse_u128 whole) (\<lambda>w. checked_mul w ATOMS_PER_COIN) of
                 None \<Rightarrow> Err ''amount_coins is too large''
               | Some whole_atoms \<Rightarrow>
                   let padded = fraction @ replicate (8 - length fraction) (CHR ''0'') in
                   case (if padded = [] then Some 0 else parse_u128 padded) of
                     None \<Rightarrow> Err ''amount_coins has invalid precision''
                   | Some fraction_atoms \<Rightarrow>
                       (case checked_add whole_atoms fraction_atoms of
                          None \<Rightarrow> Err ''amount_coins is too large''
                        | Some atoms \<Rightarrow> Ok atoms))"

section \<open>Requests of the wallet\<close>

type_synonym response = "string \<times> json"

text \<open>The closure of \<^verbatim>\<open>/api/onebank/wallet/send\<close>. The ledger keeps what was changed before an error.\<close>

definition wallet_send ::
  "'a daemon_prims_scheme \<Rightarrow> write_end \<Rightarrow> Daemon \<Rightarrow> string \<Rightarrow> json \<Rightarrow> string option
   \<Rightarrow> (string \<times> u128 \<times> OnecoinTransaction) result \<times> Daemon" where
  "wallet_send P how self recipient_hex amount_value memo =
     (if length recipient_hex \<noteq> 64 \<or> \<not> list_all is_ascii_hexdigit recipient_hex
      then (Err ''recipient must be a 64-character AWE-ID'', self)
      else case parse_onecoin_atoms amount_value of Inl e \<Rightarrow> (Inl e, self) | Inr amount_atoms \<Rightarrow>
      if amount_atoms = 0 then (Err ''amount_coins must be positive'', self)
      else case AweId_from_hex P recipient_hex of Inl e \<Rightarrow> (Inl e, self) | Inr recipient \<Rightarrow>
      if recipient = local_id self then (Err ''cannot transfer ONECOIN to the same wallet'', self)
      else
        let sender = local_id self;
            (genesis, ledger) = (if l_members (da_ledger self) = [] then initialize_genesis P (da_ledger self) [sender]
                                 else (Ok (), da_ledger self));
            self = self\<lparr>da_ledger := ledger\<rparr>
        in case genesis of Inl e \<Rightarrow> (Inl e, self) | Inr _ \<Rightarrow>
        let self = self\<lparr>da_ledger := ensure_member P (da_ledger self) recipient\<rparr> in
        if balance_atoms P (da_ledger self) sender < amount_atoms then (Err ''insufficient ONECOIN balance'', self)
        else
          let nonce = bt_get_or (l_nonces (da_ledger self)) (AweId_to_hex P sender) 0;
              tx = OnecoinTransaction_new P (da_identity self) nonce recipient amount_atoms memo
          in case apply_transfer_with_fee P (da_ledger self) tx (ip_public_key (id_public (da_identity self))) 100 of
               (Inl e, ledger) \<Rightarrow> (Inl e, self\<lparr>da_ledger := ledger\<rparr>)
             | (Inr (txid, fee_atoms), ledger) \<Rightarrow>
                 let self = self\<lparr>da_ledger := ledger\<rparr> in
                 case ledger_to_pretty P ledger of
                   None \<Rightarrow> (Err ''ONECOIN ledger serialization failed'', self)
                 | Some b \<Rightarrow>
                     (case fs_write how (da_onecoin_path self) b (da_disk self) of
                        (False, d) \<Rightarrow> (Err ''write'', self\<lparr>da_disk := d\<rparr>)
                      | (True, d) \<Rightarrow> (Ok (hex_encode P txid, fee_atoms, tx), self\<lparr>da_disk := d\<rparr>)))"

text \<open>
  The request: \<open>body\<close> is the text after the header, \<open>peers\<close> the identifiers the node knows and
  \<open>confirmed\<close>, \<open>sent\<close> how the two ways of delivering the transaction end.
\<close>

definition api_wallet_send ::
  "'a daemon_prims_scheme \<Rightarrow> write_end \<Rightarrow> bytes list \<Rightarrow> bool \<Rightarrow> bool \<Rightarrow> Daemon \<Rightarrow> bytes \<Rightarrow> response result \<times> Daemon" where
  "api_wallet_send P how peers confirmed sent self body =
     (let parsed = (case json_parse P body of None \<Rightarrow> JNull | Some v \<Rightarrow> v);
          recipient_hex = str_or_empty (get_str parsed ''recipient'');
          amount_value = (case json_get parsed ''amount_coins'' of None \<Rightarrow> JNull | Some v \<Rightarrow> v);
          memo = get_str parsed ''memo''
      in case wallet_send P how self recipient_hex amount_value memo of
           (Inl e, self) \<Rightarrow>
             (Ok (''400 Bad Request'', json_obj [(''status'', JStr ''rejected''), (''error'', JStr (error_text e))]), self)
         | (Inr (txid, fee_atoms, tx), self) \<Rightarrow>
             let delivered = tx_recipient tx \<in> set peers \<and> (confirmed \<or> sent) in
             (case u128_to_value P fee_atoms of
                None \<Rightarrow> (Inl (Panic ''number out of range''), self)
              | Some fee \<Rightarrow>
                  (Ok (''200 OK'', json_obj [(''status'', JStr ''accepted''), (''tx_id'', JStr txid),
                                    (''fee_atoms'', fee), (''fee_bps'', JPos 100),
                                    (''recipient_delivered'', JBool delivered),
                                    (''recipient_pending'', JBool (\<not> delivered))]), self)))"

text \<open>\<^verbatim>\<open>/api/onebank/wallet\<close>; \<open>resource\<close> is the contribution as JSON.\<close>

definition api_wallet :: "'a daemon_prims_scheme \<Rightarrow> (ResourceContribution \<Rightarrow> json) \<Rightarrow> Daemon \<Rightarrow> response result" where
  "api_wallet P resource self =
     (let balance = balance_atoms P (da_ledger self) (local_id self);
          r = da_contribution self
      in case (u128_to_value P balance, u128_to_value P (balance div ATOMS_PER_COIN),
               u128_to_value P (ResourceContribution_score r)) of
           (Some atoms, Some coins, Some score) \<Rightarrow>
             Ok (''200 OK'', json_obj [(''awe_id'', JStr (AweId_to_hex P (local_id self))), (''balance_atoms'', atoms),
                   (''balance_coins'', coins), (''tier'', JStr (UserTier_wire_name (classify_tier r))),
                   (''fee_bps'', JPos 100), (''resource_score'', score), (''resource'', resource r),
                   (''resource_verified'', JBool False), (''exchange'', JStr ''P2P_ONECOIN_ONLY''),
                   (''fiat_settlement'', JStr ''EXTERNAL_PERSON_TO_PERSON'')])
         | _ \<Rightarrow> Inl (Panic ''number out of range''))"

definition contribution_of :: "json \<Rightarrow> ResourceContribution" where
  "contribution_of parsed =
     (let u = (\<lambda>k. case get_u64 parsed k of None \<Rightarrow> 0 | Some n \<Rightarrow> n) in
      \<lparr>rc_storage_bytes = u ''storage_bytes'', rc_cpu_cores = ucast (u ''cpu_cores''), rc_ram_bytes = u ''ram_bytes'',
       rc_gpu_units = ucast (u ''gpu_units''), rc_bandwidth_bytes = u ''bandwidth_bytes'',
       rc_online_hours = ucast (u ''online_hours''), rc_node_count = ucast (u ''node_count''),
       rc_server_count = ucast (u ''server_count''), rc_uptime_bps = ucast (u ''uptime_bps''),
       rc_utilization_bps = ucast (u ''utilization_bps'')\<rparr>)"

definition api_contribution :: "'a daemon_prims_scheme \<Rightarrow> write_end \<Rightarrow> Daemon \<Rightarrow> bytes \<Rightarrow> response \<times> Daemon" where
  "api_contribution P how self body =
     (let parsed = (case json_parse P body of None \<Rightarrow> JNull | Some v \<Rightarrow> v);
          r = contribution_of parsed
      in case ResourceContribution_validate r of
           Inl e \<Rightarrow> ((''400 Bad Request'', json_obj [(''status'', JStr ''error''), (''error'', JStr (error_text e))]), self)
         | Inr _ \<Rightarrow>
             let self = self\<lparr>da_contribution := r\<rparr>;
                 bytes = (case contribution_to_pretty P r of None \<Rightarrow> [] | Some b \<Rightarrow> b)
             in case fs_write how (da_contribution_path self) bytes (da_disk self) of
                  (True, d) \<Rightarrow>
                    ((''200 OK'', json_obj [(''status'', JStr ''accepted_for_verification''),
                        (''tier'', JStr (UserTier_wire_name (classify_tier r))), (''verified'', JBool False),
                        (''reward_status'', JStr ''requires_signed_usage_receipt'')]), self\<lparr>da_disk := d\<rparr>)
                | (False, d) \<Rightarrow>
                    ((''500 Internal Server Error'', json_obj [(''status'', JStr ''error''), (''error'', JStr ''write'')]),
                     self\<lparr>da_disk := d\<rparr>))"

end
