(* ===== verification/Daemon_Dispatch.thy ===== *)
theory Daemon_Dispatch
  imports Daemon
begin

text \<open>
  The dispatcher of \<^verbatim>\<open>run_product\<close> in \<^verbatim>\<open>src/apps/awe-node/src/main.rs\<close>: what the daemon does with each
  message its node has received. A message is the authenticated sender, the stream and the payload; the
  result is the list of messages the daemon sends, in order, and the state it leaves. A step of the
  model is one message; the locks are free and not poisoned.
\<close>

type_synonym sends = "(bytes \<times> u32 \<times> bytes) list"

section \<open>Consensus and transfers\<close>

definition encode_outbound :: "'a daemon_prims_scheme \<Rightarrow> outbound \<Rightarrow> sends" where
  "encode_outbound P out =
     concat (map (\<lambda>(peer, m). case OnecoinConsensusMessage_encode (consensus_to_vec P) m of
                                Inl _ \<Rightarrow> [] | Inr b \<Rightarrow> [(peer, ONECOIN_CONSENSUS_STREAM, b)]) out)"

definition dispatch_consensus ::
  "'a daemon_prims_scheme \<Rightarrow> write_fault option \<Rightarrow> Daemon \<Rightarrow> bytes \<Rightarrow> bytes \<Rightarrow> sends \<times> Daemon" where
  "dispatch_consensus P fault self sender payload =
     (case da_consensus self of
        None \<Rightarrow> ([], self)
      | Some runtime \<Rightarrow>
          (case OnecoinConsensusMessage_decode (consensus_from_slice P) payload of
             Inl _ \<Rightarrow> ([], self)
           | Inr message \<Rightarrow>
               (case handle P fault (da_disk self) runtime sender (da_identity self) message of
                  (r, runtime, d) \<Rightarrow>
                    ((case r of Inl _ \<Rightarrow> [] | Inr out \<Rightarrow> encode_outbound P out),
                     self\<lparr>da_consensus := Some runtime, da_disk := d\<rparr>))))"

definition dispatch_transfer :: "'a daemon_prims_scheme \<Rightarrow> write_end \<Rightarrow> Daemon \<Rightarrow> bytes \<Rightarrow> Daemon" where
  "dispatch_transfer P how self payload =
     (case tx_from_json P payload of
        None \<Rightarrow> self
      | Some tx \<Rightarrow>
          if tx_recipient tx \<noteq> aweid_bytes (local_id self) then self
          else
            let ledger = ensure_member P (da_ledger self) (AweId_from_public_key P (tx_sender tx));
                ledger = ensure_member P ledger (local_id self)
            in case receive_transfer P ledger tx (tx_sender tx) (local_id self) of
                 (Inl _, ledger) \<Rightarrow> self\<lparr>da_ledger := ledger\<rparr>
               | (Inr _, ledger) \<Rightarrow>
                   let bytes = (case ledger_to_pretty P ledger of None \<Rightarrow> [] | Some b \<Rightarrow> b) in
                   self\<lparr>da_ledger := ledger,
                        da_disk := snd (fs_write how (da_onecoin_path self) bytes (da_disk self))\<rparr>)"

section \<open>Application messages\<close>

text \<open>\<open>log.iter().any(|e| e.id == id)\<close>, then \<^verbatim>\<open>push\<close>.\<close>

definition log_once :: "string \<Rightarrow> json \<Rightarrow> json list \<Rightarrow> json list" where
  "log_once i item log = (if \<exists>e \<in> set log. has_id i e then log else log @ [item])"

definition dispatch_call :: "'a prims_scheme \<Rightarrow> Daemon \<Rightarrow> bytes \<Rightarrow> json \<Rightarrow> Daemon" where
  "dispatch_call P self sender message =
     (let f = (\<lambda>k. str_or_empty (get_str message k)) in
      if f ''id'' \<noteq> [] \<and> f ''recipient'' \<noteq> [] \<and> f ''call_id'' \<noteq> [] \<and> f ''signal_type'' \<noteq> [] \<and> f ''data'' \<noteq> []
      then self\<lparr>da_messenger :=
             log_once (f ''id'') (json_insert ''sender'' (JStr (uid P sender)) message) (da_messenger self)\<rparr>
      else self)"

text \<open>An element with the same identifier is replaced, or the item is appended.\<close>

definition upsert :: "json \<Rightarrow> json list \<Rightarrow> json list" where
  "upsert item items =
     (let i = str_or_empty (get_str item ''id'') in
      if \<exists>g \<in> set items. has_id i g then update_first (has_id i) (\<lambda>_. item) items else items @ [item])"

definition push_message :: "json \<Rightarrow> json \<Rightarrow> json" where
  "push_message message g =
     (case json_get message ''message'' of None \<Rightarrow> g | Some m \<Rightarrow> update_array ''messages'' (\<lambda>a. a @ [m]) g)"

definition dispatch_group :: "'a prims_scheme \<Rightarrow> Daemon \<Rightarrow> bytes \<Rightarrow> json \<Rightarrow> Daemon" where
  "dispatch_group P self sender message =
     (let event = str_or_empty (get_str message ''event'');
          sender_uid = hex_encode P sender
      in if event = ''upsert'' then
           (case json_get message ''group'' of
              None \<Rightarrow> self
            | Some g \<Rightarrow>
                if str_or_empty (get_str g ''owner'') = sender_uid
                then self\<lparr>da_community := update_array ''groups'' (upsert g) (da_community self)\<rparr>
                else self)
         else if event = ''message'' then
           let gid = str_or_empty (get_str message ''group_id'') in
           self\<lparr>da_community := update_array ''groups''
             (update_first (has_id gid)
                (\<lambda>g. if mentions sender_uid (get_array g ''members'') then push_message message g else g))
             (da_community self)\<rparr>
         else self)"

text \<open>\<^verbatim>\<open>subscribe\<close>: the first channel with the identifier, when the local node owns it, gets the subscriber
  and is sent back to it if it is one of the connected peers \<open>active\<close>.\<close>

definition add_subscriber :: "string \<Rightarrow> json \<Rightarrow> json" where
  "add_subscriber s ch =
     (if mentions s (get_array ch ''subscribers'') then ch
      else update_array ''subscribers'' (\<lambda>a. a @ [JStr s]) ch)"

definition dispatch_subscribe :: "'a daemon_prims_scheme \<Rightarrow> bytes list \<Rightarrow> Daemon \<Rightarrow> bytes \<Rightarrow> json \<Rightarrow> sends \<times> Daemon" where
  "dispatch_subscribe P active self sender message =
     (let cid = str_or_empty (get_str message ''channel_id'');
          subscriber = hex_encode P sender;
          local_uid = hex_encode P (aweid_bytes (local_id self))
      in if (case get_str message ''subscriber'' of None \<Rightarrow> False | Some claimed \<Rightarrow> claimed \<noteq> subscriber) then ([], self)
         else case Option.bind (get_array (da_community self) ''channels'') (List.find (has_id cid)) of
           None \<Rightarrow> ([], self)
         | Some ch \<Rightarrow>
             if get_str ch ''owner'' \<noteq> Some local_uid then ([], self)
             else
               let ch = add_subscriber subscriber ch;
                   community = update_array ''channels'' (update_first (has_id cid) (\<lambda>_. ch)) (da_community self);
                   env = json_obj [(''kind'', JStr ''awe.channel.v1''), (''event'', JStr ''upsert''),
                                   (''channel'', ch), (''sender'', JStr local_uid)]
               in ((case List.find (\<lambda>p. hex_encode P p = subscriber) active of
                      None \<Rightarrow> [] | Some target \<Rightarrow> [(target, 100, json_print P env)]),
                   self\<lparr>da_community := community\<rparr>))"

definition in_channel :: "string \<Rightarrow> json \<Rightarrow> bool" where
  "in_channel s ch \<longleftrightarrow> mentions s (get_array ch ''subscribers'') \<or> get_str ch ''owner'' = Some s"

definition dispatch_channel :: "'a daemon_prims_scheme \<Rightarrow> bytes list \<Rightarrow> Daemon \<Rightarrow> bytes \<Rightarrow> json \<Rightarrow> sends \<times> Daemon" where
  "dispatch_channel P active self sender message =
     (let event = str_or_empty (get_str message ''event'');
          sender_uid = hex_encode P sender
      in if event = ''upsert'' then
           (case json_get message ''channel'' of
              None \<Rightarrow> ([], self)
            | Some channel \<Rightarrow>
                if str_or_empty (get_str channel ''owner'') = sender_uid
                then ([], self\<lparr>da_community := update_array ''channels'' (upsert channel) (da_community self)\<rparr>)
                else ([], self))
         else if event = ''subscribe'' then dispatch_subscribe P active self sender message
         else if event = ''message'' then
           let cid = str_or_empty (get_str message ''channel_id'') in
           ([], self\<lparr>da_community := update_array ''channels''
             (update_first (has_id cid) (\<lambda>ch. if in_channel sender_uid ch then push_message message ch else ch))
             (da_community self)\<rparr>)
         else ([], self))"

text \<open>A direct message; it can carry a copy of a channel message. \<open>now\<close> is the clock.\<close>

definition push_channel_copy :: "'a prims_scheme \<Rightarrow> bytes \<Rightarrow> json \<Rightarrow> json \<Rightarrow> json" where
  "push_channel_copy P sender message community =
     (case (get_str message ''channel_id'', json_get message ''channel_message'') of
        (Some cid, Some m) \<Rightarrow>
          update_array ''channels''
            (update_first (has_id cid)
               (\<lambda>ch. if in_channel (uid P sender) ch then update_array ''messages'' (\<lambda>a. a @ [m]) ch else ch))
            community
      | _ \<Rightarrow> community)"

definition dispatch_message :: "'a prims_scheme \<Rightarrow> u64 \<Rightarrow> Daemon \<Rightarrow> bytes \<Rightarrow> json \<Rightarrow> Daemon" where
  "dispatch_message P now self sender message =
     (let i = str_or_empty (get_str message ''id'');
          text_value = str_or_empty (get_str message ''text'');
          recipient = str_or_empty (get_str message ''recipient'')
      in if i = [] \<or> text_value = [] \<or> recipient = [] then self
         else
           let self = self\<lparr>da_community := push_channel_copy P sender message (da_community self)\<rparr>;
               item = json_obj [(''id'', JStr i), (''sender'', JStr (uid P sender)), (''recipient'', JStr recipient),
                                (''text'', JStr text_value), (''state'', JStr ''delivered''),
                                (''timestamp'', JPos (case get_u64 message ''timestamp'' of None \<Rightarrow> now | Some t \<Rightarrow> t))]
           in if Option.bind (json_get message ''silent'') as_bool = Some True then self
              else self\<lparr>da_messenger := log_once i item (da_messenger self)\<rparr>)"

definition dispatch_app ::
  "'a daemon_prims_scheme \<Rightarrow> bytes list \<Rightarrow> u64 \<Rightarrow> Daemon \<Rightarrow> bytes \<Rightarrow> bytes \<Rightarrow> sends \<times> Daemon" where
  "dispatch_app P active now self sender payload =
     (case json_parse P payload of
        None \<Rightarrow> ([], self)
      | Some message \<Rightarrow>
          let kind = get_str message ''kind'' in
          if kind = Some ''awe.call.v1'' then ([], dispatch_call P self sender message)
          else if kind = Some ''awe.group.v1'' then ([], dispatch_group P self sender message)
          else if kind = Some ''awe.channel.v1'' then dispatch_channel P active self sender message
          else if kind = Some ''awe.messenger.v1'' then ([], dispatch_message P now self sender message)
          else ([], self))"

section \<open>Storage\<close>

definition dispatch_request :: "'a daemon_prims_scheme \<Rightarrow> Daemon \<Rightarrow> bytes \<Rightarrow> StorageShardRequest \<Rightarrow> sends" where
  "dispatch_request P self sender request =
     (if sr_requester request \<noteq> sender \<or> \<not> is_ok (StorageShardRequest_verify request) then []
      else case get_object P (da_objects self) (sr_expected_hash request) of
        Inl _ \<Rightarrow> []
      | Inr data \<Rightarrow>
          if length data > unat (sr_max_bytes request) \<or> \<not> NetworkPolicy_allows_shard (da_policy self) (length data) then []
          else
            let transfer = StorageShardTransfer_new P (sr_request_id request) (aweid_bytes (local_id self))
                  (sr_file_id request) (sr_shard_index request) (sr_total_shards request) (sr_original_size request) data
            in if st_payload_hash transfer \<noteq> sr_expected_hash request then []
               else [(sender, STORAGE_STREAM, transfer_to_json P transfer)])"

definition dispatch_shard :: "'a daemon_prims_scheme \<Rightarrow> disk_fault \<Rightarrow> Daemon \<Rightarrow> bytes \<Rightarrow> StorageShardTransfer \<Rightarrow> sends \<times> Daemon" where
  "dispatch_shard P fault self sender transfer =
     (if st_sender transfer \<noteq> sender \<or> \<not> is_ok (StorageShardTransfer_verify P transfer) then ([], self)
      else case put P (da_storage self) fault (da_objects self) (st_payload transfer) of
        (Inl _, objects) \<Rightarrow> ([], self\<lparr>da_objects := objects\<rparr>)
      | (Inr object_id, objects) \<Rightarrow>
          let ack = StorageShardAck_new (st_request_id transfer) (st_file_id transfer) (st_shard_index transfer) object_id
          in ([(sender, STORAGE_STREAM, ack_to_json P ack)], self\<lparr>da_objects := objects\<rparr>))"

definition dispatch_storage ::
  "'a daemon_prims_scheme \<Rightarrow> disk_fault \<Rightarrow> Daemon \<Rightarrow> bytes \<Rightarrow> bytes \<Rightarrow> sends \<times> Daemon" where
  "dispatch_storage P fault self sender payload =
     (case ack_from_json P payload of
        Some ack \<Rightarrow>
          if sa_version ack = STORAGE_PROTOCOL_VERSION
          then ([], self\<lparr>da_pending_acks := bt_insert (sa_request_id ack) ack (da_pending_acks self)\<rparr>)
          else ([], self)
      | None \<Rightarrow>
          (case request_from_json P payload of
             Some request \<Rightarrow> (dispatch_request P self sender request, self)
           | None \<Rightarrow>
               (case transfer_from_json P payload of
                  None \<Rightarrow> ([], self)
                | Some transfer \<Rightarrow> dispatch_shard P fault self sender transfer)))"

section \<open>The dispatcher\<close>

text \<open>What the environment decides during a step: how the writes end, the connected peers and the clock.\<close>

record step_env =
  en_consensus_fault :: "write_fault option"
  en_ledger_write :: write_end
  en_object_fault :: disk_fault
  en_active :: "bytes list"
  en_now :: u64

definition dispatch ::
  "'a daemon_prims_scheme \<Rightarrow> step_env \<Rightarrow> Daemon \<Rightarrow> bytes \<times> u32 \<times> bytes \<Rightarrow> sends \<times> Daemon" where
  "dispatch P env self = (\<lambda>(sender, stream, payload).
     if \<not> NetworkPolicy_allows_stream (da_policy self) stream then ([], self)
     else if stream = ONECOIN_CONSENSUS_STREAM then dispatch_consensus P (en_consensus_fault env) self sender payload
     else if stream = ONECOIN_TRANSFER_STREAM then ([], dispatch_transfer P (en_ledger_write env) self payload)
     else if stream = 100 then dispatch_app P (en_active env) (en_now env) self sender payload
     else if stream \<noteq> STORAGE_STREAM then ([], self)
     else dispatch_storage P (en_object_fault env) self sender payload)"

text \<open>The messages of one \<^verbatim>\<open>take_inbox\<close>, in order.\<close>

fun dispatch_all ::
  "'a daemon_prims_scheme \<Rightarrow> (nat \<Rightarrow> step_env) \<Rightarrow> Daemon \<Rightarrow> (bytes \<times> u32 \<times> bytes) list \<Rightarrow> sends \<times> Daemon" where
  "dispatch_all P env self [] = ([], self)"
| "dispatch_all P env self (m # ms) =
     (let (out, self) = dispatch P (env 0) self m;
          (rest, self) = dispatch_all P (\<lambda>n. env (Suc n)) self ms
      in (out @ rest, self))"

end
