(* ===== verification/Daemon_Wallet.thy ===== *)
theory Daemon_Wallet
  imports Daemon
begin

text \<open>
  What the wallet of the daemon does: the number of atoms an amount stands for, that an accepted payment
  survives a restart, and that a wallet that has received coins refuses every payment after making it.
\<close>

section \<open>Amounts\<close>

lemma digits_value_append: "digits_value (a @ b) = digits_value a * 10 ^ length b + digits_value b"
proof (induction b rule: rev_induct)
  case (snoc c b)
  then show ?case
    by (simp add: digits_value_def algebra_simps flip: append_assoc)
qed (simp add: digits_value_def)

lemma digits_value_zeros: "digits_value (replicate n (CHR ''0'')) = 0"
  by (induction n) (simp_all add: digits_value_def)

lemma digit_bound: "is_ascii_digit c \<Longrightarrow> (of_char c :: nat) - 48 \<le> 9"
  by (auto simp: is_ascii_digit_def le_diff_conv)

lemma digits_value_less: "list_all is_ascii_digit s \<Longrightarrow> digits_value s < 10 ^ length s"
proof (induction s rule: rev_induct)
  case (snoc c s)
  then have "digits_value s < 10 ^ length s" "(of_char c :: nat) - 48 \<le> 9"
    using digit_bound by auto
  then show ?case
    by (simp add: digits_value_append) (simp add: digits_value_def)
qed (simp add: digits_value_def)

lemma split_on_none: "c \<notin> set s \<Longrightarrow> split_on c s = [s]"
  by (induction s) auto

lemma digits_plain:
  assumes "list_all is_ascii_digit s"
  shows "CHR ''.'' \<notin> set s" "CHR ''e'' \<notin> set s" "CHR ''E'' \<notin> set s"
  using assms by (auto simp: list_all_iff is_ascii_digit_def)

lemma parse_digits:
  assumes "s \<noteq> []" "list_all is_ascii_digit s" "digits_value s < 2 ^ 128"
  shows "parse_u128 s = Some (of_nat (digits_value s))"
  using assms by (simp add: parse_u128_def)

lemma zeros_are_digits: "list_all is_ascii_digit (replicate n (CHR ''0''))"
  by (simp add: list_all_iff is_ascii_digit_def)

lemma padded_value: "digits_value (f @ replicate (8 - length f) (CHR ''0'')) = digits_value f * 10 ^ (8 - length f)"
  by (simp add: digits_value_append digits_value_zeros)

lemma coin_scale: "x * 10 ^ 18 + d * 10 ^ 8 = (x + d) * 10 ^ 18 \<longleftrightarrow> d = (0 :: nat)"
  unfolding add_mult_distrib by simp

lemma unat_ATOMS: "unat ATOMS_PER_COIN = 10 ^ 18"
  by (simp add: ATOMS_PER_COIN_def)

text \<open>C39. The value of a decimal amount. Whole coins are worth \<open>10 ^ 18\<close> atoms, but the digits after the point are
  read as units of \<open>10 ^ -8\<close> of a coin and added as atoms, so the result is the value of the text only
  when the fraction is zero.\<close>

theorem decimal_amount_atoms:
  assumes "amount_text v = Some (w @ ''.'' @ f)"
    and "w \<noteq> []" "list_all is_ascii_digit w" "list_all is_ascii_digit f" "length f \<le> 8"
    and "(digits_value w + 1) * 10 ^ 18 \<le> 2 ^ 128"
  shows "\<exists>atoms. parse_onecoin_atoms v = Ok atoms
    \<and> unat atoms = digits_value w * 10 ^ 18 + digits_value f * 10 ^ (8 - length f)
    \<and> (10 ^ length f * unat atoms = digits_value (w @ f) * 10 ^ 18 \<longleftrightarrow> digits_value f = 0)"
proof -
  let ?p = "f @ replicate (8 - length f) (CHR ''0'')"
  have parts: "split_on (CHR ''.'') (w @ ''.'' @ f) = [w, f]"
    using split_on_append [of "CHR ''.''" w f] split_on_none digits_plain(1) assms(3,4) by simp
  have len: "length ?p = 8"
    using assms(5) by simp
  have pdigits: "list_all is_ascii_digit ?p"
    using assms(4) zeros_are_digits by simp
  have frac: "digits_value ?p < 10 ^ 8"
    using digits_value_less [OF pdigits] unfolding len .
  have w: "digits_value w < 2 ^ 128"
    using assms(6) by simp
  have uw: "unat (of_nat (digits_value w) :: u128) = digits_value w"
    using w by (simp add: unat_of_nat)
  have up: "unat (of_nat (digits_value ?p) :: u128) = digits_value ?p"
    using frac by (simp add: unat_of_nat)
  have fits: "digits_value w * 10 ^ 18 + digits_value ?p < 2 ^ 128"
    using assms(6) frac by simp
  obtain whole where whole: "checked_mul (of_nat (digits_value w)) ATOMS_PER_COIN = Some whole"
    "unat whole = digits_value w * 10 ^ 18"
    using fits by (simp add: checked_mul_def uw unat_ATOMS unat_word_ariths)
  obtain atoms where atoms: "checked_add whole (of_nat (digits_value ?p)) = Some atoms"
    "unat atoms = digits_value w * 10 ^ 18 + digits_value ?p"
    using fits by (simp add: checked_add_def whole(2) up unat_word_ariths)
  have pw: "parse_u128 w = Some (of_nat (digits_value w))"
    using parse_digits [OF assms(2,3) w] .
  have pp: "parse_u128 ?p = Some (of_nat (digits_value ?p))"
    using pdigits frac len by (intro parse_digits) auto
  have run: "parse_onecoin_atoms v = Ok atoms"
    using assms(1-5) digits_plain [OF assms(3)] digits_plain [OF assms(4)] len
    unfolding parse_onecoin_atoms_def assms(1) by (auto simp: parts [simplified] pw pp whole(1) atoms(1) Let_def)
  have "10 ^ length f * (digits_value f * 10 ^ (8 - length f)) = digits_value f * 10 ^ 8"
    using assms(5) by (simp add: algebra_simps flip: power_add)
  then have "10 ^ length f * unat atoms = digits_value w * 10 ^ length f * 10 ^ 18 + digits_value f * 10 ^ 8"
    unfolding atoms(2) padded_value by (simp add: algebra_simps)
  then have "10 ^ length f * unat atoms = digits_value (w @ f) * 10 ^ 18 \<longleftrightarrow> digits_value f = 0"
    unfolding digits_value_append by (simp only: coin_scale)
  with run atoms(2) [unfolded padded_value] show ?thesis
    by (intro exI [of _ atoms] conjI)
qed

section \<open>Payments\<close>

text \<open>Documented behaviour of the JSON library: a printed ledger reads back, a map whose keys are not strings
  cannot be printed, and \<^verbatim>\<open>to_value\<close> refuses a number that does not fit 64 bits.\<close>

definition pretty_reads_back :: "'a daemon_prims_scheme \<Rightarrow> bool" where
  "pretty_reads_back P \<longleftrightarrow> (\<forall>l b. ledger_to_pretty P l = Some b \<longrightarrow> ledger_from_json P b = Some l)"

definition pretty_needs_string_keys :: "'a daemon_prims_scheme \<Rightarrow> bool" where
  "pretty_needs_string_keys P \<longleftrightarrow> (\<forall>l. ledger_to_pretty P l \<noteq> None \<longrightarrow> string_keys_only l)"

definition values_are_64_bit :: "'a daemon_prims_scheme \<Rightarrow> bool" where
  "values_are_64_bit P \<longleftrightarrow> (\<forall>x. u128_to_value P x = (if unat x < 2 ^ 64 then Some (JPos (ucast x)) else None))"

lemma ensure_member_frame:
  "l_members (ensure_member P l i) \<noteq> []"
  "l_received_transactions (ensure_member P l i) = l_received_transactions l"
proof -
  have "bt_contains (l_members (ensure_member P l i)) (ledger_key P i)"
    by (simp add: ensure_member_def Let_def bt_or_insert_def bt_contains_def bt.get_insert)
  then show "l_members (ensure_member P l i) \<noteq> []"
    by (auto simp: bt_contains_def bt_get_def)
qed (simp add: ensure_member_def Let_def)

lemma fee_transfer_frame:
  assumes "apply_transfer_with_fee P l tx pk bps = (r, l')"
  shows "l_members l' = l_members l" "l_received_transactions l' = l_received_transactions l"
  using assms by (auto simp: apply_transfer_with_fee_def Let_def split: if_splits)

lemma wallet_send_Ok:
  assumes "wallet_send P how self hex v memo = (Ok (txid, fee, tx), self')"
  obtains l i b d recipient where "apply_transfer_with_fee P l tx (ip_public_key (id_public (da_identity self))) 100 = (Ok (i, fee), da_ledger self')"
    "AweId_from_hex P hex = Ok recipient"
    "l = ensure_member P (if l_members (da_ledger self) = [] then snd (initialize_genesis P (da_ledger self) [local_id self])
                          else da_ledger self) recipient"
    "l_members l \<noteq> []" "l_members (da_ledger self) \<noteq> [] \<Longrightarrow> l_received_transactions l = l_received_transactions (da_ledger self)"
    "ledger_to_pretty P (da_ledger self') = Some b" "how = Written"
    "da_disk self' = (da_disk self)(da_onecoin_path self := Some b)" "txid = hex_encode P i"
    "da_onecoin_path self' = da_onecoin_path self"
  using assms that
  by (fastforce simp: wallet_send_def Let_def fs_write_def ensure_member_frame
      split: if_splits sum.splits prod.splits option.splits write_end.splits)

text \<open>C27. An accepted payment is on disk: opening the wallet again gives the ledger after the payment, and that
  ledger is the result of the fee transfer on the ledger there was, with the recipient made a member.\<close>

theorem accepted_payment_survives_restart:
  assumes "pretty_reads_back P"
    and "wallet_send P how self hex v memo = (Ok (txid, fee, tx), self')"
  shows "open_wallet P True how' (da_disk self') (da_onecoin_path self') own = (Ok (da_ledger self'), da_disk self')
    \<and> (\<exists>recipient i. AweId_from_hex P hex = Ok recipient
         \<and> apply_transfer_with_fee P
             (ensure_member P (if l_members (da_ledger self) = [] then snd (initialize_genesis P (da_ledger self) [local_id self])
                               else da_ledger self) recipient)
             tx (ip_public_key (id_public (da_identity self))) 100 = (Ok (i, fee), da_ledger self'))"
  using assms(2)
proof (rule wallet_send_Ok)
  fix l i b d recipient
  assume a: "apply_transfer_with_fee P l tx (ip_public_key (id_public (da_identity self))) 100 = (Ok (i, fee), da_ledger self')"
    "l_members l \<noteq> []" "ledger_to_pretty P (da_ledger self') = Some b"
    "da_disk self' = (da_disk self)(da_onecoin_path self := Some b)" "da_onecoin_path self' = da_onecoin_path self"
    and l: "AweId_from_hex P hex = Ok recipient"
    "l = ensure_member P (if l_members (da_ledger self) = [] then snd (initialize_genesis P (da_ledger self) [local_id self])
                          else da_ledger self) recipient"
  have "read_ledger P True (da_disk self') (da_onecoin_path self') = da_ledger self'"
    using assms(1) a(3,4,5) by (simp add: read_ledger_def pretty_reads_back_def)
  moreover have "l_members (da_ledger self') \<noteq> []"
    using fee_transfer_frame(1) [OF a(1)] a(2) by simp
  ultimately show ?thesis
    using a(1) l by (auto simp: open_wallet_def Let_def)
qed

text \<open>Once a wallet has received coins, no payment is accepted, and a payment that the ledger allows is
  refused after the ledger was debited.\<close>

lemma received_wallet_accepts_nothing:
  assumes "pretty_needs_string_keys P" "l_members (da_ledger self) \<noteq> []" "l_received_transactions (da_ledger self) \<noteq> []"
  shows "\<not> is_ok (fst (wallet_send P how self hex v memo))"
proof
  assume "is_ok (fst (wallet_send P how self hex v memo))"
  then obtain txid fee tx self' where run: "wallet_send P how self hex v memo = (Ok (txid, fee, tx), self')"
    by (metis is_ok_iff prod.collapse)
  from run show False
  proof (rule wallet_send_Ok)
    fix l i b d recipient
    assume a: "apply_transfer_with_fee P l tx (ip_public_key (id_public (da_identity self))) 100 = (Ok (i, fee), da_ledger self')"
      "l_members (da_ledger self) \<noteq> [] \<Longrightarrow> l_received_transactions l = l_received_transactions (da_ledger self)"
      "ledger_to_pretty P (da_ledger self') = Some b"
    then have "string_keys_only (da_ledger self')"
      using assms(1) by (simp add: pretty_needs_string_keys_def)
    then show False
      using fee_transfer_frame(2) [OF a(1)] a(2) assms(2,3) by (simp add: string_keys_only_def)
  qed
qed

theorem refused_payment_is_debited:
  fixes self :: Daemon
  assumes "pretty_needs_string_keys P" "l_members (da_ledger self) \<noteq> []" "l_received_transactions (da_ledger self) \<noteq> []"
    and "length hex = 64" "list_all is_ascii_hexdigit hex" "parse_onecoin_atoms v = Ok amount" "amount \<noteq> 0"
    and "AweId_from_hex P hex = Ok recipient" "recipient \<noteq> local_id self"
    and "l = ensure_member P (da_ledger self) recipient" "amount \<le> balance_atoms P l (local_id self)"
    and "tx = OnecoinTransaction_new P (da_identity self) (bt_get_or (l_nonces l) (AweId_to_hex P (local_id self)) 0) recipient amount memo"
    and "apply_transfer_with_fee P l tx (ip_public_key (id_public (da_identity self))) 100 = (Ok x, l')"
  shows "wallet_send P how self hex v memo = (Err ''ONECOIN ledger serialization failed'', self\<lparr>da_ledger := l'\<rparr>)"
proof -
  have "l_received_transactions l' \<noteq> []"
    using fee_transfer_frame(2) [OF assms(13)] assms(3,10) by (simp add: ensure_member_frame)
  then have "ledger_to_pretty P l' = None"
    using assms(1) by (auto simp: pretty_needs_string_keys_def string_keys_only_def)
  with assms show ?thesis
    by (cases x) (simp add: wallet_send_def Let_def local_id_def not_less)
qed

lemma wallet_status_panics:
  assumes "values_are_64_bit P" "2 ^ 64 \<le> unat (balance_atoms P (da_ledger self) (local_id self))"
  shows "api_wallet P resource self = Inl (Panic ''number out of range'')"
  using assms by (simp add: api_wallet_def values_are_64_bit_def Let_def)

section \<open>A concrete wallet\<close>

text \<open>Hexadecimal text, a codec that knows one ledger, and a wallet with one member.\<close>

definition hex_digit :: "nat \<Rightarrow> char" where
  "hex_digit n = char_of (if n < 10 then 48 + n else 87 + n)"

definition hex_text :: "bytes \<Rightarrow> string" where
  "hex_text bs = concat (map (\<lambda>b. [hex_digit (unat b div 16), hex_digit (unat b mod 16)]) bs)"

definition digit_hex :: "char \<Rightarrow> nat" where
  "digit_hex c = (if of_char c < (58 :: nat) then of_char c - 48 else of_char c - 87)"

fun unhex_text :: "string \<Rightarrow> bytes" where
  "unhex_text (h # l # r) = of_nat (16 * digit_hex h + digit_hex l) # unhex_text r"
| "unhex_text _ = []"

definition demo_daemon :: "OnecoinLedger \<Rightarrow> daemon_prims" where
  "demo_daemon saved = store_prims.extend
     (demo_store\<lparr>hex_encode := hex_text, hex_decode := (\<lambda>s. Some (unhex_text s)),
                 ledger_from_json := (\<lambda>b. if b = [1] then Some saved else None)\<rparr>)
     \<lparr>ledger_to_pretty = (\<lambda>l. if l = saved \<and> string_keys_only l then Some [1] else None),
      tx_from_json = (\<lambda>b. if b = [1] then Some demo_tx else None),
      contribution_to_pretty = (\<lambda>r. None), contribution_from_json = (\<lambda>b. None),
      json_parse = (\<lambda>b. None), json_print = (\<lambda>v. []),
      consensus_to_vec = (\<lambda>m. []), consensus_from_slice = (\<lambda>b. None),
      ack_to_json = (\<lambda>a. []), ack_from_json = (\<lambda>b. None), request_to_json = (\<lambda>r. []), request_from_json = (\<lambda>b. None),
      transfer_to_json = (\<lambda>t. st_payload t), transfer_from_json = (\<lambda>b. None),
      u128_to_value = (\<lambda>x. if unat x < 2 ^ 64 then Some (JPos (ucast x)) else None)\<rparr>"

lemma demo_daemon_simps [simp]:
  "hex_encode (demo_daemon l) = hex_text" "hex_decode (demo_daemon l) s = Some (unhex_text s)"
  "sha256 (demo_daemon l) m = pad32 (rev m)" "blake3 (demo_daemon l) m = pad32 (rev m)" "ed_key_ok (demo_daemon l) k"
  "ed_sign (demo_daemon l) k m = pad32 m @ pad32 k" "ed_verify (demo_daemon l) k m sig \<longleftrightarrow> sig = pad32 m @ pad32 k"
  "ledger_to_pretty (demo_daemon l) x = (if x = l \<and> string_keys_only l then Some [1] else None)"
  "ledger_from_json (demo_daemon l) b = (if b = [1] then Some l else None)"
  "tx_from_json (demo_daemon l) b = (if b = [1] then Some demo_tx else None)"
  "json_parse (demo_daemon l) b = None" "consensus_from_slice (demo_daemon l) b = None"
  by (auto simp: demo_daemon_def demo_store_def demo_cons_def demo_coin_def demo_prims_def
      store_prims.defs consensus_prims.defs coin_prims.defs prims.defs)

lemma demo_daemon_json: "pretty_reads_back (demo_daemon l)" "pretty_needs_string_keys (demo_daemon l)"
  by (auto simp: pretty_reads_back_def pretty_needs_string_keys_def)

definition demo_payee :: string where
  "demo_payee = concat (replicate 32 ''02'')"

lemma demo_hex:
  "unhex_text demo_payee = replicate 32 2" "length demo_payee = 64" "list_all is_ascii_hexdigit demo_payee"
  "hex_text (replicate 32 1) \<noteq> hex_text (replicate 32 2)"
  by (code_simp, code_simp, code_simp, code_simp)

definition demo_identity :: Identity where
  "demo_identity = \<lparr>id_signing_key = replicate 32 1,
     id_public = \<lparr>ip_username = Username ''payer'', ip_awe_id = AweId (replicate 32 1), ip_public_key = replicate 32 1\<rparr>\<rparr>"

definition demo_wallet :: Daemon where
  "demo_wallet = \<lparr>da_identity = demo_identity, da_disk = (\<lambda>p. None),
     da_ledger = OnecoinLedger_default
       \<lparr>l_members := [(hex_text (replicate 32 1), replicate 32 1)],
        l_balances := [(hex_text (replicate 32 1), 10 * ATOMS_PER_COIN)],
        l_nonces := [(hex_text (replicate 32 1), 0)], l_total_issued_atoms := 10 * ATOMS_PER_COIN\<rparr>,
     da_onecoin_path = demo_path, da_contribution = contribution_of JNull, da_contribution_path = demo_path,
     da_consensus = None, da_messenger = [], da_community = JNull, da_storage = \<lparr>ln_quota = 0\<rparr>, da_objects = [],
     da_pending_acks = [], da_pending_shards = [], da_policy = NetworkPolicy_default\<rparr>"

lemma demo_payer_key: "AweId_from_public_key (demo_daemon l) (replicate 32 1) = AweId (replicate 32 1)"
  by (simp add: AweId_from_public_key_def hash_def hash_input_def pad32_long)

text \<open>A payment of one coin: the ledger and the transaction of the request.\<close>

definition demo_payment :: "OnecoinLedger \<Rightarrow> OnecoinTransaction" where
  "demo_payment l = OnecoinTransaction_new (demo_daemon l) demo_identity 0 (AweId (replicate 32 2)) ATOMS_PER_COIN None"

lemma demo_amount: "parse_onecoin_atoms (JPos 1) = Ok ATOMS_PER_COIN"
proof -
  have "show_nat 1 = ''1''"
    by code_simp
  moreover have "parse_u128 (replicate 8 (CHR ''0'')) = Some 0" "parse_u128 ''1'' = Some 1"
    by (simp_all add: parse_u128_def zeros_are_digits digits_value_zeros)
       (simp_all add: is_ascii_digit_def digits_value_def)
  ultimately show ?thesis
    by (simp add: parse_onecoin_atoms_def amount_text_def is_ascii_digit_def checked_mul_def checked_add_def
        ATOMS_PER_COIN_def Let_def)
qed

lemma demo_saved_irrelevant:
  "AweId_to_hex (demo_daemon x) = AweId_to_hex (demo_daemon y)" "ledger_key (demo_daemon x) = ledger_key (demo_daemon y)"
  "ensure_member (demo_daemon x) = ensure_member (demo_daemon y)"
  "balance_atoms (demo_daemon x) = balance_atoms (demo_daemon y)"
  "OnecoinTransaction_new (demo_daemon x) = OnecoinTransaction_new (demo_daemon y)"
  "apply_transfer_with_fee (demo_daemon x) = apply_transfer_with_fee (demo_daemon y)"
proof -
  have json: "tx_json (demo_daemon x) = tx_json (demo_daemon y)"
    by (simp add: demo_daemon_def demo_store_def demo_cons_def demo_coin_def demo_prims_def
      store_prims.defs consensus_prims.defs coin_prims.defs prims.defs)
  show hex: "AweId_to_hex (demo_daemon x) = AweId_to_hex (demo_daemon y)"
    by (simp add: fun_eq_iff AweId_to_hex_def)
  then show key: "ledger_key (demo_daemon x) = ledger_key (demo_daemon y)"
    by (simp add: fun_eq_iff ledger_key_def)
  then show "ensure_member (demo_daemon x) = ensure_member (demo_daemon y)"
    "balance_atoms (demo_daemon x) = balance_atoms (demo_daemon y)"
    by (simp_all add: fun_eq_iff ensure_member_def balance_atoms_def)
  have sign: "tx_signing_bytes (demo_daemon x) = tx_signing_bytes (demo_daemon y)"
    by (simp add: fun_eq_iff tx_signing_bytes_def json)
  then show "OnecoinTransaction_new (demo_daemon x) = OnecoinTransaction_new (demo_daemon y)"
    by (simp add: fun_eq_iff OnecoinTransaction_new_def Identity_sign_def)
  have "AweId_from_public_key (demo_daemon x) = AweId_from_public_key (demo_daemon y)"
    by (simp add: fun_eq_iff AweId_from_public_key_def hash_def)
  moreover have "tx_id (demo_daemon x) = tx_id (demo_daemon y)" "tx_verify (demo_daemon x) = tx_verify (demo_daemon y)"
    by (simp_all add: fun_eq_iff tx_id_def tx_verify_def sign json hash_def)
  ultimately show "apply_transfer_with_fee (demo_daemon x) = apply_transfer_with_fee (demo_daemon y)"
    by (intro ext) (simp only: apply_transfer_with_fee_def hex demo_daemon_simps)
qed

lemma demo_payment_applies:
  fixes received x
  defines "l \<equiv> ensure_member (demo_daemon x) ((da_ledger demo_wallet)\<lparr>l_received_transactions := received\<rparr>) (AweId (replicate 32 2))"
  shows "\<exists>i l'. apply_transfer_with_fee (demo_daemon x) l (demo_payment x) (replicate 32 1) 100 = (Ok (i, fee_of (demo_payment x) 100), l')
       \<and> l_received_transactions l' = received \<and> l_rewarded_receipts l' = []
       \<and> balance_atoms (demo_daemon x) l' (AweId (replicate 32 1)) = 9 * ATOMS_PER_COIN - ATOMS_PER_COIN div 100"
    and "balance_atoms (demo_daemon x) l (AweId (replicate 32 1)) = 10 * ATOMS_PER_COIN"
    and "bt_get_or (l_nonces l) (AweId_to_hex (demo_daemon x) (AweId (replicate 32 1))) 0 = 0"
proof -
  have keys: "sender_key_of (demo_daemon x) (replicate 32 1) = hex_text (replicate 32 1)"
    "recipient_key_of (demo_daemon x) (demo_payment x) = hex_text (replicate 32 2)"
    by (simp_all add: sender_key_of_def recipient_key_of_def AweId_to_hex_def demo_payer_key demo_payment_def
        OnecoinTransaction_new_def Let_def)
  show bal: "balance_atoms (demo_daemon x) l (AweId (replicate 32 1)) = 10 * ATOMS_PER_COIN"
    and nonce: "bt_get_or (l_nonces l) (AweId_to_hex (demo_daemon x) (AweId (replicate 32 1))) 0 = 0"
    using demo_hex(4) by (auto simp: l_def balance_atoms_def ledger_key_def AweId_to_hex_def ensure_member_def Let_def demo_wallet_def
        bt_or_insert_def bt_contains_def bt_get_or_def bt_get_def OnecoinLedger_default_def)
  have verify: "tx_verify (demo_daemon x) (demo_payment x) (replicate 32 1)"
    by (simp add: tx_verify_def demo_payment_def OnecoinTransaction_new_def Let_def Identity_sign_def demo_identity_def
        tx_signing_bytes_def ATOMS_PER_COIN_def)
  have fields: "tx_nonce (demo_payment x) = 0" "tx_sender (demo_payment x) = replicate 32 1"
    "tx_amount_atoms (demo_payment x) = ATOMS_PER_COIN"
    by (simp_all add: demo_payment_def OnecoinTransaction_new_def demo_identity_def Let_def)
  have members: "bt_contains (l_members l) (hex_text (replicate 32 1))" "bt_contains (l_members l) (hex_text (replicate 32 2))"
    by (simp_all add: l_def ensure_member_def Let_def demo_wallet_def ledger_key_def AweId_to_hex_def)
       (simp add: bt_contains_def bt_get_def)
  have debit: "sat_add (tx_amount_atoms (demo_payment x)) (fee_of (demo_payment x) 100) \<le> 10 * ATOMS_PER_COIN"
    by (simp add: fields fee_of_def sat_add_def sat_mul_def ATOMS_PER_COIN_def)
  have "transfer_ready (demo_daemon x) l (demo_payment x) (replicate 32 1) (sat_add (tx_amount_atoms (demo_payment x)) (fee_of (demo_payment x) 100))"
    using verify bal nonce fields members debit
    by (simp add: transfer_ready_def keys balance_atoms_def ledger_key_def AweId_to_hex_def)
  note run = apply_transfer_with_fee_cases(1) [OF _ this, simplified]
  have "bt_get_or (l_balances l) (hex_text (replicate 32 1)) 0 = 10 * ATOMS_PER_COIN"
    using bal by (simp add: balance_atoms_def ledger_key_def AweId_to_hex_def)
  then have "balance_atoms (demo_daemon x) (snd (apply_transfer_with_fee (demo_daemon x) l (demo_payment x) (replicate 32 1) 100))
      (AweId (replicate 32 1)) = 9 * ATOMS_PER_COIN - ATOMS_PER_COIN div 100"
    using demo_hex(4) unfolding run
    by (simp add: transferred_def keys move_def balance_atoms_def ledger_key_def AweId_to_hex_def fields fee_of_def
        sat_add_def sat_mul_def ATOMS_PER_COIN_def Let_def bt_get_or_def)
  then show "\<exists>i l'. apply_transfer_with_fee (demo_daemon x) l (demo_payment x) (replicate 32 1) 100 = (Ok (i, fee_of (demo_payment x) 100), l')
       \<and> l_received_transactions l' = received \<and> l_rewarded_receipts l' = []
       \<and> balance_atoms (demo_daemon x) l' (AweId (replicate 32 1)) = 9 * ATOMS_PER_COIN - ATOMS_PER_COIN div 100"
    using run by (simp add: l_def transferred_def ensure_member_def Let_def demo_wallet_def OnecoinLedger_default_def)
qed

theorem accepted_payment_survives_restart_witness:
  "\<exists>(P :: daemon_prims) txid fee tx self'. wallet_send P Written demo_wallet demo_payee (JPos 1) None = (Ok (txid, fee, tx), self')
     \<and> open_wallet P True Written (da_disk self') (da_onecoin_path self') (AweId (replicate 32 1)) = (Ok (da_ledger self'), da_disk self')"
proof -
  let ?d = "demo_daemon OnecoinLedger_default"
  let ?l = "ensure_member ?d (da_ledger demo_wallet) (AweId (replicate 32 2))"
  have same: "(da_ledger demo_wallet)\<lparr>l_received_transactions := []\<rparr> = da_ledger demo_wallet"
    by (simp add: demo_wallet_def OnecoinLedger_default_def)
  obtain i paid where run: "apply_transfer_with_fee ?d ?l (demo_payment OnecoinLedger_default) (replicate 32 1) 100
      = (Ok (i, fee_of (demo_payment OnecoinLedger_default) 100), paid)"
    and plain: "string_keys_only paid"
    using demo_payment_applies(1) [of OnecoinLedger_default "[]"] unfolding same by (auto simp: string_keys_only_def)
  let ?P = "demo_daemon paid"
  note to = demo_saved_irrelevant [of OnecoinLedger_default paid]
  have facts: "local_id demo_wallet = AweId (replicate 32 1)" "l_members (da_ledger demo_wallet) \<noteq> []"
    "da_identity demo_wallet = demo_identity" "ip_public_key (id_public demo_identity) = replicate 32 1"
    "replicate 32 2 \<noteq> (replicate 32 1 :: bytes)" "\<not> 10 * ATOMS_PER_COIN < ATOMS_PER_COIN" "ATOMS_PER_COIN \<noteq> 0"
    by (simp_all add: demo_wallet_def demo_identity_def local_id_def ATOMS_PER_COIN_def)
  have id: "AweId_from_hex ?P demo_payee = Ok (AweId (replicate 32 2))"
    by (simp add: AweId_from_hex_def demo_hex)
  have run': "apply_transfer_with_fee ?P (ensure_member ?P (da_ledger demo_wallet) (AweId (replicate 32 2)))
      (OnecoinTransaction_new ?P demo_identity 0 (AweId (replicate 32 2)) ATOMS_PER_COIN None) (replicate 32 1) 100
      = (Ok (i, fee_of (demo_payment OnecoinLedger_default) 100), paid)"
    using run unfolding to demo_payment_def by simp
  have "is_ok (fst (wallet_send ?P Written demo_wallet demo_payee (JPos 1) None))"
    using demo_payment_applies(2,3) [of paid "[]"] facts run' plain demo_amount id unfolding same
    by (simp add: wallet_send_def Let_def demo_hex fs_write_def)
  then obtain txid fee tx self' where send: "wallet_send ?P Written demo_wallet demo_payee (JPos 1) None = (Ok (txid, fee, tx), self')"
    by (metis is_ok_iff prod.collapse)
  with accepted_payment_survives_restart [OF demo_daemon_json(1) send] show ?thesis
    by blast
qed

theorem decimal_amount_atoms_witness:
  "\<exists>atoms. parse_onecoin_atoms (JFloat ''0.5'') = Ok atoms \<and> unat atoms = 50000000 \<and> 10 * 50000000 \<noteq> 5 * (10 :: nat) ^ 18"
proof -
  have "amount_text (JFloat ''0.5'') = Some (''0'' @ ''.'' @ ''5'')"
    by (simp add: amount_text_def)
  from decimal_amount_atoms [OF this] show ?thesis
    by (auto simp: is_ascii_digit_def digits_value_def)
qed

theorem refused_payment_is_debited_witness:
  "\<exists>(P :: daemon_prims) self l'. wallet_send P Written self demo_payee (JPos 1) None
       = (Err ''ONECOIN ledger serialization failed'', self\<lparr>da_ledger := l'\<rparr>)
     \<and> balance_atoms P (da_ledger self) (local_id self) = 10 * ATOMS_PER_COIN
     \<and> balance_atoms P l' (local_id self) < 9 * ATOMS_PER_COIN"
proof -
  let ?P = "demo_daemon OnecoinLedger_default"
  let ?got = "[([1], 1)] :: (bytes, u128) btree_map"
  let ?self = "demo_wallet\<lparr>da_ledger := (da_ledger demo_wallet)\<lparr>l_received_transactions := ?got\<rparr>\<rparr>"
  let ?l = "ensure_member ?P (da_ledger ?self) (AweId (replicate 32 2))"
  obtain i l' where run: "apply_transfer_with_fee ?P ?l (demo_payment OnecoinLedger_default) (replicate 32 1) 100
      = (Ok (i, fee_of (demo_payment OnecoinLedger_default) 100), l')"
    and balance: "balance_atoms ?P l' (AweId (replicate 32 1)) = 9 * ATOMS_PER_COIN - ATOMS_PER_COIN div 100"
    using demo_payment_applies(1) [of OnecoinLedger_default ?got] by auto
  have facts: "local_id ?self = AweId (replicate 32 1)" "l_members (da_ledger ?self) \<noteq> []"
    "da_identity ?self = demo_identity" "ip_public_key (id_public demo_identity) = replicate 32 1"
    "AweId (replicate 32 2) \<noteq> AweId (replicate 32 1)" "l_received_transactions (da_ledger ?self) \<noteq> []"
    "balance_atoms ?P (da_ledger ?self) (AweId (replicate 32 1)) = 10 * ATOMS_PER_COIN"
    by (simp_all add: demo_wallet_def demo_identity_def local_id_def balance_atoms_def ledger_key_def AweId_to_hex_def
        bt_get_or_def bt_get_def)
  have id: "AweId_from_hex ?P demo_payee = Ok (AweId (replicate 32 2))"
    by (simp add: AweId_from_hex_def demo_hex)
  have "ATOMS_PER_COIN \<le> 10 * ATOMS_PER_COIN" and pos: "ATOMS_PER_COIN \<noteq> 0"
    and less: "9 * ATOMS_PER_COIN - ATOMS_PER_COIN div 100 < 9 * ATOMS_PER_COIN"
    by (simp_all add: ATOMS_PER_COIN_def)
  then have enough: "ATOMS_PER_COIN \<le> balance_atoms ?P ?l (local_id ?self)"
    using demo_payment_applies(2) [of OnecoinLedger_default ?got] by (simp add: facts(1))
  have tx: "demo_payment OnecoinLedger_default = OnecoinTransaction_new ?P (da_identity ?self)
      (bt_get_or (l_nonces ?l) (AweId_to_hex ?P (local_id ?self)) 0) (AweId (replicate 32 2)) ATOMS_PER_COIN None"
    using demo_payment_applies(3) [of OnecoinLedger_default ?got] by (simp add: demo_payment_def facts(1,3))
  have pay: "apply_transfer_with_fee ?P ?l (demo_payment OnecoinLedger_default) (ip_public_key (id_public (da_identity ?self))) 100
      = (Ok (i, fee_of (demo_payment OnecoinLedger_default) 100), l')"
    using run by (simp add: facts(3,4))
  have ne: "AweId (replicate 32 2) \<noteq> local_id ?self"
    using facts(1,5) by simp
  have "wallet_send ?P Written ?self demo_payee (JPos 1) None
      = (Err ''ONECOIN ledger serialization failed'', ?self\<lparr>da_ledger := l'\<rparr>)"
    by (rule refused_payment_is_debited [OF demo_daemon_json(2) facts(2,6) demo_hex(2,3) demo_amount pos id ne refl enough tx pay])
  then show ?thesis
    using facts(1,7) balance less by (intro exI [of _ ?P] exI [of _ ?self] exI [of _ l']) simp
qed

end
