(* ===== verification/Daemon_Props.thy ===== *)
theory Daemon_Props
  imports Daemon_Dispatch Daemon_Wallet
begin

text \<open>
  What the dispatcher guarantees to the user of the daemon and what it does not: entries of the message
  log carry the authenticated sender and are not repeated; a group is taken over by whoever names
  itself its owner; the stream that storage and consensus share reaches neither.
\<close>

section \<open>The message log\<close>

definition from_sender :: "'a prims_scheme \<Rightarrow> bytes \<Rightarrow> json \<Rightarrow> bool" where
  "from_sender P sender e \<longleftrightarrow> get_str e ''sender'' = Some (uid P sender)"

definition new_entry :: "json \<Rightarrow> json list \<Rightarrow> bool" where
  "new_entry e log \<longleftrightarrow> (\<exists>i. has_id i e) \<and> (\<forall>i. has_id i e \<longrightarrow> (\<forall>x \<in> set log. \<not> has_id i x))"

text \<open>One step of the log: nothing, or one entry of this sender with an identifier that is not there yet.\<close>

definition log_step :: "'a prims_scheme \<Rightarrow> bytes \<Rightarrow> json list \<Rightarrow> json list \<Rightarrow> bool" where
  "log_step P sender log log' \<longleftrightarrow> log' = log \<or> (\<exists>e. log' = log @ [e] \<and> from_sender P sender e \<and> new_entry e log)"

lemma log_step_same [simp, intro]: "log_step P sender log log"
  by (simp add: log_step_def)

lemma log_once_step:
  "from_sender P sender e \<Longrightarrow> has_id i e \<Longrightarrow> log_step P sender log (log_once i e log)"
  by (auto simp: log_step_def log_once_def new_entry_def has_id_def)

lemma call_log_step: "log_step P sender (da_messenger self) (da_messenger (dispatch_call P self sender message))"
proof -
  let ?e = "json_insert ''sender'' (JStr (uid P sender)) message"
  let ?i = "str_or_empty (get_str message ''id'')"
  have "from_sender P sender ?e \<and> has_id ?i ?e" if i0: "?i \<noteq> []"
  proof -
    obtain i where i: "json_get message ''id'' = Some (JStr i)"
      using i0 by (cases "get_str message ''id''") (auto simp: get_str_Some)
    then obtain m where "message = JObj m"
      using json_get_obj by blast
    with i show ?thesis
      by (simp add: from_sender_def has_id_def get_str_def)
  qed
  then show ?thesis
    using log_once_step by (auto simp: dispatch_call_def Let_def)
qed

lemma group_channel_log [simp]:
  "da_messenger (dispatch_group P self sender message) = da_messenger self"
  "da_messenger (snd (dispatch_subscribe Q active self sender message)) = da_messenger self"
  "da_messenger (snd (dispatch_channel Q active self sender message)) = da_messenger self"
  by (simp_all add: dispatch_group_def dispatch_subscribe_def dispatch_channel_def Let_def split: option.split)

lemma entry_fields:
  "from_sender P sender (json_obj [(''id'', JStr i), (''sender'', JStr (uid P sender)), (''recipient'', r), (''text'', t), (''state'', s), (''timestamp'', n)])"
  "has_id i (json_obj [(''id'', JStr i), (''sender'', v), (''recipient'', r), (''text'', t), (''state'', s), (''timestamp'', n)])"
  by (simp_all add: from_sender_def has_id_def get_str_def json_get_json_obj bt_of_list_def bt_get_def)

lemma message_log_step: "log_step P sender (da_messenger self) (da_messenger (dispatch_message P now self sender message))"
  by (simp add: dispatch_message_def Let_def log_once_step entry_fields)

lemma app_log_step: "log_step P sender (da_messenger self) (da_messenger (snd (dispatch_app P active now self sender payload)))"
  by (auto simp: dispatch_app_def Let_def call_log_step message_log_step split: option.split)

lemma other_log [simp]:
  "da_messenger (snd (dispatch_consensus P fault self sender payload)) = da_messenger self"
  "da_messenger (dispatch_transfer P how self payload) = da_messenger self"
  "da_messenger (snd (dispatch_storage P f self sender payload)) = da_messenger self"
  by (simp_all add: dispatch_consensus_def dispatch_transfer_def dispatch_storage_def dispatch_shard_def Let_def
      split: option.split sum.split prod.split)

lemma dispatch_log_step: "log_step P sender (da_messenger self) (da_messenger (snd (dispatch P env self (sender, stream, payload))))"
  by (simp add: dispatch_def app_log_step)

lemma has_id_unique: "has_id i e \<Longrightarrow> has_id j e \<Longrightarrow> i = j"
  by (simp add: has_id_def)

text \<open>C24. The log after any sequence of received messages: the entries before are kept in their order, every new
  entry names the authenticated sender of one of the messages, and no two new entries have the same identifier,
  nor one of the entries before.\<close>

theorem message_log_is_authentic:
  "\<exists>new. da_messenger (snd (dispatch_all P env self ms)) = da_messenger self @ new
     \<and> (\<forall>e \<in> set new. \<exists>m \<in> set ms. from_sender P (fst m) e)
     \<and> distinct (map (\<lambda>e. get_str e ''id'') new)
     \<and> (\<forall>e \<in> set new. \<forall>x \<in> set (da_messenger self). get_str x ''id'' \<noteq> get_str e ''id'')"
proof (induction ms arbitrary: self env)
  case (Cons m ms)
  obtain sender stream payload where m: "m = (sender, stream, payload)"
    by (cases m) auto
  obtain out self1 where run: "dispatch P (env 0) self m = (out, self1)"
    by fastforce
  have all: "snd (dispatch_all P env self (m # ms)) = snd (dispatch_all P (\<lambda>n. env (Suc n)) self1 ms)"
    by (simp add: run split: prod.split)
  obtain new where new: "da_messenger (snd (dispatch_all P (\<lambda>n. env (Suc n)) self1 ms)) = da_messenger self1 @ new"
    "\<forall>e \<in> set new. \<exists>m \<in> set ms. from_sender P (fst m) e" "distinct (map (\<lambda>e. get_str e ''id'') new)"
    "\<forall>e \<in> set new. \<forall>x \<in> set (da_messenger self1). get_str x ''id'' \<noteq> get_str e ''id''"
    using Cons.IH by blast
  have "log_step P sender (da_messenger self) (da_messenger self1)"
    using dispatch_log_step [of P sender self "env 0" stream payload] run m by simp
  then consider (same) "da_messenger self1 = da_messenger self"
    | (entry) e where "da_messenger self1 = da_messenger self @ [e]" "from_sender P sender e" "new_entry e (da_messenger self)"
    unfolding log_step_def by blast
  then show ?case
  proof cases
    case same
    with new all show ?thesis by auto
  next
    case (entry e)
    then have fresh: "\<forall>x \<in> set (da_messenger self). get_str x ''id'' \<noteq> get_str e ''id''"
      by (auto simp: new_entry_def has_id_def)
    show ?thesis
      using new entry fresh m unfolding all by (intro exI [of _ "e # new"]) auto
  qed
qed simp

section \<open>Groups\<close>

lemma find_update_first:
  "\<exists>x \<in> set xs. p x \<Longrightarrow> p y \<Longrightarrow> List.find p (update_first p (\<lambda>_. y) xs) = Some y"
  by (induction xs) auto

lemma find_snoc: "\<forall>x \<in> set xs. \<not> p x \<Longrightarrow> p y \<Longrightarrow> List.find p (xs @ [y]) = Some y"
  by (induction xs) auto

lemma find_upsert: "get_str g ''id'' = Some i \<Longrightarrow> List.find (has_id i) (upsert g gs) = Some g"
  by (auto simp: upsert_def Let_def has_id_def find_snoc intro!: find_update_first)

text \<open>A group is replaced by whatever a peer sends under its identifier, as long as the new value names the
  sender as owner; who owned or was in the group before does not matter.\<close>

theorem group_takeover:
  assumes "NetworkPolicy_allows_stream (da_policy self) 100" "json_parse P payload = Some message"
    and "get_str message ''kind'' = Some ''awe.group.v1''" "get_str message ''event'' = Some ''upsert''"
    and "json_get message ''group'' = Some g" "get_str g ''id'' = Some gid" "get_str g ''owner'' = Some (hex_encode P sender)"
    and "get_array (da_community self) ''groups'' = Some gs"
  shows "\<exists>gs'. get_array (da_community (snd (dispatch P env self (sender, 100, payload)))) ''groups'' = Some gs'
       \<and> List.find (has_id gid) gs' = Some g"
proof -
  have streams: "(100 :: u32) \<noteq> ONECOIN_CONSENSUS_STREAM" "(100 :: u32) \<noteq> ONECOIN_TRANSFER_STREAM"
    by (simp_all add: ONECOIN_CONSENSUS_STREAM_def ONECOIN_TRANSFER_STREAM_def)
  have "snd (dispatch P env self (sender, 100, payload)) = dispatch_group P self sender message"
    using assms(1-3) streams by (simp add: dispatch_def dispatch_app_def Let_def)
  then show ?thesis
    using assms(4-8) find_upsert [OF assms(6), of gs] by (simp add: dispatch_group_def Let_def)
qed

text \<open>A message event changes no group its sender is not a member of.\<close>

lemma group_message_needs_membership:
  assumes "get_str message ''event'' = Some ''message''"
    and "\<forall>gs g. get_array (da_community self) ''groups'' = Some gs \<longrightarrow> g \<in> set gs \<longrightarrow> \<not> mentions (hex_encode P sender) (get_array g ''members'')"
  shows "get_array (da_community (dispatch_group P self sender message)) ''groups'' = get_array (da_community self) ''groups''"
proof -
  have same: "update_first p (\<lambda>g. if mentions (hex_encode P sender) (get_array g ''members'') then f g else g) gs = gs"
    if "\<forall>g \<in> set gs. \<not> mentions (hex_encode P sender) (get_array g ''members'')" for p f gs
    using that by (induction gs) auto
  show ?thesis
    using assms by (cases "get_array (da_community self) ''groups''") (simp_all add: dispatch_group_def Let_def same)
qed

section \<open>The shared stream\<close>

lemma get_outside: "v \<notin> set (map snd m) \<Longrightarrow> bt_get m k \<noteq> Some v"
  by (force simp: bt_get_def dest: map_of_SomeD)

text \<open>C37. Storage and consensus messages share stream 200. The consensus branch comes first and hands the runtime the
  identifier of the peer where it expects a public key; the storage branch is never reached. So a message on
  this stream from a peer whose identifier is not the public key of a validator has no effect at all: no
  shard is stored or sent, no acknowledgement is recorded, no proposal, vote or certificate is handled.\<close>

theorem shared_stream_is_inert:
  assumes "\<And>rt. da_consensus self = Some rt \<Longrightarrow> sender \<notin> set (map snd (rt_validators rt))"
  shows "dispatch P env self (sender, STORAGE_STREAM, payload) = ([], self)"
proof -
  have stream: "STORAGE_STREAM = ONECOIN_CONSENSUS_STREAM"
    by (simp add: STORAGE_STREAM_def ONECOIN_CONSENSUS_STREAM_def)
  have "bt_get (rt_validators rt) k \<noteq> Some sender" if "da_consensus self = Some rt" for rt k
    using assms that by (intro get_outside) blast
  then have "dispatch_consensus P fault self sender payload = ([], self)" for fault
    by (simp add: dispatch_consensus_def handle_def Let_def split: option.split sum.split)
  then show ?thesis
    by (simp add: dispatch_def stream)
qed

section \<open>Received coins\<close>

text \<open>Documented behaviour of the JSON parser: an empty input is an error.\<close>

definition empty_is_no_json :: "'a daemon_prims_scheme \<Rightarrow> bool" where
  "empty_is_no_json P \<longleftrightarrow> ledger_from_json P [] = None"

lemma receive_transfer_recorded:
  assumes "tx_recipient tx = aweid_bytes own" "tx_verify P tx (tx_sender tx)"
  shows "\<exists>b l'. receive_transfer P l tx (tx_sender tx) own = (Ok b, l') \<and> l_received_transactions l' \<noteq> []"
proof -
  have "bt_insert k v m \<noteq> []" for k :: bytes and v :: u128 and m
    by (cases m) simp_all
  then show ?thesis
    using assms by (auto simp: receive_transfer_def Let_def bt_contains_def bt_get_def)
qed

lemma transfer_empties_file:
  assumes "pretty_needs_string_keys P" "tx_from_json P payload = Some tx"
    and "tx_recipient tx = aweid_bytes (local_id self)" "tx_verify P tx (tx_sender tx)"
  shows "da_disk (dispatch_transfer P Written self payload) (da_onecoin_path self) = Some []"
proof -
  let ?l = "ensure_member P (ensure_member P (da_ledger self) (AweId_from_public_key P (tx_sender tx))) (local_id self)"
  obtain b l' where run: "receive_transfer P ?l tx (tx_sender tx) (local_id self) = (Ok b, l')"
    and ne: "l_received_transactions l' \<noteq> []"
    using receive_transfer_recorded [OF assms(3,4)] by blast
  have "ledger_to_pretty P l' = None"
    using assms(1) ne by (auto simp: pretty_needs_string_keys_def string_keys_only_def)
  then show ?thesis
    using assms(2,3) run by (simp add: dispatch_transfer_def Let_def fs_write_def)
qed

lemma open_wallet_fresh:
  assumes "read_ledger P readable d p = OnecoinLedger_default" "open_wallet P readable how d p own = (Ok l, d')"
  shows "balance_atoms P l own = INITIAL_GENESIS_ALLOCATION" "l_members l = [(ledger_key P own, aweid_bytes own)]"
  using assms
  by (auto simp: open_wallet_def initialize_genesis_def bt_of_list_def genesis_insert_def OnecoinLedger_default_def Let_def
      balance_atoms_def bt_get_or_def bt_get_def bt_or_insert_def bt_contains_def
      split: option.splits prod.splits bool.splits)

text \<open>C38. A transfer that the wallet accepts from a peer cannot be written as JSON, so an empty file replaces the
  ledger; the next start opens a new wallet with the initial allocation and no trace of what was there.\<close>

theorem received_coins_lost_on_restart:
  assumes "pretty_needs_string_keys P" "empty_is_no_json P"
    and "NetworkPolicy_allows_stream (da_policy self) ONECOIN_TRANSFER_STREAM" "en_ledger_write env = Written"
    and "tx_from_json P payload = Some tx" "tx_recipient tx = aweid_bytes (local_id self)" "tx_verify P tx (tx_sender tx)"
    and "d = da_disk (snd (dispatch P env self (sender, ONECOIN_TRANSFER_STREAM, payload)))"
  shows "d (da_onecoin_path self) = Some []
       \<and> (\<forall>l d'. open_wallet P readable how d (da_onecoin_path self) (local_id self) = (Ok l, d') \<longrightarrow>
            balance_atoms P l (local_id self) = INITIAL_GENESIS_ALLOCATION
            \<and> l_members l = [(ledger_key P (local_id self), aweid_bytes (local_id self))])"
proof -
  have "ONECOIN_TRANSFER_STREAM \<noteq> ONECOIN_CONSENSUS_STREAM"
    by (simp add: ONECOIN_CONSENSUS_STREAM_def ONECOIN_TRANSFER_STREAM_def)
  then have "d = da_disk (dispatch_transfer P Written self payload)"
    using assms(3,4,8) by (simp add: dispatch_def)
  then have file_empty: "d (da_onecoin_path self) = Some []"
    using transfer_empties_file [OF assms(1,5,6,7)] by simp
  then have "read_ledger P readable d (da_onecoin_path self) = OnecoinLedger_default"
    using assms(2) by (simp add: read_ledger_def empty_is_no_json_def)
  then show ?thesis
    using file_empty open_wallet_fresh by blast
qed

text \<open>A ledger that cannot be read at start-up is replaced by a new one, whatever it holds.\<close>

lemma unreadable_ledger_is_replaced:
  assumes "open_wallet P False Written d p own = (Ok l, d')"
  shows "balance_atoms P l own = INITIAL_GENESIS_ALLOCATION" "d' p = ledger_to_pretty P l"
proof -
  have fresh: "read_ledger P False d p = OnecoinLedger_default"
    by (simp add: read_ledger_def)
  then show "balance_atoms P l own = INITIAL_GENESIS_ALLOCATION"
    using open_wallet_fresh(1) assms by blast
  show "d' p = ledger_to_pretty P l"
    using assms fresh by (auto simp: open_wallet_def Let_def fs_write_def OnecoinLedger_default_def split: option.splits prod.splits sum.splits)
qed

section \<open>Concrete runs\<close>

definition demo_env :: step_env where
  "demo_env = \<lparr>en_consensus_fault = None, en_ledger_write = Written, en_object_fault = NoFault, en_active = [], en_now = 0\<rparr>"

definition demo_reader :: "json \<Rightarrow> daemon_prims" where
  "demo_reader v = (demo_daemon OnecoinLedger_default)\<lparr>json_parse := (\<lambda>b. Some v)\<rparr>"

lemma demo_reader_simps [simp]: "json_parse (demo_reader v) b = Some v" "hex_encode (demo_reader v) = hex_text"
  by (simp_all add: demo_reader_def)

lemma demo_policy [simp]:
  "NetworkPolicy_allows_stream (da_policy demo_wallet) 100"
  "NetworkPolicy_allows_stream (da_policy demo_wallet) ONECOIN_TRANSFER_STREAM"
  by (simp_all add: demo_wallet_def NetworkPolicy_allows_stream_def NetworkPolicy_default_def MESSENGER_STREAM_def)

definition demo_text_message :: json where
  "demo_text_message = JObj [(''id'', JStr ''1''), (''kind'', JStr ''awe.messenger.v1''), (''recipient'', JStr ''r''),
     (''sender'', JStr ''someone else''), (''text'', JStr ''hello'')]"

theorem message_log_is_authentic_witness:
  "\<exists>e. da_messenger (snd (dispatch_all (demo_reader demo_text_message) (\<lambda>_. demo_env) demo_wallet [(replicate 32 9, 100, [])])) = [e]
     \<and> get_str e ''sender'' = Some (uid (demo_reader demo_text_message) (replicate 32 9))"
proof -
  let ?P = "demo_reader demo_text_message"
  let ?log = "da_messenger (snd (dispatch_all ?P (\<lambda>_. demo_env) demo_wallet [(replicate 32 9, 100, [])]))"
  have start: "da_messenger demo_wallet = []"
    by (simp add: demo_wallet_def)
  have fields: "get_str demo_text_message ''kind'' = Some ''awe.messenger.v1''" "get_str demo_text_message ''id'' = Some ''1''"
    "get_str demo_text_message ''text'' = Some ''hello''" "get_str demo_text_message ''recipient'' = Some ''r''"
    "json_get demo_text_message ''silent'' = None"
    by (simp_all add: demo_text_message_def get_str_def json_get_def bt_get_def)
  have "length ?log = 1"
    using fields start demo_policy(1)
    by (simp add: dispatch_def dispatch_app_def dispatch_message_def log_once_def Let_def ONECOIN_CONSENSUS_STREAM_def
        ONECOIN_TRANSFER_STREAM_def split: prod.split)
  then obtain e where e: "?log = [e]"
    by (auto simp: length_Suc_conv)
  obtain new where "?log = [] @ new" "\<forall>e \<in> set new. \<exists>m \<in> set [(replicate 32 9, 100 :: u32, [] :: bytes)]. from_sender ?P (fst m) e"
    using message_log_is_authentic [of ?P "\<lambda>_. demo_env" demo_wallet "[(replicate 32 9, 100, [])]"] unfolding start by blast
  then have "from_sender ?P (replicate 32 9) e"
    using e by auto
  with e show ?thesis
    by (auto simp: from_sender_def)
qed

definition demo_stolen :: json where
  "demo_stolen = JObj [(''id'', JStr ''gid-1''), (''owner'', JStr (hex_text (replicate 32 9)))]"

definition demo_upsert :: json where
  "demo_upsert = JObj [(''event'', JStr ''upsert''), (''group'', demo_stolen), (''kind'', JStr ''awe.group.v1'')]"

theorem group_takeover_witness:
  "\<exists>gs'. get_array (da_community (snd (dispatch (demo_reader demo_upsert) demo_env
       (demo_wallet\<lparr>da_community := JObj [(''groups'', JArr [JObj [(''id'', JStr ''gid-1''), (''owner'', JStr ''another'')]])]\<rparr>)
       (replicate 32 9, 100, [])))) ''groups'' = Some gs'
     \<and> List.find (has_id ''gid-1'') gs' = Some demo_stolen"
  by (rule group_takeover [where message = demo_upsert and gs = "[JObj [(''id'', JStr ''gid-1''), (''owner'', JStr ''another'')]]"])
     (use demo_policy(1) in \<open>simp_all add: demo_upsert_def demo_stolen_def get_str_def get_array_def json_get_def bt_get_def\<close>)

text \<open>A validator whose identifier is the hash of its key is not heard.\<close>

definition demo_validator :: bytes where
  "demo_validator = 1 # replicate 31 2"

definition demo_runtime :: OnecoinConsensusRuntime where
  "demo_runtime = \<lparr>rt_state = \<lparr>ps_path = demo_path, ps_state = demo_state\<rparr>,
     rt_validators = [(hex_text (rev demo_validator), demo_validator)], rt_pending = [], rt_votes = []\<rparr>"

theorem shared_stream_is_inert_witness:
  "validators_match (demo_daemon OnecoinLedger_default) (rt_validators demo_runtime)
   \<and> dispatch (demo_daemon OnecoinLedger_default) demo_env (demo_wallet\<lparr>da_consensus := Some demo_runtime\<rparr>)
       (aweid_bytes (AweId_from_public_key (demo_daemon OnecoinLedger_default) demo_validator), STORAGE_STREAM, [1])
     = ([], demo_wallet\<lparr>da_consensus := Some demo_runtime\<rparr>)"
proof -
  let ?P = "demo_daemon OnecoinLedger_default"
  have id: "AweId_from_public_key ?P demo_validator = AweId (rev demo_validator)"
  proof -
    have "length (rev demo_validator) = 32"
      by (simp add: demo_validator_def)
    then show ?thesis
      by (simp add: AweId_from_public_key_def hash_def hash_input_def pad32_long)
  qed
  have "rev demo_validator \<noteq> demo_validator"
    by code_simp
  then have out: "rev demo_validator \<notin> set (map snd (rt_validators rt))"
    if "da_consensus (demo_wallet\<lparr>da_consensus := Some demo_runtime\<rparr>) = Some rt" for rt
    using that by (auto simp: demo_runtime_def)
  have "dispatch ?P demo_env (demo_wallet\<lparr>da_consensus := Some demo_runtime\<rparr>) (rev demo_validator, STORAGE_STREAM, [1])
     = ([], demo_wallet\<lparr>da_consensus := Some demo_runtime\<rparr>)"
    by (rule shared_stream_is_inert) (rule out)
  moreover have "validators_match ?P (rt_validators demo_runtime)"
    by (simp add: id demo_runtime_def AweId_to_hex_def)
  ultimately show ?thesis
    by (simp only: id AweId.sel simp_thms)
qed

definition demo_fresh :: OnecoinLedger where
  "demo_fresh = snd (initialize_genesis (demo_daemon OnecoinLedger_default) OnecoinLedger_default [AweId (replicate 32 2)])"

theorem received_coins_lost_on_restart_witness:
  "\<exists>(P :: daemon_prims) self d l d'. open_wallet P True Written d (da_onecoin_path self) (local_id self) = (Ok l, d')
     \<and> d = da_disk (snd (dispatch P demo_env self (replicate 32 1, ONECOIN_TRANSFER_STREAM, [1])))
     \<and> d (da_onecoin_path self) = Some [] \<and> balance_atoms P l (local_id self) = INITIAL_GENESIS_ALLOCATION"
proof -
  let ?P = "demo_daemon demo_fresh"
  let ?self = "demo_wallet\<lparr>da_identity := demo_identity\<lparr>id_public := \<lparr>ip_username = Username ''payee'', ip_awe_id = AweId (replicate 32 2),
    ip_public_key = replicate 32 2\<rparr>\<rparr>\<rparr>"
  have own: "local_id ?self = AweId (replicate 32 2)" and path: "da_onecoin_path ?self = demo_path"
    by (simp_all add: local_id_def demo_wallet_def)
  have genesis: "initialize_genesis ?P OnecoinLedger_default [AweId (replicate 32 2)] = (Ok (), demo_fresh)"
    by (simp add: demo_fresh_def initialize_genesis_def ledger_key_def AweId_to_hex_def OnecoinLedger_default_def Let_def)
  have plain: "string_keys_only demo_fresh"
    by (simp add: demo_fresh_def initialize_genesis_def bt_of_list_def genesis_insert_def OnecoinLedger_default_def Let_def string_keys_only_def)
  have none: "empty_is_no_json ?P"
    by (simp add: empty_is_no_json_def)
  have tx: "tx_from_json ?P [1] = Some demo_tx" "tx_recipient demo_tx = aweid_bytes (local_id ?self)"
    by (simp_all add: own demo_tx_def)
  have json: "tx_json ?P = tx_json demo_coin"
    by (simp add: demo_daemon_def demo_store_def demo_cons_def demo_coin_def demo_prims_def
        store_prims.defs consensus_prims.defs coin_prims.defs prims.defs)
  have verify: "tx_verify ?P demo_tx (tx_sender demo_tx)"
    by (simp add: tx_verify_def tx_signing_bytes_def json demo_tx_def pad32_def)
  have policy: "NetworkPolicy_allows_stream (da_policy ?self) ONECOIN_TRANSFER_STREAM" "en_ledger_write demo_env = Written"
    using demo_policy(2) by (simp_all add: demo_env_def)
  let ?d = "da_disk (snd (dispatch ?P demo_env ?self (replicate 32 1, ONECOIN_TRANSFER_STREAM, [1])))"
  have "?d demo_path = Some []"
    using transfer_empties_file [OF demo_daemon_json(2) tx verify] policy
    by (simp add: dispatch_def path ONECOIN_CONSENSUS_STREAM_def ONECOIN_TRANSFER_STREAM_def)
  then have "read_ledger ?P True ?d demo_path = OnecoinLedger_default"
    by (simp add: read_ledger_def)
  then have run: "open_wallet ?P True Written ?d (da_onecoin_path ?self) (local_id ?self) = (Ok demo_fresh, ?d(demo_path := Some [1]))"
    using plain genesis unfolding own path
    by (simp add: open_wallet_def Let_def fs_write_def) (simp add: OnecoinLedger_default_def)
  from received_coins_lost_on_restart [OF demo_daemon_json(2) none policy tx verify refl, of "replicate 32 1" True Written]
  have "?d (da_onecoin_path ?self) = Some []" "balance_atoms ?P demo_fresh (local_id ?self) = INITIAL_GENESIS_ALLOCATION"
    using run by blast+
  with run show ?thesis
    by blast
qed

end
