(* ===== verification/Daemon_Storage.thy ===== *)
theory Daemon_Storage
  imports Daemon_Dispatch Storage
begin

text \<open>
  The storage interface of the product daemon (\<^verbatim>\<open>src/apps/awe-node/src/main.rs\<close>): uploading a file as erasure-coded
  shards on three nodes each, reading it back, pushing a single shard, the health report and the
  repair cycle that runs in the background. A file is described by a JSON manifest in the directory
  \<^verbatim>\<open>storage/manifests\<close>, whose path is a key of the daemon's disk.

  A request runs as one step. Where it waits for an answer of a peer, the dispatcher handles the messages
  that arrive in the meantime; they are an argument (\<open>se_arrivals\<close>), as are the clock, the faults of the
  disk and the end of every transmission, by shard and node. The upload tasks run one after the other
  in the order they are joined. The permits of the transfer semaphore and the JSON encoding of the three
  protocol messages never fail and have no error branch. A result lists the messages that were sent.
\<close>

section \<open>Environment\<close>

record file_prims = daemon_prims +
  json_to_pretty :: "json \<Rightarrow> bytes option"

record storage_env =
  se_now :: "nat \<Rightarrow> string \<Rightarrow> u64"
  se_fault :: "nat \<Rightarrow> string \<Rightarrow> disk_fault"
  se_sent :: "nat \<Rightarrow> string \<Rightarrow> unit result"
  se_arrivals :: "nat \<Rightarrow> string \<Rightarrow> (step_env \<times> bytes \<times> u32 \<times> bytes) list"
  se_joined :: "(nat \<times> string) list \<Rightarrow> nat list"
  se_write :: write_end

definition own_id :: "Daemon \<Rightarrow> bytes" where
  "own_id self = aweid_bytes (local_id self)"

definition data_dir_for_api :: "string option \<Rightarrow> string option \<Rightarrow> string option \<Rightarrow> string" where
  "data_dir_for_api awe_data_dir userprofile home =
     (case awe_data_dir of
        Some value \<Rightarrow> value
      | None \<Rightarrow> (case (case userprofile of None \<Rightarrow> home | Some u \<Rightarrow> Some u) of
                   Some h \<Rightarrow> h @ ''/.awep2p''
                 | None \<Rightarrow> ''.awep2p''))"

text \<open>The identifier in a request names the file as it is; a text with a slash names another file.\<close>

definition manifest_path :: "string \<Rightarrow> string \<Rightarrow> path" where
  "manifest_path dir file_id_hex = Path (dir @ ''/storage/manifests'') file_id_hex (Some ''json'')"

definition body_json :: "'a daemon_prims_scheme \<Rightarrow> bytes \<Rightarrow> json" where
  "body_json P body = (case json_parse P body of None \<Rightarrow> JNull | Some v \<Rightarrow> v)"

definition error_reply :: "string \<Rightarrow> json" where
  "error_reply e = json_obj [(''status'', JStr ''error''), (''error'', JStr e)]"

definition json_nat :: "nat \<Rightarrow> json" where
  "json_nat n = JPos (of_nat n)"

text \<open>\<^verbatim>\<open>Value::get\<close> with an index.\<close>

definition json_nth :: "json \<Rightarrow> nat \<Rightarrow> json option" where
  "json_nth v i = (case v of JArr a \<Rightarrow> if i < length a then Some (a ! i) else None | _ \<Rightarrow> None)"

definition request_id :: "'a prims_scheme \<Rightarrow> string \<Rightarrow> string \<Rightarrow> nat \<Rightarrow> string \<Rightarrow> u64 \<Rightarrow> bytes" where
  "request_id P tag file_id_hex index target now =
     take 16 (blake3 P (as_bytes (tag @ '':'' @ file_id_hex @ '':'' @ show_nat index @ '':'' @ target @ '':'' @ show_nat (unat now))))"

text \<open>\<^verbatim>\<open>peers.map(|p| (format_uid(p), p)).collect::<BTreeMap>()\<close>.\<close>

definition peer_ids_of :: "'a prims_scheme \<Rightarrow> bytes list \<Rightarrow> (string, bytes) btree_map" where
  "peer_ids_of P peers = bt_of_list (map (\<lambda>p. (uid P p, p)) peers)"

text \<open>
  Waiting: the dispatcher handles what arrives until the poll that finds an answer, or the last poll
  before the deadline.
\<close>

definition arrive :: "'a daemon_prims_scheme \<Rightarrow> (step_env \<times> bytes \<times> u32 \<times> bytes) list \<Rightarrow> Daemon \<Rightarrow> Daemon" where
  "arrive P ms self = fold (\<lambda>(env, m) self. snd (dispatch P env self m)) ms self"

definition wait_ack ::
  "'a daemon_prims_scheme \<Rightarrow> storage_env \<Rightarrow> Daemon \<Rightarrow> nat \<Rightarrow> string \<Rightarrow> bytes \<Rightarrow> StorageShardAck option \<times> Daemon" where
  "wait_ack P env self index target rid =
     (let self = arrive P (se_arrivals env index target) self
      in (bt_get (da_pending_acks self) rid, self\<lparr>da_pending_acks := bt_remove rid (da_pending_acks self)\<rparr>))"

definition wait_shard ::
  "'a daemon_prims_scheme \<Rightarrow> storage_env \<Rightarrow> Daemon \<Rightarrow> nat \<Rightarrow> string \<Rightarrow> bytes \<Rightarrow> StorageShardTransfer option \<times> Daemon" where
  "wait_shard P env self index target rid =
     (let self = arrive P (se_arrivals env index target) self
      in (bt_get (da_pending_shards self) rid, self\<lparr>da_pending_shards := bt_remove rid (da_pending_shards self)\<rparr>))"

definition ack_matches :: "bytes \<Rightarrow> nat \<Rightarrow> bytes \<Rightarrow> StorageShardAck \<Rightarrow> bool" where
  "ack_matches file_id index expected ack \<longleftrightarrow>
     sa_file_id ack = file_id \<and> sa_shard_index ack = of_nat index \<and> sa_stored_object_id ack = expected"

definition shard_matches :: "'a prims_scheme \<Rightarrow> bytes \<Rightarrow> nat \<Rightarrow> bytes \<Rightarrow> StorageShardTransfer \<Rightarrow> bool" where
  "shard_matches P file_id index expected r \<longleftrightarrow>
     st_file_id r = file_id \<and> st_shard_index r = of_nat index \<and> is_ok (StorageShardTransfer_verify P r)
     \<and> st_payload_hash r = expected"

section \<open>Uploading\<close>

record upload_job =
  uj_index :: nat
  uj_target :: string
  uj_request_id :: bytes
  uj_shard_hash :: bytes
  uj_message :: "bytes \<times> u32 \<times> bytes"

record upload =
  up_objects :: dir
  up_stored_local :: nat
  up_failed :: "json list"
  up_jobs :: "upload_job list"

definition upload_nodes :: "'a prims_scheme \<Rightarrow> Daemon \<Rightarrow> bytes list \<Rightarrow> string list" where
  "upload_nodes P self peers =
     fold (\<lambda>p ids. if uid P p \<noteq> uid P (own_id self) \<and> uid P p \<notin> set ids then ids @ [uid P p] else ids) peers
       [uid P (own_id self)]"

definition failure :: "nat \<Rightarrow> string \<Rightarrow> string \<Rightarrow> string \<Rightarrow> json" where
  "failure index node key text = json_obj [(''shard'', json_nat index), (''node'', JStr node), (key, JStr text)]"

definition upload_job_for ::
  "'a daemon_prims_scheme \<Rightarrow> storage_env \<Rightarrow> Daemon \<Rightarrow> StoragePolicy \<Rightarrow> bytes \<Rightarrow> nat \<Rightarrow> nat \<Rightarrow> bytes \<Rightarrow> string \<Rightarrow> bytes \<Rightarrow> upload_job" where
  "upload_job_for P env self policy file_id nbytes index shard target peer_id =
     (let rid = request_id P ''upload'' (hex_encode P file_id) index target (se_now env index target);
          transfer = StorageShardTransfer_new P rid (own_id self) file_id (of_nat index) (of_nat (total_shards policy))
                       (of_nat nbytes) shard
      in \<lparr>uj_index = index, uj_target = target, uj_request_id = rid, uj_shard_hash = blake3 P shard,
          uj_message = (peer_id, STORAGE_STREAM, transfer_to_json P transfer)\<rparr>)"

definition place_copy ::
  "'a daemon_prims_scheme \<Rightarrow> storage_env \<Rightarrow> Daemon \<Rightarrow> (string, bytes) btree_map \<Rightarrow> StoragePolicy \<Rightarrow> bytes \<Rightarrow> nat
   \<Rightarrow> nat \<Rightarrow> bytes \<Rightarrow> string \<Rightarrow> upload \<Rightarrow> upload" where
  "place_copy P env self peer_ids policy file_id nbytes index shard target u =
     (if target = uid P (own_id self) then
        (case put P (da_storage self) (se_fault env index target) (up_objects u) shard of
           (Inr _, objects) \<Rightarrow> u\<lparr>up_objects := objects, up_stored_local := up_stored_local u + 1\<rparr>
         | (Inl e, objects) \<Rightarrow>
             u\<lparr>up_objects := objects, up_failed := up_failed u @ [failure index target ''error'' (error_text e)]\<rparr>)
      else case bt_get peer_ids target of
        Some peer_id \<Rightarrow>
          u\<lparr>up_jobs := up_jobs u @ [upload_job_for P env self policy file_id nbytes index shard target peer_id]\<rparr>
      | None \<Rightarrow> u\<lparr>up_failed := up_failed u @ [failure index target ''error'' ''peer is no longer known'']\<rparr>)"

text \<open>The plan and the encoding both have \<^verbatim>\<open>total_shards\<close> entries, so every shard has its placement.\<close>

definition place_all ::
  "'a daemon_prims_scheme \<Rightarrow> storage_env \<Rightarrow> Daemon \<Rightarrow> (string, bytes) btree_map \<Rightarrow> StoragePolicy \<Rightarrow> bytes \<Rightarrow> nat
   \<Rightarrow> ReplicaPlacement list \<Rightarrow> bytes list \<Rightarrow> upload" where
  "place_all P env self peer_ids policy file_id nbytes placements shards =
     fold (\<lambda>((index, shard), placement).
              fold (place_copy P env self peer_ids policy file_id nbytes index shard) (rp_nodes placement))
       (zip (enumerate 0 shards) placements)
       \<lparr>up_objects = da_objects self, up_stored_local = 0, up_failed = [], up_jobs = []\<rparr>"

definition run_job ::
  "'a daemon_prims_scheme \<Rightarrow> storage_env \<Rightarrow> bytes \<Rightarrow> upload_job \<Rightarrow> nat \<times> json list \<times> Daemon \<Rightarrow> nat \<times> json list \<times> Daemon" where
  "run_job P env file_id job = (\<lambda>(sent_remote, failed, self).
     case se_sent env (uj_index job) (uj_target job) of
       Inl e \<Rightarrow> (sent_remote, failed @ [failure (uj_index job) (uj_target job) ''error'' (error_text e)], self)
     | Inr _ \<Rightarrow>
         (case wait_ack P env self (uj_index job) (uj_target job) (uj_request_id job) of
            (ack, self) \<Rightarrow>
              if (case ack of None \<Rightarrow> False | Some a \<Rightarrow> ack_matches file_id (uj_index job) (uj_shard_hash job) a)
              then (sent_remote + 1, failed, self)
              else (sent_remote + 1,
                    failed @ [failure (uj_index job) (uj_target job) ''warning'' ''remote storage ACK not confirmed''], self)))"

text \<open>\<^verbatim>\<open>join_next\<close> returns the tasks in the order \<open>se_joined\<close>, a permutation of their positions.\<close>

definition joined_jobs :: "storage_env \<Rightarrow> upload_job list \<Rightarrow> upload_job list" where
  "joined_jobs env jobs =
     map ((!) jobs) (filter (\<lambda>i. i < length jobs) (se_joined env (map (\<lambda>j. (uj_index j, uj_target j)) jobs)))"

definition placement_json :: "ReplicaPlacement \<Rightarrow> json" where
  "placement_json p =
     json_obj [(''shard_index'', JPos (ucast (rp_shard_index p))), (''nodes'', JArr (map JStr (rp_nodes p)))]"

definition upload_manifest ::
  "'a prims_scheme \<Rightarrow> StoragePolicy \<Rightarrow> bytes \<Rightarrow> string \<Rightarrow> nat \<Rightarrow> bytes list \<Rightarrow> ReplicaPlacement list \<Rightarrow> nat \<Rightarrow> nat \<Rightarrow> json" where
  "upload_manifest P policy file_id filename nbytes shards placements stored_local sent_remote =
     json_obj [(''version'', JPos 1), (''file_id'', JStr (hex_encode P file_id)), (''filename'', JStr filename),
       (''original_size'', json_nat nbytes), (''shards'', json_nat (total_shards policy)),
       (''data_shards'', json_nat (sp_data_shards policy)), (''parity_shards'', json_nat (sp_parity_shards policy)),
       (''replicas'', JPos 3), (''shard_hashes'', JArr (map (\<lambda>s. JStr (hex_encode P (blake3 P s))) shards)),
       (''placements'', JArr (map placement_json placements)), (''stored_local'', json_nat stored_local),
       (''sent_remote'', json_nat sent_remote)]"

definition upload_reply :: "'a prims_scheme \<Rightarrow> bytes \<Rightarrow> string \<Rightarrow> nat \<Rightarrow> nat \<Rightarrow> nat \<Rightarrow> json list \<Rightarrow> response" where
  "upload_reply P file_id filename nbytes stored_local sent_remote failed =
     (let status = (if list_all (\<lambda>e. json_get e ''error'' = None) failed then ''stored'' else ''partial'')
      in (''200 OK'', json_obj [(''status'', JStr status), (''file_id'', JStr (hex_encode P file_id)),
            (''filename'', JStr filename), (''original_size'', json_nat nbytes), (''shards'', JPos 1000),
            (''replicas'', JPos 3), (''stored_local'', json_nat stored_local),
            (''sent_remote'', json_nat sent_remote), (''failures'', JArr failed)]))"

definition storage_put ::
  "'a file_prims_scheme \<Rightarrow> 'b storage_prims_scheme \<Rightarrow> storage_env \<Rightarrow> string \<Rightarrow> bytes list \<Rightarrow> Daemon \<Rightarrow> string \<Rightarrow> bytes
   \<Rightarrow> response \<times> sends \<times> Daemon" where
  "storage_put P R env dir peers self filename data =
     (if \<not> NetworkPolicy_allows_upload (da_policy self) (length data)
         \<or> \<not> NetworkPolicy_allows_stream (da_policy self) STORAGE_STREAM
      then ((''403 Forbidden'', json_obj [(''status'', JStr ''rejected''), (''error'', JStr ''upload rejected by local AWENET policy'')]),
            [], self)
      else
        let policy = for_file_size (length data);
            file_id = blake3 P data;
            node_ids = upload_nodes P self peers
        in case build_plan_for_shards P file_id node_ids (total_shards policy) of
             Inl e \<Rightarrow> ((''409 Conflict'', json_obj [(''status'', JStr ''error''), (''error'', JStr (error_text e)),
                          (''discovered_nodes'', json_nat (length node_ids))]), [], self)
           | Inr plan \<Rightarrow>
        case encode_shards R data policy of
             Inl e \<Rightarrow> ((''500 Internal Server Error'', error_reply (error_text e)), [], self)
           | Inr shards \<Rightarrow>
        let u = place_all P env self (peer_ids_of P peers) policy file_id (length data) (pp_placements plan) shards;
            (sent_remote, failed, self) =
              fold (run_job P env file_id) (joined_jobs env (up_jobs u)) (0, up_failed u, self\<lparr>da_objects := up_objects u\<rparr>);
            manifest = upload_manifest P policy file_id filename (length data) shards (pp_placements plan)
                         (up_stored_local u) sent_remote;
            bytes = (case json_to_pretty P manifest of None \<Rightarrow> [] | Some b \<Rightarrow> b);
            disk = snd (fs_write (se_write env) (manifest_path dir (hex_encode P file_id)) bytes (da_disk self))
        in (upload_reply P file_id filename (length data) (up_stored_local u) sent_remote failed,
            map uj_message (up_jobs u), self\<lparr>da_disk := disk\<rparr>))"

definition api_storage_put ::
  "'a file_prims_scheme \<Rightarrow> 'b storage_prims_scheme \<Rightarrow> storage_env \<Rightarrow> string \<Rightarrow> bytes list \<Rightarrow> Daemon \<Rightarrow> bytes
   \<Rightarrow> response \<times> sends \<times> Daemon" where
  "api_storage_put P R env dir peers self body =
     (let parsed = body_json P body;
          filename = trim_str (case get_str parsed ''filename'' of None \<Rightarrow> ''object.bin'' | Some s \<Rightarrow> s);
          data_hex = trim_str (str_or_empty (get_str parsed ''data_hex''))
      in if filename = [] \<or> data_hex = []
         then ((''400 Bad Request'', error_reply ''filename and data_hex are required''), [], self)
         else case hex_decode P data_hex of
                None \<Rightarrow> ((''400 Bad Request'', error_reply ''data_hex is not valid hexadecimal''), [], self)
              | Some data \<Rightarrow> storage_put P R env dir peers self filename data)"

section \<open>Pushing one shard\<close>

definition api_storage_push ::
  "'a daemon_prims_scheme \<Rightarrow> u64 \<Rightarrow> u128 result \<Rightarrow> Daemon \<Rightarrow> bytes \<Rightarrow> response result \<times> sends" where
  "api_storage_push P now sent self body =
     (let parsed = body_json P body;
          field = (\<lambda>k. trim_str (str_or_empty (get_str parsed k)));
          file_id_hex = field ''file_id'';
          shard_index = (case get_u64 parsed ''shard_index'' of None \<Rightarrow> - 1 | Some n \<Rightarrow> n);
          original_size = (case get_u64 parsed ''original_size'' of None \<Rightarrow> 0 | Some n \<Rightarrow> n);
          bytes32 = (\<lambda>s. Option.bind (hex_decode P s) (\<lambda>b. if length b = 32 then Some b else None))
      in case (bytes32 (field ''recipient''), bytes32 file_id_hex, hex_decode P (field ''payload_hex'')) of
           (Some peer_id, Some file_id, Some payload) \<Rightarrow>
             if unat shard_index < 1000 then
               (let rid = take 16 (blake3 P (as_bytes (file_id_hex @ '':'' @ show_nat (unat shard_index) @ '':'' @ show_nat (unat now))));
                    transfer = StorageShardTransfer_new P rid (own_id self) file_id (ucast shard_index) 1000 original_size payload;
                    message = (peer_id, STORAGE_STREAM, transfer_to_json P transfer)
                in case sent of
                     Inl e \<Rightarrow> (Ok (''502 Bad Gateway'', error_reply (error_text e)), [message])
                   | Inr rtt \<Rightarrow>
                       (case u128_to_value P rtt of
                          None \<Rightarrow> Inl (Panic ''number out of range'')
                        | Some ms \<Rightarrow> Ok (''200 OK'', json_obj [(''status'', JStr ''sent''), (''stream'', JPos (ucast STORAGE_STREAM)),
                                        (''shard_index'', JPos shard_index), (''rtt_ms'', ms)]), [message]))
             else (Ok (''400 Bad Request'',
                     error_reply ''recipient, 32-byte file_id, shard_index 0..999 and payload_hex are required''), [])
         | _ \<Rightarrow> (Ok (''400 Bad Request'',
                  error_reply ''recipient, 32-byte file_id, shard_index 0..999 and payload_hex are required''), []))"

section \<open>Downloading\<close>

definition manifest_hash :: "json \<Rightarrow> nat \<Rightarrow> string option" where
  "manifest_hash manifest index =
     Option.bind (Option.bind (json_get manifest ''shard_hashes'') (\<lambda>v. json_nth v index)) as_str"

definition manifest_nodes :: "json \<Rightarrow> nat \<Rightarrow> json list option" where
  "manifest_nodes manifest index =
     Option.bind (Option.bind (json_get manifest ''placements'') (\<lambda>v. json_nth v index)) (\<lambda>p. get_array p ''nodes'')"

definition hash_of_hex :: "'a prims_scheme \<Rightarrow> string \<Rightarrow> bytes option" where
  "hash_of_hex P s = Option.bind (hex_decode P s) (\<lambda>b. if length b = 32 then Some b else None)"

definition local_shard :: "'a prims_scheme \<Rightarrow> Daemon \<Rightarrow> json \<Rightarrow> nat \<Rightarrow> json \<Rightarrow> bytes option" where
  "local_shard P self manifest index placement =
     (if mentions (uid P (own_id self)) (get_array placement ''nodes'') then
        (case hash_of_hex P (str_or_empty (manifest_hash manifest index)) of
           None \<Rightarrow> None
         | Some expected \<Rightarrow> (case get_object P (da_objects self) expected of Inl _ \<Rightarrow> None | Inr data \<Rightarrow> Some data))
      else None)"

definition local_shards :: "'a prims_scheme \<Rightarrow> Daemon \<Rightarrow> json \<Rightarrow> nat \<Rightarrow> bytes option list" where
  "local_shards P self manifest shard_count =
     (case get_array manifest ''placements'' of
        None \<Rightarrow> []
      | Some placements \<Rightarrow> map (\<lambda>(index, p). local_shard P self manifest index p) (enumerate 0 (take shard_count placements)))"

definition fetch_copy ::
  "'a daemon_prims_scheme \<Rightarrow> storage_env \<Rightarrow> (string, bytes) btree_map \<Rightarrow> string \<Rightarrow> nat \<Rightarrow> u64 \<Rightarrow> nat \<Rightarrow> bytes \<Rightarrow> string
   \<Rightarrow> Daemon \<Rightarrow> bytes option \<times> sends \<times> Daemon" where
  "fetch_copy P env peer_ids file_id_hex shard_count nbytes index expected_hash target self =
     (if target = uid P (own_id self) then (None, [], self)
      else case bt_get peer_ids target of
        None \<Rightarrow> (None, [], self)
      | Some peer_id \<Rightarrow>
          let rid = request_id P ''download'' file_id_hex index target (se_now env index target);
              file_id = (case hash_of_hex P file_id_hex of None \<Rightarrow> replicate 32 0 | Some b \<Rightarrow> b);
              request = StorageShardRequest_new rid (own_id self) file_id (of_nat index) (of_nat shard_count) expected_hash
                          nbytes (4 * 1024 * 1024);
              message = (peer_id, STORAGE_STREAM, request_to_json P request)
          in case se_sent env index target of
               Inl _ \<Rightarrow> (None, [message], self)
             | Inr _ \<Rightarrow>
                 (case wait_shard P env self index target rid of
                    (None, self) \<Rightarrow> (None, [message], self)
                  | (Some response, self) \<Rightarrow>
                      if shard_matches P file_id index expected_hash response then
                        (case put P (da_storage self) (se_fault env index target) (da_objects self) (st_payload response) of
                           (Inl _, objects) \<Rightarrow> (None, [message], self\<lparr>da_objects := objects\<rparr>)
                         | (Inr object_id, objects) \<Rightarrow>
                             (if object_id = expected_hash then Some (st_payload response) else None, [message],
                              self\<lparr>da_objects := objects\<rparr>))
                      else (None, [message], self)))"

fun fetch_shard ::
  "(string \<Rightarrow> Daemon \<Rightarrow> bytes option \<times> sends \<times> Daemon) \<Rightarrow> json list \<Rightarrow> Daemon \<Rightarrow> bytes option \<times> sends \<times> Daemon" where
  "fetch_shard fetch [] self = (None, [], self)"
| "fetch_shard fetch (node # nodes) self =
     (case as_str node of
        None \<Rightarrow> fetch_shard fetch nodes self
      | Some target \<Rightarrow>
          (case fetch target self of
             (Some data, out, self) \<Rightarrow> (Some data, out, self)
           | (None, out, self) \<Rightarrow>
               (case fetch_shard fetch nodes self of (r, rest, self) \<Rightarrow> (r, out @ rest, self))))"

fun fetch_missing ::
  "'a daemon_prims_scheme \<Rightarrow> storage_env \<Rightarrow> (string, bytes) btree_map \<Rightarrow> string \<Rightarrow> json \<Rightarrow> StoragePolicy \<Rightarrow> nat list
   \<Rightarrow> bytes option list \<Rightarrow> nat \<Rightarrow> Daemon \<Rightarrow> bytes option list \<times> nat \<times> sends \<times> Daemon" where
  "fetch_missing P env peer_ids file_id_hex manifest policy [] shards present self = (shards, present, [], self)"
| "fetch_missing P env peer_ids file_id_hex manifest policy (index # rest) shards present self =
     (if present \<ge> sp_data_shards policy then (shards, present, [], self)
      else case (manifest_nodes manifest index, Option.bind (manifest_hash manifest index) (hash_of_hex P)) of
        (Some nodes, Some expected_hash) \<Rightarrow>
          let nbytes = (case get_u64 manifest ''original_size'' of None \<Rightarrow> 0 | Some n \<Rightarrow> n) in
          (case fetch_shard (fetch_copy P env peer_ids file_id_hex (total_shards policy) nbytes index expected_hash) nodes self of
             (None, out, self) \<Rightarrow>
               (case fetch_missing P env peer_ids file_id_hex manifest policy rest shards present self of
                  (shards, present, later, self) \<Rightarrow> (shards, present, out @ later, self))
           | (Some data, out, self) \<Rightarrow>
               (case fetch_missing P env peer_ids file_id_hex manifest policy rest (shards[index := Some data]) (present + 1) self of
                  (shards, present, later, self) \<Rightarrow> (shards, present, out @ later, self)))
      | _ \<Rightarrow> fetch_missing P env peer_ids file_id_hex manifest policy rest shards present self)"

definition manifest_total :: "json \<Rightarrow> nat" where
  "manifest_total manifest = clamp_nat (case get_u64 manifest ''shards'' of None \<Rightarrow> 1000 | Some n \<Rightarrow> unat n) 12 1000"

definition reconstructed :: "'a prims_scheme \<Rightarrow> string \<Rightarrow> json \<Rightarrow> bytes \<Rightarrow> response" where
  "reconstructed P file_id_hex manifest data =
     (let data = (case get_u64 manifest ''original_size'' of None \<Rightarrow> data | Some n \<Rightarrow> take (unat n) data) in
      (''200 OK'', json_obj [(''status'', JStr ''reconstructed''), (''file_id'', JStr file_id_hex),
         (''filename'', JStr (case get_str manifest ''filename'' of None \<Rightarrow> ''object.bin'' | Some s \<Rightarrow> s)),
         (''size'', json_nat (length data)), (''data_hex'', JStr (hex_encode P data))]))"

definition insufficient :: "nat \<Rightarrow> StoragePolicy \<Rightarrow> nat list \<Rightarrow> response" where
  "insufficient present policy missing =
     (''409 Conflict'', json_obj [(''status'', JStr ''insufficient_shards''), (''present'', json_nat present),
        (''required'', json_nat (sp_data_shards policy)), (''missing'', JArr (map json_nat missing))])"

definition storage_get ::
  "'a daemon_prims_scheme \<Rightarrow> 'b storage_prims_scheme \<Rightarrow> storage_env \<Rightarrow> string \<Rightarrow> bytes list \<Rightarrow> Daemon \<Rightarrow> string
   \<Rightarrow> response \<times> sends \<times> Daemon" where
  "storage_get P R env dir peers self file_id_hex =
     (case da_disk self (manifest_path dir file_id_hex) of
        None \<Rightarrow> ((''404 Not Found'', json_obj [(''status'', JStr ''not_found''), (''file_id'', JStr file_id_hex)]), [], self)
      | Some bytes \<Rightarrow>
          (case json_parse P bytes of
             None \<Rightarrow> ((''500 Internal Server Error'', error_reply ''json''), [], self)
           | Some manifest \<Rightarrow>
               let shard_count = manifest_total manifest;
                   policy = custom_scaled shard_count;
                   found = local_shards P self manifest shard_count;
                   shards = found @ replicate (shard_count - length found) None;
                   present = length (filter (\<lambda>s. s \<noteq> None) found);
                   missing = filter (\<lambda>i. found ! i = None) [0..<length found];
                   (shards, present, out, self) =
                     (if present < sp_data_shards policy \<and> missing \<noteq> []
                      then fetch_missing P env (peer_ids_of P peers) file_id_hex manifest policy missing shards present self
                      else (shards, present, [], self))
               in if present < sp_data_shards policy then (insufficient present policy missing, out, self)
                  else case recover_shards R shards policy of
                         Inl e \<Rightarrow> ((''500 Internal Server Error'', error_reply (error_text e)), out, self)
                       | Inr data \<Rightarrow> (reconstructed P file_id_hex manifest data, out, self)))"

text \<open>The identifier is the parameter \<^verbatim>\<open>file_id\<close> of the first line of the request, whose white space is ASCII.\<close>

fun split_whitespace :: "string \<Rightarrow> string list" where
  "split_whitespace [] = [[]]"
| "split_whitespace (c # cs) =
     (if is_whitespace (of_char c) \<and> (of_char c :: nat) < 128 then [] # split_whitespace cs
      else (case split_whitespace cs of [] \<Rightarrow> [[c]] | w # ws \<Rightarrow> (c # w) # ws))"

definition strip_prefix :: "string \<Rightarrow> string \<Rightarrow> string option" where
  "strip_prefix p s = (if starts_with s p then Some (drop (length p) s) else None)"

definition file_id_param :: "string \<Rightarrow> string" where
  "file_id_param request_line =
     (let words = filter (\<lambda>w. w \<noteq> []) (split_whitespace request_line);
          path = (if 1 < length words then Some (words ! 1) else None);
          query = Option.bind path (\<lambda>p. let parts = split_on (CHR ''?'') p in if 1 < length parts then Some (parts ! 1) else None)
      in case query of
           None \<Rightarrow> []
         | Some q \<Rightarrow> (case List.map_filter (strip_prefix ''file_id='') (split_on (CHR ''&'') q) of [] \<Rightarrow> [] | v # _ \<Rightarrow> v))"

definition api_storage_get ::
  "'a daemon_prims_scheme \<Rightarrow> 'b storage_prims_scheme \<Rightarrow> storage_env \<Rightarrow> string \<Rightarrow> bytes list \<Rightarrow> Daemon \<Rightarrow> string
   \<Rightarrow> response \<times> sends \<times> Daemon" where
  "api_storage_get P R env dir peers self request_line = storage_get P R env dir peers self (file_id_param request_line)"

section \<open>Health\<close>

text \<open>\<open>entries\<close> is what reading each file of the manifest directory gives, \<open>None\<close> if it has no listing.\<close>

definition manifest_healthy :: "string list \<Rightarrow> json \<Rightarrow> bool" where
  "manifest_healthy online manifest =
     (case get_array manifest ''placements'' of
        None \<Rightarrow> False
      | Some placements \<Rightarrow>
          list_all (\<lambda>p. case get_array p ''nodes'' of
                          None \<Rightarrow> False
                        | Some ns \<Rightarrow> \<not> length (filter (\<lambda>n. case as_str n of None \<Rightarrow> False | Some s \<Rightarrow> s \<in> set online) ns) < 3)
            placements)"

definition api_storage_health :: "'a daemon_prims_scheme \<Rightarrow> bytes list \<Rightarrow> bytes option list option \<Rightarrow> Daemon \<Rightarrow> response" where
  "api_storage_health P peers entries self =
     (let online = fold insort_insert (map (uid P) peers @ [uid P (own_id self)]) [];
          manifests = (case entries of None \<Rightarrow> [] | Some es \<Rightarrow> List.map_filter (\<lambda>e. Option.bind e (json_parse P)) es);
          healthy = length (filter (manifest_healthy online) manifests)
      in (''200 OK'', json_obj [(''files'', json_nat (length manifests)), (''healthy_files'', json_nat healthy),
            (''degraded_files'', json_nat (length manifests - healthy)), (''online_nodes'', json_nat (length online))]))"

definition api_storage_stats :: "string \<Rightarrow> u64 option \<Rightarrow> bool \<Rightarrow> Daemon \<Rightarrow> response" where
  "api_storage_stats dir free listed self =
     (let st = (if listed then stats (da_storage self) (da_objects self)
                else \<lparr>st_capacity = 0, st_used = 0, st_objects = 0, st_healthy_replicas = 0, st_repaired_chunks = 0\<rparr>)
      in (''200 OK'', json_obj [(''root'', JStr dir), (''free_bytes'', JPos (case free of None \<Rightarrow> 0 | Some n \<Rightarrow> n)),
            (''capacity_bytes'', JPos (st_capacity st)), (''used_bytes'', JPos (st_used st)), (''objects'', JPos (st_objects st)),
            (''healthy_replicas'', JPos (st_healthy_replicas st)), (''repaired_chunks'', JPos (st_repaired_chunks st)),
            (''replication_policy'', json_obj [(''shards'', JPos 1000), (''replicas'', JPos 3)])]))"

section \<open>Repair\<close>

text \<open>What the repair of one file works with; it stays the same for all of its shards.\<close>

record repair_file =
  rf_policy :: NetworkPolicy
  rf_peer_ids :: "(string, bytes) btree_map"
  rf_file_id_hex :: string
  rf_file_id :: bytes
  rf_original_size :: u64
  rf_total_shards :: nat
  rf_shard_hashes :: "json list"

definition ask_source ::
  "'a daemon_prims_scheme \<Rightarrow> storage_env \<Rightarrow> repair_file \<Rightarrow> nat \<Rightarrow> bytes \<Rightarrow> string \<Rightarrow> bytes \<Rightarrow> Daemon
   \<Rightarrow> bytes option \<times> sends \<times> Daemon" where
  "ask_source P env f index expected_hash source source_id self =
     (let rid = request_id P ''repair-source'' (rf_file_id_hex f) index source (se_now env index source);
          request = StorageShardRequest_new rid (own_id self) (rf_file_id f) (of_nat index) (of_nat (rf_total_shards f))
                      expected_hash (rf_original_size f) (4 * 1024 * 1024);
          message = (source_id, STORAGE_STREAM, request_to_json P request)
      in case se_sent env index source of
           Inl _ \<Rightarrow> (None, [message], self)
         | Inr _ \<Rightarrow>
             (case wait_shard P env self index source rid of
                (None, self) \<Rightarrow> (None, [message], self)
              | (Some response, self) \<Rightarrow>
                  (if shard_matches P (rf_file_id f) index expected_hash response then Some (st_payload response) else None,
                   [message], self)))"

fun find_source ::
  "'a daemon_prims_scheme \<Rightarrow> storage_env \<Rightarrow> repair_file \<Rightarrow> nat \<Rightarrow> bytes \<Rightarrow> string list \<Rightarrow> Daemon \<Rightarrow> bytes option \<times> sends \<times> Daemon" where
  "find_source P env f index expected_hash [] self = (None, [], self)"
| "find_source P env f index expected_hash (source # rest) self =
     (if source = uid P (own_id self) then
        (case get_object P (da_objects self) expected_hash of
           Inr data \<Rightarrow> (Some data, [], self)
         | Inl _ \<Rightarrow> find_source P env f index expected_hash rest self)
      else case bt_get (rf_peer_ids f) source of
        None \<Rightarrow> find_source P env f index expected_hash rest self
      | Some source_id \<Rightarrow>
          (case ask_source P env f index expected_hash source source_id self of
             (Some data, out, self) \<Rightarrow> (Some data, out, self)
           | (None, out, self) \<Rightarrow>
               (case find_source P env f index expected_hash rest self of (r, later, self) \<Rightarrow> (r, out @ later, self))))"

definition give_copy ::
  "'a daemon_prims_scheme \<Rightarrow> storage_env \<Rightarrow> repair_file \<Rightarrow> nat \<Rightarrow> bytes \<Rightarrow> bytes \<Rightarrow> string \<Rightarrow> bytes \<Rightarrow> Daemon
   \<Rightarrow> bool \<times> sends \<times> Daemon" where
  "give_copy P env f index expected_hash data target target_id self =
     (let rid = request_id P ''repair-target'' (rf_file_id_hex f) index target (se_now env index target);
          transfer = StorageShardTransfer_new P rid (own_id self) (rf_file_id f) (of_nat index) (of_nat (rf_total_shards f))
                       (rf_original_size f) data;
          message = (target_id, STORAGE_STREAM, transfer_to_json P transfer)
      in case se_sent env index target of
           Inl _ \<Rightarrow> (False, [message], self)
         | Inr _ \<Rightarrow>
             (case wait_ack P env self index target rid of
                (ack, self) \<Rightarrow>
                  (case ack of None \<Rightarrow> False | Some a \<Rightarrow> ack_matches (rf_file_id f) index expected_hash a, [message], self)))"

text \<open>The node that took a copy of the shard, if one did.\<close>

fun repair_target ::
  "'a daemon_prims_scheme \<Rightarrow> storage_env \<Rightarrow> repair_file \<Rightarrow> nat \<Rightarrow> bytes \<Rightarrow> bytes \<Rightarrow> string list \<Rightarrow> string list \<Rightarrow> Daemon
   \<Rightarrow> string option \<times> sends \<times> Daemon" where
  "repair_target P env f index expected_hash data current_nodes [] self = (None, [], self)"
| "repair_target P env f index expected_hash data current_nodes (target # rest) self =
     (if target \<in> set current_nodes then repair_target P env f index expected_hash data current_nodes rest self
      else if target = uid P (own_id self) then
        (case put P (da_storage self) (se_fault env index target) (da_objects self) data of
           (Inr _, objects) \<Rightarrow> (Some target, [], self\<lparr>da_objects := objects\<rparr>)
         | (Inl _, objects) \<Rightarrow>
             repair_target P env f index expected_hash data current_nodes rest (self\<lparr>da_objects := objects\<rparr>))
      else case bt_get (rf_peer_ids f) target of
        None \<Rightarrow> repair_target P env f index expected_hash data current_nodes rest self
      | Some target_id \<Rightarrow>
          (case give_copy P env f index expected_hash data target target_id self of
             (True, out, self) \<Rightarrow> (Some target, out, self)
           | (False, out, self) \<Rightarrow>
               (case repair_target P env f index expected_hash data current_nodes rest self of
                  (r, later, self) \<Rightarrow> (r, out @ later, self))))"

definition repair_candidates :: "string \<Rightarrow> (string, bytes) btree_map \<Rightarrow> string list \<Rightarrow> string list" where
  "repair_candidates own peer_ids current_nodes =
     sort_dedup ((if own \<notin> set current_nodes then [own] else [])
       @ filter (\<lambda>i. i \<notin> set current_nodes) (map fst peer_ids))"

definition repair_shard ::
  "'a daemon_prims_scheme \<Rightarrow> storage_env \<Rightarrow> repair_file \<Rightarrow> nat \<Rightarrow> string list \<Rightarrow> Daemon \<Rightarrow> string option \<times> sends \<times> Daemon" where
  "repair_shard P env f index current_nodes self =
     (let own = uid P (own_id self);
          available = length (filter (\<lambda>i. i = own \<or> bt_contains (rf_peer_ids f) i) current_nodes)
      in if available \<ge> 3 then (None, [], self)
         else case Option.bind (Option.bind (json_nth (JArr (rf_shard_hashes f)) index) as_str) (hash_of_hex P) of
           None \<Rightarrow> (None, [], self)
         | Some expected_hash \<Rightarrow>
             (case find_source P env f index expected_hash current_nodes self of
                (None, out, self) \<Rightarrow> (None, out, self)
              | (Some data, out, self) \<Rightarrow>
                  if \<not> NetworkPolicy_allows_shard (rf_policy f) (length data) \<or> blake3 P data \<noteq> expected_hash
                  then (None, out, self)
                  else (case repair_target P env f index expected_hash data current_nodes
                               (repair_candidates own (rf_peer_ids f) current_nodes) self of
                          (r, later, self) \<Rightarrow> (r, out @ later, self))))"

fun repair_shards ::
  "'a daemon_prims_scheme \<Rightarrow> storage_env \<Rightarrow> repair_file \<Rightarrow> nat list \<Rightarrow> json list \<Rightarrow> Daemon \<Rightarrow> json list \<times> bool \<times> sends \<times> Daemon" where
  "repair_shards P env f [] placements self = (placements, False, [], self)"
| "repair_shards P env f (index # rest) placements self =
     (case Option.bind (json_nth (JArr placements) index) (\<lambda>p. get_array p ''nodes'') of
        None \<Rightarrow> repair_shards P env f rest placements self
      | Some nodes \<Rightarrow>
          (case repair_shard P env f index (List.map_filter as_str nodes) self of
             (None, out, self) \<Rightarrow>
               (case repair_shards P env f rest placements self of
                  (placements, changed, later, self) \<Rightarrow> (placements, changed, out @ later, self))
           | (Some target, out, self) \<Rightarrow>
               (case repair_shards P env f rest
                       (placements[index := json_insert ''nodes'' (JArr (nodes @ [JStr target])) (placements ! index)]) self of
                  (placements, changed, later, self) \<Rightarrow> (placements, True, out @ later, self))))"

definition repair_manifest ::
  "'a file_prims_scheme \<Rightarrow> storage_env \<Rightarrow> NetworkPolicy \<Rightarrow> (string, bytes) btree_map \<Rightarrow> path \<Rightarrow> Daemon \<Rightarrow> sends \<times> Daemon" where
  "repair_manifest P env policy peer_ids p self =
     (case Option.bind (da_disk self p) (json_parse P) of
        None \<Rightarrow> ([], self)
      | Some manifest \<Rightarrow>
          let file_id_hex = str_or_empty (get_str manifest ''file_id'');
              nbytes = (case get_u64 manifest ''original_size'' of None \<Rightarrow> 0 | Some n \<Rightarrow> n);
              shard_count = (case get_u64 manifest ''shards'' of None \<Rightarrow> 0 | Some n \<Rightarrow> unat n)
          in case (get_array manifest ''shard_hashes'', hash_of_hex P file_id_hex, get_array manifest ''placements'') of
               (Some hashes, Some file_id, Some placements) \<Rightarrow>
                 (case repair_shards P env
                         \<lparr>rf_policy = policy, rf_peer_ids = peer_ids, rf_file_id_hex = file_id_hex, rf_file_id = file_id,
                          rf_original_size = nbytes, rf_total_shards = shard_count, rf_shard_hashes = hashes\<rparr>
                         [0..<min shard_count 1000] placements self of
                    (placements, changed, out, self) \<Rightarrow>
                      if changed then
                        let manifest = json_insert ''placements'' (JArr placements) manifest;
                            bytes = (case json_to_pretty P manifest of None \<Rightarrow> [] | Some b \<Rightarrow> b)
                        in (out, self\<lparr>da_disk := snd (fs_write (se_write env) p bytes (da_disk self))\<rparr>)
                      else (out, self))
             | _ \<Rightarrow> ([], self))"

text \<open>\<open>entries\<close> is the listing of the manifest directory, each file with its environment.\<close>

definition autonomous_repair_cycle ::
  "'a file_prims_scheme \<Rightarrow> NetworkPolicy \<Rightarrow> bytes list \<Rightarrow> (path \<times> storage_env) list option \<Rightarrow> Daemon \<Rightarrow> sends \<times> Daemon" where
  "autonomous_repair_cycle P policy peers entries self =
     (if \<not> np_enabled policy \<or> \<not> NetworkPolicy_allows_stream policy STORAGE_STREAM then ([], self)
      else case entries of
        None \<Rightarrow> ([], self)
      | Some es \<Rightarrow>
          fold (\<lambda>(p, env) (out, self).
                  case repair_manifest P env policy (peer_ids_of P peers) p self of (later, self) \<Rightarrow> (out @ later, self))
            es ([], self))"

end
