(* ===== verification/Daemon_Files.thy ===== *)
theory Daemon_Files
  imports Daemon_Storage
begin

text \<open>
  What the storage interface of the daemon does with a file. Messages never reach the store of a running
  daemon, because the storage stream has the number of the consensus stream, and nothing ever enters the
  table of awaited shards; so a download and a repair depend on the local store only. What the
  local store holds is enough: a file with enough shards at home is read back exactly.
\<close>

section \<open>Messages leave the store alone\<close>

definition store_part ::
  "Daemon \<Rightarrow> Identity \<times> LocalNodeStore \<times> dir \<times> (bytes, StorageShardAck) btree_map \<times> (bytes, StorageShardTransfer) btree_map" where
  "store_part self = (da_identity self, da_storage self, da_objects self, da_pending_acks self, da_pending_shards self)"

lemma store_part_eq:
  "store_part a = store_part b \<longleftrightarrow> da_identity a = da_identity b \<and> da_storage a = da_storage b \<and> da_objects a = da_objects b
     \<and> da_pending_acks a = da_pending_acks b \<and> da_pending_shards a = da_pending_shards b"
  by (auto simp: store_part_def)

lemma store_part_disk [simp]: "store_part (self\<lparr>da_disk := d\<rparr>) = store_part self"
  by (simp add: store_part_def)

lemma store_part_fields [simp]:
  "store_part (self\<lparr>da_messenger := log\<rparr>) = store_part self" "store_part (self\<lparr>da_community := c\<rparr>) = store_part self"
  "store_part (self\<lparr>da_ledger := l\<rparr>) = store_part self" "store_part (self\<lparr>da_consensus := r\<rparr>) = store_part self"
  by (simp_all add: store_part_def)

lemma store_part_handlers [simp]:
  "store_part (dispatch_call P self sender message) = store_part self"
  "store_part (dispatch_group P self sender message) = store_part self"
  "store_part (snd (dispatch_subscribe Q active self sender message)) = store_part self"
  "store_part (snd (dispatch_channel Q active self sender message)) = store_part self"
  "store_part (dispatch_message P now self sender message) = store_part self"
  by (simp_all add: dispatch_call_def dispatch_group_def dispatch_subscribe_def dispatch_channel_def dispatch_message_def Let_def
      split: option.split)

lemma store_part_app [simp]: "store_part (snd (dispatch_app P active now self sender payload)) = store_part self"
  by (simp add: dispatch_app_def Let_def split: option.split)

lemma store_part_consensus [simp]: "store_part (snd (dispatch_consensus P fault self sender payload)) = store_part self"
  by (simp add: dispatch_consensus_def split: option.split sum.split prod.split)

lemma store_part_transfer [simp]: "store_part (dispatch_transfer P how self payload) = store_part self"
  by (simp add: dispatch_transfer_def Let_def split: option.split sum.split prod.split)

lemma store_part_dispatch [simp]: "store_part (snd (dispatch P env self m)) = store_part self"
  by (cases m) (simp add: dispatch_def STORAGE_STREAM_def ONECOIN_CONSENSUS_STREAM_def)

lemma store_part_arrive [simp]: "store_part (arrive P ms self) = store_part self"
  unfolding arrive_def by (induction ms arbitrary: self) (simp_all add: case_prod_unfold)

text \<open>With nothing awaited, waiting ends without an answer and leaves the store as it was.\<close>

definition nothing_awaited :: "Daemon \<Rightarrow> bool" where
  "nothing_awaited self \<longleftrightarrow> da_pending_acks self = [] \<and> da_pending_shards self = []"

lemma nothing_awaited_part: "store_part a = store_part b \<Longrightarrow> nothing_awaited a \<longleftrightarrow> nothing_awaited b"
  by (simp add: store_part_eq nothing_awaited_def)

lemma wait_in_vain:
  assumes "nothing_awaited self"
  shows "\<exists>self'. wait_ack P env self i t r = (None, self') \<and> store_part self' = store_part self"
    "\<exists>self'. wait_shard P env self i t r = (None, self') \<and> store_part self' = store_part self"
proof -
  let ?s = "arrive P (se_arrivals env i t) self"
  have s: "da_identity ?s = da_identity self" "da_storage ?s = da_storage self" "da_objects ?s = da_objects self"
    "da_pending_acks ?s = []" "da_pending_shards ?s = []" "da_pending_acks self = []" "da_pending_shards self = []"
    using store_part_arrive [of P "se_arrivals env i t" self, unfolded store_part_eq] assms
    by (simp_all add: nothing_awaited_def)
  show "\<exists>self'. wait_ack P env self i t r = (None, self') \<and> store_part self' = store_part self"
    "\<exists>self'. wait_shard P env self i t r = (None, self') \<and> store_part self' = store_part self"
    by (simp_all add: wait_ack_def wait_shard_def Let_def store_part_eq s bt_get_def)
qed

section \<open>Downloads and repairs stay at home\<close>

lemma own_id_part: "store_part a = store_part b \<Longrightarrow> own_id a = own_id b"
  by (simp add: store_part_eq own_id_def local_id_def)

lemma fetch_copy_in_vain:
  assumes "nothing_awaited self"
  shows "\<exists>out self'. fetch_copy P env peer_ids fid n nbytes i h target self = (None, out, self') \<and> store_part self' = store_part self"
proof -
  let ?rid = "request_id P ''download'' fid i target (se_now env i target)"
  obtain s where "wait_shard P env self i target ?rid = (None, s)" "store_part s = store_part self"
    using wait_in_vain(2) [OF assms] by blast
  then show ?thesis
    by (simp add: fetch_copy_def Let_def split: option.split sum.split)
qed

lemma fetch_shard_in_vain:
  assumes vain: "\<And>target s. nothing_awaited s \<Longrightarrow> \<exists>out s'. fetch target s = (None, out, s') \<and> store_part s' = store_part s"
    and "nothing_awaited self"
  shows "\<exists>out self'. fetch_shard fetch nodes self = (None, out, self') \<and> store_part self' = store_part self"
  using assms(2)
proof (induction nodes arbitrary: self)
  case (Cons node nodes)
  show ?case
  proof (cases "as_str node")
    case None
    then show ?thesis
      using Cons by simp
  next
    case (Some target)
    obtain out s where s: "fetch target self = (None, out, s)" "store_part s = store_part self"
      using vain Cons.prems by blast
    then obtain later s' where "fetch_shard fetch nodes s = (None, later, s')" "store_part s' = store_part s"
      using Cons by (metis nothing_awaited_part)
    then show ?thesis
      using s Some by simp
  qed
qed simp

lemma fetch_missing_in_vain:
  assumes "nothing_awaited self"
  shows "\<exists>out self'. fetch_missing P env peer_ids fid manifest policy is shards present self = (shards, present, out, self')
     \<and> store_part self' = store_part self"
  using assms
proof (induction "is" arbitrary: self)
  case (Cons i "is")
  show ?case
  proof (cases "present \<ge> sp_data_shards policy \<or> manifest_nodes manifest i = None
      \<or> Option.bind (manifest_hash manifest i) (hash_of_hex P) = None")
    case True
    then show ?thesis
      using Cons by (auto split: option.split)
  next
    case False
    then obtain nodes h where nodes: "manifest_nodes manifest i = Some nodes"
        "Option.bind (manifest_hash manifest i) (hash_of_hex P) = Some h" "present < sp_data_shards policy"
      by auto
    define nbytes where "nbytes = (case get_u64 manifest ''original_size'' of None \<Rightarrow> 0 | Some n \<Rightarrow> n)"
    obtain out s where s: "fetch_shard (fetch_copy P env peer_ids fid (total_shards policy) nbytes i h) nodes self = (None, out, s)"
        "store_part s = store_part self"
      using fetch_shard_in_vain [of "fetch_copy P env peer_ids fid (total_shards policy) nbytes i h", OF fetch_copy_in_vain Cons.prems]
      by blast
    then obtain later s' where "fetch_missing P env peer_ids fid manifest policy is shards present s = (shards, present, later, s')"
        "store_part s' = store_part s"
      using Cons by (metis nothing_awaited_part)
    then show ?thesis
      using s nodes by (simp add: Let_def flip: nbytes_def)
  qed
qed simp

text \<open>What a download replies: the shards of the manifest that the local store holds decide.\<close>

definition local_reply :: "'a daemon_prims_scheme \<Rightarrow> 'b storage_prims_scheme \<Rightarrow> Daemon \<Rightarrow> string \<Rightarrow> json \<Rightarrow> response" where
  "local_reply P R self file_id_hex manifest =
     (let n = manifest_total manifest;
          policy = custom_scaled n;
          found = local_shards P self manifest n;
          present = length (filter (\<lambda>s. s \<noteq> None) found)
      in if present < sp_data_shards policy
         then insufficient present policy (filter (\<lambda>i. found ! i = None) [0..<length found])
         else case recover_shards R (found @ replicate (n - length found) None) policy of
                Inl e \<Rightarrow> (''500 Internal Server Error'', error_reply (error_text e))
              | Inr data \<Rightarrow> reconstructed P file_id_hex manifest data)"

lemma storage_get_local:
  assumes "nothing_awaited self" "da_disk self (manifest_path dir fid) = Some b" "json_parse P b = Some manifest"
  shows "\<exists>out self'. storage_get P R env dir peers self fid = (local_reply P R self fid manifest, out, self')
     \<and> store_part self' = store_part self"
proof -
  define n where "n = manifest_total manifest"
  define found where "found = local_shards P self manifest n"
  define shards where "shards = found @ replicate (n - length found) None"
  define present where "present = length (filter (\<lambda>s. s \<noteq> None) found)"
  define missing where "missing = filter (\<lambda>i. found ! i = None) [0..<length found]"
  define step where "step = (if present < sp_data_shards (custom_scaled n) \<and> missing \<noteq> []
      then fetch_missing P env (peer_ids_of P peers) fid manifest (custom_scaled n) missing shards present self
      else (shards, present, [], self))"
  obtain out self' where step: "step = (shards, present, out, self')" "store_part self' = store_part self"
    using fetch_missing_in_vain [OF assms(1), of P env "peer_ids_of P peers" fid manifest "custom_scaled n" missing shards present]
    unfolding step_def by (cases "present < sp_data_shards (custom_scaled n) \<and> missing \<noteq> []") auto
  have get: "storage_get P R env dir peers self fid =
      (let (shards, present, out, self) = step
       in if present < sp_data_shards (custom_scaled n) then (insufficient present (custom_scaled n) missing, out, self)
          else case recover_shards R shards (custom_scaled n) of
                 Inl e \<Rightarrow> ((''500 Internal Server Error'', error_reply (error_text e)), out, self)
               | Inr data \<Rightarrow> (reconstructed P fid manifest data, out, self))"
    by (simp only: storage_get_def assms(2,3) option.case Let_def n_def found_def shards_def present_def missing_def step_def)
  have "local_reply P R self fid manifest =
      (if present < sp_data_shards (custom_scaled n) then insufficient present (custom_scaled n) missing
       else case recover_shards R shards (custom_scaled n) of
              Inl e \<Rightarrow> (''500 Internal Server Error'', error_reply (error_text e))
            | Inr data \<Rightarrow> reconstructed P fid manifest data)"
    by (simp only: local_reply_def Let_def n_def found_def shards_def present_def missing_def)
  then show ?thesis
    using step(2) unfolding get step(1) by (simp split: sum.split)
qed

lemma ask_source_in_vain:
  assumes "nothing_awaited self"
  shows "\<exists>out self'. ask_source P env f i h source source_id self = (None, out, self') \<and> store_part self' = store_part self"
proof -
  obtain s where "wait_shard P env self i source (request_id P ''repair-source'' (rf_file_id_hex f) i source (se_now env i source)) = (None, s)"
    "store_part s = store_part self"
    using wait_in_vain(2) [OF assms] by blast
  then show ?thesis
    by (simp add: ask_source_def Let_def split: sum.split)
qed

lemma find_source_home:
  assumes "nothing_awaited self"
  shows "\<exists>out self'. find_source P env f i h nodes self =
      (if uid P (own_id self) \<in> set nodes \<and> is_ok (get_object P (da_objects self) h)
       then Some (projr (get_object P (da_objects self) h)) else None, out, self') \<and> store_part self' = store_part self"
  using assms
proof (induction nodes arbitrary: self)
  case (Cons source nodes)
  show ?case
  proof (cases "source = uid P (own_id self)")
    case True
    then show ?thesis
      using Cons.IH [of self] Cons.prems by (cases "get_object P (da_objects self) h") simp_all
  next
    case other: False
    show ?thesis
    proof (cases "bt_get (rf_peer_ids f) source")
      case None
      then show ?thesis
        using other Cons by auto
    next
      case (Some source_id)
      obtain out s where s: "ask_source P env f i h source source_id self = (None, out, s)" "store_part s = store_part self"
        using ask_source_in_vain [OF Cons.prems] by blast
      then obtain later s' where "find_source P env f i h nodes s = (if uid P (own_id self) \<in> set nodes \<and> is_ok (get_object P (da_objects self) h)
         then Some (projr (get_object P (da_objects self) h)) else None, later, s')" "store_part s' = store_part s"
        using Cons.IH [of s] Cons.prems nothing_awaited_part [of s self] own_id_part [of s self] by (auto simp: store_part_eq)
      then show ?thesis
        using s Some other by simp
    qed
  qed
qed simp

lemma give_copy_in_vain:
  assumes "nothing_awaited self"
  shows "\<exists>out self'. give_copy P env f i h data target target_id self = (False, out, self') \<and> store_part self' = store_part self"
proof -
  obtain s where "wait_ack P env self i target (request_id P ''repair-target'' (rf_file_id_hex f) i target (se_now env i target)) = (None, s)"
    "store_part s = store_part self"
    using wait_in_vain(1) [OF assms] by blast
  then show ?thesis
    by (simp add: give_copy_def Let_def split: sum.split)
qed

lemma repair_target_in_vain:
  assumes "nothing_awaited self" "uid P (own_id self) \<in> set current"
  shows "\<exists>out self'. repair_target P env f i h data current targets self = (None, out, self') \<and> store_part self' = store_part self"
  using assms
proof (induction targets arbitrary: self)
  case (Cons target targets)
  show ?case
  proof (cases "target \<in> set current \<or> bt_get (rf_peer_ids f) target = None")
    case True
    then show ?thesis
      using Cons by auto
  next
    case False
    then obtain target_id where t: "bt_get (rf_peer_ids f) target = Some target_id"
      by auto
    obtain out s where s: "give_copy P env f i h data target target_id self = (False, out, s)" "store_part s = store_part self"
      using give_copy_in_vain [OF Cons.prems(1)] by blast
    then obtain later self' where "repair_target P env f i h data current targets s = (None, later, self')" "store_part self' = store_part s"
      using Cons.IH [of s] Cons.prems nothing_awaited_part [OF s(2)] own_id_part [OF s(2)] by auto
    then show ?thesis
      using False t s Cons.prems(2) by auto
  qed
qed simp

text \<open>A shard is only ever found at the node itself, and then the node is no candidate for another copy.\<close>

lemma repair_shard_in_vain:
  assumes "nothing_awaited self"
  shows "\<exists>out self'. repair_shard P env f i current self = (None, out, self') \<and> store_part self' = store_part self"
proof (cases "length (filter (\<lambda>i. i = uid P (own_id self) \<or> bt_contains (rf_peer_ids f) i) current) \<ge> 3
    \<or> Option.bind (Option.bind (json_nth (JArr (rf_shard_hashes f)) i) as_str) (hash_of_hex P) = None")
  case True
  then show ?thesis
    by (auto simp: repair_shard_def Let_def split: option.split)
next
  case False
  then obtain h where h: "Option.bind (Option.bind (json_nth (JArr (rf_shard_hashes f)) i) as_str) (hash_of_hex P) = Some h"
    by blast
  obtain r out s where s: "find_source P env f i h current self = (r, out, s)" "store_part s = store_part self"
      "r \<noteq> None \<Longrightarrow> uid P (own_id self) \<in> set current"
    using find_source_home [OF assms, of P env f i h current] by (auto split: if_splits)
  show ?thesis
  proof (cases r)
    case None
    then show ?thesis
      using False h s by (auto simp: repair_shard_def Let_def)
  next
    case (Some data)
    have "nothing_awaited s" "uid P (own_id s) \<in> set current"
      using assms s(3) Some nothing_awaited_part [OF s(2)] own_id_part [OF s(2)] by simp_all
    then obtain later self' where "repair_target P env f i h data current
          (repair_candidates (uid P (own_id self)) (rf_peer_ids f) current) s = (None, later, self')" "store_part self' = store_part s"
      using repair_target_in_vain by blast
    then show ?thesis
      using False h s Some by (simp add: repair_shard_def Let_def)
  qed
qed

lemma repair_shards_in_vain:
  assumes "nothing_awaited self"
  shows "\<exists>out self'. repair_shards P env f is ps self = (ps, False, out, self') \<and> store_part self' = store_part self"
  using assms
proof (induction "is" arbitrary: self)
  case (Cons i "is")
  show ?case
  proof (cases "Option.bind (json_nth (JArr ps) i) (\<lambda>p. get_array p ''nodes'')")
    case None
    then show ?thesis
      using Cons by simp
  next
    case (Some nodes)
    obtain out s where s: "repair_shard P env f i (List.map_filter as_str nodes) self = (None, out, s)" "store_part s = store_part self"
      using repair_shard_in_vain [OF Cons.prems] by blast
    then obtain later self' where "repair_shards P env f is ps s = (ps, False, later, self')" "store_part self' = store_part s"
      using Cons.IH [of s] Cons.prems nothing_awaited_part [OF s(2)] by blast
    then show ?thesis
      using Some s by simp
  qed
qed simp

section \<open>Runs of the daemon\<close>

lemma repair_manifest_in_vain:
  assumes "nothing_awaited self"
  shows "store_part (snd (repair_manifest P env policy peer_ids p self)) = store_part self"
proof -
  have "store_part s = store_part self \<and> \<not> changed" if "repair_shards P env f is ps self = (ps', changed, out, s)" for f "is" ps ps' changed out s
    using repair_shards_in_vain [OF assms, of P env f "is" ps] that by auto
  then show ?thesis
    unfolding repair_manifest_def by (auto simp: Let_def split: option.split prod.split)
qed

lemma repair_cycle_in_vain:
  assumes "nothing_awaited self"
  shows "store_part (snd (autonomous_repair_cycle P policy peers entries self)) = store_part self"
proof -
  have "store_part (snd (fold (\<lambda>(p, env) (out, self).
           case repair_manifest P env policy peer_ids p self of (later, self) \<Rightarrow> (out @ later, self)) es (out, self))) = store_part self"
    if "nothing_awaited self" for es out self peer_ids
    using that
  proof (induction es arbitrary: out self)
    case (Cons e es)
    obtain p env where e: "e = (p, env)" by fastforce
    obtain later s where s: "repair_manifest P env policy peer_ids p self = (later, s)" by fastforce
    then have same: "store_part s = store_part self"
      using repair_manifest_in_vain [OF Cons.prems] by (metis snd_conv)
    have "nothing_awaited s"
      using Cons.prems nothing_awaited_part [OF same] by blast
    then show ?case
      using Cons.IH same by (simp add: e s)
  qed simp
  then show ?thesis
    using assms by (simp add: autonomous_repair_cycle_def split: option.split)
qed

lemma run_job_store:
  assumes "nothing_awaited (snd (snd t))"
  shows "store_part (snd (snd (run_job P env file_id job t))) = store_part (snd (snd t))"
proof -
  obtain sent failed self where t: "t = (sent, failed, self)" by (cases t) auto
  obtain s where "wait_ack P env self (uj_index job) (uj_target job) (uj_request_id job) = (None, s)" "store_part s = store_part self"
    using wait_in_vain(1) [of self P env "uj_index job" "uj_target job" "uj_request_id job"] assms t by auto
  then show ?thesis
    by (simp add: run_job_def t split: sum.split)
qed

lemma run_jobs_store:
  assumes "nothing_awaited (snd (snd t))"
  shows "store_part (snd (snd (fold (run_job P env file_id) jobs t))) = store_part (snd (snd t))"
  using assms
proof (induction jobs arbitrary: t)
  case (Cons job jobs)
  then show ?case
    using run_job_store [OF Cons.prems, of P env file_id job] nothing_awaited_part by (metis fold_simps(2))
qed simp

lemma upload_cases:
  fixes P :: "'a file_prims_scheme" and R :: "'b storage_prims_scheme"
  assumes "nothing_awaited self"
  obtains (refused) "fst (fst (storage_put P R env dir peers self filename data)) \<noteq> ''200 OK''"
      "snd (snd (storage_put P R env dir peers self filename data)) = self"
  | (stored) plan shards u sent failed s
    where "build_plan_for_shards P (blake3 P data) (upload_nodes P self peers) (total_shards (for_file_size (length data))) = Ok plan"
      "encode_shards R data (for_file_size (length data)) = Ok shards"
      "u = place_all P env self (peer_ids_of P peers) (for_file_size (length data)) (blake3 P data) (length data) (pp_placements plan) shards"
      "store_part s = store_part (self\<lparr>da_objects := up_objects u\<rparr>)"
      "storage_put P R env dir peers self filename data =
         (upload_reply P (blake3 P data) filename (length data) (up_stored_local u) sent failed, map uj_message (up_jobs u),
          s\<lparr>da_disk := snd (fs_write (se_write env) (manifest_path dir (hex_encode P (blake3 P data)))
             (case json_to_pretty P (upload_manifest P (for_file_size (length data)) (blake3 P data) filename (length data) shards
                       (pp_placements plan) (up_stored_local u) sent) of None \<Rightarrow> [] | Some b \<Rightarrow> b) (da_disk s))\<rparr>)"
proof -
  let ?policy = "for_file_size (length data)"
  consider (no) "\<not> NetworkPolicy_allows_upload (da_policy self) (length data) \<or> \<not> NetworkPolicy_allows_stream (da_policy self) STORAGE_STREAM
      \<or> \<not> is_ok (build_plan_for_shards P (blake3 P data) (upload_nodes P self peers) (total_shards ?policy))
      \<or> \<not> is_ok (encode_shards R data ?policy)"
    | (yes) plan shards where "NetworkPolicy_allows_upload (da_policy self) (length data)" "NetworkPolicy_allows_stream (da_policy self) STORAGE_STREAM"
      "build_plan_for_shards P (blake3 P data) (upload_nodes P self peers) (total_shards ?policy) = Ok plan"
      "encode_shards R data ?policy = Ok shards"
    by (cases "build_plan_for_shards P (blake3 P data) (upload_nodes P self peers) (total_shards ?policy)";
        cases "encode_shards R data ?policy") auto
  then show ?thesis
  proof cases
    case no
    then show ?thesis
      by (intro refused) (auto simp: storage_put_def Let_def split: sum.splits)
  next
    case yes
    define u where "u = place_all P env self (peer_ids_of P peers) ?policy (blake3 P data) (length data) (pp_placements plan) shards"
    obtain sent failed s where jobs: "fold (run_job P env (blake3 P data)) (joined_jobs env (up_jobs u))
        (0, up_failed u, self\<lparr>da_objects := up_objects u\<rparr>) = (sent, failed, s)"
      by (cases "fold (run_job P env (blake3 P data)) (joined_jobs env (up_jobs u))
        (0, up_failed u, self\<lparr>da_objects := up_objects u\<rparr>)") auto
    have "store_part s = store_part (self\<lparr>da_objects := up_objects u\<rparr>)"
      using run_jobs_store [of "(0, up_failed u, self\<lparr>da_objects := up_objects u\<rparr>)" P env "blake3 P data" "joined_jobs env (up_jobs u)"]
        assms by (simp add: jobs nothing_awaited_def)
    then show ?thesis
      using yes jobs by (intro stored [OF yes(3,4) u_def]) (simp_all add: storage_put_def Let_def flip: u_def)
  qed
qed

lemma upload_succeeds:
  assumes "NetworkPolicy_allows_upload (da_policy self) (length data)" "NetworkPolicy_allows_stream (da_policy self) STORAGE_STREAM"
    "build_plan_for_shards P (blake3 P data) (upload_nodes P self peers) (total_shards (for_file_size (length data))) = Ok plan"
    "encode_shards R data (for_file_size (length data)) = Ok shards"
  shows "fst (fst (storage_put P R env dir peers self filename data)) = ''200 OK''"
  using assms by (simp add: storage_put_def upload_reply_def Let_def split: prod.split)

lemma upload_awaited:
  assumes "nothing_awaited self"
  shows "nothing_awaited (snd (snd (api_storage_put P R env dir peers self body)))"
proof -
  have "nothing_awaited (snd (snd (storage_put P R env dir peers self filename data)))" for filename data
    by (rule upload_cases [OF assms, of P R env dir peers filename data])
       (use assms in \<open>auto simp: nothing_awaited_def store_part_eq\<close>)
  then show ?thesis
    using assms by (simp add: api_storage_put_def Let_def split: option.split)
qed

lemma download_awaited:
  assumes "nothing_awaited self"
  shows "nothing_awaited (snd (snd (storage_get P R env dir peers self fid)))"
proof (cases "Option.bind (da_disk self (manifest_path dir fid)) (json_parse P)")
  case None
  then show ?thesis
    using assms by (cases "da_disk self (manifest_path dir fid)") (simp_all add: storage_get_def)
next
  case (Some manifest)
  then obtain b where "da_disk self (manifest_path dir fid) = Some b" "json_parse P b = Some manifest"
    by (auto simp: bind_eq_Some_conv)
  from storage_get_local [OF assms this, of R env peers] obtain out self'
    where "storage_get P R env dir peers self fid = (local_reply P R self fid manifest, out, self')" "store_part self' = store_part self"
    by blast
  then show ?thesis
    using assms nothing_awaited_part [of self' self] by simp
qed

lemma wallet_awaited:
  "nothing_awaited (snd (api_wallet_send P how peers confirmed sent self body)) = nothing_awaited self"
  "nothing_awaited (snd (api_contribution P how self body)) = nothing_awaited self"
proof -
  have "store_part (snd (wallet_send P how self r a m)) = store_part self" for r a m
    by (simp add: wallet_send_def Let_def split: sum.split option.split prod.split bool.split)
  then have "store_part s = store_part self" if "wallet_send P how self r a m = (x, s)" for r a m x s
    using that by (metis snd_conv)
  then have "store_part (snd (api_wallet_send P how peers confirmed sent self body)) = store_part self"
    by (auto simp: api_wallet_send_def Let_def split: sum.split option.split prod.split)
  then show "nothing_awaited (snd (api_wallet_send P how peers confirmed sent self body)) = nothing_awaited self"
    by (rule nothing_awaited_part)
  have "store_part (snd (api_contribution P how self body)) = store_part self"
    by (simp add: api_contribution_def Let_def store_part_def split: sum.split prod.split bool.split)
  then show "nothing_awaited (snd (api_contribution P how self body)) = nothing_awaited self"
    by (rule nothing_awaited_part)
qed

text \<open>The daemon from one of its states to another: messages, requests and repair cycles in any order.\<close>

inductive daemon_run :: "'a file_prims_scheme \<Rightarrow> 'b storage_prims_scheme \<Rightarrow> Daemon \<Rightarrow> Daemon \<Rightarrow> bool"
  for P :: "'a file_prims_scheme" and R :: "'b storage_prims_scheme" and start :: Daemon where
  run_start: "daemon_run P R start start"
| run_message: "daemon_run P R start self \<Longrightarrow> daemon_run P R start (snd (dispatch P env self m))"
| run_upload: "daemon_run P R start self \<Longrightarrow> daemon_run P R start (snd (snd (api_storage_put P R env dir peers self body)))"
| run_download: "daemon_run P R start self \<Longrightarrow> daemon_run P R start (snd (snd (api_storage_get P R env dir peers self line)))"
| run_repair: "daemon_run P R start self \<Longrightarrow> daemon_run P R start (snd (autonomous_repair_cycle P policy peers entries self))"
| run_payment: "daemon_run P R start self \<Longrightarrow> daemon_run P R start (snd (api_wallet_send P how peers confirmed sent self body))"
| run_contribution: "daemon_run P R start self \<Longrightarrow> daemon_run P R start (snd (api_contribution P how self body))"

lemma run_awaited: "daemon_run P R start self \<Longrightarrow> nothing_awaited start \<Longrightarrow> nothing_awaited self"
proof (induction rule: daemon_run.induct)
  case (run_message self env m)
  then show ?case
    using nothing_awaited_part [OF store_part_dispatch] by blast
qed (simp_all add: upload_awaited download_awaited nothing_awaited_part [OF repair_cycle_in_vain] wallet_awaited api_storage_get_def)

text \<open>A daemon never reads a shard from the network: in every state it can reach from its start, where no answer
  is awaited, the reply to a download is the same whatever peers it knows, whether they can be reached and whatever
  they answer, because no message ever fills the table of awaited shards.\<close>

theorem download_ignores_the_network:
  assumes "nothing_awaited start" "daemon_run P R start self"
  shows "fst (api_storage_get P R env dir peers self line) = fst (api_storage_get P R env' dir peers' self line)"
proof -
  have "\<exists>r. \<forall>env peers. fst (storage_get P R env dir peers self fid) = r" for fid
  proof (cases "Option.bind (da_disk self (manifest_path dir fid)) (json_parse P)")
    case None
    then show ?thesis
      by (cases "da_disk self (manifest_path dir fid)") (simp_all add: storage_get_def)
  next
    case (Some manifest)
    then obtain b where "da_disk self (manifest_path dir fid) = Some b" "json_parse P b = Some manifest"
      by (auto simp: bind_eq_Some_conv)
    note get = storage_get_local [OF run_awaited [OF assms(2,1)] this]
    have "fst (storage_get P R env dir peers self fid) = local_reply P R self fid manifest" for env peers
      using get [of R env peers] by auto
    then show ?thesis
      by blast
  qed
  then show ?thesis
    unfolding api_storage_get_def by metis
qed

text \<open>The repair cycle repairs nothing: in every state a daemon can reach from its start, it stores no object, and no
  placement of a manifest gains a node, because a shard is only ever found in the node's own store and no peer's
  acknowledgement is ever seen.\<close>

theorem repair_cycle_repairs_nothing:
  assumes "nothing_awaited start" "daemon_run P R start self"
  shows "store_part (snd (autonomous_repair_cycle P policy peers entries self)) = store_part self
    \<and> (\<exists>out self'. repair_shards P env f is placements self = (placements, False, out, self'))"
  using repair_cycle_in_vain [OF run_awaited [OF assms(2,1)]] repair_shards_in_vain [OF run_awaited [OF assms(2,1)]] by blast

end
