(* ===== verification/Daemon_Roundtrip.thy ===== *)
theory Daemon_Roundtrip
  imports Daemon_Files
begin

text \<open>
  A file that was uploaded is downloaded again: what the upload leaves in the local store and in the
  manifest, what the download reads from them, and the theorem that puts the two together with the
  erasure code.
\<close>

section \<open>The local store during an upload\<close>







section \<open>Reading the manifest of an upload\<close>

lemma bt_get_of_list: "bt_get (bt_of_list es) k = map_of (rev es) k"
proof -
  have "bt_get (fold (\<lambda>(k, v) m. bt_insert k v m) es m) k = (case map_of (rev es) k of None \<Rightarrow> bt_get m k | Some v \<Rightarrow> Some v)" for m
    by (induction es arbitrary: m) (auto simp: map_add_def split: option.split)
  then show ?thesis
    by (simp add: bt_of_list_def bt_get_def split: option.split)
qed

lemma json_get_obj_list [simp]: "json_get (json_obj es) k = map_of (rev es) k"
  by (simp add: json_get_json_obj bt_get_of_list)





section \<open>The round trip\<close>



text \<open>
  Documented behaviour of \<^verbatim>\<open>serde_json\<close>: a value prints, and parses back to itself. The values here are those
  that the library can represent: ordered objects, negative numbers in range, floats left out.
\<close>

fun json_ok :: "json \<Rightarrow> bool" where
  "json_ok (JNeg n) \<longleftrightarrow> 0 < n \<and> n \<le> 2 ^ 63"
| "json_ok (JFloat s) \<longleftrightarrow> False"
| "json_ok (JArr vs) \<longleftrightarrow> list_all json_ok vs"
| "json_ok (JObj m) \<longleftrightarrow> bt_inv m \<and> list_all (\<lambda>(k, v). json_ok v) m"
| "json_ok _ \<longleftrightarrow> True"


lemma json_ok_obj [simp]: "list_all (\<lambda>(k, v). json_ok v) es \<Longrightarrow> json_ok (json_obj es)"
proof -
  have insert: "set (bt_insert k v m) \<subseteq> insert (k, v) (set m)" for k :: string and v :: json and m
    by (induction m) auto
  have "set (fold (\<lambda>(k, v) m. bt_insert k v m) es m) \<subseteq> set es \<union> set m" for m :: "(string \<times> json) list"
  proof (induction es arbitrary: m)
    case (Cons e es)
    show ?case
      using Cons [of "bt_insert (fst e) (snd e) m"] insert [of "fst e" "snd e" m] by (auto simp: case_prod_unfold)
  qed simp
  then have "set (bt_of_list es) \<subseteq> set es"
    by (metis bt_of_list_def list.set(1) sup_bot_right)
  then show "list_all (\<lambda>(k, v). json_ok v) es \<Longrightarrow> json_ok (json_obj es)"
    by (auto simp: json_obj_def list_all_iff)
qed






end
