(* ===== verification/Daemon_Demo.thy ===== *)
theory Daemon_Demo
  imports Daemon_Roundtrip Daemon_Wallet "HOL-Library.Countable"
begin

text \<open>
  A concrete daemon with two peers, a JSON printer and an erasure code: the examples upload and read a
  file on it.
\<close>

section \<open>A printer and an erasure code\<close>

instance json :: countable
  by countable_datatype

definition chunks :: "nat \<Rightarrow> bytes \<Rightarrow> bytes list" where
  "chunks d b = map (\<lambda>i. take (length b div d) (drop (i * (length b div d)) b)) [0..<d]"

text \<open>Every parity shard repeats the data shards, so one of them replaces all.\<close>

definition demo_code :: storage_prims where
  "demo_code = demo_storage
     \<lparr>rs_encode := (\<lambda>d p shards. if 0 < d \<and> d \<le> length shards \<and> list_all (\<lambda>r. length r = length (hd shards)) (take d shards)
        then Some (take d shards @ replicate p (concat (take d shards))) else None),
      rs_reconstruct := (\<lambda>d p kept. case List.find (\<lambda>k. k \<noteq> None) (drop d kept) of
          Some (Some b) \<Rightarrow> Some (map Some (chunks d b @ replicate p b))
        | _ \<Rightarrow> if list_all (\<lambda>k. k \<noteq> None) (take d kept)
              then Some (take d kept @ replicate p (Some (concat (map the (take d kept))))) else None)\<rparr>"





definition demo_files :: file_prims where
  "demo_files = daemon_prims.extend ((demo_daemon OnecoinLedger_default)\<lparr>json_parse := (\<lambda>b. Some (from_nat (length b)))\<rparr>)
     \<lparr>json_to_pretty = (\<lambda>v. Some (replicate (to_nat v) 0))\<rparr>"

lemma demo_files_simps [simp]:
  "hex_encode demo_files = hex_text" "hex_decode demo_files s = Some (unhex_text s)" "blake3 demo_files m = pad32 (rev m)"
  "json_parse demo_files b = Some (from_nat (length b))" "json_to_pretty demo_files v = Some (replicate (to_nat v) 0)"
  using demo_daemon_simps [of OnecoinLedger_default]
  by (simp_all add: demo_files_def daemon_prims.defs)





section \<open>An upload on three nodes\<close>

definition demo_self :: Daemon where
  "demo_self = demo_wallet\<lparr>da_storage := \<lparr>ln_quota = - 1\<rparr>\<rparr>"

definition demo_peers :: "bytes list" where
  "demo_peers = [replicate 32 2, replicate 32 3]"

definition demo_line :: storage_env where
  "demo_line = \<lparr>se_now = (\<lambda>i t. 0), se_fault = (\<lambda>i t. NoFault), se_sent = (\<lambda>i t. Ok ()), se_arrivals = (\<lambda>i t. []),
     se_joined = (\<lambda>js. [0..<length js]), se_write = Written\<rparr>"



lemma demo_own: "own_id demo_self = replicate 32 1" "nothing_awaited demo_self" "store_inv demo_files (da_storage demo_self) (da_objects demo_self)"
    "da_objects demo_self = []"
  by (simp_all add: demo_self_def demo_wallet_def demo_identity_def own_id_def local_id_def nothing_awaited_def store_inv_def dir_bytes_def bt_get_def)











section \<open>Examples\<close>


theorem download_ignores_the_network_witness:
  "fst (api_storage_get demo_files demo_code demo_line [] demo_peers demo_self ''GET /api/storage/get?file_id=07 HTTP/1.1'')
   = fst (api_storage_get demo_files demo_code (demo_line\<lparr>se_sent := (\<lambda>i t. Err ''unreachable'')\<rparr>) [] [] demo_self
            ''GET /api/storage/get?file_id=07 HTTP/1.1'')"
  by (rule download_ignores_the_network [OF demo_own(2) run_start])

theorem repair_cycle_repairs_nothing_witness:
  "store_part (snd (autonomous_repair_cycle demo_files NetworkPolicy_default demo_peers (Some [(manifest_path [] ''07'', demo_line)]) demo_self))
   = store_part demo_self"
  using repair_cycle_repairs_nothing [OF demo_own(2) run_start] by blast

end
