(* ===== verification/Spec2Isabelle.thy ===== *)
theory Spec2Isabelle
  imports Consensus_Runtime Canonical Replay Limits Payment Shield Registry Data_Plane Node_Health Storage Topology
    App_Store Discovery Session_Props Net_Node_Props Host Messenger Federation Product Node_State Daemon_Props
    Daemon_Demo
begin

text \<open>
  Verification of AWEP2P, a peer-to-peer network with encrypted transport, distributed storage, a
  messenger, site hosting and the currency ONECOIN. The program is the library \<^verbatim>\<open>src/core\<close> and the daemon
  \<^verbatim>\<open>src/apps/awe-node\<close> that serves a local HTTP interface on top of it.

  \<^bold>\<open>How the parts interact.\<close> A node (\<^verbatim>\<open>network.rs\<close>) runs authenticated, encrypted sessions with its peers, keeps a
  routing table and delivers the data it receives to an inbox. The dispatcher of the daemon takes each
  message from the inbox and hands it, by stream number, to the consensus runtime, the wallet, the
  messenger with its groups and channels, or the object store. The wallet, the ledger and the consensus
  share the ledger operations of \<^verbatim>\<open>onecoin.rs\<close>; the consensus and the durable stores write through
  \<^verbatim>\<open>onecoin_store.rs\<close>. Storage plans replicas (\<^verbatim>\<open>replication.rs\<close>), encodes shards (\<^verbatim>\<open>storage.rs\<close>) and keeps objects
  in a directory; the storage routes and the repair cycle of the daemon put these together.

  \<^bold>\<open>Conventions.\<close> A struct is a record, an enum a datatype; unsigned integers are words of their width, where
  \<open>+\<close>, \<open>-\<close> and \<open>*\<close> wrap and \<^verbatim>\<open>saturating_\<close> operations are \<open>sat_add\<close>, \<open>sat_sub\<close> and \<open>sat_mul\<close>; \<^verbatim>\<open>usize\<close> is \<open>nat\<close>; a \<^verbatim>\<open>BTreeMap\<close>
  is an association list in key order (\<open>Ordered_Map\<close>); strings are their UTF-8 bytes as characters. A fallible
  operation returns \<open>result\<close>, whose errors are messages, I/O errors and panics; an operation on \<^verbatim>\<open>&mut self\<close>
  returns the result together with the state it leaves, which can be a changed one after an error.
  Third-party code is a parameter: the fields of the records whose names end in \<open>prims\<close> (hashes, signatures,
  AEAD, key agreement, Reed-Solomon codes, JSON), with what the program relies on as named hypotheses, each
  of them instantiated by a concrete function in the witnesses. Randomness, the clock, disk faults and the
  outcome of network calls are arguments.

  \<^bold>\<open>Foundations.\<close> \<open>Prelude\<close> has the integer, byte and list lemmas, \<open>Ordered_Map\<close> the contract of ordered maps as a
  locale and its interpretation, \<open>Rust_Text\<close> the text functions, \<open>Json\<close> the values of \<^verbatim>\<open>serde_json\<close>.

  \<^bold>\<open>Identity and codecs.\<close> \<open>Crypto\<close> (\<^verbatim>\<open>crypto.rs\<close>), \<open>Identity\<close> (\<^verbatim>\<open>identity.rs\<close>: secret file and vault) and \<open>Canonical\<close>
  (\<^verbatim>\<open>protocol.rs\<close>, \<^verbatim>\<open>canonical.rs\<close>: the binary envelope, where decoding inverts encoding and every accepted
  text is canonical).

  \<^bold>\<open>Currency.\<close> \<open>Onecoin\<close> has every ledger operation of \<^verbatim>\<open>onecoin.rs\<close>; \<open>Onecoin_Props\<close>, \<open>Onecoin_Supply\<close> and \<open>Onecoin_Once\<close>
  show that transfers conserve value on every branch, that in every reachable state the supply stays
  within the issued total and the transfers recorded as received from other ledgers, and that a transaction,
  with or without a fee, or a receipt counts once. \<open>Consensus\<close> (\<^verbatim>\<open>onecoin_consensus.rs\<close>)
  shows that blocks finalise atomically and that two nodes agree when fewer than a third of the validators
  vote twice and the signatures of the others are not forged (\<open>Consensus_Runtime\<close> shows that a node that
  follows the code does vote twice); \<open>Onecoin_Store\<close> has the crash behaviour of the files, \<open>Consensus_Runtime\<close> the message handler.
  \<open>Onebank\<close> and \<open>Payment\<close> have the exchange, the wallet, invoices and the price floor vote.

  \<^bold>\<open>Transport.\<close> \<open>Wire\<close>, \<open>Session\<close> and \<open>Net_Node\<close> model \<^verbatim>\<open>network.rs\<close>. A socket is the stream of bytes that arrive,
  each with its delay, and the bytes written, so a read can end with data, end of file or a timeout. The
  loops of a connection end because every iteration consumes input or time; these are termination proofs, no
  fuel is used. Tasks that share a node are arbitrary changes of the node between two iterations. The
  lemmas in \<open>Session_Props\<close> and \<open>Net_Node_Props\<close> show that both sides of a handshake have the same keys, that data
  arrives in order and no frame twice, that onion packets open hop by hop, that all tables of a node stay
  bounded, and that the nearest-peer query gives the nearest peers by the XOR metric. \<open>Replay\<close> refines the bitmap window to a set of sequence numbers; \<open>Limits\<close> and \<open>Shield\<close> bound what a
  peer is granted; \<open>Discovery\<close>, \<open>Node_Health\<close> and \<open>Topology\<close> have announcements, supervision as a step relation and
  the route search, which terminates and finds exactly the live paths.

  \<^bold>\<open>Storage and hosting.\<close> \<open>Storage\<close> (\<^verbatim>\<open>storage.rs\<close>, \<^verbatim>\<open>recovery.rs\<close>), \<open>Replication\<close> (\<^verbatim>\<open>replication.rs\<close>, \<^verbatim>\<open>repair.rs\<close>),
  \<open>Data_Plane\<close> (access, policy, permissions, shard messages), \<open>Host\<close>, \<open>App_Store\<close>, \<open>Registry\<close>, \<open>Awenet\<close>,
  \<open>Federation\<close>, \<open>Product\<close> and \<open>Node_State\<close> (\<^verbatim>\<open>node.rs\<close>): recovery from lost shards, placement within the capacity of the
  nodes, an object store that survives disk faults, checked installation, monotone name records and the proof
  of relay.

  \<^bold>\<open>Daemon.\<close> \<open>Messenger\<close> has the messenger sessions. \<open>Daemon\<close> and \<open>Daemon_Dispatch\<close> model the wallet requests and the
  whole dispatcher of \<^verbatim>\<open>main.rs\<close>; \<open>Daemon_Wallet\<close> and \<open>Daemon_Props\<close> show that an accepted payment survives a restart
  and that the message log is authentic, and where the composition of the parts fails: the stream that
  storage and consensus share reaches neither, a wallet that has received coins cannot be written to disk,
  and fractions of a coin are read at the wrong scale. \<open>Daemon_Storage\<close> models the storage routes and the
  repair cycle; \<open>Daemon_Roundtrip\<close> shows that an uploaded file is downloaded unchanged from the node's own
  shards, \<open>Daemon_Files\<close> that downloads and repairs never get a shard from a peer, because nothing fills the
  table they poll, and \<open>Daemon_Demo\<close> has the concrete runs.

  \<^bold>\<open>Bounds.\<close> Statements about sums carry the bound under which no saturation happens (for instance a supply below
  \<open>2 ^ 128\<close>); these bounds are hypotheses of the theorems and met by the witnesses. The functions are total:
  loops over data are structural, the others have a measure. The bound of 64 MiB on the bytes in a node's
  inbox holds when no delivery falls between the two halves of \<^verbatim>\<open>take_inbox\<close>; the other bounds hold under every
  interleaving.

  \<^bold>\<open>Not modelled.\<close> Poisoned locks, the semaphores that limit outgoing sends and the scheduling of tasks (the upload
  tasks run in the order they are joined); argument
  parsing, process start-up and printing in \<^verbatim>\<open>main.rs\<close>; the HTTP routes that only show state as JSON and the
  routes that build messages for peers from a request; the window code of \<^verbatim>\<open>native_ui.rs\<close>, the desktop shell under
  \<^verbatim>\<open>apps/awe-app\<close> and the service wrappers under \<^verbatim>\<open>platforms\<close>, which have no state of their own.
\<close>

end
